(* ===== verification/Prelude.thy ===== *)
theory Prelude
  imports
    Main
    "HOL-Library.Char_ord"
    "HOL-Library.List_Lexorder"
    "HOL-Library.Multiset"
    "HOL-Library.Sublist"
    "HOL-Library.Product_Lexorder"
begin

text \<open>
  Shared vocabulary of the development: the types that stand for the ids and strings of the
  TypeScript sources, the string operations of the JavaScript standard library the sources use,
  and generic lemmas on lists, folds and options.

  A JavaScript string is modelled as the list of its UTF-16 code units, restricted to the code
  units below 256 that an Isabelle \<^typ>\<open>char\<close> can hold (the Latin-1 range). On that range the
  operations below are the ones of the language: \<open>trim\<close> and \<open>\s\<close> know the white space of the
  range (tab, line feed, vertical tab, form feed, carriage return, space, no-break space),
  \<open>toLowerCase\<close> maps the ASCII and the accented Latin-1 capitals, and \<open><\<close> compares code units
  lexicographically, which is the library's order on \<^typ>\<open>string\<close>.
\<close>

named_theorems access_simps \<open>unfolding rules of the access-control decisions\<close>
named_theorems gate_simps \<open>unfolding rules of the publication gates\<close>
named_theorems str_simps \<open>evaluation rules of the string operations\<close>

section \<open>Identifiers and instants\<close>

text \<open>Row ids (UUIDs) are strings; a \<open>Date\<close> is its time value in milliseconds.\<close>

type_synonym ident = string
type_synonym instant = int

section \<open>Characters\<close>

abbreviation code_of :: "char \<Rightarrow> nat" where
  "code_of c \<equiv> of_char c"

definition is_ws :: "char \<Rightarrow> bool" where
  "is_ws c = (let n = code_of c in (9 \<le> n \<and> n \<le> 13) \<or> n = 32 \<or> n = 160)"

definition is_digit :: "char \<Rightarrow> bool" where
  "is_digit c = (48 \<le> code_of c \<and> code_of c \<le> 57)"

definition is_lower :: "char \<Rightarrow> bool" where
  "is_lower c = (97 \<le> code_of c \<and> code_of c \<le> 122)"

definition is_upper :: "char \<Rightarrow> bool" where
  "is_upper c = (65 \<le> code_of c \<and> code_of c \<le> 90)"

definition is_alpha :: "char \<Rightarrow> bool" where
  "is_alpha c = (is_lower c \<or> is_upper c)"

definition is_alnum :: "char \<Rightarrow> bool" where
  "is_alnum c = (is_alpha c \<or> is_digit c)"

definition is_hex :: "char \<Rightarrow> bool" where
  "is_hex c = (is_digit c \<or> (let n = code_of c in (97 \<le> n \<and> n \<le> 102) \<or> (65 \<le> n \<and> n \<le> 70)))"

definition lower_char :: "char \<Rightarrow> char" where
  "lower_char c = (let n = code_of c in
     if (65 \<le> n \<and> n \<le> 90) \<or> (192 \<le> n \<and> n \<le> 222 \<and> n \<noteq> 215) then char_of (n + 32) else c)"

section \<open>Strings\<close>

definition js_lower :: "string \<Rightarrow> string" where
  "js_lower s = map lower_char s"

text \<open>The test of the code for the text of a UUID: 36 hexadecimal digits and hyphens.\<close>

definition id_shaped :: "string \<Rightarrow> bool" where
  "id_shaped s = (length s = 36 \<and> list_all (\<lambda>c. is_hex c \<or> c = CHR ''-'') s)"

definition trim_with :: "(char \<Rightarrow> bool) \<Rightarrow> string \<Rightarrow> string" where
  "trim_with p s = rev (dropWhile p (rev (dropWhile p s)))"

definition js_trim :: "string \<Rightarrow> string" where
  "js_trim s = trim_with is_ws s"

text \<open>\<open>s.split(c)\<close> for a one-character separator: never the empty list.\<close>

fun split_on :: "char \<Rightarrow> string \<Rightarrow> string list" where
  "split_on c [] = [[]]"
| "split_on c (x # xs) =
     (if x = c then [] # split_on c xs
      else (case split_on c xs of [] \<Rightarrow> [[x]] | y # ys \<Rightarrow> (x # y) # ys))"

text \<open>\<open>xs.join(c)\<close>.\<close>

fun join_with :: "string \<Rightarrow> string list \<Rightarrow> string" where
  "join_with sep [] = []"
| "join_with sep [x] = x"
| "join_with sep (x # y # ys) = x @ sep @ join_with sep (y # ys)"

text \<open>\<open>s.includes(p)\<close>.\<close>

fun str_includes :: "string \<Rightarrow> string \<Rightarrow> bool" where
  "str_includes p [] = (p = [])"
| "str_includes p (x # xs) = (prefix p (x # xs) \<or> str_includes p xs)"

text \<open>\<open>s.replace(/\r\n?/g, "\n")\<close> and \<open>s.replace(/\s+/g, " ")\<close>.\<close>

fun unify_nl :: "bool \<Rightarrow> string \<Rightarrow> string" where
  "unify_nl after_cr [] = []"
| "unify_nl after_cr (x # xs) =
     (if x = CHR 0x0D then CHR 0x0A # unify_nl True xs
      else if x = CHR 0x0A \<and> after_cr then unify_nl False xs
      else x # unify_nl False xs)"

definition unify_newlines :: "string \<Rightarrow> string" where
  "unify_newlines s = unify_nl False s"

function collapse_ws :: "string \<Rightarrow> string" where
  "collapse_ws [] = []"
| "collapse_ws (x # xs) =
     (if is_ws x then CHR 0x20 # collapse_ws (dropWhile is_ws xs) else x # collapse_ws xs)"
  by pat_completeness auto
termination by (relation "measure length") (auto simp: le_imp_less_Suc length_dropWhile_le)

text \<open>The value of a string of decimal digits.\<close>

definition digit_val :: "char \<Rightarrow> nat" where
  "digit_val c = code_of c - 48"

definition nat_of_digits :: "string \<Rightarrow> nat" where
  "nat_of_digits s = foldl (\<lambda>a c. 10 * a + digit_val c) 0 s"

text \<open>The decimal form of a natural number (a template literal \<open>${n}\<close>).\<close>

fun show_nat :: "nat \<Rightarrow> string" where
  "show_nat n = (if n < 10 then [char_of (48 + n)] else show_nat (n div 10) @ [char_of (48 + n mod 10)])"

declare show_nat.simps [simp del]

section \<open>Lemmas on strings\<close>

lemma split_on_nonempty [simp]: "split_on c s \<noteq> []"
  by (induction s) (auto split: list.splits)

lemma split_on_no_sep: "c \<notin> set s \<Longrightarrow> split_on c s = [s]"
  by (induction s) auto

lemma split_on_append_sep: "c \<notin> set s \<Longrightarrow> split_on c (s @ c # t) = s # split_on c t"
  by (induction s) auto

lemma join_split [simp]: "join_with [c] (split_on c s) = s"
proof (induction s)
  case Nil
  then show ?case by simp
next
  case (Cons x s)
  show ?case
  proof (cases "split_on c s")
    case Nil
    then show ?thesis by simp
  next
    case (Cons y ys)
    with Cons.IH show ?thesis by (cases ys) auto
  qed
qed

lemma split_on_parts: "seg \<in> set (split_on c s) \<Longrightarrow> c \<notin> set seg"
proof (induction s arbitrary: seg)
  case Nil
  then show ?case by simp
next
  case (Cons x s)
  then show ?case
    by (cases "split_on c s") (auto split: if_splits)
qed

lemma str_includes_iff: "str_includes p s \<longleftrightarrow> (\<exists>a b. s = a @ p @ b)"
proof (induction s)
  case Nil
  then show ?case by auto
next
  case (Cons x xs)
  show ?case
  proof
    assume "str_includes p (x # xs)"
    then consider "prefix p (x # xs)" | "str_includes p xs" by auto
    then show "\<exists>a b. x # xs = a @ p @ b"
    proof cases
      case 1
      then obtain b where "x # xs = [] @ p @ b" by (auto elim: prefixE)
      then show ?thesis by blast
    next
      case 2
      with Cons.IH obtain a b where "xs = a @ p @ b" by blast
      then have "x # xs = (x # a) @ p @ b" by simp
      then show ?thesis by blast
    qed
  next
    assume "\<exists>a b. x # xs = a @ p @ b"
    then obtain a b where ab: "x # xs = a @ p @ b" by blast
    show "str_includes p (x # xs)"
    proof (cases a)
      case Nil
      with ab have "prefix p (x # xs)" by (simp add: prefixI)
      then show ?thesis by simp
    next
      case (Cons y ys)
      with ab have "xs = ys @ p @ b" by simp
      then have "str_includes p xs" using Cons.IH by blast
      then show ?thesis by simp
    qed
  qed
qed

lemma set_trim_with: "set (trim_with p s) \<subseteq> set s"
  unfolding trim_with_def by (auto dest!: set_dropWhileD)

lemma trim_with_id:
  assumes "\<forall>c \<in> set s. \<not> p c"
  shows "trim_with p s = s"
proof -
  have dw: "dropWhile p t = t" if "\<forall>c \<in> set t. \<not> p c" for t
    using that by (cases t) auto
  show ?thesis using assms by (simp add: trim_with_def dw)
qed

lemma trim_with_ends:
  "trim_with p s = [] \<or> (\<not> p (hd (trim_with p s)) \<and> \<not> p (last (trim_with p s)))"
proof (cases "trim_with p s = []")
  case False
  let ?d = "dropWhile p s"
  have ne: "dropWhile p (rev ?d) \<noteq> []" using False by (simp add: trim_with_def)
  then have last: "\<not> p (last (trim_with p s))"
    using hd_dropWhile [OF ne] by (simp add: trim_with_def last_rev)
  obtain ys where ys: "?d = trim_with p s @ ys"
    using takeWhile_dropWhile_id [of p "rev ?d"] unfolding trim_with_def
    by (metis rev_append rev_rev_ident)
  then have "hd ?d = hd (trim_with p s)" "?d \<noteq> []" using False by auto
  then have "\<not> p (hd (trim_with p s))" using hd_dropWhile [of p s] by metis
  with last show ?thesis by simp
qed simp

lemma trim_with_same:
  assumes "s = [] \<or> (\<not> p (hd s) \<and> \<not> p (last s))"
  shows "trim_with p s = s"
proof (cases s)
  case (Cons x xs)
  then have "dropWhile p s = s" "dropWhile p (rev s) = rev s"
    using assms by (auto simp: hd_rev [symmetric] dropWhile_eq_self_iff)
  then show ?thesis by (simp add: trim_with_def)
qed (simp add: trim_with_def)

lemma trim_trim [simp]: "trim_with p (trim_with p s) = trim_with p s"
  by (rule trim_with_same) (rule trim_with_ends)

lemma js_trim_trim [simp]: "js_trim (js_trim s) = js_trim s"
  by (simp add: js_trim_def)

lemma length_trim_with: "length (trim_with p s) \<le> length s"
  using length_dropWhile_le [of p s] length_dropWhile_le [of p "rev (dropWhile p s)"]
  by (simp add: trim_with_def)

lemma set_collapse_ws: "set (collapse_ws s) \<subseteq> insert (CHR 0x20) {c \<in> set s. \<not> is_ws c}"
  by (induction s rule: collapse_ws.induct) (auto dest: set_dropWhileD)

lemma collapse_ws_hd: "s \<noteq> [] \<Longrightarrow> \<not> is_ws (hd s) \<Longrightarrow> collapse_ws s \<noteq> [] \<and> hd (collapse_ws s) = hd s"
  by (cases s) auto

lemma collapse_ws_last:
  "s \<noteq> [] \<Longrightarrow> \<not> is_ws (last s) \<Longrightarrow> collapse_ws s \<noteq> [] \<and> last (collapse_ws s) = last s"
proof (induction s rule: collapse_ws.induct)
  case (2 x xs)
  show ?case
  proof (cases "is_ws x")
    case True
    let ?r = "dropWhile is_ws xs"
    have "xs \<noteq> []" "last xs = last (x # xs)" using 2 True by auto
    then have "last xs \<in> set xs" "\<not> is_ws (last xs)" using 2 by auto
    then have "?r \<noteq> []" by (auto simp: dropWhile_eq_Nil_conv)
    then have "last ?r = last xs"
      using takeWhile_dropWhile_id [of is_ws xs] by (metis last_appendR)
    then show ?thesis using 2 True \<open>?r \<noteq> []\<close> \<open>xs \<noteq> []\<close> by auto
  next
    case False
    then show ?thesis using 2 by (cases xs) auto
  qed
qed simp

text \<open>No two white space characters in a row, and every white space character a plain space.\<close>

fun single_spaced :: "string \<Rightarrow> bool" where
  "single_spaced [] = True"
| "single_spaced (x # xs) =
     ((is_ws x \<longrightarrow> x = CHR 0x20 \<and> (xs = [] \<or> \<not> is_ws (hd xs))) \<and> single_spaced xs)"

lemma is_ws_space: "is_ws (CHR 0x20)"
  by (simp add: is_ws_def)

lemma collapse_ws_single: "single_spaced (collapse_ws s)"
proof (induction s rule: collapse_ws.induct)
  case (2 x xs)
  show ?case
  proof (cases "is_ws x")
    case True
    have "collapse_ws (dropWhile is_ws xs) = [] \<or> \<not> is_ws (hd (collapse_ws (dropWhile is_ws xs)))"
    proof (cases "dropWhile is_ws xs = []")
      case True
      then show ?thesis by (simp only: collapse_ws.simps simp_thms)
    next
      case False
      then show ?thesis using hd_dropWhile [OF False] collapse_ws_hd [OF False] by simp
    qed
    then show ?thesis using 2 True by simp
  next
    case False
    then show ?thesis using 2 by simp
  qed
qed simp

lemma collapse_ws_id: "single_spaced s \<Longrightarrow> collapse_ws s = s"
proof (induction s rule: collapse_ws.induct)
  case (2 x xs)
  show ?case
  proof (cases "is_ws x")
    case True
    then have "dropWhile is_ws xs = xs" using "2.prems" by (cases xs) auto
    then show ?thesis using 2 True by simp
  next
    case False
    then show ?thesis using 2 by simp
  qed
qed simp

lemma unify_newlines_no_cr: "CHR 0x0D \<notin> set (unify_newlines s)"
proof -
  have "CHR 0x0D \<notin> set (unify_nl b s)" for b
    by (induction b s rule: unify_nl.induct) auto
  then show ?thesis by (simp add: unify_newlines_def)
qed

lemma unify_newlines_id: "CHR 0x0D \<notin> set s \<Longrightarrow> unify_newlines s = s"
  by (simp add: unify_newlines_def, induction s) auto

section \<open>Lemmas on lists\<close>

lemma find_Some_iff_filter: "find P xs = Some x \<longleftrightarrow> (\<exists>ys. filter P xs = x # ys)"
  by (induction xs) auto

lemma find_in_set: "find P xs = Some x \<Longrightarrow> x \<in> set xs \<and> P x"
  by (induction xs) (auto split: if_splits)

lemma find_None_all: "find P xs = None \<longleftrightarrow> (\<forall>x \<in> set xs. \<not> P x)"
  by (induction xs) auto

lemma find_append: "find P (xs @ ys) = (case find P xs of None \<Rightarrow> find P ys | Some x \<Rightarrow> Some x)"
  by (induction xs) auto

lemma list_ex_set: "list_ex P xs \<longleftrightarrow> (\<exists>x \<in> set xs. P x)"
  by (simp add: list_ex_iff)

text \<open>The rows of a left join: the matches, or one row of nulls.\<close>

lemma left_join_bex:
  "(\<exists>r \<in> set (case xs of [] \<Rightarrow> [n] | y # ys \<Rightarrow> f (y # ys)). Q r) \<longleftrightarrow>
     (if xs = [] then Q n else \<exists>r \<in> set (f xs). Q r)"
  by (cases xs) auto

text \<open>An invariant of a left fold, and a left fold whose steps do not change a projection.\<close>

lemma foldl_invariant:
  assumes "I a" and "\<And>b x. I b \<Longrightarrow> x \<in> set xs \<Longrightarrow> I (f b x)"
  shows "I (foldl f a xs)"
  using assms by (induction xs arbitrary: a) auto

section \<open>Three-way comparison\<close>

text \<open>
  The comparators of the sources return a negative number, zero or a positive number. The contract
  of such a comparator on the values it is meant for is a locale, with the facts its clients use:
  selection of a greatest element by a left-to-right reduction, and chains of strict increase.
\<close>

definition ord_cmp :: "'a::linorder \<Rightarrow> 'a \<Rightarrow> int" where
  "ord_cmp x y = (if x < y then -1 else if x = y then 0 else 1)"

lemma ord_cmp_self [simp]: "ord_cmp x x = 0"
  by (simp add: ord_cmp_def)

lemma ord_cmp_list [simp]:
  "ord_cmp [] (y # ys) = -1"
  "ord_cmp (x # xs) [] = 1"
  "ord_cmp (x # xs) (y # ys) = (if x = y then ord_cmp xs ys else ord_cmp x y)"
  by (auto simp: ord_cmp_def)

lemma ord_cmp_pair [simp]:
  "ord_cmp (a, b) (c, d) = (if a = c then ord_cmp b d else ord_cmp a c)"
  by (auto simp: ord_cmp_def)

lemma ord_cmp_le: "ord_cmp x y \<le> 0 \<longleftrightarrow> x \<le> y"
  and ord_cmp_less: "ord_cmp x y < 0 \<longleftrightarrow> x < y"
  and ord_cmp_zero: "ord_cmp x y = 0 \<longleftrightarrow> x = y"
  and ord_cmp_flip: "ord_cmp y x = - ord_cmp x y"
  by (auto simp: ord_cmp_def)

text \<open>
  \<open>xs.sort(cmp)\<close>: the sort of the language is stable, so for a comparator that is a consistent order
  its result is that of a stable insertion sort, built here from the right.
\<close>

fun js_insert :: "('a \<Rightarrow> 'a \<Rightarrow> int) \<Rightarrow> 'a \<Rightarrow> 'a list \<Rightarrow> 'a list" where
  "js_insert cmp x [] = [x]"
| "js_insert cmp x (y # ys) = (if cmp x y \<le> 0 then x # y # ys else y # js_insert cmp x ys)"

definition js_sort :: "('a \<Rightarrow> 'a \<Rightarrow> int) \<Rightarrow> 'a list \<Rightarrow> 'a list" where
  "js_sort cmp xs = foldr (js_insert cmp) xs []"

lemma set_js_insert [simp]: "set (js_insert cmp x ys) = insert x (set ys)"
  by (induction ys) auto

lemma length_js_insert [simp]: "length (js_insert cmp x ys) = Suc (length ys)"
  by (induction ys) auto

lemma set_js_sort [simp]: "set (js_sort cmp xs) = set xs"
  by (induction xs) (simp_all add: js_sort_def)

lemma length_js_sort [simp]: "length (js_sort cmp xs) = length xs"
  by (induction xs) (simp_all add: js_sort_def)

lemma distinct_js_sort [simp]: "distinct (js_sort cmp xs) = distinct xs"
proof -
  have ins: "distinct (js_insert cmp x ys) \<longleftrightarrow> x \<notin> set ys \<and> distinct ys" for x and ys :: "'a list"
    by (induction ys) auto
  have set_eq: "set (foldr (js_insert cmp) xs []) = set xs" for xs :: "'a list"
    using set_js_sort [of cmp xs] by (simp add: js_sort_def)
  show ?thesis
    by (induction xs) (simp_all add: js_sort_def ins set_eq)
qed

lemma js_sort_distinct_map: "distinct (map f (js_sort cmp xs)) = distinct (map f xs)"
proof -
  have "mset (js_insert cmp x ys) = mset (x # ys)" for x ys
    by (induction ys) auto
  then have "mset (js_sort cmp xs) = mset xs"
    by (induction xs) (simp_all add: js_sort_def)
  then have "mset (map f (js_sort cmp xs)) = mset (map f xs)" by simp
  then show ?thesis using mset_eq_imp_distinct_iff by blast
qed

locale three_way_order =
  fixes ok :: "'a \<Rightarrow> bool" and cmp :: "'a \<Rightarrow> 'a \<Rightarrow> int"
  assumes flip: "ok a \<Longrightarrow> ok b \<Longrightarrow> cmp b a = - cmp a b"
    and chain: "ok a \<Longrightarrow> ok b \<Longrightarrow> ok c \<Longrightarrow> cmp a b \<le> 0 \<Longrightarrow> cmp b c \<le> 0 \<Longrightarrow> cmp a c \<le> 0"
begin

lemma self: "ok a \<Longrightarrow> cmp a a = 0"
  using flip [of a a] by simp

lemma chain_strict:
  assumes "ok a" "ok b" "ok c" "cmp a b < 0" "cmp b c \<le> 0"
  shows "cmp a c < 0"
proof (rule ccontr)
  assume "\<not> cmp a c < 0"
  then have "cmp c a \<le> 0" using flip [of a c] assms by simp
  then have "cmp b a \<le> 0" using chain [of b c a] assms by simp
  then show False using flip [of a b] assms by simp
qed

definition better :: "'a \<Rightarrow> 'a \<Rightarrow> 'a" where
  "better a b = (if cmp a b \<ge> 0 then a else b)"

lemma reduce_greatest:
  assumes "ok a" and "\<forall>x \<in> set bs. ok x"
  shows "foldl better a bs \<in> set (a # bs) \<and> (\<forall>x \<in> set (a # bs). cmp x (foldl better a bs) \<le> 0)"
  using assms
proof (induction bs arbitrary: a)
  case Nil
  then show ?case by (simp add: self)
next
  case (Cons b bs)
  let ?m = "better a b"
  have m: "ok ?m" "?m \<in> {a, b}" "cmp a ?m \<le> 0" "cmp b ?m \<le> 0"
    using Cons.prems self flip [of a b] by (auto simp: better_def)
  let ?r = "foldl better ?m bs"
  from Cons.IH [of ?m] m(1) Cons.prems
  have r: "?r \<in> set (?m # bs)" "\<forall>x \<in> set (?m # bs). cmp x ?r \<le> 0" by auto
  have okr: "ok ?r" using r(1) m(1) Cons.prems by auto
  have "cmp a ?r \<le> 0" "cmp b ?r \<le> 0"
    using chain [of a ?m ?r] chain [of b ?m ?r] m okr r(2) Cons.prems by auto
  then show ?case using r m(2) by auto
qed

lemma insert_sorted:
  assumes "ok x" "\<forall>y \<in> set ys. ok y" "sorted_wrt (\<lambda>a b. cmp a b \<le> 0) ys"
  shows "sorted_wrt (\<lambda>a b. cmp a b \<le> 0) (js_insert cmp x ys)"
  using assms
proof (induction ys)
  case (Cons y ys)
  show ?case
  proof (cases "cmp x y \<le> 0")
    case True
    then have "\<forall>z \<in> set ys. cmp x z \<le> 0" using Cons.prems chain [of x y] by auto
    then show ?thesis using True Cons.prems by auto
  next
    case False
    then have "cmp y x \<le> 0" using Cons.prems flip [of y x] by simp
    then show ?thesis using False Cons by auto
  qed
qed simp

lemma sort_sorted:
  assumes "\<forall>x \<in> set xs. ok x"
  shows "sorted_wrt (\<lambda>a b. cmp a b \<le> 0) (js_sort cmp xs)"
  using assms
proof (induction xs)
  case (Cons x xs)
  have "js_sort cmp (x # xs) = js_insert cmp x (js_sort cmp xs)" by (simp add: js_sort_def)
  then show ?case using insert_sorted [of x "js_sort cmp xs"] Cons by simp
qed (simp add: js_sort_def)

end

end
