(* ===== verification/Rbac.thy ===== *)
theory Rbac
  imports Prelude
begin

text \<open>
  Role-based access control: \<open>packages/shared/src/rbac.ts\<close> (resolution of a user's effective
  access from group memberships and role mappings, and the capability checks),
  the role types of \<open>packages/shared/src/types.ts\<close>, and the row folds, the access resolution
  and the two SQL visibility predicates of \<open>packages/shared/src/visibility.ts\<close>.

  A \<open>Map\<close> is a partial function, a \<open>Set\<close> a HOL set built from lists; a nullable field is an
  option. The SQL predicates are modelled as what Postgres computes for them on the rows of the
  tables they name.
\<close>

section \<open>Types\<close>

datatype role = PlatformAdmin | NamespaceAdmin | NamespaceMember

datatype visibility = OrgVisible | NamespaceVisible

record role_mapping =
  rm_id :: ident
  rm_group :: ident
  rm_namespace :: "ident option"
  rm_role :: role

record effective_access =
  is_platform_admin :: bool
  namespace_roles :: "ident \<Rightarrow> role option"

section \<open>Resolution\<close>

text \<open>\<open>rank\<close> maps \<open>undefined\<close> and every role that is no namespace role to 0.\<close>

fun role_rank :: "role option \<Rightarrow> nat" where
  "role_rank (Some NamespaceAdmin) = 2"
| "role_rank (Some NamespaceMember) = 1"
| "role_rank _ = 0"

definition higher_role :: "role option \<Rightarrow> role \<Rightarrow> role option" where
  "higher_role a b = (if role_rank a \<ge> role_rank (Some b) then a else Some b)"

definition access_step :: "ident set \<Rightarrow> effective_access \<Rightarrow> role_mapping \<Rightarrow> effective_access" where
  "access_step groups a m =
     (if rm_group m \<notin> groups then a
      else if rm_role m = PlatformAdmin then a\<lparr>is_platform_admin := True\<rparr>
      else case rm_namespace m of
             None \<Rightarrow> a
           | Some ns \<Rightarrow>
               a\<lparr>namespace_roles :=
                   (namespace_roles a)(ns := higher_role (namespace_roles a ns) (rm_role m))\<rparr>)"

definition resolve_access :: "ident set \<Rightarrow> role_mapping list \<Rightarrow> effective_access" where
  "resolve_access groups mappings =
     foldl (access_step groups) \<lparr>is_platform_admin = False, namespace_roles = Map.empty\<rparr> mappings"

section \<open>Capability checks\<close>

definition can_review_namespace :: "effective_access \<Rightarrow> ident \<Rightarrow> bool" where
  "can_review_namespace a ns = (is_platform_admin a \<or> namespace_roles a ns = Some NamespaceAdmin)"

definition can_direct_publish :: "effective_access \<Rightarrow> ident \<Rightarrow> bool \<Rightarrow> bool" where
  "can_direct_publish a ns requires_review =
     (if is_platform_admin a then True
      else if namespace_roles a ns = Some NamespaceAdmin then True
      else if namespace_roles a ns = Some NamespaceMember then \<not> requires_review
      else False)"

definition can_initiate_promotion :: "effective_access \<Rightarrow> ident \<Rightarrow> bool" where
  "can_initiate_promotion a ns =
     (if is_platform_admin a then True
      else namespace_roles a ns = Some NamespaceAdmin \<or> namespace_roles a ns = Some NamespaceMember)"

definition can_approve_promotion_to_global :: "effective_access \<Rightarrow> bool" where
  "can_approve_promotion_to_global a = is_platform_admin a"

definition can_yank_or_archive :: "effective_access \<Rightarrow> ident \<Rightarrow> bool" where
  "can_yank_or_archive a ns = (is_platform_admin a \<or> namespace_roles a ns = Some NamespaceAdmin)"

definition can_manage_namespace_settings :: "effective_access \<Rightarrow> ident \<Rightarrow> bool" where
  "can_manage_namespace_settings a ns =
     (is_platform_admin a \<or> namespace_roles a ns = Some NamespaceAdmin)"

definition can_use_namespace_marketplace :: "effective_access \<Rightarrow> ident \<Rightarrow> bool" where
  "can_use_namespace_marketplace a ns = (is_platform_admin a \<or> namespace_roles a ns \<noteq> None)"

record visibility_subject =
  vs_namespace :: ident
  vs_visibility :: visibility
  vs_shared :: "ident list option"

text \<open>\<open>skill.sharedNamespaceIds ?? []\<close>\<close>

definition shared_ids :: "visibility_subject \<Rightarrow> ident list" where
  "shared_ids s = (case vs_shared s of None \<Rightarrow> [] | Some ids \<Rightarrow> ids)"

definition is_skill_visible :: "effective_access \<Rightarrow> visibility_subject \<Rightarrow> bool" where
  "is_skill_visible a s =
     (if vs_visibility s = OrgVisible then True
      else if is_platform_admin a then True
      else if namespace_roles a (vs_namespace s) \<noteq> None then True
      else list_ex (\<lambda>i. namespace_roles a i \<noteq> None) (shared_ids s))"

definition sees_via_grant_only :: "effective_access \<Rightarrow> visibility_subject \<Rightarrow> bool" where
  "sees_via_grant_only a s =
     (if vs_visibility s = OrgVisible \<or> is_platform_admin a then False
      else if namespace_roles a (vs_namespace s) \<noteq> None then False
      else list_ex (\<lambda>i. namespace_roles a i \<noteq> None) (shared_ids s))"

definition can_share_skill :: "effective_access \<Rightarrow> ident \<Rightarrow> bool \<Rightarrow> bool" where
  "can_share_skill a owner explicit_maintainer =
     (if is_platform_admin a then True
      else if namespace_roles a owner = Some NamespaceAdmin then True
      else explicit_maintainer)"

definition can_unshare_skill :: "effective_access \<Rightarrow> ident \<Rightarrow> ident \<Rightarrow> bool \<Rightarrow> bool" where
  "can_unshare_skill a owner grantee explicit_maintainer =
     (if can_share_skill a owner explicit_maintainer then True
      else namespace_roles a grantee = Some NamespaceAdmin)"

text \<open>The keys of the role map, as a set: the callers bind them to an \<open>any(...)\<close> parameter.\<close>

definition visible_namespace_ids :: "effective_access \<Rightarrow> ident set" where
  "visible_namespace_ids a = dom (namespace_roles a)"

section \<open>The tables behind access\<close>

text \<open>
  The tables the access queries read, as lists of rows. \<open>status = 'active'\<close> is the Boolean
  \<open>ur_active\<close>.
\<close>

record user_row =
  ur_id :: ident
  ur_oid :: ident
  ur_active :: bool

record group_row =
  gr_id :: ident
  gr_oid :: ident

record membership_row =
  gm_user :: ident
  gm_group :: ident

record mapping_row =
  mr_id :: ident
  mr_namespace :: "ident option"
  mr_role :: role
  mr_group :: ident

record grant_row =
  sng_skill :: ident
  sng_namespace :: ident

record skill_row =
  sk_id :: ident
  sk_namespace :: ident
  sk_visibility :: visibility

record access_db =
  t_users :: "user_row list"
  t_groups :: "group_row list"
  t_memberships :: "membership_row list"
  t_mappings :: "mapping_row list"
  t_grants :: "grant_row list"

text \<open>The result rows of the queries.\<close>

record user_group_row =
  ug_user :: ident
  ug_group_oid :: "ident option"

record role_mapping_row =
  rmr_id :: ident
  rmr_namespace :: "ident option"
  rmr_role :: role
  rmr_group_id :: ident
  rmr_group_oid :: ident

text \<open>
  A left join yields one row per match, or one row with null columns when nothing matches.
\<close>

definition left_join_membership :: "access_db \<Rightarrow> user_row \<Rightarrow> membership_row \<Rightarrow> user_group_row list" where
  "left_join_membership db u gm =
     (case filter (\<lambda>g. gr_id g = gm_group gm) (t_groups db) of
        [] \<Rightarrow> [\<lparr>ug_user = ur_id u, ug_group_oid = None\<rparr>]
      | g # gs \<Rightarrow> map (\<lambda>g. \<lparr>ug_user = ur_id u, ug_group_oid = Some (gr_oid g)\<rparr>) (g # gs))"

definition left_join_groups :: "access_db \<Rightarrow> user_row \<Rightarrow> user_group_row list" where
  "left_join_groups db u =
     (case filter (\<lambda>gm. gm_user gm = ur_id u) (t_memberships db) of
        [] \<Rightarrow> [\<lparr>ug_user = ur_id u, ug_group_oid = None\<rparr>]
      | gm # gms \<Rightarrow> concat (map (left_join_membership db u) (gm # gms)))"

definition sql_user_groups_by_oid :: "access_db \<Rightarrow> ident \<Rightarrow> user_group_row list" where
  "sql_user_groups_by_oid db oid =
     concat (map (left_join_groups db) (filter (\<lambda>u. ur_oid u = oid \<and> ur_active u) (t_users db)))"

definition sql_user_groups_by_id :: "access_db \<Rightarrow> ident \<Rightarrow> user_group_row list" where
  "sql_user_groups_by_id db uid =
     concat (map (left_join_groups db) (filter (\<lambda>u. ur_id u = uid \<and> ur_active u) (t_users db)))"

definition sql_role_mappings :: "access_db \<Rightarrow> role_mapping_row list" where
  "sql_role_mappings db =
     concat (map (\<lambda>rm. map (\<lambda>g. \<lparr>rmr_id = mr_id rm, rmr_namespace = mr_namespace rm,
                                  rmr_role = mr_role rm, rmr_group_id = mr_group rm,
                                  rmr_group_oid = gr_oid g\<rparr>)
                       (filter (\<lambda>g. gr_id g = mr_group rm) (t_groups db))) (t_mappings db))"

section \<open>Row folds and the pure core of access resolution\<close>

text \<open>\<open>if (r.group_oid)\<close> skips null and the empty string.\<close>

definition user_groups_from_rows :: "user_group_row list \<Rightarrow> ident option \<times> ident set" where
  "user_groups_from_rows rows =
     ((case rows of [] \<Rightarrow> None | r # _ \<Rightarrow> Some (ug_user r)),
      foldl (\<lambda>S r. case ug_group_oid r of None \<Rightarrow> S | Some oid \<Rightarrow> if oid = [] then S else insert oid S)
        {} rows)"

definition role_mappings_from_rows ::
  "role_mapping_row list \<Rightarrow> role_mapping list \<times> (ident \<rightharpoonup> ident)" where
  "role_mappings_from_rows rows =
     (map (\<lambda>r. \<lparr>rm_id = rmr_id r, rm_group = rmr_group_oid r,
                 rm_namespace = rmr_namespace r, rm_role = rmr_role r\<rparr>) rows,
      foldl (\<lambda>m r. m(rmr_group_id r \<mapsto> rmr_group_oid r)) Map.empty rows)"

definition access_from_rows ::
  "user_group_row list \<Rightarrow> role_mapping_row list \<Rightarrow> string option \<Rightarrow> effective_access \<times> ident option" where
  "access_from_rows user_rows mapping_rows bootstrap_group =
     (let (uid, groups) = user_groups_from_rows user_rows;
          mappings = fst (role_mappings_from_rows mapping_rows);
          access = resolve_access groups mappings;
          bootstrap = (case bootstrap_group of None \<Rightarrow> [] | Some b \<Rightarrow> js_trim b)
      in (if bootstrap \<noteq> [] \<and> bootstrap \<in> groups then access\<lparr>is_platform_admin := True\<rparr> else access, uid))"

section \<open>The SQL visibility predicates\<close>

definition shared_namespace_ids_sql :: "access_db \<Rightarrow> skill_row \<Rightarrow> ident list" where
  "shared_namespace_ids_sql db s =
     map sng_namespace (filter (\<lambda>g. sng_skill g = sk_id s) (t_grants db))"

text \<open>
  \<open>skillVisibilityWhere\<close> returns no clause for a platform admin, else the clause below with the
  viewer's namespace ids bound to its parameter; a row of \<open>skills\<close> is selected when the clause
  holds for it.
\<close>

definition skill_visibility_where :: "effective_access \<Rightarrow> (access_db \<Rightarrow> skill_row \<Rightarrow> bool) option" where
  "skill_visibility_where a =
     (if is_platform_admin a then None
      else let ids = visible_namespace_ids a in
        Some (\<lambda>db s. sk_visibility s = OrgVisible \<or> sk_namespace s \<in> ids
                \<or> list_ex (\<lambda>g. sng_skill g = sk_id s \<and> sng_namespace g \<in> ids) (t_grants db)))"

definition visible_rows :: "effective_access \<Rightarrow> access_db \<Rightarrow> skill_row list \<Rightarrow> skill_row list" where
  "visible_rows a db skills =
     (case skill_visibility_where a of None \<Rightarrow> skills | Some p \<Rightarrow> filter (p db) skills)"

definition namespace_marketplace_skill_sql :: "ident \<Rightarrow> access_db \<Rightarrow> skill_row \<Rightarrow> bool" where
  "namespace_marketplace_skill_sql ns db s =
     (sk_visibility s = NamespaceVisible \<and>
      (sk_namespace s = ns \<or>
       list_ex (\<lambda>g. sng_skill g = sk_id s \<and> sng_namespace g = ns) (t_grants db)))"

definition user_can_see_skill_sql :: "ident \<Rightarrow> access_db \<Rightarrow> skill_row \<Rightarrow> bool" where
  "user_can_see_skill_sql uid db s =
     (sk_visibility s = OrgVisible \<or>
      list_ex (\<lambda>gm. gm_user gm = uid \<and>
         list_ex (\<lambda>rm. mr_group rm = gm_group gm \<and>
            (mr_role rm = PlatformAdmin \<or> mr_namespace rm = Some (sk_namespace s) \<or>
             list_ex (\<lambda>g. sng_skill g = sk_id s \<and> mr_namespace rm = Some (sng_namespace g)) (t_grants db)))
           (t_mappings db)) (t_memberships db))"

text \<open>The in-memory subject a loaded skill row gives to \<open>isSkillVisible\<close>.\<close>

definition subject_of_row :: "access_db \<Rightarrow> skill_row \<Rightarrow> visibility_subject" where
  "subject_of_row db s =
     \<lparr>vs_namespace = sk_namespace s, vs_visibility = sk_visibility s,
      vs_shared = Some (shared_namespace_ids_sql db s)\<rparr>"

section \<open>What resolution computes\<close>

text \<open>
  \<open>holds_role G ms ns r\<close>: one of the mappings gives role \<open>r\<close> in namespace \<open>ns\<close> to a group in
  \<open>G\<close>. The effective role is the higher of the roles held, whatever the order of the mappings.
\<close>

definition holds_admin :: "ident set \<Rightarrow> role_mapping list \<Rightarrow> bool" where
  "holds_admin G ms = (\<exists>m \<in> set ms. rm_group m \<in> G \<and> rm_role m = PlatformAdmin)"

definition holds_role :: "ident set \<Rightarrow> role_mapping list \<Rightarrow> ident \<Rightarrow> role \<Rightarrow> bool" where
  "holds_role G ms ns r =
     (\<exists>m \<in> set ms. rm_group m \<in> G \<and> rm_role m = r \<and> rm_namespace m = Some ns)"

lemma resolve_access_Nil [simp]:
  "resolve_access G [] = \<lparr>is_platform_admin = False, namespace_roles = Map.empty\<rparr>"
  by (simp add: resolve_access_def)

lemma resolve_access_snoc [simp]:
  "resolve_access G (ms @ [m]) = access_step G (resolve_access G ms) m"
  by (simp add: resolve_access_def)

lemma resolve_access_admin:
  "is_platform_admin (resolve_access G ms) = holds_admin G ms"
  by (induction ms rule: rev_induct)
    (auto simp: access_step_def holds_admin_def split: option.splits)

lemma higher_role_admin [simp]: "higher_role a NamespaceAdmin = Some NamespaceAdmin"
proof (cases a)
  case (Some r)
  then show ?thesis by (cases r) (auto simp: higher_role_def)
qed (simp add: higher_role_def)

lemma higher_role_member [simp]:
  "higher_role a NamespaceMember = (if a = Some NamespaceAdmin then a else Some NamespaceMember)"
proof (cases a)
  case (Some r)
  then show ?thesis by (cases r) (auto simp: higher_role_def)
qed (simp add: higher_role_def)

lemma holds_role_Nil [simp]: "\<not> holds_role G [] ns r"
  by (simp add: holds_role_def)

lemma holds_role_snoc [simp]:
  "holds_role G (ms @ [m]) ns r \<longleftrightarrow>
     holds_role G ms ns r \<or> (rm_group m \<in> G \<and> rm_role m = r \<and> rm_namespace m = Some ns)"
  by (auto simp: holds_role_def)

lemma access_step_role:
  "namespace_roles (access_step G a m) ns =
     (if rm_group m \<in> G \<and> rm_role m \<noteq> PlatformAdmin \<and> rm_namespace m = Some ns
      then higher_role (namespace_roles a ns) (rm_role m) else namespace_roles a ns)"
  by (cases "rm_namespace m") (simp_all add: access_step_def)

lemma resolve_access_role:
  "namespace_roles (resolve_access G ms) ns =
     (if holds_role G ms ns NamespaceAdmin then Some NamespaceAdmin
      else if holds_role G ms ns NamespaceMember then Some NamespaceMember
      else None)"
proof (induction ms rule: rev_induct)
  case Nil
  then show ?case by simp
next
  case (snoc m ms)
  then show ?case
    by (cases "rm_role m") (simp_all add: access_step_role)
qed

lemma resolve_access_dom:
  "namespace_roles (resolve_access G ms) ns \<noteq> None \<longleftrightarrow>
     holds_role G ms ns NamespaceAdmin \<or> holds_role G ms ns NamespaceMember"
  by (simp add: resolve_access_role)

lemma resolve_access_never_platform_role:
  "namespace_roles (resolve_access G ms) ns \<noteq> Some PlatformAdmin"
  by (simp add: resolve_access_role)

section \<open>Access resolved from the tables\<close>

text \<open>
  What the schema guarantees about the tables: primary keys and the unique object ids, the foreign
  keys of memberships and mappings, and the check constraint \<open>platform_admin_has_no_namespace\<close>.
  An Entra object id is never the empty string.
\<close>

definition wf_access_db :: "access_db \<Rightarrow> bool" where
  "wf_access_db db =
     (distinct (map ur_id (t_users db)) \<and> distinct (map gr_id (t_groups db)) \<and>
      distinct (map gr_oid (t_groups db)) \<and> list_all (\<lambda>g. gr_oid g \<noteq> []) (t_groups db) \<and>
      list_all (\<lambda>gm. gm_group gm \<in> gr_id ` set (t_groups db)) (t_memberships db) \<and>
      list_all (\<lambda>rm. mr_group rm \<in> gr_id ` set (t_groups db)) (t_mappings db) \<and>
      list_all (\<lambda>rm. (mr_role rm = PlatformAdmin) = (mr_namespace rm = None)) (t_mappings db))"

definition active_user :: "access_db \<Rightarrow> ident \<Rightarrow> bool" where
  "active_user db uid = list_ex (\<lambda>u. ur_id u = uid \<and> ur_active u) (t_users db)"

text \<open>The access of a user by internal id, as the worker resolves it.\<close>

definition user_access :: "access_db \<Rightarrow> ident \<Rightarrow> string option \<Rightarrow> effective_access" where
  "user_access db uid boot =
     fst (access_from_rows (sql_user_groups_by_id db uid) (sql_role_mappings db) boot)"

text \<open>A role held by a user according to the tables.\<close>

definition db_holds :: "access_db \<Rightarrow> ident \<Rightarrow> role \<Rightarrow> ident option \<Rightarrow> bool" where
  "db_holds db uid r ns =
     (\<exists>gm \<in> set (t_memberships db). gm_user gm = uid \<and>
        (\<exists>rm \<in> set (t_mappings db). mr_group rm = gm_group gm \<and> mr_role rm = r \<and> mr_namespace rm = ns))"

definition db_admin :: "access_db \<Rightarrow> ident \<Rightarrow> bool" where
  "db_admin db uid = (\<exists>ns. db_holds db uid PlatformAdmin ns)"

definition db_member :: "access_db \<Rightarrow> ident \<Rightarrow> ident \<Rightarrow> bool" where
  "db_member db uid ns = (\<exists>r. db_holds db uid r (Some ns))"

lemma group_fold:
  "foldl (\<lambda>S r. case ug_group_oid r of None \<Rightarrow> S | Some oid \<Rightarrow> if oid = [] then S else insert oid S) A rows
     = A \<union> {oid. oid \<noteq> [] \<and> (\<exists>r \<in> set rows. ug_group_oid r = Some oid)}"
  by (induction rows arbitrary: A) (auto split: option.splits)

lemma user_groups_snd:
  "snd (user_groups_from_rows rows) = {oid. oid \<noteq> [] \<and> (\<exists>r \<in> set rows. ug_group_oid r = Some oid)}"
  by (simp add: user_groups_from_rows_def group_fold)

lemma left_join_membership_oid:
  "(\<exists>r \<in> set (left_join_membership db u gm). ug_group_oid r = Some oid) \<longleftrightarrow>
     (\<exists>g \<in> set (t_groups db). gr_id g = gm_group gm \<and> gr_oid g = oid)"
  unfolding left_join_membership_def left_join_bex [where f = "map _"]
  by (auto simp: filter_empty_conv)

lemma left_join_oid:
  "(\<exists>r \<in> set (left_join_groups db u). ug_group_oid r = Some oid) \<longleftrightarrow>
     (\<exists>gm \<in> set (t_memberships db). gm_user gm = ur_id u \<and>
        (\<exists>g \<in> set (t_groups db). gr_id g = gm_group gm \<and> gr_oid g = oid))"
proof -
  have "(\<exists>r \<in> set (left_join_groups db u). ug_group_oid r = Some oid) \<longleftrightarrow>
        (\<exists>gm \<in> set (t_memberships db). gm_user gm = ur_id u \<and>
           (\<exists>r \<in> set (left_join_membership db u gm). ug_group_oid r = Some oid))"
    unfolding left_join_groups_def left_join_bex [where f = "\<lambda>gms. concat (map _ gms)"]
    by (auto simp: filter_empty_conv)
  then show ?thesis by (simp add: left_join_membership_oid)
qed

lemma sql_user_groups_oid:
  "(\<exists>r \<in> set (sql_user_groups_by_id db uid). ug_group_oid r = Some oid) \<longleftrightarrow>
     active_user db uid \<and>
     (\<exists>gm \<in> set (t_memberships db). gm_user gm = uid \<and>
        (\<exists>g \<in> set (t_groups db). gr_id g = gm_group gm \<and> gr_oid g = oid))"
proof -
  have "(\<exists>r \<in> set (sql_user_groups_by_id db uid). ug_group_oid r = Some oid) \<longleftrightarrow>
        (\<exists>u \<in> set (t_users db). (ur_id u = uid \<and> ur_active u) \<and>
           (\<exists>r \<in> set (left_join_groups db u). ug_group_oid r = Some oid))"
    by (auto simp: sql_user_groups_by_id_def)
  then show ?thesis
    by (auto simp: left_join_oid active_user_def list_ex_iff)
qed

lemma user_group_set:
  assumes "wf_access_db db"
  shows "snd (user_groups_from_rows (sql_user_groups_by_id db uid)) =
           {oid. active_user db uid \<and>
              (\<exists>gm \<in> set (t_memberships db). gm_user gm = uid \<and>
                 (\<exists>g \<in> set (t_groups db). gr_id g = gm_group gm \<and> gr_oid g = oid))}"
proof -
  have "\<And>g. g \<in> set (t_groups db) \<Longrightarrow> gr_oid g \<noteq> []"
    using assms by (auto simp: wf_access_db_def list_all_iff)
  then show ?thesis
    unfolding user_groups_snd sql_user_groups_oid by blast
qed

lemma role_mappings_fst:
  "set (fst (role_mappings_from_rows (sql_role_mappings db))) =
     {\<lparr>rm_id = mr_id rm, rm_group = gr_oid g, rm_namespace = mr_namespace rm, rm_role = mr_role rm\<rparr>
      | rm g. rm \<in> set (t_mappings db) \<and> g \<in> set (t_groups db) \<and> gr_id g = mr_group rm}"
  by (force simp: role_mappings_from_rows_def sql_role_mappings_def)

lemma user_access_None:
  "user_access db uid None =
     resolve_access (snd (user_groups_from_rows (sql_user_groups_by_id db uid)))
       (fst (role_mappings_from_rows (sql_role_mappings db)))"
  by (simp add: user_access_def access_from_rows_def split: prod.split)

text \<open>Unique object ids make "same object id" and "same group" the same thing.\<close>

lemma oid_inj:
  assumes "wf_access_db db" "g \<in> set (t_groups db)" "h \<in> set (t_groups db)" "gr_oid g = gr_oid h"
  shows "g = h"
  using assms by (simp add: wf_access_db_def distinct_map inj_on_def)

lemma wf_group_of:
  assumes "wf_access_db db" "rm \<in> set (t_mappings db)"
  obtains g where "g \<in> set (t_groups db)" "gr_id g = mr_group rm"
  using assms by (auto simp: wf_access_db_def list_all_iff)

lemma mapping_applies:
  assumes wf: "wf_access_db db" and act: "active_user db uid"
  shows "(\<exists>m \<in> set (fst (role_mappings_from_rows (sql_role_mappings db))).
            rm_group m \<in> snd (user_groups_from_rows (sql_user_groups_by_id db uid)) \<and>
            rm_role m = r \<and> rm_namespace m = ns) \<longleftrightarrow> db_holds db uid r ns"
    (is "?L \<longleftrightarrow> ?R")
proof
  assume ?L
  then obtain rm g gm h where
    rm: "rm \<in> set (t_mappings db)" "mr_role rm = r" "mr_namespace rm = ns" and
    g: "g \<in> set (t_groups db)" "gr_id g = mr_group rm" and
    gm: "gm \<in> set (t_memberships db)" "gm_user gm = uid" and
    h: "h \<in> set (t_groups db)" "gr_id h = gm_group gm" "gr_oid h = gr_oid g"
    unfolding role_mappings_fst user_group_set [OF wf] by auto
  with oid_inj [OF wf h(1) g(1) h(3)] have "mr_group rm = gm_group gm" by simp
  with rm gm show ?R unfolding db_holds_def by blast
next
  assume ?R
  then obtain gm rm where
    gm: "gm \<in> set (t_memberships db)" "gm_user gm = uid" and
    rm: "rm \<in> set (t_mappings db)" "mr_group rm = gm_group gm" "mr_role rm = r" "mr_namespace rm = ns"
    unfolding db_holds_def by blast
  from wf_group_of [OF wf rm(1)] obtain g where g: "g \<in> set (t_groups db)" "gr_id g = mr_group rm" .
  have "\<lparr>rm_id = mr_id rm, rm_group = gr_oid g, rm_namespace = mr_namespace rm, rm_role = mr_role rm\<rparr>
          \<in> set (fst (role_mappings_from_rows (sql_role_mappings db)))"
    unfolding role_mappings_fst using rm(1) g by blast
  moreover have "gr_oid g \<in> snd (user_groups_from_rows (sql_user_groups_by_id db uid))"
    unfolding user_group_set [OF wf] using act gm g rm(2) by auto
  ultimately show ?L using rm by (intro bexI) auto
qed

lemma user_access_admin:
  assumes "wf_access_db db" and "active_user db uid"
  shows "is_platform_admin (user_access db uid None) = db_admin db uid"
  using mapping_applies [OF assms]
  by (auto simp: user_access_None resolve_access_admin holds_admin_def db_admin_def)

lemma user_access_member:
  assumes wf: "wf_access_db db" and act: "active_user db uid"
  shows "namespace_roles (user_access db uid None) ns \<noteq> None \<longleftrightarrow> db_member db uid ns"
proof -
  have "\<not> db_holds db uid PlatformAdmin (Some ns)"
    using wf by (auto simp: db_holds_def wf_access_db_def list_all_iff)
  then have "db_member db uid ns \<longleftrightarrow>
      db_holds db uid NamespaceAdmin (Some ns) \<or> db_holds db uid NamespaceMember (Some ns)"
    unfolding db_member_def by (metis role.exhaust)
  then show ?thesis
    unfolding user_access_None resolve_access_dom holds_role_def mapping_applies [OF assms] by simp
qed

section \<open>One visibility rule, four implementations\<close>

text \<open>
  The namespaces whose members see a restricted skill: the owner and the grantees. Every
  implementation of the visibility decision keeps the same contract, stated as a locale over the
  kind of viewer it serves: a resolved access record, or a stored user id.
\<close>

definition audience :: "access_db \<Rightarrow> skill_row \<Rightarrow> ident set" where
  "audience db s = insert (sk_namespace s) (set (shared_namespace_ids_sql db s))"

lemma audience_grants:
  "n \<in> audience db s \<longleftrightarrow> n = sk_namespace s \<or>
     (\<exists>g \<in> set (t_grants db). sng_skill g = sk_id s \<and> sng_namespace g = n)"
  by (auto simp: audience_def shared_namespace_ids_sql_def)

lemma audience_bex:
  "(\<exists>n \<in> audience db s. P n) \<longleftrightarrow>
     P (sk_namespace s) \<or> (\<exists>g \<in> set (t_grants db). sng_skill g = sk_id s \<and> P (sng_namespace g))"
  by (auto simp: audience_def shared_namespace_ids_sql_def)

lemma subject_visible_iff:
  "is_skill_visible a (subject_of_row db s) \<longleftrightarrow>
     sk_visibility s = OrgVisible \<or> is_platform_admin a \<or>
     (\<exists>n \<in> audience db s. namespace_roles a n \<noteq> None)"
  by (auto simp: is_skill_visible_def subject_of_row_def shared_ids_def audience_def list_ex_iff)

locale visibility_rule =
  fixes sees :: "access_db \<Rightarrow> 'v \<Rightarrow> skill_row \<Rightarrow> bool"
    and known :: "access_db \<Rightarrow> 'v \<Rightarrow> bool"
    and admin :: "access_db \<Rightarrow> 'v \<Rightarrow> bool"
    and member :: "access_db \<Rightarrow> 'v \<Rightarrow> ident \<Rightarrow> bool"
  assumes sees_iff: "known db v \<Longrightarrow>
      sees db v s \<longleftrightarrow> sk_visibility s = OrgVisible \<or> admin db v \<or> (\<exists>n \<in> audience db s. member db v n)"
    and roles_ignore_grants: "known (db\<lparr>t_grants := gs\<rparr>) v = known db v"
      "admin (db\<lparr>t_grants := gs\<rparr>) v = admin db v" "member (db\<lparr>t_grants := gs\<rparr>) v n = member db v n"
begin

lemma org_skill_seen: "known db v \<Longrightarrow> sk_visibility s = OrgVisible \<Longrightarrow> sees db v s"
  by (simp add: sees_iff)

lemma outsider_blind:
  "known db v \<Longrightarrow> sk_visibility s = NamespaceVisible \<Longrightarrow> \<not> admin db v \<Longrightarrow>
   (\<And>n. n \<in> audience db s \<Longrightarrow> \<not> member db v n) \<Longrightarrow> \<not> sees db v s"
  by (auto simp: sees_iff)

lemma covered_audience:
  assumes "known db v" and "sees db v s"
    and "sk_visibility t = OrgVisible \<or>
         (sk_visibility s = NamespaceVisible \<and> audience db s \<subseteq> audience db t)"
  shows "sees db v t"
  using assms by (auto simp: sees_iff)

lemma more_grants_keep:
  assumes "known db v" and "sees db v s" and "set (t_grants db) \<subseteq> set gs"
  shows "sees (db\<lparr>t_grants := gs\<rparr>) v s"
proof -
  have "audience db s \<subseteq> audience (db\<lparr>t_grants := gs\<rparr>) s"
    using assms(3) by (fastforce simp: audience_grants)
  then show ?thesis
    using assms(1,2) by (auto simp: sees_iff roles_ignore_grants)
qed

end

interpretation memory_rule: visibility_rule
  "\<lambda>db a s. is_skill_visible a (subject_of_row db s)" "\<lambda>db a. True"
  "\<lambda>db. is_platform_admin" "\<lambda>db a n. namespace_roles a n \<noteq> None"
  by unfold_locales (simp_all add: subject_visible_iff)

interpretation clause_rule: visibility_rule
  "\<lambda>db a s. s \<in> set (visible_rows a db [s])" "\<lambda>db a. True"
  "\<lambda>db. is_platform_admin" "\<lambda>db a n. namespace_roles a n \<noteq> None"
  by unfold_locales
    (auto simp: visible_rows_def skill_visibility_where_def visible_namespace_ids_def Let_def
      audience_bex list_ex_iff split: if_splits)

interpretation stored_user_rule: visibility_rule
  "\<lambda>db uid s. user_can_see_skill_sql uid db s" "\<lambda>db uid. True" db_admin db_member
proof
  fix db :: access_db and uid :: ident and s
  show "user_can_see_skill_sql uid db s \<longleftrightarrow>
      sk_visibility s = OrgVisible \<or> db_admin db uid \<or> (\<exists>n \<in> audience db s. db_member db uid n)"
    unfolding user_can_see_skill_sql_def db_admin_def db_member_def db_holds_def list_ex_iff
      audience_bex by blast
qed (simp_all add: db_admin_def db_member_def db_holds_def)

section \<open>Properties\<close>

text \<open>
  C10: resolution gives a user platform administration exactly when a mapping binds one of the
  user's groups to it, and in each namespace the highest role any mapping gives, independently of
  the order and the repetition of the mappings.
\<close>

theorem resolve_access_correct:
  "is_platform_admin (resolve_access G ms) = holds_admin G ms \<and>
   namespace_roles (resolve_access G ms) ns =
     (if holds_role G ms ns NamespaceAdmin then Some NamespaceAdmin
      else if holds_role G ms ns NamespaceMember then Some NamespaceMember else None) \<and>
   resolve_access G (rev (ms @ ms)) = resolve_access G ms"
proof -
  have "resolve_access G xs = resolve_access G ms" if same: "set xs = set ms" for xs
  proof (rule effective_access.equality)
    have hr: "holds_role G xs = holds_role G ms"
      by (intro ext) (simp only: holds_role_def same)
    show "is_platform_admin (resolve_access G xs) = is_platform_admin (resolve_access G ms)"
      by (simp only: resolve_access_admin holds_admin_def same)
    show "namespace_roles (resolve_access G xs) = namespace_roles (resolve_access G ms)"
      by (rule ext) (simp only: resolve_access_role hr)
  qed simp
  moreover have "set (rev (ms @ ms)) = set ms" by simp
  ultimately have "resolve_access G (rev (ms @ ms)) = resolve_access G ms" by blast
  then show ?thesis by (simp only: resolve_access_admin resolve_access_role simp_thms)
qed

text \<open>
  C4: the SQL visibility clause selects exactly the rows the in-memory decision allows, on every
  table content: listing through the clause and filtering loaded rows agree.
\<close>

theorem visibility_clause_agrees:
  "visible_rows a db skills = filter (\<lambda>s. is_skill_visible a (subject_of_row db s)) skills"
proof -
  have "visible_rows a db skills = filter (\<lambda>s. s \<in> set (visible_rows a db [s])) skills"
    by (auto simp: visible_rows_def split: option.splits intro: filter_cong)
  then show ?thesis
    by (simp add: clause_rule.sees_iff memory_rule.sees_iff)
qed

text \<open>
  C2: the SQL predicate over a stored user id is the twin of the in-memory decision on the access
  the row queries resolve for that user, for every active user of a well-formed database, when no
  bootstrap administrator group is configured.
\<close>

theorem stored_user_sql_agrees:
  assumes "wf_access_db db" and "active_user db uid"
  shows "user_can_see_skill_sql uid db s = is_skill_visible (user_access db uid None) (subject_of_row db s)"
  unfolding stored_user_rule.sees_iff [OF TrueI] memory_rule.sees_iff [OF TrueI]
    user_access_admin [OF assms] user_access_member [OF assms] ..

definition sample_db :: access_db where
  "sample_db =
     \<lparr>t_users = [\<lparr>ur_id = ''u'', ur_oid = ''ou'', ur_active = True\<rparr>, \<lparr>ur_id = ''w'', ur_oid = ''ow'', ur_active = False\<rparr>],
      t_groups = [\<lparr>gr_id = ''g'', gr_oid = ''og''\<rparr>],
      t_memberships = [\<lparr>gm_user = ''u'', gm_group = ''g''\<rparr>, \<lparr>gm_user = ''w'', gm_group = ''g''\<rparr>],
      t_mappings = [\<lparr>mr_id = ''m'', mr_namespace = Some ''n'', mr_role = NamespaceMember, mr_group = ''g''\<rparr>],
      t_grants = [\<lparr>sng_skill = ''t'', sng_namespace = ''n''\<rparr>]\<rparr>"

definition sample_skill :: skill_row where
  "sample_skill = \<lparr>sk_id = ''t'', sk_namespace = ''other'', sk_visibility = NamespaceVisible\<rparr>"

theorem stored_user_sql_agrees_witness:
  "wf_access_db sample_db \<and> active_user sample_db ''u'' \<and>
   user_can_see_skill_sql ''u'' sample_db sample_skill \<and>
   is_skill_visible (user_access sample_db ''u'' None) (subject_of_row sample_db sample_skill)"
proof -
  have wf: "wf_access_db sample_db" and act: "active_user sample_db ''u''"
    by (simp_all add: wf_access_db_def active_user_def sample_db_def)
  have "user_can_see_skill_sql ''u'' sample_db sample_skill"
    by (simp add: user_can_see_skill_sql_def sample_db_def sample_skill_def)
  then show ?thesis
    using wf act stored_user_sql_agrees [OF wf act, of sample_skill] by simp
qed

text \<open>
  a user who is not active resolves to no access at all, also when one of the user's groups is
  the bootstrap administrator group: such a user sees org-wide skills only.
\<close>

theorem inactive_user_no_access:
  assumes "\<not> active_user db uid"
  shows "\<not> is_platform_admin (user_access db uid boot) \<and>
         namespace_roles (user_access db uid boot) ns = None \<and>
         snd (access_from_rows (sql_user_groups_by_id db uid) (sql_role_mappings db) boot) = None \<and>
         is_skill_visible (user_access db uid boot) s = (vs_visibility s = OrgVisible)"
proof -
  have rows: "sql_user_groups_by_id db uid = []"
    using assms by (auto simp: sql_user_groups_by_id_def active_user_def list_ex_iff filter_empty_conv)
  have none: "resolve_access {} ms = resolve_access {} []" for ms
    by (induction ms rule: rev_induct) (simp_all add: access_step_def)
  show ?thesis
    by (simp add: user_access_def access_from_rows_def user_groups_from_rows_def rows none [of "fst _"]
        is_skill_visible_def list_ex_iff split: prod.split)
qed

theorem inactive_user_no_access_witness:
  "\<not> active_user sample_db ''w'' \<and> \<not> is_platform_admin (user_access sample_db ''w'' (Some ''og''))"
proof -
  have inact: "\<not> active_user sample_db ''w''"
    by (simp add: active_user_def sample_db_def)
  show ?thesis
    using inact inactive_user_no_access [OF inact, of "Some ''og''"] by simp
qed

text \<open>
  the twin predicate does not know the bootstrap administrator group: there is a well-formed
  database in which an active user who is a platform administrator by that group sees a restricted
  skill in memory and is denied it by the SQL predicate over the user id.
\<close>

theorem bootstrap_admin_sql_divergence:
  "\<exists>db uid s boot. wf_access_db db \<and> active_user db uid \<and>
     is_skill_visible (user_access db uid (Some boot)) (subject_of_row db s) \<and>
     \<not> user_can_see_skill_sql uid db s"
proof (intro exI conjI)
  let ?db = "sample_db\<lparr>t_mappings := []\<rparr>"
  show "wf_access_db ?db" "active_user ?db ''u''"
    by (simp_all add: wf_access_db_def active_user_def sample_db_def)
  show "\<not> user_can_see_skill_sql ''u'' ?db sample_skill"
    by (simp add: user_can_see_skill_sql_def sample_db_def sample_skill_def)
  show "is_skill_visible (user_access ?db ''u'' (Some ''og'')) (subject_of_row ?db sample_skill)"
    by (simp add: subject_visible_iff user_access_def access_from_rows_def user_groups_from_rows_def
        sql_user_groups_by_id_def left_join_groups_def left_join_membership_def sample_db_def
        js_trim_def trim_with_def is_ws_def Let_def)
qed

end
