(* ===== verification/Semver.thy ===== *)
theory Semver
  imports Prelude
begin

text \<open>
  Versions: \<open>packages/shared/src/semver.ts\<close> (parsing, precedence, the strictly-increasing check,
  the predecessor and latest resolution) and \<open>packages/shared/src/freshness.ts\<close> (the freshness
  of an installation).

  A thrown \<open>Error\<close> is an \<open>Inl\<close> value (or \<open>None\<close> for the comparison, whose only error is an
  unparseable argument). \<open>Number(s)\<close> of a digit string is a double: exact below 2 ^ 53, rounded to
  53 significant bits (ties to even) above, and Infinity from 2 ^ 1024 on.
\<close>

section \<open>Numbers\<close>

datatype jsnum = Fin nat | NumInf

fun bit_len :: "nat \<Rightarrow> nat" where
  "bit_len n = (if n = 0 then 0 else Suc (bit_len (n div 2)))"

declare bit_len.simps [simp del]

definition to_double :: "nat \<Rightarrow> jsnum" where
  "to_double n =
     (if n < 2 ^ 53 then Fin n
      else let k = bit_len n - 53; q = n div 2 ^ k; r = n mod 2 ^ k; h = 2 ^ (k - 1);
               v = (if h < r \<or> (r = h \<and> odd q) then Suc q else q) * 2 ^ k
           in if v < 2 ^ 1024 then Fin v else NumInf)"

instantiation jsnum :: linorder
begin

definition less_eq_jsnum :: "jsnum \<Rightarrow> jsnum \<Rightarrow> bool" where
  "less_eq_jsnum a b = (case b of NumInf \<Rightarrow> True | Fin y \<Rightarrow> (case a of Fin x \<Rightarrow> x \<le> y | NumInf \<Rightarrow> False))"

definition less_jsnum :: "jsnum \<Rightarrow> jsnum \<Rightarrow> bool" where
  "less_jsnum a b = (case a of NumInf \<Rightarrow> False | Fin x \<Rightarrow> (case b of Fin y \<Rightarrow> x < y | NumInf \<Rightarrow> True))"

instance
  by standard (auto simp: less_eq_jsnum_def less_jsnum_def split: jsnum.splits)

end

lemma jsnum_less_simps [simp]:
  "Fin a < Fin b \<longleftrightarrow> a < b" "Fin a < NumInf" "\<not> NumInf < x" "Fin a \<le> Fin b \<longleftrightarrow> a \<le> b" "x \<le> NumInf"
  by (auto simp: less_jsnum_def less_eq_jsnum_def split: jsnum.splits)

section \<open>Parsing\<close>

record parsed_semver =
  sv_major :: jsnum
  sv_minor :: jsnum
  sv_patch :: jsnum
  sv_pre :: "string list"

text \<open>\<open>0|[1-9]\d*\<close>\<close>

definition numeric_ident :: "string \<Rightarrow> bool" where
  "numeric_ident s = (s \<noteq> [] \<and> list_all is_digit s \<and> (s = ''0'' \<or> hd s \<noteq> CHR ''0''))"

definition ident_char :: "char \<Rightarrow> bool" where
  "ident_char c = (is_alnum c \<or> c = CHR ''-'')"

text \<open>\<open>0|[1-9]\d*|\d*[A-Za-z-][0-9A-Za-z-]*\<close>\<close>

definition pre_ident :: "string \<Rightarrow> bool" where
  "pre_ident s = (numeric_ident s \<or> (list_all ident_char s \<and> list_ex (\<lambda>c. \<not> is_digit c) s))"

definition build_ident :: "string \<Rightarrow> bool" where
  "build_ident s = (s \<noteq> [] \<and> list_all ident_char s)"

text \<open>The text before the first \<open>c\<close>, and the text after it if there is one.\<close>

definition cut_at :: "char \<Rightarrow> string \<Rightarrow> string \<times> string option" where
  "cut_at c s = (takeWhile (\<lambda>x. x \<noteq> c) s,
                 case dropWhile (\<lambda>x. x \<noteq> c) s of [] \<Rightarrow> None | _ # t \<Rightarrow> Some t)"

text \<open>
  \<open>SEMVER_RE.exec(v.trim())\<close>. The core admits digits and dots only and the prerelease no \<open>+\<close>, so
  the first \<open>+\<close> starts the build part and the first \<open>-\<close> before it the prerelease.
\<close>

definition parse_semver :: "string \<Rightarrow> parsed_semver option" where
  "parse_semver v =
     (let (rest, build) = cut_at (CHR ''+'') (js_trim v);
          (core, pre) = cut_at (CHR ''-'') rest
      in if (case pre of None \<Rightarrow> True | Some p \<Rightarrow> list_all pre_ident (split_on (CHR ''.'') p))
            \<and> (case build of None \<Rightarrow> True | Some b \<Rightarrow> list_all build_ident (split_on (CHR ''.'') b))
         then (case split_on (CHR ''.'') core of
                 [a, b, c] \<Rightarrow>
                   if numeric_ident a \<and> numeric_ident b \<and> numeric_ident c
                   then Some \<lparr>sv_major = to_double (nat_of_digits a), sv_minor = to_double (nat_of_digits b),
                              sv_patch = to_double (nat_of_digits c),
                              sv_pre = (case pre of None \<Rightarrow> [] | Some p \<Rightarrow> split_on (CHR ''.'') p)\<rparr>
                   else None
               | _ \<Rightarrow> None)
         else None)"

definition is_valid_semver :: "string \<Rightarrow> bool" where
  "is_valid_semver v = (parse_semver v \<noteq> None)"

datatype channel = Stable | Beta

definition channel_of :: "string \<Rightarrow> channel" where
  "channel_of v = (case parse_semver v of
      Some p \<Rightarrow> if sv_pre p = [] then Stable else Beta | None \<Rightarrow> Beta)"

section \<open>Precedence\<close>

text \<open>\<open>/^\d+$/\<close>\<close>

definition all_digits :: "string \<Rightarrow> bool" where
  "all_digits s = (s \<noteq> [] \<and> list_all is_digit s)"

text \<open>
  The sign of \<open>Number(x) - Number(y)\<close> as the code reads it: Infinity minus Infinity is NaN, which
  differs from 0 and is not below 0.
\<close>

fun diff_sign :: "jsnum \<Rightarrow> jsnum \<Rightarrow> int" where
  "diff_sign (Fin a) (Fin b) = (if a = b then 0 else if a < b then -1 else 1)"
| "diff_sign (Fin a) NumInf = -1"
| "diff_sign NumInf y = 1"

fun compare_pre :: "string list \<Rightarrow> string list \<Rightarrow> int" where
  "compare_pre [] [] = 0"
| "compare_pre [] (y # ys) = -1"
| "compare_pre (x # xs) [] = 1"
| "compare_pre (x # xs) (y # ys) =
     (let xn = all_digits x; yn = all_digits y in
      if xn \<and> yn then
        (let d = diff_sign (to_double (nat_of_digits x)) (to_double (nat_of_digits y))
         in if d \<noteq> 0 then d else compare_pre xs ys)
      else if xn \<noteq> yn then (if xn then -1 else 1)
      else if x \<noteq> y then (if x < y then -1 else 1)
      else compare_pre xs ys)"

definition compare_parsed :: "parsed_semver \<Rightarrow> parsed_semver \<Rightarrow> int" where
  "compare_parsed pa pb =
     (if sv_major pa \<noteq> sv_major pb then (if sv_major pa < sv_major pb then -1 else 1)
      else if sv_minor pa \<noteq> sv_minor pb then (if sv_minor pa < sv_minor pb then -1 else 1)
      else if sv_patch pa \<noteq> sv_patch pb then (if sv_patch pa < sv_patch pb then -1 else 1)
      else if sv_pre pa = [] \<and> sv_pre pb = [] then 0
      else if sv_pre pa = [] then 1
      else if sv_pre pb = [] then -1
      else compare_pre (sv_pre pa) (sv_pre pb))"

text \<open>\<open>None\<close> is the thrown \<open>compareSemver: invalid input\<close>.\<close>

definition compare_semver :: "string \<Rightarrow> string \<Rightarrow> int option" where
  "compare_semver a b =
     (case (parse_semver a, parse_semver b) of
        (Some pa, Some pb) \<Rightarrow> Some (compare_parsed pa pb)
      | _ \<Rightarrow> None)"

section \<open>Version resolution\<close>

datatype semver_error = InvalidSemver string | NotIncreasing string string | CompareInvalid

fun check_increasing :: "string \<Rightarrow> string list \<Rightarrow> semver_error + unit" where
  "check_increasing proposed [] = Inr ()"
| "check_increasing proposed (e # es) =
     (case compare_semver proposed e of
        None \<Rightarrow> Inl CompareInvalid
      | Some c \<Rightarrow> if c \<le> 0 then Inl (NotIncreasing proposed e) else check_increasing proposed es)"

definition assert_strictly_increasing :: "string \<Rightarrow> string list \<Rightarrow> semver_error + unit" where
  "assert_strictly_increasing proposed existing =
     (if \<not> is_valid_semver proposed then Inl (InvalidSemver proposed) else check_increasing proposed existing)"

fun predecessor_loop :: "string \<Rightarrow> string option \<Rightarrow> string list \<Rightarrow> semver_error + string option" where
  "predecessor_loop target best [] = Inr best"
| "predecessor_loop target best (v # vs) =
     (if \<not> is_valid_semver v then predecessor_loop target best vs
      else case compare_semver v target of
             None \<Rightarrow> Inl CompareInvalid
           | Some c \<Rightarrow>
               if c \<ge> 0 then predecessor_loop target best vs
               else (case best of
                       None \<Rightarrow> predecessor_loop target (Some v) vs
                     | Some b \<Rightarrow>
                         (case compare_semver v b of
                            None \<Rightarrow> Inl CompareInvalid
                          | Some d \<Rightarrow> predecessor_loop target (if d > 0 then Some v else Some b) vs)))"

definition resolve_predecessor :: "string \<Rightarrow> string list \<Rightarrow> semver_error + string option" where
  "resolve_predecessor target all =
     (if \<not> is_valid_semver target then Inr None else predecessor_loop target None all)"

fun reduce_latest :: "string \<Rightarrow> string list \<Rightarrow> semver_error + string" where
  "reduce_latest a [] = Inr a"
| "reduce_latest a (b # bs) =
     (case compare_semver a b of
        None \<Rightarrow> Inl CompareInvalid
      | Some c \<Rightarrow> reduce_latest (if c \<ge> 0 then a else b) bs)"

definition resolve_latest :: "string list \<Rightarrow> semver_error + string option" where
  "resolve_latest active =
     (case filter (\<lambda>v. channel_of v = Stable) active of
        [] \<Rightarrow> Inr None
      | a # bs \<Rightarrow> (case reduce_latest a bs of Inl e \<Rightarrow> Inl e | Inr v \<Rightarrow> Inr (Some v)))"

section \<open>Freshness of an installation\<close>

datatype freshness = Current | Behind | Withdrawn | Unknown

record freshness_view =
  fv_freshness :: freshness
  fv_latest :: "string option"

definition derive_freshness :: "string option \<Rightarrow> string list \<Rightarrow> semver_error + freshness_view" where
  "derive_freshness last_served active =
     (case resolve_latest (filter is_valid_semver active) of
        Inl e \<Rightarrow> Inl e
      | Inr latest \<Rightarrow>
          (case (last_served, latest) of
             (Some s, Some l) \<Rightarrow>
               if s = [] \<or> \<not> is_valid_semver s \<or> l = [] then Inr \<lparr>fv_freshness = Unknown, fv_latest = latest\<rparr>
               else if s \<notin> set active then Inr \<lparr>fv_freshness = Withdrawn, fv_latest = latest\<rparr>
               else (case compare_semver s l of
                       None \<Rightarrow> Inl CompareInvalid
                     | Some c \<Rightarrow> Inr \<lparr>fv_freshness = (if c < 0 then Behind else Current), fv_latest = latest\<rparr>)
           | _ \<Rightarrow> Inr \<lparr>fv_freshness = Unknown, fv_latest = latest\<rparr>))"

definition is_behind_latest :: "freshness \<Rightarrow> bool" where
  "is_behind_latest f = (f = Behind \<or> f = Withdrawn)"

datatype refresh_hint = Rerun | Reinstall string

definition refresh_hint_of :: "freshness \<Rightarrow> bool \<Rightarrow> string option \<Rightarrow> refresh_hint option" where
  "refresh_hint_of f pinned latest =
     (if \<not> is_behind_latest f then None
      else case latest of
             None \<Rightarrow> None
           | Some l \<Rightarrow> if l = [] then None else if pinned then Some (Reinstall l) else Some Rerun)"

section \<open>The order behind the comparison\<close>

text \<open>
  The precedence of semver as a key in a linear order: major, minor, patch; a version without
  prerelease above all its prereleases; prerelease identifiers one by one, numeric ones below
  alphanumeric ones, a longer list above its prefixes.
\<close>

definition id_key :: "string \<Rightarrow> nat \<times> jsnum \<times> string" where
  "id_key s = (if all_digits s then (0, to_double (nat_of_digits s), []) else (1, Fin 0, s))"

definition semver_key :: "parsed_semver \<Rightarrow> jsnum \<times> jsnum \<times> jsnum \<times> nat \<times> (nat \<times> jsnum \<times> string) list" where
  "semver_key p =
     (sv_major p, sv_minor p, sv_patch p, if sv_pre p = [] then 1 else 0, map id_key (sv_pre p))"

text \<open>Every numeric prerelease identifier is a finite number.\<close>

definition finite_ids :: "string list \<Rightarrow> bool" where
  "finite_ids xs = list_all (\<lambda>s. all_digits s \<longrightarrow> to_double (nat_of_digits s) \<noteq> NumInf) xs"

definition sane_version :: "string \<Rightarrow> bool" where
  "sane_version v = (case parse_semver v of None \<Rightarrow> False | Some p \<Rightarrow> finite_ids (sv_pre p))"

definition semver_cmp :: "string \<Rightarrow> string \<Rightarrow> int" where
  "semver_cmp a b = (case compare_semver a b of None \<Rightarrow> 0 | Some c \<Rightarrow> c)"

lemma cut_at_absent: "c \<notin> set s \<Longrightarrow> cut_at c s = (s, None)"
  by (induction s) (auto simp: cut_at_def)

lemma cut_at_present: "c \<notin> set a \<Longrightarrow> cut_at c (a @ c # b) = (a, Some b)"
  by (induction a) (auto simp: cut_at_def)

lemma diff_sign_ord: "x \<noteq> NumInf \<Longrightarrow> y \<noteq> NumInf \<Longrightarrow> diff_sign x y = ord_cmp x y"
  by (cases x; cases y) (auto simp: ord_cmp_def)

lemma compare_pre_key:
  "finite_ids xs \<Longrightarrow> finite_ids ys \<Longrightarrow> compare_pre xs ys = ord_cmp (map id_key xs) (map id_key ys)"
proof (induction xs ys rule: compare_pre.induct)
  case (4 x xs y ys)
  have fin: "all_digits x \<Longrightarrow> to_double (nat_of_digits x) \<noteq> NumInf"
    "all_digits y \<Longrightarrow> to_double (nat_of_digits y) \<noteq> NumInf" and rest: "finite_ids xs" "finite_ids ys"
    using "4.prems" by (auto simp: finite_ids_def)
  show ?case
  proof (cases "all_digits x \<and> all_digits y")
    case True
    then show ?thesis
      using "4.IH"(1) rest fin by (auto simp: id_key_def diff_sign_ord Let_def ord_cmp_zero)
  next
    case False
    then show ?thesis
      using "4.IH"(2) rest by (auto simp: id_key_def Let_def ord_cmp_def)
  qed
qed simp_all

lemma compare_parsed_key:
  assumes "finite_ids (sv_pre p)" "finite_ids (sv_pre q)"
  shows "compare_parsed p q = ord_cmp (semver_key p) (semver_key q)"
  unfolding compare_parsed_def semver_key_def
  using compare_pre_key [OF assms] by (auto simp: ord_cmp_def)

lemma sane_valid: "sane_version v \<Longrightarrow> is_valid_semver v"
  by (auto simp: sane_version_def is_valid_semver_def split: option.splits)

lemma sane_parse:
  assumes "sane_version v"
  obtains p where "parse_semver v = Some p" "finite_ids (sv_pre p)"
  using assms by (auto simp: sane_version_def split: option.splits)

lemma compare_semver_sane:
  "sane_version a \<Longrightarrow> sane_version b \<Longrightarrow>
   compare_semver a b = Some (ord_cmp (semver_key (the (parse_semver a))) (semver_key (the (parse_semver b))))"
  by (auto simp: sane_version_def compare_semver_def compare_parsed_key split: option.splits)

lemma compare_semver_cmp:
  "is_valid_semver a \<Longrightarrow> is_valid_semver b \<Longrightarrow> compare_semver a b = Some (semver_cmp a b)"
  by (auto simp: semver_cmp_def is_valid_semver_def compare_semver_def)

lemma semver_cmp_sane:
  "sane_version a \<Longrightarrow> sane_version b \<Longrightarrow>
   semver_cmp a b = ord_cmp (semver_key (the (parse_semver a))) (semver_key (the (parse_semver b)))"
  by (simp add: semver_cmp_def compare_semver_sane)

interpretation precedence: three_way_order sane_version semver_cmp
proof
  fix a b c
  assume "sane_version a" "sane_version b"
  then show "semver_cmp b a = - semver_cmp a b"
    by (simp only: semver_cmp_sane) (rule ord_cmp_flip)
  assume "sane_version c" "semver_cmp a b \<le> 0" "semver_cmp b c \<le> 0"
  then show "semver_cmp a c \<le> 0"
    using \<open>sane_version a\<close> \<open>sane_version b\<close>
    by (simp add: semver_cmp_sane ord_cmp_le)
qed

lemmas semver_eval =
  compare_semver_def parse_semver_def js_trim_def trim_with_def is_ws_def cut_at_def pre_ident_def
  numeric_ident_def is_digit_def ident_char_def is_alnum_def is_alpha_def is_lower_def is_upper_def
  build_ident_def nat_of_digits_def digit_val_def to_double_def compare_parsed_def all_digits_def
  channel_of_def is_valid_semver_def finite_ids_def sane_version_def semver_cmp_def Let_def

section \<open>Lemmas on resolution\<close>

lemma stable_parse:
  assumes "channel_of v = Stable"
  obtains p where "parse_semver v = Some p" "sv_pre p = []"
  using assms by (auto simp: channel_of_def split: option.splits if_splits)

lemma stable_sane: "channel_of v = Stable \<Longrightarrow> sane_version v"
  by (erule stable_parse) (simp add: sane_version_def finite_ids_def)

lemma reduce_latest_better:
  "sane_version a \<Longrightarrow> \<forall>b \<in> set bs. sane_version b \<Longrightarrow>
   reduce_latest a bs = Inr (foldl precedence.better a bs)"
  by (induction bs arbitrary: a)
    (auto simp: precedence.better_def compare_semver_cmp sane_valid)

lemma check_increasing_iff:
  "is_valid_semver v \<Longrightarrow> \<forall>e \<in> set es. is_valid_semver e \<Longrightarrow>
   check_increasing v es = Inr () \<longleftrightarrow> (\<forall>e \<in> set es. 0 < semver_cmp v e)"
  by (induction es) (auto simp: compare_semver_cmp)

lemma resolve_latest_spec:
  "case resolve_latest vs of
     Inl e \<Rightarrow> False
   | Inr None \<Rightarrow> \<forall>v \<in> set vs. channel_of v = Beta
   | Inr (Some l) \<Rightarrow> l \<in> set vs \<and> channel_of l = Stable \<and>
       (\<forall>v \<in> set vs. channel_of v = Stable \<longrightarrow> semver_cmp v l \<le> 0)"
proof (cases "filter (\<lambda>v. channel_of v = Stable) vs")
  case Nil
  then have "\<forall>v \<in> set vs. channel_of v \<noteq> Stable" by (simp add: filter_empty_conv)
  then have "\<forall>v \<in> set vs. channel_of v = Beta" using channel.exhaust by blast
  then show ?thesis using Nil by (simp add: resolve_latest_def)
next
  case (Cons a bs)
  have st: "{v \<in> set vs. channel_of v = Stable} = set (a # bs)"
    using arg_cong [OF Cons, of set] by simp
  then have "sane_version a" "\<forall>b \<in> set bs. sane_version b"
    using stable_sane by auto
  note red = reduce_latest_better [OF this] precedence.reduce_greatest [OF this]
  show ?thesis
    using red st unfolding resolve_latest_def Cons by (simp, blast)
qed

lemma predecessor_loop_inv:
  assumes "sane_version t" and "\<forall>v \<in> set vs. is_valid_semver v \<longrightarrow> sane_version v"
    and "\<And>b. best = Some b \<Longrightarrow> sane_version b \<and> semver_cmp b t < 0"
  shows "\<exists>r. predecessor_loop t best vs = Inr r \<and>
     (\<forall>b. r = Some b \<longrightarrow> (best = Some b \<or> b \<in> set vs) \<and> sane_version b \<and> semver_cmp b t < 0) \<and>
     (\<forall>v. (best = Some v \<or> (v \<in> set vs \<and> is_valid_semver v \<and> semver_cmp v t < 0)) \<longrightarrow>
        (\<exists>b. r = Some b \<and> semver_cmp v b \<le> 0))"
  using assms(2,3)
proof (induction vs arbitrary: best)
  case Nil
  then show ?case by (auto simp: precedence.self)
next
  case (Cons v vs)
  show ?case
  proof (cases "is_valid_semver v \<and> semver_cmp v t < 0")
    case False
    then have "predecessor_loop t best (v # vs) = predecessor_loop t best vs"
      using assms(1) by (auto simp: compare_semver_cmp sane_valid)
    then show ?thesis using Cons.IH [of best] Cons.prems False by auto
  next
    case True
    then have sv: "sane_version v" using Cons.prems(1) by simp
    let ?n = "case best of None \<Rightarrow> v | Some b \<Rightarrow> if semver_cmp v b > 0 then v else b"
    have step: "predecessor_loop t best (v # vs) = predecessor_loop t (Some ?n) vs"
      using True assms(1) Cons.prems(2)
      by (auto simp: compare_semver_cmp sane_valid split: option.split)
    have n: "sane_version ?n" "semver_cmp ?n t < 0" "best = Some ?n \<or> ?n = v" "semver_cmp v ?n \<le> 0"
      "\<And>b. best = Some b \<Longrightarrow> semver_cmp b ?n \<le> 0"
      using True sv Cons.prems(2) precedence.self precedence.flip [of v "the best"]
      by (auto split: option.split)
    obtain r where r: "predecessor_loop t (Some ?n) vs = Inr r"
      "\<forall>b. r = Some b \<longrightarrow> (Some ?n = Some b \<or> b \<in> set vs) \<and> sane_version b \<and> semver_cmp b t < 0"
      "\<forall>w. (Some ?n = Some w \<or> (w \<in> set vs \<and> is_valid_semver w \<and> semver_cmp w t < 0)) \<longrightarrow>
        (\<exists>b. r = Some b \<and> semver_cmp w b \<le> 0)"
      using Cons.IH [of "Some ?n"] Cons.prems(1) n(1,2) by auto
    from r(3) obtain b where b: "r = Some b" "semver_cmp ?n b \<le> 0" by blast
    then have sb: "sane_version b" using r(2) by blast
    have "semver_cmp v b \<le> 0" "\<And>c. best = Some c \<Longrightarrow> semver_cmp c b \<le> 0"
      using precedence.chain [OF sv n(1) sb n(4) b(2)]
        precedence.chain [OF _ n(1) sb n(5) b(2)] Cons.prems(2) by blast+
    then show ?thesis using step r b n(3) by auto
  qed
qed

section \<open>Numbers beyond the doubles\<close>

lemma bit_len_lower: "0 < n \<Longrightarrow> 2 ^ (bit_len n - 1) \<le> n"
proof (induction n rule: bit_len.induct)
  case (1 n)
  show ?case
  proof (cases "n div 2 = 0")
    case True
    with "1.prems" show ?thesis by (simp add: bit_len.simps [of n] bit_len.simps [of 0])
  next
    case False
    with 1 have "2 * 2 ^ (bit_len (n div 2) - 1) \<le> n" by simp
    moreover have "bit_len (n div 2) = Suc (bit_len (n div 2) - 1)"
      using False by (subst bit_len.simps) (simp add: bit_len.simps [of "n div 2"])
    ultimately show ?thesis
      using "1.prems" by (simp add: bit_len.simps [of n]) (metis power_Suc)
  qed
qed

lemma to_double_huge:
  assumes "2 ^ 1024 \<le> n"
  shows "to_double n = NumInf"
proof -
  let ?k = "bit_len n - 53"
  have "2 ^ 1024 \<le> n div 2 ^ ?k * 2 ^ ?k"
  proof (cases "?k \<le> 1024")
    case True
    then have "(2::nat) ^ 1024 = 2 ^ (1024 - ?k) * 2 ^ ?k" by (simp flip: power_add)
    moreover have "2 ^ (1024 - ?k) \<le> n div 2 ^ ?k"
      using div_le_mono [OF assms, of "2 ^ ?k"] True by (simp add: power_diff)
    ultimately show ?thesis by (metis mult_le_mono1)
  next
    case False
    have "0 < n" using assms by (rule less_le_trans [rotated]) simp
    then have "(2::nat) ^ (bit_len n - 1) \<le> n" by (rule bit_len_lower)
    moreover have "(2::nat) ^ ?k \<le> 2 ^ (bit_len n - 1)" by (intro power_increasing) auto
    ultimately have "(2::nat) ^ ?k \<le> n" by (rule le_trans [rotated])
    then have "1 \<le> n div 2 ^ ?k" by (simp add: Suc_leI div_greater_zero_iff)
    moreover have "(2::nat) ^ 1024 \<le> 2 ^ ?k" using False by (intro power_increasing) auto
    ultimately show ?thesis by (metis le_trans mult_le_mono1 nat_mult_1)
  qed
  then have "2 ^ 1024 \<le> (if b then Suc (n div 2 ^ ?k) else n div 2 ^ ?k) * 2 ^ ?k" for b
    by (auto intro: le_trans)
  moreover have "\<not> n < 2 ^ 53"
    using assms power_increasing [of 53 1024 "2::nat"] by simp
  ultimately show ?thesis by (simp only: to_double_def Let_def if_False linorder_not_less [symmetric] not_not)
qed

section \<open>Properties\<close>



text \<open>
  the strictly-increasing check accepts a version exactly when it is above every existing one,
  and rejects a malformed version with its own error whatever exists.
\<close>

theorem assert_strictly_increasing_correct:
  assumes "\<forall>e \<in> set existing. is_valid_semver e"
  shows "(assert_strictly_increasing v existing = Inr () \<longleftrightarrow>
            is_valid_semver v \<and> (\<forall>e \<in> set existing. 0 < semver_cmp v e)) \<and>
         (assert_strictly_increasing v existing = Inl (InvalidSemver v) \<longleftrightarrow> \<not> is_valid_semver v)"
proof -
  have "check_increasing v es \<noteq> Inl (InvalidSemver v)" for es
    by (induction es) (auto split: option.splits)
  then show ?thesis
    using check_increasing_iff [of v existing] assms by (auto simp: assert_strictly_increasing_def)
qed

theorem assert_strictly_increasing_correct_witness:
  "is_valid_semver ''1.0.0'' \<and> is_valid_semver ''1.1.0-rc.1'' \<and>
   assert_strictly_increasing ''1.1.0'' [''1.0.0'', ''1.1.0-rc.1''] = Inr () \<and>
   assert_strictly_increasing ''1.01.0'' [''1.0.0'', ''1.1.0-rc.1''] = Inl (InvalidSemver ''1.01.0'')"
proof -
  have h: "\<forall>e \<in> set [''1.0.0'', ''1.1.0-rc.1'']. is_valid_semver e"
    by (simp add: semver_eval)
  have "is_valid_semver ''1.1.0''" "\<not> is_valid_semver ''1.01.0''"
    "\<forall>e \<in> set [''1.0.0'', ''1.1.0-rc.1'']. 0 < semver_cmp ''1.1.0'' e"
    by (simp_all add: semver_eval)
  then show ?thesis
    using h assert_strictly_increasing_correct [OF h] by auto
qed

text \<open>
  A publication history: each version was accepted by the check against all the earlier ones
  (newest first).
\<close>

inductive version_history :: "string list \<Rightarrow> bool" where
  history_empty: "version_history []"
| history_publish: "version_history vs \<Longrightarrow> assert_strictly_increasing v vs = Inr () \<Longrightarrow> version_history (v # vs)"

inductive_cases version_history_ConsE: "version_history (v # vs)"

text \<open>
  a history built through the check is strictly decreasing from the newest version to the
  oldest, so no version is published twice and every prefix order of publication is the precedence
  order.
\<close>

theorem version_history_sorted:
  assumes "version_history vs"
  shows "(\<forall>v \<in> set vs. is_valid_semver v) \<and> sorted_wrt (\<lambda>a b. 0 < semver_cmp a b) vs"
  using assms
proof (induction rule: version_history.induct)
  case history_empty
  then show ?case by simp
next
  case (history_publish vs v)
  then show ?case
    using check_increasing_iff [of v vs] by (auto simp: assert_strictly_increasing_def split: if_splits)
qed

theorem version_history_sorted_witness:
  "version_history [''1.1.0'', ''1.1.0-rc.1''] \<and> 0 < semver_cmp ''1.1.0'' ''1.1.0-rc.1''"
proof -
  have h: "version_history [''1.1.0'', ''1.1.0-rc.1'']"
    by (intro version_history.intros) (simp_all add: assert_strictly_increasing_def semver_eval)
  show ?thesis using h version_history_sorted [OF h] by simp
qed

text \<open>
  the latest version never errors: it is the greatest of the stable versions, and there is none
  exactly when every active version is a beta.
\<close>

theorem resolve_latest_greatest_stable:
  "case resolve_latest vs of
     Inl e \<Rightarrow> False
   | Inr None \<Rightarrow> \<forall>v \<in> set vs. channel_of v = Beta
   | Inr (Some l) \<Rightarrow> l \<in> set vs \<and> channel_of l = Stable \<and>
       (\<forall>v \<in> set vs. channel_of v = Stable \<longrightarrow> semver_cmp v l \<le> 0)"
  by (rule resolve_latest_spec)

theorem resolve_latest_greatest_stable_witness:
  "resolve_latest [''1.0.0'', ''1.2.0-rc.1'', ''1.1.0''] = Inr (Some ''1.1.0'') \<and>
   semver_cmp ''1.0.0'' ''1.1.0'' \<le> 0"
proof -
  have l: "resolve_latest [''1.0.0'', ''1.2.0-rc.1'', ''1.1.0''] = Inr (Some ''1.1.0'')"
    by (simp add: resolve_latest_def semver_eval)
  have "channel_of ''1.0.0'' = Stable" by (simp add: semver_eval)
  then show ?thesis
    using l resolve_latest_greatest_stable [of "[''1.0.0'', ''1.2.0-rc.1'', ''1.1.0'']"] by simp
qed

text \<open>
  the predecessor of a version is the greatest of the parseable versions strictly below it,
  whatever their channel, and there is none exactly when nothing parseable is below.
\<close>

theorem resolve_predecessor_greatest_below:
  assumes "sane_version t" and "\<forall>v \<in> set vs. is_valid_semver v \<longrightarrow> sane_version v"
  shows "\<exists>r. resolve_predecessor t vs = Inr r \<and>
     (\<forall>b. r = Some b \<longrightarrow> b \<in> set vs \<and> semver_cmp b t < 0) \<and>
     (\<forall>v \<in> set vs. is_valid_semver v \<and> semver_cmp v t < 0 \<longrightarrow> (\<exists>b. r = Some b \<and> semver_cmp v b \<le> 0))"
proof -
  obtain r where "predecessor_loop t None vs = Inr r"
    "\<forall>b. r = Some b \<longrightarrow> b \<in> set vs \<and> sane_version b \<and> semver_cmp b t < 0"
    "\<forall>v. v \<in> set vs \<and> is_valid_semver v \<and> semver_cmp v t < 0 \<longrightarrow> (\<exists>b. r = Some b \<and> semver_cmp v b \<le> 0)"
    using predecessor_loop_inv [OF assms, of None] by auto
  then show ?thesis
    using sane_valid [OF assms(1)] by (intro exI [of _ r]) (auto simp: resolve_predecessor_def)
qed

theorem resolve_predecessor_greatest_below_witness:
  "sane_version ''1.2.0'' \<and>
   (\<exists>b. resolve_predecessor ''1.2.0'' [''1.0.0'', ''1.2.0-rc.1'', ''x'', ''2.0.0''] = Inr (Some b) \<and>
        semver_cmp b ''1.2.0'' < 0 \<and> semver_cmp ''1.0.0'' b \<le> 0)"
proof -
  let ?vs = "[''1.0.0'', ''1.2.0-rc.1'', ''x'', ''2.0.0'']"
  have t: "sane_version ''1.2.0''" by (simp add: semver_eval)
  have vs: "\<forall>v \<in> set ?vs. is_valid_semver v \<longrightarrow> sane_version v" by (simp add: semver_eval)
  have below: "''1.0.0'' \<in> set ?vs" "is_valid_semver ''1.0.0''" "semver_cmp ''1.0.0'' ''1.2.0'' < 0"
    by (simp_all add: semver_eval)
  from resolve_predecessor_greatest_below [OF t vs] obtain r where
    r: "resolve_predecessor ''1.2.0'' ?vs = Inr r"
    "\<forall>b. r = Some b \<longrightarrow> b \<in> set ?vs \<and> semver_cmp b ''1.2.0'' < 0"
    "\<forall>v \<in> set ?vs. is_valid_semver v \<and> semver_cmp v ''1.2.0'' < 0 \<longrightarrow> (\<exists>b. r = Some b \<and> semver_cmp v b \<le> 0)"
    by (elim exE conjE) (rule that; assumption)
  then obtain b where "r = Some b" "semver_cmp ''1.0.0'' b \<le> 0" using below by blast
  then show ?thesis using t r by blast
qed

text \<open>
  an installation's freshness is always determined; it counts as behind exactly when a valid
  served version is no longer active or is below the latest stable one, and exactly then a refresh
  is suggested.
\<close>

theorem derive_freshness_correct:
  "\<exists>v. derive_freshness served active = Inr v \<and>
     (is_behind_latest (fv_freshness v) \<longleftrightarrow>
        (\<exists>s l. served = Some s \<and> fv_latest v = Some l \<and> is_valid_semver s \<and>
               (s \<notin> set active \<or> semver_cmp s l < 0))) \<and>
     (refresh_hint_of (fv_freshness v) pinned (fv_latest v) \<noteq> None \<longleftrightarrow> is_behind_latest (fv_freshness v)) \<and>
     Inr (fv_latest v) = resolve_latest (filter is_valid_semver active)"
proof -
  have ne: "\<not> is_valid_semver []" by (simp add: semver_eval)
  show ?thesis
  proof (cases "resolve_latest (filter is_valid_semver active)")
    case (Inl e)
    then show ?thesis using resolve_latest_spec [of "filter is_valid_semver active"] by simp
  next
    case (Inr latest)
    show ?thesis
    proof (cases latest)
      case None
      then show ?thesis using Inr
        by (auto simp: derive_freshness_def is_behind_latest_def refresh_hint_of_def split: option.splits)
    next
      case (Some l)
      then have l: "is_valid_semver l"
        using resolve_latest_spec [of "filter is_valid_semver active"] Inr by simp
      then have "l \<noteq> []" using ne by blast
      then show ?thesis using Inr Some l ne
        by (cases served)
          (auto simp: derive_freshness_def is_behind_latest_def refresh_hint_of_def compare_semver_cmp
            split: option.splits)
    qed
  qed
qed

theorem derive_freshness_correct_witness:
  "\<exists>v. derive_freshness (Some ''1.0.0'') [''2.0.0'', ''1.5.0''] = Inr v \<and>
     fv_latest v = Some ''2.0.0'' \<and> is_behind_latest (fv_freshness v) \<and>
     refresh_hint_of (fv_freshness v) True (fv_latest v) \<noteq> None"
proof -
  obtain v where v: "derive_freshness (Some ''1.0.0'') [''2.0.0'', ''1.5.0''] = Inr v"
    "is_behind_latest (fv_freshness v) \<longleftrightarrow>
        (\<exists>s l. Some ''1.0.0'' = Some s \<and> fv_latest v = Some l \<and> is_valid_semver s \<and>
               (s \<notin> set [''2.0.0'', ''1.5.0''] \<or> semver_cmp s l < 0))"
    "(refresh_hint_of (fv_freshness v) True (fv_latest v) \<noteq> None) = is_behind_latest (fv_freshness v)"
    "Inr (fv_latest v) = resolve_latest (filter is_valid_semver [''2.0.0'', ''1.5.0''])"
    using derive_freshness_correct [of "Some ''1.0.0''" "[''2.0.0'', ''1.5.0'']" True]
    by (elim exE conjE) (rule that; assumption)
  have "resolve_latest (filter is_valid_semver [''2.0.0'', ''1.5.0'']) = Inr (Some ''2.0.0'')"
    by (simp add: resolve_latest_def semver_eval)
  moreover have "is_valid_semver ''1.0.0''" by (simp add: semver_eval)
  ultimately show ?thesis using v by (intro exI [of _ v]) auto
qed

text \<open>
  a numeric prerelease identifier of 2 ^ 1024 or more breaks the comparison: the version is
  reported greater than itself, so the strictly-increasing check accepts publishing it twice.
\<close>

theorem huge_identifier_self_compare:
  assumes "parse_semver v = Some p" and "sv_pre p = [s]" and "all_digits s" and "2 ^ 1024 \<le> nat_of_digits s"
  shows "compare_semver v v = Some 1 \<and> assert_strictly_increasing v [v] = Inr () \<and> \<not> sane_version v"
proof -
  have inf: "to_double (nat_of_digits s) = NumInf" by (rule to_double_huge [OF assms(4)])
  then have "compare_parsed p p = 1"
    by (simp add: compare_parsed_def assms(2,3) Let_def)
  then show ?thesis
    using assms inf
    by (simp add: compare_semver_def assert_strictly_increasing_def is_valid_semver_def
        sane_version_def finite_ids_def)
qed

definition huge_digits :: string where
  "huge_digits = CHR ''1'' # replicate 309 (CHR ''0'')"

lemma nat_of_zeros: "foldl (\<lambda>a c. 10 * a + digit_val c) m (replicate k (CHR ''0'')) = m * 10 ^ k"
  by (induction k arbitrary: m) (simp_all add: digit_val_def)

theorem huge_identifier_self_compare_witness:
  "compare_semver (''1.0.0-'' @ huge_digits) (''1.0.0-'' @ huge_digits) = Some 1"
proof -
  let ?v = "''1.0.0-'' @ huge_digits"
  have digits: "list_all is_digit huge_digits" "huge_digits \<noteq> []"
    by (simp_all add: huge_digits_def is_digit_def list_all_iff)
  then have clean: "\<forall>c \<in> set ?v. \<not> is_ws c" "CHR ''+'' \<notin> set ?v" "CHR ''.'' \<notin> set huge_digits"
    by (auto simp: huge_digits_def is_ws_def Let_def)
  have "parse_semver ?v = Some \<lparr>sv_major = Fin 1, sv_minor = Fin 0, sv_patch = Fin 0, sv_pre = [huge_digits]\<rparr>"
  proof -
    have "js_trim ?v = ?v" unfolding js_trim_def by (rule trim_with_id [OF clean(1)])
    moreover have "cut_at (CHR ''+'') ?v = (?v, None)"
      by (rule cut_at_absent [OF clean(2)])
    moreover have "cut_at (CHR ''-'') ?v = (''1.0.0'', Some huge_digits)"
      by (simp add: cut_at_def)
    moreover have "split_on (CHR ''.'') huge_digits = [huge_digits]"
      by (rule split_on_no_sep [OF clean(3)])
    moreover have "pre_ident huge_digits"
      using digits by (simp add: pre_ident_def numeric_ident_def) (simp add: huge_digits_def)
    ultimately show ?thesis
      by (simp add: parse_semver_def numeric_ident_def is_digit_def nat_of_digits_def digit_val_def to_double_def)
  qed
  moreover have "nat_of_digits huge_digits = 10 ^ 309"
    unfolding nat_of_digits_def huge_digits_def foldl.simps nat_of_zeros by (simp add: digit_val_def)
  then have "2 ^ 1024 \<le> nat_of_digits huge_digits" by simp
  moreover have "all_digits huge_digits" using digits by (simp add: all_digits_def)
  ultimately show ?thesis using huge_identifier_self_compare [of ?v _ huge_digits] by simp
qed
end
