(* ===== verification/Proposal.thy ===== *)
theory Proposal
  imports Prelude
begin

text \<open>
  The proposal and review state machine of \<open>packages/shared/src/proposal.ts\<close>: the transition
  table, \<open>nextState\<close>, \<open>canPerform\<close>, and \<open>reviewTurn\<close> of \<open>review-target.ts\<close>. On top of the
  decision function an inductive step relation gives the histories of a proposal: which actor
  performed which action, from the state it is created in.
\<close>

section \<open>The transition table\<close>

datatype proposal_state = Proposed | UnderReview | ChangesRequested | Accepted | Rejected

datatype proposal_action = StartReview | RequestChanges | Resubmit | Revise | Accept | Reject

datatype actor_kind = ReviewerActor | ProposerActor

text \<open>\<open>Same\<close> is the in-place target \<open>"same"\<close>.\<close>

datatype rule_target = To proposal_state | Same

record transition_rule =
  tr_from :: "proposal_state list"
  tr_to :: rule_target
  tr_actor :: actor_kind

fun transitions :: "proposal_action \<Rightarrow> transition_rule" where
  "transitions StartReview =
     \<lparr>tr_from = [Proposed, ChangesRequested], tr_to = To UnderReview, tr_actor = ReviewerActor\<rparr>"
| "transitions RequestChanges =
     \<lparr>tr_from = [UnderReview], tr_to = To ChangesRequested, tr_actor = ReviewerActor\<rparr>"
| "transitions Resubmit =
     \<lparr>tr_from = [ChangesRequested], tr_to = To UnderReview, tr_actor = ProposerActor\<rparr>"
| "transitions Revise =
     \<lparr>tr_from = [Proposed, UnderReview], tr_to = Same, tr_actor = ProposerActor\<rparr>"
| "transitions Accept =
     \<lparr>tr_from = [UnderReview], tr_to = To Accepted, tr_actor = ReviewerActor\<rparr>"
| "transitions Reject =
     \<lparr>tr_from = [Proposed, UnderReview, ChangesRequested], tr_to = To Rejected, tr_actor = ReviewerActor\<rparr>"

definition terminal_states :: "proposal_state list" where
  "terminal_states = [Accepted, Rejected]"

definition is_terminal :: "proposal_state \<Rightarrow> bool" where
  "is_terminal s = (s \<in> set terminal_states)"

definition next_state :: "proposal_action \<Rightarrow> proposal_state \<Rightarrow> proposal_state option" where
  "next_state a from =
     (let rule = transitions a in
      if from \<notin> set (tr_from rule) then None
      else Some (case tr_to rule of Same \<Rightarrow> from | To s \<Rightarrow> s))"

section \<open>Who may act\<close>

record actor_caps =
  is_reviewer :: bool
  is_submitter :: bool

text \<open>The texts of the states and the actions, as the reasons quote them.\<close>

fun state_text :: "proposal_state \<Rightarrow> string" where
  "state_text Proposed = ''proposed''"
| "state_text UnderReview = ''under_review''"
| "state_text ChangesRequested = ''changes_requested''"
| "state_text Accepted = ''accepted''"
| "state_text Rejected = ''rejected''"

fun action_text :: "proposal_action \<Rightarrow> string" where
  "action_text StartReview = ''start_review''"
| "action_text RequestChanges = ''request_changes''"
| "action_text Resubmit = ''resubmit''"
| "action_text Revise = ''revise''"
| "action_text Accept = ''accept''"
| "action_text Reject = ''reject''"

definition quoted :: "string \<Rightarrow> string" where
  "quoted s = [CHR 0x27] @ s @ [CHR 0x27]"

text \<open>\<open>PerformResult\<close>: the reason on the left, the target state on the right.\<close>

definition can_perform :: "proposal_action \<Rightarrow> proposal_state \<Rightarrow> actor_caps \<Rightarrow> string + proposal_state" where
  "can_perform a from caps =
     (if is_terminal from then Inl (''proposal is in terminal state '' @ quoted (state_text from))
      else case next_state a from of
        None \<Rightarrow> Inl (''cannot '' @ quoted (action_text a) @ '' from '' @ quoted (state_text from))
      | Some to \<Rightarrow>
          if tr_actor (transitions a) = ReviewerActor \<and> \<not> is_reviewer caps
          then Inl ''reviewer role required''
          else if tr_actor (transitions a) = ProposerActor \<and> \<not> is_submitter caps
          then Inl (''only the proposer may '' @ action_text a)
          else Inr to)"

datatype review_turn = ReviewersTurn | ProposersTurn

definition review_turn_of :: "proposal_state \<Rightarrow> review_turn option" where
  "review_turn_of s =
     (if s = Proposed \<or> s = UnderReview then Some ReviewersTurn
      else if s = ChangesRequested then Some ProposersTurn
      else None)"

section \<open>Facts of the table\<close>

lemma next_state_cases:
  "next_state a from = Some to \<longleftrightarrow>
     (a = StartReview \<and> (from = Proposed \<or> from = ChangesRequested) \<and> to = UnderReview) \<or>
     (a = RequestChanges \<and> from = UnderReview \<and> to = ChangesRequested) \<or>
     (a = Resubmit \<and> from = ChangesRequested \<and> to = UnderReview) \<or>
     (a = Revise \<and> (from = Proposed \<or> from = UnderReview) \<and> to = from) \<or>
     (a = Accept \<and> from = UnderReview \<and> to = Accepted) \<or>
     (a = Reject \<and> (from = Proposed \<or> from = UnderReview \<or> from = ChangesRequested) \<and> to = Rejected)"
  by (cases a) (auto simp: next_state_def split: if_splits)

lemma next_state_terminal [simp]: "is_terminal from \<Longrightarrow> next_state a from = None"
  by (cases "next_state a from") (auto simp: next_state_cases is_terminal_def terminal_states_def)

lemma can_perform_ok_iff:
  "can_perform a from caps = Inr to \<longleftrightarrow>
     next_state a from = Some to \<and>
     (case tr_actor (transitions a) of ReviewerActor \<Rightarrow> is_reviewer caps | ProposerActor \<Rightarrow> is_submitter caps)"
  by (cases "is_terminal from")
     (auto simp: can_perform_def split: option.splits actor_kind.splits)

section \<open>Histories of a proposal\<close>

text \<open>
  An event is an action with the capabilities of the caller at that moment. \<open>history s es t\<close>: the
  events \<open>es\<close>, in order, take the proposal from \<open>s\<close> to \<open>t\<close>, each allowed by \<open>can_perform\<close>.
\<close>

inductive review_step :: "proposal_state \<Rightarrow> proposal_action \<times> actor_caps \<Rightarrow> proposal_state \<Rightarrow> bool" where
  act: "can_perform a s caps = Inr t \<Longrightarrow> review_step s (a, caps) t"

inductive history :: "proposal_state \<Rightarrow> (proposal_action \<times> actor_caps) list \<Rightarrow> proposal_state \<Rightarrow> bool" where
  start: "history s [] s"
| extend: "history s es t \<Longrightarrow> review_step t e u \<Longrightarrow> history s (es @ [e]) u"

inductive_simps review_step_iff: "review_step s (a, caps) t"
inductive_cases history_nilE: "history s [] t"
inductive_cases history_snocE: "history s (es @ [e]) t"

lemma terminal_no_step: "is_terminal s \<Longrightarrow> \<not> review_step s e t"
  by (cases e) (simp add: review_step_iff can_perform_ok_iff)

lemma terminal_absorbing: "history s es t \<Longrightarrow> is_terminal s \<Longrightarrow> es = [] \<and> t = s"
  by (induction rule: history.induct) (auto simp: terminal_no_step)

lemma history_append: "history t fs u \<Longrightarrow> history s es t \<Longrightarrow> history s (es @ fs) u"
proof (induction rule: history.induct)
  case (start t)
  then show ?case by simp
next
  case (extend t fs u e v)
  then show ?case using history.extend [of s "es @ fs" u e v] by simp
qed

text \<open>The histories are exactly the runs of the decision function.\<close>

fun run_actions :: "proposal_state \<Rightarrow> (proposal_action \<times> actor_caps) list \<Rightarrow> proposal_state option" where
  "run_actions s [] = Some s"
| "run_actions s ((a, c) # es) = (case can_perform a s c of Inl r \<Rightarrow> None | Inr t \<Rightarrow> run_actions t es)"

lemma run_actions_append:
  "run_actions s (es @ fs) = (case run_actions s es of None \<Rightarrow> None | Some t \<Rightarrow> run_actions t fs)"
  by (induction s es rule: run_actions.induct) (auto split: sum.splits)

lemma history_run: "history s es t \<longleftrightarrow> run_actions s es = Some t"
proof
  assume "history s es t"
  then show "run_actions s es = Some t"
    by (induction rule: history.induct) (auto simp: run_actions_append elim: review_step.cases)
next
  assume "run_actions s es = Some t"
  then show "history s es t"
  proof (induction s es rule: run_actions.induct)
    case (1 s)
    then show ?case by (simp add: history.start)
  next
    case (2 s a c es)
    then obtain u where u: "can_perform a s c = Inr u" "run_actions u es = Some t"
      by (auto split: sum.splits)
    have one: "history s [(a, c)] u"
      using history.extend [OF history.start, of s "(a, c)" u] u(1) by (simp add: review_step_iff)
    show ?case using history_append [OF "2.IH" [OF u] one] by simp
  qed
qed

text \<open>
  Once a proposal has left \<open>proposed\<close> without being rejected, a reviewer has started its review;
  a return to \<open>proposed\<close> is impossible.
\<close>

lemma started_by_reviewer:
  assumes "history Proposed es s" and "s \<in> {UnderReview, ChangesRequested, Accepted}"
  shows "\<exists>pre c post. es = pre @ (StartReview, c) # post \<and> is_reviewer c \<and> history Proposed pre Proposed"
  using assms
proof (induction Proposed es s rule: history.induct)
  case start
  then show ?case by simp
next
  case (extend es t e u)
  obtain a c where e: "e = (a, c)" by (cases e)
  with extend have step: "can_perform a t c = Inr u" by (simp add: review_step_iff)
  show ?case
  proof (cases "t \<in> {UnderReview, ChangesRequested, Accepted}")
    case True
    then obtain pre c' post where
      "es = pre @ (StartReview, c') # post" "is_reviewer c'" "history Proposed pre Proposed"
      using extend.hyps(2) by blast
    then show ?thesis by (intro exI [of _ pre] exI [of _ c'] exI [of _ "post @ [e]"]) simp
  next
    case False
    with step extend.prems have "a = StartReview" "t = Proposed" "is_reviewer c"
      by (auto simp: can_perform_ok_iff next_state_cases)
    then show ?thesis using e extend.hyps(1) by (intro exI [of _ es] exI [of _ c] exI [of _ "[]"]) simp
  qed
qed

lemma accepted_by_reviewer:
  assumes "history s es Accepted" and "s \<noteq> Accepted"
  shows "\<exists>mid c. es = mid @ [(Accept, c)] \<and> is_reviewer c \<and> history s mid UnderReview"
  using assms(1)
proof (cases rule: history.cases)
  case start
  then show ?thesis using assms(2) by simp
next
  case (extend mid t e)
  obtain a c where e: "e = (a, c)" by (cases e)
  with extend have "can_perform a t c = Inr Accepted" by (simp add: review_step_iff)
  then have "a = Accept \<and> t = UnderReview \<and> is_reviewer c"
    by (auto simp: can_perform_ok_iff next_state_cases)
  with extend e show ?thesis by auto
qed

section \<open>Properties\<close>

text \<open>
  C7: A proposal is accepted only after a reviewer has started its review while it was \<open>proposed\<close>,
  and by a reviewer acting as the very last event, from \<open>under_review\<close>; the submitter alone can
  never bring it there.
\<close>

theorem accepted_only_after_review:
  assumes "history Proposed es Accepted"
  shows "\<exists>pre c1 mid c2. es = pre @ (StartReview, c1) # mid @ [(Accept, c2)] \<and>
           is_reviewer c1 \<and> is_reviewer c2 \<and>
           history Proposed pre Proposed \<and> history Proposed (pre @ (StartReview, c1) # mid) UnderReview"
proof -
  obtain m c2 where m: "es = m @ [(Accept, c2)]" "is_reviewer c2" "history Proposed m UnderReview"
    using accepted_by_reviewer [OF assms] by auto
  obtain pre c1 mid where "m = pre @ (StartReview, c1) # mid" "is_reviewer c1" "history Proposed pre Proposed"
    using started_by_reviewer [OF m(3)] by blast
  with m show ?thesis by auto
qed

theorem accepted_only_after_review_witness:
  defines "r \<equiv> \<lparr>is_reviewer = True, is_submitter = False\<rparr>"
    and "p \<equiv> \<lparr>is_reviewer = False, is_submitter = True\<rparr>"
  shows "\<exists>pre c1 mid c2.
     [(Revise, p), (StartReview, r), (RequestChanges, r), (Resubmit, p), (Accept, r)]
       = pre @ (StartReview, c1) # mid @ [(Accept, c2)] \<and> is_reviewer c1 \<and> is_reviewer c2"
proof -
  have "history Proposed [(Revise, p), (StartReview, r), (RequestChanges, r), (Resubmit, p), (Accept, r)] Accepted"
    by (simp add: history_run r_def p_def can_perform_def is_terminal_def terminal_states_def next_state_def)
  from accepted_only_after_review [OF this] show ?thesis by blast
qed

text \<open>
  Whenever the state machine lets a caller act, the proposal is open; a decided proposal never
  changes again, an open one can always still be rejected by a reviewer, and it is somebody's turn
  exactly while the proposal is open.
\<close>

theorem decided_proposals_final:
  "(can_perform a s c = Inr t \<longrightarrow> \<not> is_terminal s) \<and>
   (is_terminal s \<longrightarrow> history s es u \<longrightarrow> es = [] \<and> u = s) \<and>
   (\<not> is_terminal s \<longrightarrow> history s [(Reject, \<lparr>is_reviewer = True, is_submitter = b\<rparr>)] Rejected) \<and>
   (review_turn_of s = None \<longleftrightarrow> is_terminal s)"
proof (intro conjI impI)
  assume "\<not> is_terminal s"
  then have "can_perform Reject s \<lparr>is_reviewer = True, is_submitter = b\<rparr> = Inr Rejected"
    by (cases s) (simp_all add: can_perform_ok_iff next_state_cases is_terminal_def terminal_states_def)
  then show "history s [(Reject, \<lparr>is_reviewer = True, is_submitter = b\<rparr>)] Rejected"
    using history.extend [OF history.start, of s _ Rejected] by (simp add: review_step_iff)
next
  show "review_turn_of s = None \<longleftrightarrow> is_terminal s"
    by (cases s) (simp_all add: review_turn_of_def is_terminal_def terminal_states_def)
qed (auto simp: can_perform_def terminal_absorbing)

theorem decided_proposals_final_witness:
  "history Accepted [] Accepted \<and> is_terminal Accepted \<and>
   history UnderReview [(Reject, \<lparr>is_reviewer = True, is_submitter = False\<rparr>)] Rejected \<and>
   can_perform Accept UnderReview \<lparr>is_reviewer = True, is_submitter = False\<rparr> = Inr Accepted"
proof -
  have t: "is_terminal Accepted" "\<not> is_terminal UnderReview"
    by (simp_all add: is_terminal_def terminal_states_def)
  have "can_perform Accept UnderReview \<lparr>is_reviewer = True, is_submitter = False\<rparr> = Inr Accepted"
    by (simp add: can_perform_ok_iff next_state_cases)
  then show ?thesis
    using decided_proposals_final [of Accept UnderReview "\<lparr>is_reviewer = True, is_submitter = False\<rparr>" Accepted "[]" UnderReview False]
      decided_proposals_final [of Accept Accepted "\<lparr>is_reviewer = True, is_submitter = False\<rparr>" Accepted "[]" Accepted False]
      t history.start by auto
qed

end
