(* ===== verification/ReviewTarget.thy ===== *)
theory ReviewTarget
  imports Rbac Proposal
begin

text \<open>
  Review targets and assignments: \<open>packages/shared/src/review-target.ts\<close>. Business time
  (\<open>addBusinessDays\<close>, \<open>businessMsBetween\<close>, \<open>businessDaysBetween\<close>), the due pill with its label
  and tone, and the reviewer pool \<open>reviewerIdsSql\<close>.

  A \<open>Date\<close> is its time value in milliseconds, an unbounded integer here; the time values of
  JavaScript end at 8.64e15 in both directions, and beyond that the functions of the source give an
  invalid date. \<open>Math.floor(x / k)\<close> of an integer is \<open>x div k\<close>.
\<close>

section \<open>Business time\<close>

definition DAY_MS :: int where
  "DAY_MS = 86400000"

text \<open>\<open>getUTCDay\<close>: 1 January 1970 was a Thursday, day 4 of the week that starts with Sunday = 0.\<close>

definition utc_dow :: "instant \<Rightarrow> int" where
  "utc_dow t = (t div DAY_MS + 4) mod 7"

definition is_weekend :: "instant \<Rightarrow> bool" where
  "is_weekend t = (utc_dow t = 6 \<or> utc_dow t = 0)"

definition roll_weekend :: "instant \<Rightarrow> instant" where
  "roll_weekend t =
     (if is_weekend t then t div DAY_MS * DAY_MS + (if utc_dow t = 6 then 2 else 1) * DAY_MS else t)"

definition next_business_day :: "instant \<Rightarrow> instant" where
  "next_business_day t = (if utc_dow (t + DAY_MS) = 6 then t + DAY_MS + 2 * DAY_MS else t + DAY_MS)"

text \<open>\<open>n % 5\<close> is not positive for a negative \<open>n\<close>, so the loop does not run.\<close>

definition add_business_days :: "instant \<Rightarrow> int \<Rightarrow> instant" where
  "add_business_days start n =
     (next_business_day ^^ nat (if n < 0 then 0 else n mod 5)) (roll_weekend start + n div 5 * 7 * DAY_MS)"

function business_loop :: "instant \<Rightarrow> instant \<Rightarrow> instant \<Rightarrow> int \<Rightarrow> int" where
  "business_loop lo hi day sum_ms =
     (if day < hi
      then business_loop lo hi (day + DAY_MS)
             (if utc_dow day = 0 \<or> utc_dow day = 6 then sum_ms
              else sum_ms + (min hi (day + DAY_MS) - max lo day))
      else sum_ms)"
  by pat_completeness auto
termination by (relation "measure (\<lambda>(lo, hi, day, sum_ms). nat (hi - day))") (auto simp: DAY_MS_def)

declare business_loop.simps [simp del]

definition business_ms_between :: "instant \<Rightarrow> instant \<Rightarrow> int" where
  "business_ms_between a b = (if b \<le> a then 0 else business_loop a b (a div DAY_MS * DAY_MS) 0)"

definition business_days_between :: "instant \<Rightarrow> instant \<Rightarrow> int" where
  "business_days_between a b = business_ms_between a b div DAY_MS"

section \<open>The due pill\<close>

datatype due_pill = Due int | DueToday | Overdue int

definition due_pill_of :: "instant \<Rightarrow> instant \<Rightarrow> due_pill" where
  "due_pill_of due_at now =
     (if now < due_at
      then (let left = business_days_between now due_at in if left \<ge> 1 then Due left else DueToday)
      else Overdue (business_days_between due_at now))"

definition show_int :: "int \<Rightarrow> string" where
  "show_int i = (if i < 0 then ''-'' @ show_nat (nat (- i)) else show_nat (nat i))"

fun due_pill_label :: "due_pill \<Rightarrow> string" where
  "due_pill_label (Due d) = ''Due in '' @ show_int d @ ''d''"
| "due_pill_label DueToday = ''Due today''"
| "due_pill_label (Overdue d) = (if d \<ge> 1 then ''Overdue '' @ show_int d @ ''d'' else ''Overdue'')"

datatype pill_tone = Muted | Warn | Danger

fun due_pill_tone :: "due_pill \<Rightarrow> pill_tone" where
  "due_pill_tone (Due d) = Muted"
| "due_pill_tone DueToday = Warn"
| "due_pill_tone (Overdue d) = Danger"

section \<open>The business clock\<close>

text \<open>
  The abstract specification of business time: a clock that advances with real time on weekdays and
  stands still on weekends. \<open>week_clock x\<close> is what it shows \<open>x\<close> milliseconds after a Sunday
  midnight.
\<close>

definition week_clock :: "int \<Rightarrow> int" where
  "week_clock x = min (max (x - DAY_MS) 0) (5 * DAY_MS)"

definition business_clock :: "instant \<Rightarrow> int" where
  "business_clock t =
     (let x = t + 4 * DAY_MS in x div (7 * DAY_MS) * (5 * DAY_MS) + week_clock (x mod (7 * DAY_MS)))"

lemma day_split:
  obtains w d r where "t = (7 * w + d - 4) * DAY_MS + r" "0 \<le> d" "d < 7" "0 \<le> r" "r < DAY_MS"
proof (rule that)
  let ?n = "t div DAY_MS + 4"
  show "t = (7 * (?n div 7) + ?n mod 7 - 4) * DAY_MS + t mod DAY_MS" by simp
qed (simp_all add: DAY_MS_def)

lemma clock_at:
  assumes "0 \<le> d" "d < 7" "0 \<le> r" "r < DAY_MS"
  shows "utc_dow ((7 * w + d - 4) * DAY_MS + r) = d"
    and "((7 * w + d - 4) * DAY_MS + r) div DAY_MS = 7 * w + d - 4"
    and "business_clock ((7 * w + d - 4) * DAY_MS + r) = w * (5 * DAY_MS) + week_clock (d * DAY_MS + r)"
proof -
  have div: "((7 * w + d - 4) * DAY_MS + r) div DAY_MS = 7 * w + d - 4"
    using assms by (simp add: DAY_MS_def)
  then show "((7 * w + d - 4) * DAY_MS + r) div DAY_MS = 7 * w + d - 4" .
  show "utc_dow ((7 * w + d - 4) * DAY_MS + r) = d"
    using assms by (simp add: utc_dow_def div)
  have x: "(7 * w + d - 4) * DAY_MS + r + 4 * DAY_MS = (d * DAY_MS + r) + w * (7 * DAY_MS)"
    by (simp add: algebra_simps)
  have b: "0 \<le> d * DAY_MS + r" "d * DAY_MS + r < 7 * DAY_MS"
    using assms by (auto simp: DAY_MS_def)
  have "(d * DAY_MS + r + w * (7 * DAY_MS)) div (7 * DAY_MS) = w"
    "(d * DAY_MS + r + w * (7 * DAY_MS)) mod (7 * DAY_MS) = d * DAY_MS + r"
    using b by (simp_all add: DAY_MS_def)
  then show "business_clock ((7 * w + d - 4) * DAY_MS + r) = w * (5 * DAY_MS) + week_clock (d * DAY_MS + r)"
    by (simp add: business_clock_def Let_def x)
qed

lemma weekday_cases: "0 \<le> (d::int) \<Longrightarrow> d < 7 \<Longrightarrow> d \<in> {0, 1, 2, 3, 4, 5, 6}"
  by auto

lemma business_clock_day:
  assumes "day = n * DAY_MS" "day \<le> t" "t \<le> day + DAY_MS"
  shows "business_clock t = business_clock day + (if utc_dow day = 0 \<or> utc_dow day = 6 then 0 else t - day)"
proof -
  define w d where "w = (n + 4) div 7" and "d = (n + 4) mod 7"
  have d: "0 \<le> d" "d < 7" by (simp_all add: d_def)
  have day: "day = (7 * w + d - 4) * DAY_MS + 0"
    using assms(1) by (simp add: w_def d_def)
  have dd: "d \<in> {0, 1, 2, 3, 4, 5, 6}" using weekday_cases [OF d] .
  show ?thesis
  proof (cases "t = day + DAY_MS")
    case False
    then have r: "0 \<le> t - day" "t - day < DAY_MS" using assms by auto
    have "business_clock t = w * (5 * DAY_MS) + week_clock (d * DAY_MS + (t - day))"
      using clock_at(3) [OF d r, of w] day by simp
    moreover have "utc_dow day = d" "business_clock day = w * (5 * DAY_MS) + week_clock (d * DAY_MS)"
      using clock_at(1,3) [OF d, of 0 w] day by (simp_all add: DAY_MS_def)
    ultimately show ?thesis using dd r by (auto simp: week_clock_def DAY_MS_def)
  next
    case True
    have base: "utc_dow day = d" "business_clock day = w * (5 * DAY_MS) + week_clock (d * DAY_MS)"
      using clock_at(1,3) [OF d, of 0 w] day by (simp_all add: DAY_MS_def)
    show ?thesis
    proof (cases "d = 6")
      case d6: True
      have "t = (7 * (w + 1) + 0 - 4) * DAY_MS + 0" using True day d6 by (simp add: algebra_simps)
      then have "business_clock t = (w + 1) * (5 * DAY_MS) + week_clock 0"
        using clock_at(3) [of 0 0 "w + 1"] by (simp add: DAY_MS_def)
      then show ?thesis using base d6 True by (simp add: week_clock_def DAY_MS_def)
    next
      case False
      then have d1: "0 \<le> d + 1" "d + 1 < 7" using d by auto
      have "t = (7 * w + (d + 1) - 4) * DAY_MS + 0" using True day by (simp add: algebra_simps)
      then have "business_clock t = w * (5 * DAY_MS) + week_clock ((d + 1) * DAY_MS)"
        using clock_at(3) [OF d1, of 0 w] by (simp add: DAY_MS_def)
      then show ?thesis using base dd False True by (auto simp: week_clock_def DAY_MS_def)
    qed
  qed
qed

lemma business_loop_clock:
  assumes "day = n * DAY_MS" "lo < day + DAY_MS" "lo < hi"
  shows "business_loop lo hi day acc =
           acc + (if day < hi then business_clock hi - business_clock (max lo day) else 0)"
  using assms
proof (induction lo hi day acc arbitrary: n rule: business_loop.induct)
  case (1 lo hi day acc)
  show ?case
  proof (cases "day < hi")
    case False
    then show ?thesis by (simp add: business_loop.simps)
  next
    case True
    let ?e = "min hi (day + DAY_MS)" and ?b = "max lo day"
    let ?acc = "if utc_dow day = 0 \<or> utc_dow day = 6 then acc else acc + (?e - ?b)"
    have pos: "0 < DAY_MS" by (simp add: DAY_MS_def)
    have e: "business_clock ?e = business_clock day + (if utc_dow day = 0 \<or> utc_dow day = 6 then 0 else ?e - day)"
      by (rule business_clock_day [OF "1.prems"(1)]) (use True pos in auto)
    have b: "business_clock ?b = business_clock day + (if utc_dow day = 0 \<or> utc_dow day = 6 then 0 else ?b - day)"
      by (rule business_clock_day [OF "1.prems"(1)]) (use "1.prems"(2) pos in auto)
    have chunk: "?acc = acc + (business_clock ?e - business_clock ?b)"
      by (simp add: e b)
    have nextd: "day + DAY_MS = (n + 1) * DAY_MS" "lo < day + DAY_MS + DAY_MS"
      using "1.prems" pos by (simp_all add: algebra_simps)
    have "business_loop lo hi day acc = business_loop lo hi (day + DAY_MS) ?acc"
      using True by (simp add: business_loop.simps [of lo hi day])
    also have "\<dots> = ?acc + (if day + DAY_MS < hi
                   then business_clock hi - business_clock (max lo (day + DAY_MS)) else 0)"
      by (rule "1.IH" [OF True nextd "1.prems"(3)])
    also have "\<dots> = acc + (business_clock hi - business_clock ?b)"
      unfolding chunk using "1.prems"(2) by (cases "day + DAY_MS < hi") (simp_all add: max_absorb2 min_def)
    finally show ?thesis using True by simp
  qed
qed

lemma business_ms_clock:
  "business_ms_between a b = (if b \<le> a then 0 else business_clock b - business_clock a)"
proof -
  have *: "a div DAY_MS * DAY_MS \<le> a" "a < a div DAY_MS * DAY_MS + DAY_MS"
    by (simp_all add: DAY_MS_def)
  then show ?thesis
    using business_loop_clock [of "a div DAY_MS * DAY_MS" "a div DAY_MS" a b 0]
    by (auto simp: business_ms_between_def max_absorb1)
qed

lemma roll_weekend_clock:
  "business_clock (roll_weekend t) = business_clock t \<and> \<not> is_weekend (roll_weekend t) \<and> t \<le> roll_weekend t"
proof -
  obtain w d r where t: "t = (7 * w + d - 4) * DAY_MS + r" and d: "0 \<le> d" "d < 7" and r: "0 \<le> r" "r < DAY_MS"
    by (rule day_split)
  note at = clock_at [OF d r, of w, folded t]
  have mon: "utc_dow ((7 * v + 1 - 4) * DAY_MS) = 1 \<and>
      business_clock ((7 * v + 1 - 4) * DAY_MS) = v * (5 * DAY_MS)" for v
    using clock_at [of 1 0 v] by (simp add: week_clock_def DAY_MS_def)
  consider "d = 0" | "d = 6" | "d \<in> {1, 2, 3, 4, 5}" using weekday_cases [OF d] by blast
  then show ?thesis
  proof cases
    case 1
    then have roll: "roll_weekend t = (7 * w + 1 - 4) * DAY_MS"
      by (simp add: roll_weekend_def is_weekend_def at(1,2)) (simp add: algebra_simps)
    then show ?thesis unfolding roll using mon [of w] at 1 r t
      by (simp add: is_weekend_def week_clock_def DAY_MS_def)
  next
    case 2
    then have roll: "roll_weekend t = (7 * (w + 1) + 1 - 4) * DAY_MS"
      by (simp add: roll_weekend_def is_weekend_def at(1,2)) (simp add: algebra_simps)
    then show ?thesis unfolding roll using mon [of "w + 1"] at 2 r t
      by (simp add: is_weekend_def week_clock_def DAY_MS_def)
  next
    case 3
    then have "\<not> is_weekend t" using at by (auto simp: is_weekend_def)
    then show ?thesis by (simp add: roll_weekend_def)
  qed
qed

lemma add_weeks_clock:
  "business_clock (t + k * 7 * DAY_MS) = business_clock t + k * 5 * DAY_MS \<and>
   is_weekend (t + k * 7 * DAY_MS) = is_weekend t"
proof -
  obtain w d r where t: "t = (7 * w + d - 4) * DAY_MS + r" and d: "0 \<le> d" "d < 7" and r: "0 \<le> r" "r < DAY_MS"
    by (rule day_split)
  have u: "t + k * 7 * DAY_MS = (7 * (w + k) + d - 4) * DAY_MS + r"
    by (simp add: t algebra_simps)
  show ?thesis
    unfolding u using clock_at [OF d r, of "w + k"] clock_at [OF d r, of w, folded t]
    by (simp add: is_weekend_def algebra_simps)
qed

lemma next_business_day_clock:
  assumes "\<not> is_weekend t"
  shows "business_clock (next_business_day t) = business_clock t + DAY_MS \<and> \<not> is_weekend (next_business_day t)"
proof -
  obtain w d r where t: "t = (7 * w + d - 4) * DAY_MS + r" and d: "0 \<le> d" "d < 7" and r: "0 \<le> r" "r < DAY_MS"
    by (rule day_split)
  note at = clock_at [OF d r, of w, folded t]
  have dd: "d \<in> {1, 2, 3, 4, 5}"
    using weekday_cases [OF d] assms at(1) by (auto simp: is_weekend_def)
  have succ: "t + DAY_MS = (7 * w + (d + 1) - 4) * DAY_MS + r" by (simp add: t algebra_simps)
  have d1: "0 \<le> d + 1" "d + 1 < 7" using dd by auto
  note at1 = clock_at [OF d1 r, of w, folded succ]
  show ?thesis
  proof (cases "d = 5")
    case True
    have three: "t + DAY_MS + 2 * DAY_MS = (7 * (w + 1) + 1 - 4) * DAY_MS + r"
      using True by (simp add: t algebra_simps)
    note at3 = clock_at [of 1 r "w + 1", folded three]
    show ?thesis using True at at1 at3 r
      by (simp add: next_business_day_def is_weekend_def week_clock_def DAY_MS_def)
  next
    case False
    then have "d + 1 \<in> {2, 3, 4, 5}" using dd by auto
    then have n: "next_business_day t = t + DAY_MS" "\<not> is_weekend (t + DAY_MS)"
      using at1(1) by (auto simp: next_business_day_def is_weekend_def)
    have "week_clock (x * DAY_MS + r) = (x - 1) * DAY_MS + r" if "x \<in> {1, 2, 3, 4, 5}" for x
      using that r by (auto simp: week_clock_def DAY_MS_def)
    from this [of d] this [of "d + 1"] show ?thesis
      using dd \<open>d + 1 \<in> {2, 3, 4, 5}\<close> n at(3) at1(3) by (simp add: algebra_simps)
  qed
qed

lemma next_business_days_clock:
  assumes "\<not> is_weekend t"
  shows "business_clock ((next_business_day ^^ k) t) = business_clock t + int k * DAY_MS \<and>
         \<not> is_weekend ((next_business_day ^^ k) t)"
proof (induction k)
  case (Suc k)
  then show ?case using next_business_day_clock [of "(next_business_day ^^ k) t"]
    by (simp add: algebra_simps)
qed (use assms in simp)

lemma add_business_days_clock:
  assumes "0 \<le> n"
  shows "business_clock (add_business_days t n) = business_clock t + n * DAY_MS \<and>
         \<not> is_weekend (add_business_days t n)"
proof -
  let ?u = "roll_weekend t + n div 5 * 7 * DAY_MS"
  have u: "business_clock ?u = business_clock t + n div 5 * 5 * DAY_MS" "\<not> is_weekend ?u"
    using add_weeks_clock [of "roll_weekend t" "n div 5"] roll_weekend_clock [of t] by simp_all
  have n: "int (nat (n mod 5)) = n mod 5" by simp
  have "n div 5 * 5 * DAY_MS + n mod 5 * DAY_MS = n * DAY_MS"
    unfolding distrib_right [symmetric] by simp
  then show ?thesis
    using next_business_days_clock [OF u(2), of "nat (n mod 5)"] u(1) assms n
    by (simp add: add_business_days_def)
qed

lemma business_clock_mono: "a \<le> b \<Longrightarrow> business_clock a \<le> business_clock b"
proof -
  have step: "week_clock x \<le> week_clock y" if "x \<le> y" for x y
    using that by (simp add: week_clock_def)
  have bound: "0 \<le> week_clock x" "week_clock x \<le> 5 * DAY_MS" for x
    by (simp_all add: week_clock_def DAY_MS_def)
  assume "a \<le> b"
  let ?x = "a + 4 * DAY_MS" and ?y = "b + 4 * DAY_MS" and ?W = "7 * DAY_MS"
  have le: "?x div ?W \<le> ?y div ?W" using \<open>a \<le> b\<close> by (intro zdiv_mono1) (simp_all add: DAY_MS_def)
  show ?thesis
  proof (cases "?x div ?W = ?y div ?W")
    case True
    have m: "v mod ?W = v - ?W * (v div ?W)" for v by (rule minus_mult_div_eq_mod [symmetric])
    have "?x mod ?W \<le> ?y mod ?W" unfolding m [of ?x] m [of ?y] True using \<open>a \<le> b\<close> by simp
    then show ?thesis using True step by (simp add: business_clock_def Let_def)
  next
    case False
    then have "(?x div ?W + 1) * (5 * DAY_MS) \<le> ?y div ?W * (5 * DAY_MS)"
      using le by (intro mult_right_mono) (simp_all add: DAY_MS_def)
    then show ?thesis
      using bound(2) [of "?x mod ?W"] bound(1) [of "?y mod ?W"]
      by (simp add: business_clock_def Let_def algebra_simps)
  qed
qed

lemma add_business_days_later: "0 \<le> n \<Longrightarrow> 0 < n \<Longrightarrow> t < add_business_days t n"
  using add_business_days_clock [of n t] business_clock_mono [of "add_business_days t n" t]
  by (cases "t < add_business_days t n") (simp_all add: DAY_MS_def)

section \<open>The reviewer pool\<close>

text \<open>
  \<open>reviewerIdsSql\<close> is a query over \<open>users\<close>, \<open>role_mappings\<close>, \<open>group_memberships\<close> and \<open>groups\<close>.
  \<open>erased uid\<close> is the column \<open>erased_at\<close> of \<open>users\<close>, \<open>boot\<close> the bound object id of the bootstrap
  group, null when not configured. The three subqueries are unioned and \<open>in\<close> tests membership.
\<close>

datatype reviewer_scope = AllReviewers | NamespaceReviewers | PlatformReviewers

definition namespace_admin_ids :: "access_db \<Rightarrow> ident \<Rightarrow> ident list" where
  "namespace_admin_ids db ns =
     concat (map (\<lambda>rm. map gm_user (filter (\<lambda>gm. gm_group gm = mr_group rm) (t_memberships db)))
       (filter (\<lambda>rm. mr_role rm = NamespaceAdmin \<and> mr_namespace rm = Some ns) (t_mappings db)))"

definition platform_admin_ids :: "access_db \<Rightarrow> ident list" where
  "platform_admin_ids db =
     concat (map (\<lambda>rm. map gm_user (filter (\<lambda>gm. gm_group gm = mr_group rm) (t_memberships db)))
       (filter (\<lambda>rm. mr_role rm = PlatformAdmin) (t_mappings db)))"

definition bootstrap_ids :: "access_db \<Rightarrow> ident option \<Rightarrow> ident list" where
  "bootstrap_ids db boot =
     (case boot of None \<Rightarrow> []
      | Some b \<Rightarrow> concat (map (\<lambda>g. map gm_user (filter (\<lambda>gm. gm_group gm = gr_id g) (t_memberships db)))
                    (filter (\<lambda>g. gr_oid g = b) (t_groups db))))"

definition reviewer_ids ::
  "reviewer_scope \<Rightarrow> (ident \<Rightarrow> instant option) \<Rightarrow> access_db \<Rightarrow> ident \<Rightarrow> ident option \<Rightarrow> ident list" where
  "reviewer_ids who erased db ns boot =
     (let pool = (if who \<noteq> PlatformReviewers then namespace_admin_ids db ns else []) @
                 (if who \<noteq> NamespaceReviewers then platform_admin_ids db @ bootstrap_ids db boot else [])
      in map ur_id (filter (\<lambda>u. ur_active u \<and> erased (ur_id u) = None \<and> ur_id u \<in> set pool) (t_users db)))"

lemma namespace_admin_ids_iff: "u \<in> set (namespace_admin_ids db ns) \<longleftrightarrow> db_holds db u NamespaceAdmin (Some ns)"
  by (force simp: namespace_admin_ids_def db_holds_def)

lemma platform_admin_ids_iff: "u \<in> set (platform_admin_ids db) \<longleftrightarrow> db_admin db u"
  by (force simp: platform_admin_ids_def db_admin_def db_holds_def)

lemma bootstrap_ids_iff:
  "u \<in> set (bootstrap_ids db (Some b)) \<longleftrightarrow>
     (\<exists>gm \<in> set (t_memberships db). gm_user gm = u \<and>
        (\<exists>g \<in> set (t_groups db). gr_id g = gm_group gm \<and> gr_oid g = b))"
  by (force simp: bootstrap_ids_def)

lemma user_access_ns_admin:
  assumes wf: "wf_access_db db" and act: "active_user db uid"
  shows "namespace_roles (user_access db uid boot) ns = Some NamespaceAdmin \<longleftrightarrow>
           db_holds db uid NamespaceAdmin (Some ns)"
proof -
  have "namespace_roles (user_access db uid boot) = namespace_roles (user_access db uid None)"
    by (simp add: user_access_def access_from_rows_def Let_def split: prod.split)
  then show ?thesis
    using mapping_applies [OF assms, of NamespaceAdmin "Some ns"]
    by (simp add: user_access_None resolve_access_role holds_role_def)
qed

lemma user_access_boot_admin:
  assumes wf: "wf_access_db db" and act: "active_user db uid" and trimmed: "\<And>b. boot = Some b \<Longrightarrow> js_trim b = b"
  shows "is_platform_admin (user_access db uid boot) \<longleftrightarrow> db_admin db uid \<or> uid \<in> set (bootstrap_ids db boot)"
proof (cases boot)
  case None
  then show ?thesis using user_access_admin [OF wf act] by (simp add: bootstrap_ids_def)
next
  case (Some b)
  let ?G = "snd (user_groups_from_rows (sql_user_groups_by_id db uid))"
  have G: "b \<in> ?G \<longleftrightarrow> uid \<in> set (bootstrap_ids db (Some b))"
    using act unfolding user_group_set [OF wf] bootstrap_ids_iff by simp
  have ne: "[] \<notin> ?G" by (simp add: user_groups_snd)
  have "is_platform_admin (user_access db uid (Some b)) \<longleftrightarrow>
      (b \<noteq> [] \<and> b \<in> ?G) \<or> is_platform_admin (user_access db uid None)"
    using trimmed [OF Some]
    by (simp add: user_access_None) (simp add: user_access_def access_from_rows_def Let_def split: prod.split)
  then show ?thesis using user_access_admin [OF wf act] G ne Some by auto
qed

section \<open>Properties\<close>

text \<open>
  Business time measures what the target promises: the instant \<open>n\<close> business days after a start lies
  on a weekday, exactly \<open>n\<close> whole business days of business time after the start, the pill of a
  proposal that starts its turn now shows the whole target, and business time is additive.
\<close>

theorem business_days_measure:
  assumes "0 < n"
  shows "business_ms_between t (add_business_days t n) = n * DAY_MS \<and>
         business_days_between t (add_business_days t n) = n \<and>
         \<not> is_weekend (add_business_days t n) \<and>
         due_pill_of (add_business_days t n) t = Due n \<and>
         due_pill_of (add_business_days t n) (add_business_days t n) = Overdue 0"
proof -
  have later: "t < add_business_days t n" using add_business_days_later [of n t] assms by simp
  have ms: "business_ms_between t (add_business_days t n) = n * DAY_MS"
    using add_business_days_clock [of n t] assms later by (simp add: business_ms_clock)
  then have d: "business_days_between t (add_business_days t n) = n"
    by (simp add: business_days_between_def DAY_MS_def)
  show ?thesis
    using ms d later assms add_business_days_clock [of n t]
    by (simp add: due_pill_of_def Let_def) (simp add: business_days_between_def business_ms_between_def)
qed

theorem business_days_measure_witness:
  "(0::int) < 3 \<and> business_ms_between 1000 (add_business_days 1000 3) = 3 * DAY_MS"
  using business_days_measure [of 3 1000] by simp

text \<open>
  The day loop of \<open>businessMsBetween\<close> computes the difference of a monotone business clock: it is
  never negative, additive over adjacent intervals, never more than the real time elapsed, and zero
  inside a weekend.
\<close>

theorem business_ms_is_clock_difference:
  assumes "a \<le> b" and "b \<le> c"
  shows "business_ms_between a b = business_clock b - business_clock a \<and>
         0 \<le> business_ms_between a b \<and>
         business_ms_between a c = business_ms_between a b + business_ms_between b c \<and>
         business_ms_between b a = 0"
  using assms business_clock_mono [of a b] business_clock_mono [of b c]
  by (auto simp: business_ms_clock antisym)

theorem business_ms_is_clock_difference_witness:
  "(0::int) \<le> 5 \<and> (5::int) \<le> 10 \<and>
   business_ms_between 0 10 = business_ms_between 0 5 + business_ms_between 5 10"
  using business_ms_is_clock_difference [of 0 5 10] by simp

text \<open>
  The reviewer pool of a namespace is exactly the set of the active, not erased users whose resolved
  access lets them review there; the platform pool, those who resolve to platform administration.
\<close>

theorem reviewer_pool_is_authorized:
  assumes wf: "wf_access_db db" and act: "active_user db uid" and trimmed: "\<And>b. boot = Some b \<Longrightarrow> js_trim b = b"
  shows "(uid \<in> set (reviewer_ids AllReviewers erased db ns boot) \<longleftrightarrow>
           erased uid = None \<and> can_review_namespace (user_access db uid boot) ns) \<and>
         (uid \<in> set (reviewer_ids PlatformReviewers erased db ns boot) \<longleftrightarrow>
           erased uid = None \<and> is_platform_admin (user_access db uid boot))"
proof (intro conjI)
  have u: "(\<exists>u \<in> set (t_users db). ur_active u \<and> ur_id u = uid)"
    using act by (auto simp: active_user_def list_ex_iff)
  have adm: "is_platform_admin (user_access db uid boot) \<longleftrightarrow> db_admin db uid \<or> uid \<in> set (bootstrap_ids db boot)"
    by (rule user_access_boot_admin [OF wf act]) (rule trimmed)
  show "uid \<in> set (reviewer_ids AllReviewers erased db ns boot) \<longleftrightarrow>
      erased uid = None \<and> can_review_namespace (user_access db uid boot) ns"
    unfolding can_review_namespace_def adm user_access_ns_admin [OF wf act]
    using u by (fastforce simp: reviewer_ids_def Let_def namespace_admin_ids_iff platform_admin_ids_iff)
  show "uid \<in> set (reviewer_ids PlatformReviewers erased db ns boot) \<longleftrightarrow>
      erased uid = None \<and> is_platform_admin (user_access db uid boot)"
    unfolding adm
    using u by (fastforce simp: reviewer_ids_def Let_def platform_admin_ids_iff)
qed

theorem reviewer_pool_is_authorized_witness:
  "wf_access_db sample_db \<and> active_user sample_db ''u'' \<and>
   ''u'' \<in> set (reviewer_ids AllReviewers (\<lambda>_. None) sample_db ''n'' (Some ''og'')) \<and>
   can_review_namespace (user_access sample_db ''u'' (Some ''og'')) ''n''"
proof -
  have wf: "wf_access_db sample_db" and act: "active_user sample_db ''u''"
    by (simp_all add: wf_access_db_def active_user_def sample_db_def)
  have tr: "\<And>b. Some ''og'' = Some b \<Longrightarrow> js_trim b = b"
    by (auto simp: js_trim_def trim_with_def is_ws_def Let_def)
  have "''u'' \<in> set (reviewer_ids AllReviewers (\<lambda>_. None) sample_db ''n'' (Some ''og''))"
    by (simp add: reviewer_ids_def namespace_admin_ids_def platform_admin_ids_def bootstrap_ids_def
        sample_db_def Let_def)
  then show ?thesis
    using wf act reviewer_pool_is_authorized [OF wf act tr, where erased = "\<lambda>_. None" and ns = "''n''"] by blast
qed

end
