(* ===== verification/Policy.thy ===== *)
theory Policy
  imports Prelude
begin

text \<open>
  Policy rules: \<open>packages/shared/src/policy.ts\<close>. The rule-text validator, the accept gate and its
  trip reasons, the override authority, the direct-publish route and the derived status of a
  published version.
\<close>

section \<open>Types\<close>

datatype policy_scope = PlatformScope | NamespaceScope

datatype policy_rule_state = Shadow | Enforced | Disabled

datatype policy_outcome = Complies | NotApplicable | Uncertain | Violates

datatype policy_verdict_status = VerdictPending | VerdictDone | VerdictFailed

section \<open>Rule validation\<close>

definition POLICY_TITLE_MAX :: nat where "POLICY_TITLE_MAX = 80"
definition POLICY_BODY_MAX :: nat where "POLICY_BODY_MAX = 1000"
definition POLICY_CONTEXT_MAX :: nat where "POLICY_CONTEXT_MAX = 4000"

record policy_rule_text =
  pt_title :: string
  pt_body :: string
  pt_context :: "string option"

datatype policy_text_error = TitleRequired | TitleTooLong | BodyRequired | BodyTooLong | ContextTooLong

text \<open>An input that is not a string is \<open>None\<close> and cleans to the empty string.\<close>

definition clean_text :: "string option \<Rightarrow> string" where
  "clean_text v = (case v of None \<Rightarrow> [] | Some s \<Rightarrow> js_trim (unify_newlines s))"

definition validate_policy_rule_text ::
  "string option \<Rightarrow> string option \<Rightarrow> string option \<Rightarrow> policy_text_error + policy_rule_text" where
  "validate_policy_rule_text t b c =
     (let title = collapse_ws (clean_text t); body = clean_text b; ctx = clean_text c in
      if title = [] then Inl TitleRequired
      else if length title > POLICY_TITLE_MAX then Inl TitleTooLong
      else if body = [] then Inl BodyRequired
      else if length body > POLICY_BODY_MAX then Inl BodyTooLong
      else if length ctx > POLICY_CONTEXT_MAX then Inl ContextTooLong
      else Inr \<lparr>pt_title = title, pt_body = body, pt_context = (if ctx = [] then None else Some ctx)\<rparr>)"

definition policy_title_key :: "string \<Rightarrow> string" where
  "policy_title_key title = js_lower (collapse_ws (js_trim title))"

section \<open>The gate\<close>

record policy_gate_rule =
  pr_id :: ident
  pr_scope :: policy_scope
  pr_state :: policy_rule_state
  pr_revision :: ident
  pr_title :: string

record policy_gate_result =
  pg_rule :: ident
  pg_revision :: ident
  pg_outcome :: policy_outcome

record policy_gate_verdict =
  pv_status :: policy_verdict_status
  pv_results :: "policy_gate_result list"

datatype policy_trip_reason = TripViolates | TripPending | TripOff | TripUnavailable | TripSkipped | TripFailed | TripStale

datatype policy_no_verdict = NoVerdictPending | NoVerdictOff | NoVerdictUnavailable | NoVerdictSkipped

fun no_verdict_trip :: "policy_no_verdict \<Rightarrow> policy_trip_reason" where
  "no_verdict_trip NoVerdictPending = TripPending"
| "no_verdict_trip NoVerdictOff = TripOff"
| "no_verdict_trip NoVerdictUnavailable = TripUnavailable"
| "no_verdict_trip NoVerdictSkipped = TripSkipped"

record policy_trip =
  tp_rule :: ident
  tp_title :: string
  tp_scope :: policy_scope
  tp_reason :: policy_trip_reason

definition mk_trip :: "policy_gate_rule \<Rightarrow> policy_trip_reason \<Rightarrow> policy_trip" where
  "mk_trip r why = \<lparr>tp_rule = pr_id r, tp_title = pr_title r, tp_scope = pr_scope r, tp_reason = why\<rparr>"

definition enforced_rules :: "policy_gate_rule list \<Rightarrow> policy_gate_rule list" where
  "enforced_rules rules = filter (\<lambda>r. pr_state r = Enforced) rules"

definition current_result :: "policy_gate_verdict \<Rightarrow> policy_gate_rule \<Rightarrow> policy_gate_result option" where
  "current_result v r = find (\<lambda>x. pg_rule x = pr_id r \<and> pg_revision x = pr_revision r) (pv_results v)"

fun done_trips :: "policy_gate_verdict \<Rightarrow> policy_gate_rule list \<Rightarrow> policy_trip list" where
  "done_trips v [] = []"
| "done_trips v (r # rs) =
     (case current_result v r of
        None \<Rightarrow> mk_trip r TripStale # done_trips v rs
      | Some res \<Rightarrow> if pg_outcome res = Violates then mk_trip r TripViolates # done_trips v rs
                    else done_trips v rs)"

definition policy_gate_trips ::
  "policy_gate_rule list \<Rightarrow> policy_gate_verdict option \<Rightarrow> policy_no_verdict \<Rightarrow> policy_trip list" where
  "policy_gate_trips rules verdict no_verdict =
     (let enf = enforced_rules rules in
      if enf = [] then []
      else case verdict of
        None \<Rightarrow> map (\<lambda>r. mk_trip r (no_verdict_trip no_verdict)) enf
      | Some v \<Rightarrow>
          if pv_status v = VerdictPending then map (\<lambda>r. mk_trip r TripPending) enf
          else if pv_status v = VerdictFailed then map (\<lambda>r. mk_trip r TripFailed) enf
          else done_trips v enf)"

record policy_actor =
  pa_platform_admin :: bool
  pa_namespace_admin :: bool

definition can_override_policy_scope :: "policy_scope \<Rightarrow> policy_actor \<Rightarrow> bool" where
  "can_override_policy_scope sc a =
     (if sc = PlatformScope then pa_platform_admin a else pa_platform_admin a \<or> pa_namespace_admin a)"

datatype publish_route = RouteThrough | RouteReview

definition policy_publish_route :: "policy_gate_rule list \<Rightarrow> policy_actor \<Rightarrow> publish_route" where
  "policy_publish_route rules a =
     (if list_all (\<lambda>r. can_override_policy_scope (pr_scope r) a) (enforced_rules rules)
      then RouteThrough else RouteReview)"

section \<open>The status of a published version\<close>

datatype policy_version_status = StatusNone | StatusPending | StatusClear | StatusNoted | StatusFlagged

record policy_dismissal_key =
  pd_rule :: ident
  pd_revision :: ident

definition dismissed :: "policy_dismissal_key list \<Rightarrow> policy_gate_rule \<Rightarrow> bool" where
  "dismissed ds r = list_ex (\<lambda>d. pd_rule d = pr_id r \<and> pd_revision d = pr_revision r) ds"

text \<open>The loop's variables: the violated rules so far, \<open>stale\<close>, \<open>undismissed\<close>.\<close>

fun status_loop ::
  "policy_gate_verdict \<Rightarrow> policy_dismissal_key list \<Rightarrow> policy_gate_rule list \<Rightarrow>
   policy_gate_rule list \<times> bool \<times> bool \<Rightarrow> policy_gate_rule list \<times> bool \<times> bool" where
  "status_loop v ds [] acc = acc"
| "status_loop v ds (r # rs) (violated, stale, undismissed) =
     (case current_result v r of
        None \<Rightarrow> status_loop v ds rs (violated, True, undismissed)
      | Some res \<Rightarrow>
          if pg_outcome res \<noteq> Violates then status_loop v ds rs (violated, stale, undismissed)
          else status_loop v ds rs (violated @ [r], stale, undismissed \<or> \<not> dismissed ds r))"

definition policy_version_status_of ::
  "policy_gate_rule list \<Rightarrow> policy_gate_verdict option \<Rightarrow> policy_dismissal_key list \<Rightarrow>
   policy_version_status \<times> policy_gate_rule list" where
  "policy_version_status_of rules verdict ds =
     (let enf = enforced_rules rules in
      if enf = [] then (StatusNone, [])
      else case verdict of
        None \<Rightarrow> (StatusPending, [])
      | Some v \<Rightarrow>
          if pv_status v \<noteq> VerdictDone then (StatusPending, [])
          else (let (violated, stale, undismissed) = status_loop v ds enf ([], False, False) in
                if undismissed then (StatusFlagged, violated)
                else if stale then (StatusPending, violated)
                else (if violated \<noteq> [] then StatusNoted else StatusClear, violated)))"

section \<open>What the gate decides\<close>

text \<open>The reason a rule trips the gate in a given situation, if it does: the gate as a table.\<close>

definition trip_reason ::
  "policy_gate_verdict option \<Rightarrow> policy_no_verdict \<Rightarrow> policy_gate_rule \<Rightarrow> policy_trip_reason option" where
  "trip_reason verdict nv r =
     (if pr_state r \<noteq> Enforced then None
      else case verdict of
        None \<Rightarrow> Some (no_verdict_trip nv)
      | Some v \<Rightarrow>
          (case pv_status v of
             VerdictPending \<Rightarrow> Some TripPending
           | VerdictFailed \<Rightarrow> Some TripFailed
           | VerdictDone \<Rightarrow>
               (case current_result v r of
                  None \<Rightarrow> Some TripStale
                | Some res \<Rightarrow> if pg_outcome res = Violates then Some TripViolates else None)))"

lemma enforced_rules_simps [simp]:
  "enforced_rules [] = []"
  "enforced_rules (r # rs) = (if pr_state r = Enforced then r # enforced_rules rs else enforced_rules rs)"
  by (simp_all add: enforced_rules_def)

lemma enforced_rules_set: "r \<in> set (enforced_rules rules) \<longleftrightarrow> r \<in> set rules \<and> pr_state r = Enforced"
  by (auto simp: enforced_rules_def)

lemma policy_gate_trips_Nil [simp]: "policy_gate_trips [] verdict nv = []"
  by (simp add: policy_gate_trips_def)

lemma policy_gate_trips_Cons [simp]:
  "policy_gate_trips (r # rs) verdict nv =
     (case trip_reason verdict nv r of None \<Rightarrow> [] | Some why \<Rightarrow> [mk_trip r why]) @ policy_gate_trips rs verdict nv"
  by (cases verdict; cases "enforced_rules rs")
    (auto simp: policy_gate_trips_def trip_reason_def Let_def split: option.splits policy_verdict_status.splits)

lemma policy_gate_trips_iff:
  "t \<in> set (policy_gate_trips rules verdict nv) \<longleftrightarrow>
     (\<exists>r \<in> set rules. \<exists>why. trip_reason verdict nv r = Some why \<and> t = mk_trip r why)"
proof (induction rules)
  case (Cons r rules)
  then show ?case by (cases "trip_reason verdict nv r") auto
qed simp

lemma policy_gate_trips_empty:
  "policy_gate_trips rules verdict nv = [] \<longleftrightarrow> (\<forall>r \<in> set rules. trip_reason verdict nv r = None)"
  by (induction rules) (auto split: option.splits)

lemma status_loop_spec:
  "status_loop v ds rs (vi, st, un) =
     (vi @ filter (\<lambda>r. \<exists>res. current_result v r = Some res \<and> pg_outcome res = Violates) rs,
      st \<or> list_ex (\<lambda>r. current_result v r = None) rs,
      un \<or> list_ex (\<lambda>r. (\<exists>res. current_result v r = Some res \<and> pg_outcome res = Violates) \<and> \<not> dismissed ds r) rs)"
  by (induction rs arbitrary: vi st un) (auto split: option.splits)

section \<open>Properties\<close>

text \<open>
  C11: The accept gate lets a submission pass exactly when every enforced rule has a current result, from
  a finished run, that is not a violation; a rule that is not enforced never trips it, and each trip
  carries the enforced rule's own title, scope and reason, in the order of the rules.
\<close>

theorem policy_gate_correct:
  "(policy_gate_trips rules verdict nv = [] \<longleftrightarrow>
      list_all (\<lambda>r. \<exists>v res. verdict = Some v \<and> pv_status v = VerdictDone \<and>
                 current_result v r = Some res \<and> pg_outcome res \<noteq> Violates) (enforced_rules rules)) \<and>
   map tp_rule (policy_gate_trips rules verdict nv) =
     map pr_id (filter (\<lambda>r. trip_reason verdict nv r \<noteq> None) rules)"
proof
  have "trip_reason verdict nv r = None \<longleftrightarrow>
      (pr_state r = Enforced \<longrightarrow>
        (\<exists>v res. verdict = Some v \<and> pv_status v = VerdictDone \<and> current_result v r = Some res \<and>
                 pg_outcome res \<noteq> Violates))" for r
    by (auto simp: trip_reason_def split: option.splits policy_verdict_status.splits)
  then show "policy_gate_trips rules verdict nv = [] \<longleftrightarrow>
      list_all (\<lambda>r. \<exists>v res. verdict = Some v \<and> pv_status v = VerdictDone \<and>
                 current_result v r = Some res \<and> pg_outcome res \<noteq> Violates) (enforced_rules rules)"
    by (auto simp: policy_gate_trips_empty list_all_iff enforced_rules_set)
  show "map tp_rule (policy_gate_trips rules verdict nv) =
      map pr_id (filter (\<lambda>r. trip_reason verdict nv r \<noteq> None) rules)"
    by (induction rules) (auto simp: mk_trip_def split: option.splits)
qed

text \<open>
  C15: Direct publish goes straight through exactly for the publishers who could override every trip the
  accept gate can raise for these rules, whatever the verdict turns out to be.
\<close>

theorem publish_route_matches_gate:
  "policy_publish_route rules a = RouteThrough \<longleftrightarrow>
     (\<forall>verdict nv t. t \<in> set (policy_gate_trips rules verdict nv) \<longrightarrow> can_override_policy_scope (tp_scope t) a)"
proof
  assume through: "policy_publish_route rules a = RouteThrough"
  show "\<forall>verdict nv t. t \<in> set (policy_gate_trips rules verdict nv) \<longrightarrow> can_override_policy_scope (tp_scope t) a"
  proof (intro allI impI)
    fix verdict nv t
    assume "t \<in> set (policy_gate_trips rules verdict nv)"
    then obtain r why where r: "r \<in> set rules" "trip_reason verdict nv r = Some why" "t = mk_trip r why"
      by (auto simp: policy_gate_trips_iff)
    then have "pr_state r = Enforced" by (auto simp: trip_reason_def split: if_splits)
    then show "can_override_policy_scope (tp_scope t) a"
      using through r by (auto simp: policy_publish_route_def list_all_iff enforced_rules_set mk_trip_def split: if_splits)
  qed
next
  assume all: "\<forall>verdict nv t. t \<in> set (policy_gate_trips rules verdict nv) \<longrightarrow> can_override_policy_scope (tp_scope t) a"
  have "can_override_policy_scope (pr_scope r) a" if "r \<in> set (enforced_rules rules)" for r
  proof -
    have "mk_trip r TripOff \<in> set (policy_gate_trips rules None NoVerdictOff)"
      using that by (auto simp: policy_gate_trips_iff enforced_rules_set trip_reason_def intro!: bexI [of _ r])
    then show ?thesis using all by (fastforce simp: mk_trip_def)
  qed
  then show "policy_publish_route rules a = RouteThrough"
    by (simp add: policy_publish_route_def list_all_iff)
qed

theorem publish_route_matches_gate_witness:
  "policy_publish_route
     [\<lparr>pr_id = ''p'', pr_scope = PlatformScope, pr_state = Enforced, pr_revision = ''1'', pr_title = ''No secrets''\<rparr>]
     \<lparr>pa_platform_admin = False, pa_namespace_admin = True\<rparr> = RouteReview \<and>
   policy_publish_route
     [\<lparr>pr_id = ''p'', pr_scope = NamespaceScope, pr_state = Enforced, pr_revision = ''1'', pr_title = ''No secrets''\<rparr>]
     \<lparr>pa_platform_admin = False, pa_namespace_admin = True\<rparr> = RouteThrough"
proof
  let ?r = "\<lparr>pr_id = ''p'', pr_scope = PlatformScope, pr_state = Enforced, pr_revision = ''1'', pr_title = ''No secrets''\<rparr>"
  let ?s = "\<lparr>pr_id = ''p'', pr_scope = NamespaceScope, pr_state = Enforced, pr_revision = ''1'', pr_title = ''No secrets''\<rparr>"
  let ?a = "\<lparr>pa_platform_admin = False, pa_namespace_admin = True\<rparr>"
  have "mk_trip ?r TripOff \<in> set (policy_gate_trips [?r] None NoVerdictOff)"
    by (simp add: trip_reason_def)
  then have "policy_publish_route [?r] ?a \<noteq> RouteThrough"
    unfolding publish_route_matches_gate by (fastforce simp: mk_trip_def can_override_policy_scope_def)
  then show "policy_publish_route [?r] ?a = RouteReview" by (cases "policy_publish_route [?r] ?a") auto
  show "policy_publish_route [?s] ?a = RouteThrough"
    unfolding publish_route_matches_gate
    by (auto simp: policy_gate_trips_iff mk_trip_def can_override_policy_scope_def)
qed

lemma status_chain:
  assumes "F \<Longrightarrow> V" "E \<Longrightarrow> \<not> S \<and> \<not> V"
  shows "((if E then StatusNone else if F then StatusFlagged else if S then StatusPending else if V then StatusNoted else StatusClear) = StatusNone \<longleftrightarrow> E) \<and>
    ((if E then StatusNone else if F then StatusFlagged else if S then StatusPending else if V then StatusNoted else StatusClear) = StatusClear \<longleftrightarrow> \<not> E \<and> \<not> S \<and> \<not> V) \<and>
    ((if E then StatusNone else if F then StatusFlagged else if S then StatusPending else if V then StatusNoted else StatusClear) = StatusFlagged \<longleftrightarrow> F) \<and>
    ((if E then StatusNone else if F then StatusFlagged else if S then StatusPending else if V then StatusNoted else StatusClear) = StatusNoted \<longleftrightarrow> \<not> (\<not> S \<and> \<not> V) \<and> \<not> S \<and> \<not> F)"
  using assms by auto

text \<open>
  The status of a published version agrees with the gate on the same rules and verdict: it is clear
  exactly when some rule is enforced and the gate passes, flagged exactly when the gate reports a
  violation nobody dismissed, noted or clear only when nothing but dismissed violations trips, and
  none exactly when no rule is enforced.
\<close>

theorem policy_status_matches_gate:
  "(fst (policy_version_status_of rules verdict ds) = StatusNone \<longleftrightarrow> enforced_rules rules = []) \<and>
   (fst (policy_version_status_of rules verdict ds) = StatusClear \<longleftrightarrow>
      enforced_rules rules \<noteq> [] \<and> policy_gate_trips rules verdict nv = []) \<and>
   (fst (policy_version_status_of rules verdict ds) = StatusFlagged \<longleftrightarrow>
      (\<exists>r \<in> set rules. trip_reason verdict nv r = Some TripViolates \<and> \<not> dismissed ds r)) \<and>
   (fst (policy_version_status_of rules verdict ds) = StatusNoted \<longleftrightarrow>
      policy_gate_trips rules verdict nv \<noteq> [] \<and>
      list_all (\<lambda>r. trip_reason verdict nv r = None \<or> trip_reason verdict nv r = Some TripViolates \<and> dismissed ds r) rules)"
  (is "?N \<and> ?C \<and> ?F \<and> ?O")
proof (cases verdict)
  case None
  have "no_verdict_trip nv \<noteq> TripViolates" by (cases nv) auto
  with None show ?thesis
    by (auto simp: policy_version_status_of_def Let_def policy_gate_trips_empty trip_reason_def
        enforced_rules_def filter_empty_conv list_all_iff)
next
  case (Some v)
  have run: "current_result v r = None \<or> (\<exists>res. current_result v r = Some res)" for r
    by (cases "current_result v r") auto
  show ?thesis
  proof (cases "pv_status v = VerdictDone")
    case True
    have loop: "status_loop v ds (enforced_rules rs) ([], False, False) =
        (filter (\<lambda>r. trip_reason verdict nv r = Some TripViolates) rs,
         list_ex (\<lambda>r. trip_reason verdict nv r = Some TripStale) rs,
         list_ex (\<lambda>r. trip_reason verdict nv r = Some TripViolates \<and> \<not> dismissed ds r) rs)" for rs
      unfolding status_loop_spec enforced_rules_def
      using Some True by (induction rs) (auto simp: trip_reason_def split: option.splits)
    have range: "trip_reason verdict nv r \<in> {None, Some TripStale, Some TripViolates}" for r
      using Some True by (auto simp: trip_reason_def split: option.splits)
    have none: "trip_reason verdict nv r = None" if "pr_state r \<noteq> Enforced" for r
      using that by (simp add: trip_reason_def)
    have empty: "enforced_rules rules = [] \<longleftrightarrow> (\<forall>r \<in> set rules. pr_state r \<noteq> Enforced)"
      by (simp add: enforced_rules_def filter_empty_conv)
    have status: "fst (policy_version_status_of rules verdict ds) =
        (if enforced_rules rules = [] then StatusNone
         else if \<exists>r \<in> set rules. trip_reason verdict nv r = Some TripViolates \<and> \<not> dismissed ds r then StatusFlagged
         else if \<exists>r \<in> set rules. trip_reason verdict nv r = Some TripStale then StatusPending
         else if \<exists>r \<in> set rules. trip_reason verdict nv r = Some TripViolates then StatusNoted else StatusClear)"
      using Some True
      by (auto simp: policy_version_status_of_def Let_def loop list_ex_iff filter_empty_conv)
    let ?V = "\<exists>r \<in> set rules. trip_reason verdict nv r = Some TripViolates"
    let ?S = "\<exists>r \<in> set rules. trip_reason verdict nv r = Some TripStale"
    let ?F = "\<exists>r \<in> set rules. trip_reason verdict nv r = Some TripViolates \<and> \<not> dismissed ds r"
    have pt: "(trip_reason verdict nv r = None \<longleftrightarrow> trip_reason verdict nv r \<noteq> Some TripStale \<and> trip_reason verdict nv r \<noteq> Some TripViolates) \<and>
        (trip_reason verdict nv r = None \<or> trip_reason verdict nv r = Some TripViolates \<and> dismissed ds r \<longleftrightarrow>
         trip_reason verdict nv r \<noteq> Some TripStale \<and> \<not> (trip_reason verdict nv r = Some TripViolates \<and> \<not> dismissed ds r))" for r
      using range [of r] by auto
    have trips: "policy_gate_trips rules verdict nv = [] \<longleftrightarrow> \<not> ?S \<and> \<not> ?V"
      unfolding policy_gate_trips_empty list_all_iff pt [THEN conjunct1] by blast
    have quiet: "list_all (\<lambda>r. trip_reason verdict nv r = None \<or> trip_reason verdict nv r = Some TripViolates \<and> dismissed ds r) rules
        \<longleftrightarrow> \<not> ?S \<and> \<not> ?F"
      unfolding list_all_iff pt [THEN conjunct2] by blast
    have "?F \<Longrightarrow> ?V" by blast
    moreover have "enforced_rules rules = [] \<Longrightarrow> \<not> ?S \<and> \<not> ?V"
      unfolding empty using none by force
    ultimately show ?thesis unfolding status trips quiet by (rule status_chain)
  next
    case False
    then show ?thesis using Some
      by (cases "pv_status v")
        (auto simp: policy_version_status_of_def Let_def policy_gate_trips_empty trip_reason_def
        enforced_rules_def filter_empty_conv list_all_iff)
  qed
qed

section \<open>Rule texts\<close>

lemma clean_text_clean:
  "clean_text (Some (clean_text v)) = clean_text v"
  "clean_text v = [] \<or> (\<not> is_ws (hd (clean_text v)) \<and> \<not> is_ws (last (clean_text v)))"
  "CHR 0x0D \<notin> set (clean_text v)"
proof -
  show "clean_text v = [] \<or> (\<not> is_ws (hd (clean_text v)) \<and> \<not> is_ws (last (clean_text v)))"
    using trim_with_ends [of is_ws] by (auto simp: clean_text_def js_trim_def split: option.splits)
  show cr: "CHR 0x0D \<notin> set (clean_text v)"
    using unify_newlines_no_cr set_trim_with by (fastforce simp: clean_text_def js_trim_def split: option.splits)
  have "js_trim (clean_text v) = clean_text v"
    by (cases v) (simp_all add: clean_text_def js_trim_def trim_with_same)
  then show "clean_text (Some (clean_text v)) = clean_text v"
    using unify_newlines_id [OF cr] by (simp add: clean_text_def)
qed

lemma clean_title_clean:
  fixes v :: "string option"
  defines "title \<equiv> collapse_ws (clean_text v)"
  shows "collapse_ws (clean_text (Some title)) = title" and "single_spaced title" and "js_trim title = title"
proof -
  show single: "single_spaced title" by (simp add: title_def collapse_ws_single)
  have ends: "title = [] \<or> (\<not> is_ws (hd title) \<and> \<not> is_ws (last title))"
  proof (cases "clean_text v = []")
    case False
    then show ?thesis
      using clean_text_clean(2) [of v] collapse_ws_hd [of "clean_text v"] collapse_ws_last [of "clean_text v"]
      by (simp add: title_def)
  qed (simp add: title_def)
  then show trim: "js_trim title = title" by (simp add: js_trim_def trim_with_same)
  have "CHR 0x0D \<notin> set title"
    using clean_text_clean(3) [of v] set_collapse_ws [of "clean_text v"] by (auto simp: title_def)
  then have "clean_text (Some title) = title"
    using trim unify_newlines_id [of title] by (simp add: clean_text_def)
  then show "collapse_ws (clean_text (Some title)) = title"
    using collapse_ws_id [OF single] by simp
qed

text \<open>
  An accepted rule text is normalized and within the limits: its title is one line with single
  spaces and no outer white space, title and body are not empty, and validating the stored value
  again returns it unchanged.
\<close>

theorem validate_policy_rule_text_normal:
  assumes "validate_policy_rule_text t b c = Inr v"
  shows "1 \<le> length (pt_title v) \<and> length (pt_title v) \<le> POLICY_TITLE_MAX \<and>
         1 \<le> length (pt_body v) \<and> length (pt_body v) \<le> POLICY_BODY_MAX \<and>
         single_spaced (pt_title v) \<and> js_trim (pt_title v) = pt_title v \<and> pt_context v \<noteq> Some [] \<and>
         validate_policy_rule_text (Some (pt_title v)) (Some (pt_body v)) (pt_context v) = Inr v"
proof -
  have v: "pt_title v = collapse_ws (clean_text t)" "pt_body v = clean_text b"
    "pt_context v = (if clean_text c = [] then None else Some (clean_text c))"
    and len: "collapse_ws (clean_text t) \<noteq> []" "clean_text b \<noteq> []"
      "length (collapse_ws (clean_text t)) \<le> POLICY_TITLE_MAX" "length (clean_text b) \<le> POLICY_BODY_MAX"
      "length (clean_text c) \<le> POLICY_CONTEXT_MAX"
    using assms by (auto simp: validate_policy_rule_text_def Let_def split: if_splits)
  have ctx: "clean_text (pt_context v) = clean_text c"
    using clean_text_clean(1) [of c] unfolding v by (simp add: clean_text_def [of None])
  have none: "clean_text None = []" by (simp add: clean_text_def)
  have "v = \<lparr>pt_title = collapse_ws (clean_text t), pt_body = clean_text b,
             pt_context = (if clean_text c = [] then None else Some (clean_text c))\<rparr>"
    using v by simp
  then have "validate_policy_rule_text (Some (pt_title v)) (Some (pt_body v)) (pt_context v) = Inr v"
    using len none
    by (simp add: validate_policy_rule_text_def Let_def ctx clean_title_clean(1) clean_text_clean(1))
  then show ?thesis
    using len clean_title_clean(2,3) [of t] unfolding v by (simp add: Suc_le_eq)
qed

theorem validate_policy_rule_text_normal_witness:
  "validate_policy_rule_text (Some ''  No   secrets '') (Some ''Never store keys.'') None =
     Inr \<lparr>pt_title = ''No secrets'', pt_body = ''Never store keys.'', pt_context = None\<rparr> \<and>
   validate_policy_rule_text (Some ''No secrets'') (Some ''Never store keys.'') None =
     Inr \<lparr>pt_title = ''No secrets'', pt_body = ''Never store keys.'', pt_context = None\<rparr>"
proof
  show ok: "validate_policy_rule_text (Some ''  No   secrets '') (Some ''Never store keys.'') None =
     Inr \<lparr>pt_title = ''No secrets'', pt_body = ''Never store keys.'', pt_context = None\<rparr>"
    by (simp add: validate_policy_rule_text_def clean_text_def unify_newlines_def js_trim_def
        trim_with_def is_ws_def POLICY_TITLE_MAX_def POLICY_BODY_MAX_def Let_def)
  show "validate_policy_rule_text (Some ''No secrets'') (Some ''Never store keys.'') None =
     Inr \<lparr>pt_title = ''No secrets'', pt_body = ''Never store keys.'', pt_context = None\<rparr>"
    using validate_policy_rule_text_normal [OF ok] by simp
qed

end
