(* ===== verification/Scan.thy ===== *)
theory Scan
  imports Prelude
begin

text \<open>
  Scan findings and the gates over them: the severity order, the override rule and the completeness
  verdict of \<open>packages/shared/src/scan.ts\<close>, and the content-risk status and acknowledgement
  matching of \<open>packages/shared/src/content-risk-status.ts\<close>. The scanners that produce findings are
  not part of this theory.
\<close>

section \<open>Findings\<close>

datatype severity = Info | Low | Medium | High | Critical

record scan_finding =
  fd_scanner :: string
  fd_severity :: severity
  fd_rule :: string
  fd_message :: string
  fd_path :: "string option"
  fd_line :: "nat option"
  fd_ruleset :: "nat option"

section \<open>Severity\<close>

definition severity_order :: "severity list" where
  "severity_order = [Info, Low, Medium, High, Critical]"

fun index_of :: "'a \<Rightarrow> 'a list \<Rightarrow> int" where
  "index_of x [] = -1"
| "index_of x (y # ys) = (if x = y then 0 else let i = index_of x ys in if i < 0 then -1 else i + 1)"

definition max_severity :: "scan_finding list \<Rightarrow> severity option" where
  "max_severity fs =
     (let idx = foldl (\<lambda>i f. max i (index_of (fd_severity f) severity_order)) (-1) fs in
      if idx < 0 then None else Some (severity_order ! nat idx))"

definition requires_override :: "severity option \<Rightarrow> bool" where
  "requires_override s = (s = Some High \<or> s = Some Critical)"

section \<open>The gate verdict\<close>

datatype scan_verdict_reason = ScanPending | ScanUnreachable | ScanChanged | AvMissing

record gate_report =
  gp_status :: string
  gp_findings :: "scan_finding list"

definition has_av_result :: "scan_finding list \<Rightarrow> bool" where
  "has_av_result fs = list_ex (\<lambda>f. fd_scanner f = ''clamav'' \<and> fd_rule f \<noteq> ''scanner-unavailable'') fs"

text \<open>\<open>None\<close> is the complete verdict, \<open>Some r\<close> a missing one.\<close>

definition scan_verdict :: "gate_report option \<Rightarrow> bool \<Rightarrow> scan_verdict_reason option" where
  "scan_verdict report av_required =
     (case report of
        None \<Rightarrow> Some ScanPending
      | Some r \<Rightarrow>
          if gp_status r = ''unreachable'' then Some ScanUnreachable
          else if gp_status r = ''source_changed'' then Some ScanChanged
          else if gp_status r \<noteq> ''scanned'' then Some ScanPending
          else if av_required \<and> \<not> has_av_result (gp_findings r) then Some AvMissing
          else None)"

section \<open>Content risk\<close>

definition CONTENT_RULESET_VERSION :: nat where "CONTENT_RULESET_VERSION = 1"
definition CONTENT_RISK_SCANNER :: string where "CONTENT_RISK_SCANNER = ''content-risk''"

datatype content_risk_status = CrPending | CrPassed | CrNoted | CrFlagged

definition GATE :: "severity list" where "GATE = [High, Critical]"
definition NOTABLE :: "severity list" where "NOTABLE = [Medium, High, Critical]"

text \<open>A missing findings list reads as the empty one.\<close>

definition content_risk_findings :: "scan_finding list \<Rightarrow> scan_finding list" where
  "content_risk_findings fs = filter (\<lambda>f. fd_scanner f = CONTENT_RISK_SCANNER) fs"

definition content_ruleset_of :: "scan_finding list \<Rightarrow> nat option" where
  "content_ruleset_of fs =
     (case find (\<lambda>f. fd_scanner f = CONTENT_RISK_SCANNER \<and> fd_rule f = ''cr-scanned'') fs of
        None \<Rightarrow> None | Some marker \<Rightarrow> fd_ruleset marker)"

definition content_risk_pair_key :: "string \<Rightarrow> string option \<Rightarrow> string" where
  "content_risk_pair_key rule path = rule @ [CHR 0x00] @ (case path of None \<Rightarrow> [] | Some p \<Rightarrow> p)"

text \<open>The values of the insertion-ordered map the loop builds: first finding of each key wins.\<close>

fun gate_pairs_loop :: "scan_finding list \<Rightarrow> (string \<times> string option) list \<Rightarrow> (string \<times> string option) list" where
  "gate_pairs_loop [] seen = seen"
| "gate_pairs_loop (f # fs) seen =
     (if fd_severity f \<notin> set GATE then gate_pairs_loop fs seen
      else let key = content_risk_pair_key (fd_rule f) (fd_path f) in
        if list_ex (\<lambda>(r, p). content_risk_pair_key r p = key) seen then gate_pairs_loop fs seen
        else gate_pairs_loop fs (seen @ [(fd_rule f, fd_path f)]))"

definition gate_tripping_pairs :: "scan_finding list \<Rightarrow> (string \<times> string option) list" where
  "gate_tripping_pairs fs = gate_pairs_loop (content_risk_findings fs) []"

definition content_risk_trips_gate :: "scan_finding list \<Rightarrow> bool" where
  "content_risk_trips_gate fs = (length (gate_tripping_pairs fs) > 0)"

definition derive_content_risk_status ::
  "scan_finding list \<Rightarrow> string set \<Rightarrow> nat \<Rightarrow> content_risk_status" where
  "derive_content_risk_status fs acked current =
     (if content_ruleset_of fs \<noteq> Some current then CrPending
      else let content = content_risk_findings fs in
        if \<not> list_ex (\<lambda>f. fd_severity f \<in> set NOTABLE) content then CrPassed
        else if list_ex (\<lambda>(r, p). content_risk_pair_key r p \<notin> acked) (gate_tripping_pairs content)
             then CrFlagged else CrNoted)"

section \<open>Severity as an order\<close>

fun severity_rank :: "severity \<Rightarrow> nat" where
  "severity_rank Info = 0"
| "severity_rank Low = 1"
| "severity_rank Medium = 2"
| "severity_rank High = 3"
| "severity_rank Critical = 4"

instantiation severity :: linorder
begin

definition less_eq_severity :: "severity \<Rightarrow> severity \<Rightarrow> bool" where
  "less_eq_severity a b = (severity_rank a \<le> severity_rank b)"

definition less_severity :: "severity \<Rightarrow> severity \<Rightarrow> bool" where
  "less_severity a b = (severity_rank a < severity_rank b)"

instance
proof
  fix a b :: severity
  show "a \<le> b \<Longrightarrow> b \<le> a \<Longrightarrow> a = b"
    by (cases a; cases b) (simp_all add: less_eq_severity_def)
qed (auto simp: less_eq_severity_def less_severity_def)

end

lemma index_severity: "index_of s severity_order = int (severity_rank s)"
  by (cases s) (simp_all add: severity_order_def)

lemma severity_at_rank: "severity_order ! severity_rank s = s"
  by (cases s) (simp_all add: severity_order_def)

lemma max_severity_fold:
  "foldl (\<lambda>i f. max i (index_of (fd_severity f) severity_order)) i fs =
     (if fs = [] then i else max i (int (severity_rank (Max (fd_severity ` set fs)))))"
proof (induction fs arbitrary: i)
  case (Cons f fs)
  have m: "int (severity_rank (max a b)) = max (int (severity_rank a)) (int (severity_rank b))" for a b
    by (auto simp: max_def less_eq_severity_def)
  show ?case
    using Cons.IH [unfolded index_severity] by (cases "fs = []") (simp_all add: index_severity m)
qed simp

lemma max_severity_eq:
  "max_severity fs = (if fs = [] then None else Some (Max (fd_severity ` set fs)))"
proof -
  have "max (-1) (int n) = int n" for n by simp
  then show ?thesis
    by (simp only: max_severity_def Let_def max_severity_fold) (simp add: severity_at_rank)
qed

lemma requires_override_iff: "requires_override (Some s) \<longleftrightarrow> High \<le> s"
  by (cases s) (simp_all add: requires_override_def less_eq_severity_def)

lemma gate_iff: "s \<in> set GATE \<longleftrightarrow> High \<le> s"
  by (cases s) (simp_all add: GATE_def less_eq_severity_def)

lemma notable_iff: "s \<in> set NOTABLE \<longleftrightarrow> Medium \<le> s"
  by (cases s) (simp_all add: NOTABLE_def less_eq_severity_def)

section \<open>The gate-tripping pairs\<close>

definition pair_keys :: "(string \<times> string option) list \<Rightarrow> string list" where
  "pair_keys ps = map (\<lambda>(r, p). content_risk_pair_key r p) ps"

lemma pair_keys_simps [simp]:
  "pair_keys [] = []" "pair_keys (ps @ qs) = pair_keys ps @ pair_keys qs"
  "pair_keys ((r, p) # ps) = content_risk_pair_key r p # pair_keys ps"
  by (simp_all add: pair_keys_def)

lemma pair_keys_ex: "list_ex (\<lambda>(r, p). content_risk_pair_key r p = k) ps \<longleftrightarrow> k \<in> set (pair_keys ps)"
  by (induction ps) auto

lemma gate_pairs_loop_keys:
  "set (pair_keys (gate_pairs_loop fs seen)) =
     set (pair_keys seen) \<union>
     {content_risk_pair_key (fd_rule f) (fd_path f) | f. f \<in> set fs \<and> High \<le> fd_severity f}"
proof (induction fs seen rule: gate_pairs_loop.induct)
  case (2 f fs seen)
  let ?K = "\<lambda>fs. {content_risk_pair_key (fd_rule f) (fd_path f) | f. f \<in> set fs \<and> High \<le> fd_severity f}"
  have K: "?K (f # fs) = (if High \<le> fd_severity f
      then insert (content_risk_pair_key (fd_rule f) (fd_path f)) (?K fs) else ?K fs)"
    by auto
  show ?case
  proof (cases "High \<le> fd_severity f")
    case False
    then show ?thesis using 2(1) unfolding K by (simp add: gate_iff)
  next
    case True
    then show ?thesis using 2(2,3) unfolding K
      by (auto simp: gate_iff Let_def pair_keys_ex)
  qed
qed simp

lemma gate_pairs_loop_distinct:
  "distinct (pair_keys seen) \<Longrightarrow> distinct (pair_keys (gate_pairs_loop fs seen))"
  by (induction fs seen rule: gate_pairs_loop.induct) (auto simp: Let_def pair_keys_ex)

lemma gate_pairs_keys:
  "set (pair_keys (gate_tripping_pairs fs)) =
     {content_risk_pair_key (fd_rule f) (fd_path f) | f.
        f \<in> set (content_risk_findings fs) \<and> High \<le> fd_severity f}"
  by (simp add: gate_tripping_pairs_def gate_pairs_loop_keys)

lemma content_risk_findings_idem [simp]:
  "content_risk_findings (content_risk_findings fs) = content_risk_findings fs"
  by (simp add: content_risk_findings_def)

lemma gate_tripping_pairs_content [simp]:
  "gate_tripping_pairs (content_risk_findings fs) = gate_tripping_pairs fs"
  by (simp add: gate_tripping_pairs_def)

lemma trips_gate_iff:
  "content_risk_trips_gate fs \<longleftrightarrow> (\<exists>f \<in> set (content_risk_findings fs). High \<le> fd_severity f)"
proof -
  have "gate_tripping_pairs fs = [] \<longleftrightarrow> set (pair_keys (gate_tripping_pairs fs)) = {}"
    by (simp add: pair_keys_def)
  then show ?thesis
    unfolding content_risk_trips_gate_def gate_pairs_keys by auto
qed

lemma trips_gate_override:
  "content_risk_trips_gate fs = requires_override (max_severity (content_risk_findings fs))"
proof (cases "content_risk_findings fs = []")
  case True
  then show ?thesis by (simp add: trips_gate_iff max_severity_eq requires_override_def)
next
  case False
  then show ?thesis
    by (simp add: trips_gate_iff max_severity_eq requires_override_iff Max_ge_iff)
qed

lemma flagged_iff:
  "list_ex (\<lambda>(r, p). content_risk_pair_key r p \<notin> acked) ps \<longleftrightarrow> \<not> set (pair_keys ps) \<subseteq> acked"
  by (induction ps) auto

section \<open>Properties\<close>

text \<open>
  The content-risk gate is the override rule on the highest content-risk severity, the pairs a
  reviewer acknowledges cover it without repetition, and the derived status follows: with the current
  ruleset, a version is flagged exactly while some gate-tripping pair is not acknowledged, passes
  only if nothing at or above medium was found, and acknowledging the tripping pairs removes the
  flag.
\<close>

theorem content_risk_status_correct:
  assumes ran: "content_ruleset_of fs = Some current"
  shows "content_risk_trips_gate fs = requires_override (max_severity (content_risk_findings fs)) \<and>
    distinct (pair_keys (gate_tripping_pairs fs)) \<and>
    (derive_content_risk_status fs acked current = CrFlagged \<longleftrightarrow>
       \<not> set (pair_keys (gate_tripping_pairs fs)) \<subseteq> acked) \<and>
    (derive_content_risk_status fs acked current = CrPassed \<longleftrightarrow>
       list_all (\<lambda>f. fd_severity f < Medium) (content_risk_findings fs)) \<and>
    derive_content_risk_status fs (set (pair_keys (gate_tripping_pairs fs)) \<union> acked) current \<notin> {CrFlagged, CrPending}"
proof -
  have high: "Medium \<le> s" if "High \<le> s" for s
    using that by (cases s) (simp_all add: less_eq_severity_def)
  have not_notable: "\<not> list_ex (\<lambda>f. fd_severity f \<in> set NOTABLE) (content_risk_findings fs) \<longleftrightarrow>
      list_all (\<lambda>f. fd_severity f < Medium) (content_risk_findings fs)"
    by (auto simp: notable_iff list_ex_iff list_all_iff not_le)
  have covered: "set (pair_keys (gate_tripping_pairs fs)) = {}"
    if "list_all (\<lambda>f. fd_severity f < Medium) (content_risk_findings fs)"
    using that high unfolding gate_pairs_keys by (fastforce simp: list_all_iff not_le [symmetric])
  let ?acked = "set (pair_keys (gate_tripping_pairs fs)) \<union> acked"
  have cleared: "derive_content_risk_status fs ?acked current \<notin> {CrFlagged, CrPending}"
    unfolding derive_content_risk_status_def Let_def flagged_iff ran gate_tripping_pairs_content by simp
  show ?thesis
    using trips_gate_override [of fs] covered cleared
      gate_pairs_loop_distinct [of "[]" "content_risk_findings fs", folded gate_tripping_pairs_def]
    by (auto simp: derive_content_risk_status_def ran Let_def flagged_iff not_notable)
qed

definition sample_findings :: "scan_finding list" where
  "sample_findings =
     [\<lparr>fd_scanner = ''content-risk'', fd_severity = Info, fd_rule = ''cr-scanned'', fd_message = ''ran'',
       fd_path = None, fd_line = None, fd_ruleset = Some 1\<rparr>,
      \<lparr>fd_scanner = ''content-risk'', fd_severity = High, fd_rule = ''cr-hidden-markup'', fd_message = ''m'',
       fd_path = Some ''SKILL.md'', fd_line = Some 3, fd_ruleset = Some 1\<rparr>]"

theorem content_risk_status_correct_witness:
  "content_ruleset_of sample_findings = Some 1 \<and> content_risk_trips_gate sample_findings \<and>
   derive_content_risk_status sample_findings {} 1 = CrFlagged"
proof -
  have ran: "content_ruleset_of sample_findings = Some 1"
    by (simp add: content_ruleset_of_def sample_findings_def CONTENT_RISK_SCANNER_def)
  have trips: "content_risk_trips_gate sample_findings"
    by (simp add: content_risk_trips_gate_def gate_tripping_pairs_def content_risk_findings_def
        sample_findings_def CONTENT_RISK_SCANNER_def GATE_def)
  then have "set (pair_keys (gate_tripping_pairs sample_findings)) \<noteq> {}"
    by (simp add: content_risk_trips_gate_def pair_keys_def)
  then show ?thesis
    using ran trips content_risk_status_correct [OF ran, of "{}"] by (simp only: subset_empty simp_thms)
qed

text \<open>
  A report is a complete verdict exactly when it exists, its scan finished and, where the anti-virus
  engine is required, it carries a real engine result; the marker of an unavailable engine is none.
\<close>

theorem scan_verdict_complete_iff:
  "scan_verdict report av = None \<longleftrightarrow>
     (\<exists>r. report = Some r \<and> gp_status r = ''scanned'' \<and>
          (av = False \<or> (\<exists>f \<in> set (gp_findings r). fd_scanner f = ''clamav'' \<and> fd_rule f \<noteq> ''scanner-unavailable'')))"
  by (auto simp: scan_verdict_def has_av_result_def list_ex_iff split: option.splits)

end
