(* ===== verification/Category.thy ===== *)
theory Category
  imports Prelude
begin

text \<open>
  Category identity: \<open>packages/shared/src/category.ts\<close> (slug derivation, normalization of a
  submitted list and the checks it must pass) and the vocabulary write \<open>upsertCategory\<close> of
  \<open>packages/web/src/lib/categories.ts\<close>.

  \<open>normalize("NFKD")\<close> followed by the removal of combining marks is a table on the Latin-1 range:
  \<open>fold_char\<close> gives what is left of one lower-case character. A character outside Latin-1 that the
  decomposition produces (the fraction slash, the Greek mu) is written \<open>/\<close>: like it, it is no
  letter or digit of the slug alphabet.
\<close>

section \<open>Slugs\<close>

definition RESERVED_CATEGORY_SLUGS :: "string list" where
  "RESERVED_CATEGORY_SLUGS = [''general'']"

definition CATEGORY_SLUG_MAX :: nat where
  "CATEGORY_SLUG_MAX = 64"

definition slug_char :: "char \<Rightarrow> bool" where
  "slug_char c = (is_lower c \<or> is_digit c)"

text \<open>\<open>SLUG_RE\<close>: \<open>^[a-z0-9][a-z0-9-]*$\<close>.\<close>

definition slug_re :: "string \<Rightarrow> bool" where
  "slug_re s = (case s of [] \<Rightarrow> False
     | c # cs \<Rightarrow> slug_char c \<and> list_all (\<lambda>d. slug_char d \<or> d = CHR ''-'') cs)"

definition fold_char :: "char \<Rightarrow> string" where
  "fold_char c = (let n = code_of c in
     if n = 160 then '' ''
     else if n = 168 \<or> n = 175 \<or> n = 180 \<or> n = 184 then '' ''
     else if n = 170 then ''a''
     else if n = 178 then ''2'' else if n = 179 then ''3'' else if n = 185 then ''1''
     else if n = 181 then ''/''
     else if n = 186 then ''o''
     else if n = 188 then ''1/4'' else if n = 189 then ''1/2'' else if n = 190 then ''3/4''
     else if 224 \<le> n \<and> n \<le> 229 then ''a''
     else if n = 231 then ''c''
     else if 232 \<le> n \<and> n \<le> 235 then ''e''
     else if 236 \<le> n \<and> n \<le> 239 then ''i''
     else if n = 241 then ''n''
     else if 242 \<le> n \<and> n \<le> 246 then ''o''
     else if 249 \<le> n \<and> n \<le> 252 then ''u''
     else if n = 253 \<or> n = 255 then ''y''
     else [c])"

text \<open>\<open>.replace(/[^a-z0-9]+/g, "-")\<close>; the flag says that the previous character was already replaced.\<close>

fun dash_runs :: "bool \<Rightarrow> string \<Rightarrow> string" where
  "dash_runs in_run [] = []"
| "dash_runs in_run (c # cs) =
     (if slug_char c then c # dash_runs False cs
      else if in_run then dash_runs True cs else CHR ''-'' # dash_runs True cs)"

definition trim_hyphens :: "string \<Rightarrow> string" where
  "trim_hyphens s = trim_with (\<lambda>c. c = CHR ''-'') s"

definition category_slug :: "string \<Rightarrow> string" where
  "category_slug name =
     (let collapsed = dash_runs False (concat (map fold_char (js_lower (js_trim name))));
          base = trim_hyphens collapsed;
          capped = trim_hyphens (take CATEGORY_SLUG_MAX base)
      in if slug_re capped then capped else [])"

definition is_valid_category_slug :: "string \<Rightarrow> bool" where
  "is_valid_category_slug slug = (length slug > 0 \<and> length slug \<le> CATEGORY_SLUG_MAX \<and> slug_re slug)"

section \<open>Names\<close>

definition normalize_category_name :: "string \<Rightarrow> string" where
  "normalize_category_name name = js_lower (js_trim name)"

text \<open>\<open>[...new Set(xs)]\<close> keeps the first occurrence of each element.\<close>

fun js_unique :: "'a list \<Rightarrow> 'a list" where
  "js_unique [] = []"
| "js_unique (x # xs) = x # filter (\<lambda>y. y \<noteq> x) (js_unique xs)"

definition normalize_category_names :: "string list \<Rightarrow> string list" where
  "normalize_category_names names =
     take 12 (js_unique (filter (\<lambda>n. n \<noteq> []) (map normalize_category_name names)))"

datatype category_error = NoSlug string | ReservedSlug string | SlugCollision string string string

definition category_name_error :: "string \<Rightarrow> category_error option" where
  "category_name_error name =
     (let shown = js_trim name; slug = category_slug name in
      if slug = [] then Some (NoSlug shown)
      else if slug \<in> set RESERVED_CATEGORY_SLUGS then Some (ReservedSlug shown)
      else None)"

record known_category =
  kc_name :: string
  kc_slug :: string

definition category_collision_error :: "string \<Rightarrow> known_category list \<Rightarrow> category_error option" where
  "category_collision_error name known =
     (let normalized = normalize_category_name name; slug = category_slug name in
      if slug = [] then None
      else case find (\<lambda>k. kc_slug k = slug \<and> normalize_category_name (kc_name k) \<noteq> normalized) known of
             None \<Rightarrow> None
           | Some clash \<Rightarrow> Some (SlugCollision (js_trim name) slug (kc_name clash)))"

fun check_category_names :: "string list \<Rightarrow> known_category list \<Rightarrow> category_error option" where
  "check_category_names [] known = None"
| "check_category_names (name # names) known =
     (case category_name_error name of
        Some e \<Rightarrow> Some e
      | None \<Rightarrow> (case category_collision_error name known of
                   Some e \<Rightarrow> Some e
                 | None \<Rightarrow> check_category_names names known))"

text \<open>\<open>knownCategoriesFor\<close> and \<open>categoryListError\<close> over the rows of \<open>categories\<close>.\<close>

definition known_categories_for :: "known_category list \<Rightarrow> string list \<Rightarrow> known_category list" where
  "known_categories_for db names =
     (let slugs = filter (\<lambda>s. s \<noteq> []) (map category_slug names) in filter (\<lambda>k. kc_slug k \<in> set slugs) db)"

definition category_list_error :: "known_category list \<Rightarrow> string list \<Rightarrow> category_error option" where
  "category_list_error db names =
     (let clean = normalize_category_names names in
      if clean = [] then None else check_category_names clean (known_categories_for db clean))"

section \<open>The vocabulary\<close>

text \<open>
  \<open>upsertCategory\<close> on the table \<open>categories\<close>, whose columns \<open>name\<close> and \<open>slug\<close> are both unique: a
  known name keeps its row, a new one is inserted, and a new name with a taken slug violates the
  unique index.
\<close>

datatype upsert_error = YieldsNoSlug | UniqueSlugViolation

definition upsert_category :: "known_category list \<Rightarrow> string \<Rightarrow> upsert_error + known_category list" where
  "upsert_category db name =
     (let clean = js_lower (js_trim name); slug = category_slug clean in
      if slug = [] then Inl YieldsNoSlug
      else if list_ex (\<lambda>k. kc_name k = clean) db then Inr db
      else if list_ex (\<lambda>k. kc_slug k = slug) db then Inl UniqueSlugViolation
      else Inr (db @ [\<lparr>kc_name = clean, kc_slug = slug\<rparr>]))"

fun upsert_categories :: "known_category list \<Rightarrow> string list \<Rightarrow> upsert_error + known_category list" where
  "upsert_categories db [] = Inr db"
| "upsert_categories db (n # ns) =
     (case upsert_category db n of Inl e \<Rightarrow> Inl e | Inr db' \<Rightarrow> upsert_categories db' ns)"

definition wf_vocabulary :: "known_category list \<Rightarrow> bool" where
  "wf_vocabulary db =
     (distinct (map kc_name db) \<and> distinct (map kc_slug db) \<and>
      list_all (\<lambda>k. normalize_category_name (kc_name k) = kc_name k \<and> is_valid_category_slug (kc_slug k)) db)"

section \<open>Facts\<close>

lemma set_js_unique [simp]: "set (js_unique xs) = set xs"
  by (induction xs) auto

lemma distinct_js_unique [simp]: "distinct (js_unique xs)"
  by (induction xs) auto

lemma js_unique_id: "distinct xs \<Longrightarrow> js_unique xs = xs"
  by (induction xs) (auto simp: filter_id_conv)

lemma lower_char_idem [simp]: "lower_char (lower_char c) = lower_char c"
proof -
  have "code_of (char_of (code_of c + 32)) = code_of c + 32" if "code_of c + 32 < 256"
    using that by simp
  then show ?thesis by (auto simp: lower_char_def Let_def)
qed

lemma is_ws_lower [simp]: "is_ws (lower_char c) = is_ws c"
proof -
  have "code_of (char_of (code_of c + 32)) = code_of c + 32" if "code_of c + 32 < 256"
    using that by simp
  then show ?thesis by (auto simp: lower_char_def is_ws_def Let_def)
qed

lemma normalize_category_name_idem [simp]:
  "normalize_category_name (normalize_category_name n) = normalize_category_name n"
proof -
  have dw: "dropWhile is_ws (map lower_char s) = map lower_char (dropWhile is_ws s)" for s
    by (simp add: dropWhile_map o_def)
  have "js_trim (js_lower s) = js_lower (js_trim s)" for s
    by (simp add: js_trim_def js_lower_def trim_with_def dw rev_map)
  moreover have "js_lower (js_lower s) = js_lower s" for s
    by (simp add: js_lower_def o_def)
  ultimately show ?thesis by (simp add: normalize_category_name_def)
qed

lemma category_slug_normalize [simp]: "category_slug (normalize_category_name n) = category_slug n"
proof -
  have "js_lower (js_trim (normalize_category_name n)) = js_lower (js_trim n)"
    using normalize_category_name_idem [of n] by (simp add: normalize_category_name_def)
  then show ?thesis by (simp add: category_slug_def)
qed

lemma category_slug_valid: "category_slug n \<noteq> [] \<Longrightarrow> is_valid_category_slug (category_slug n)"
proof -
  assume ne: "category_slug n \<noteq> []"
  let ?c = "trim_hyphens (take CATEGORY_SLUG_MAX (trim_hyphens
      (dash_runs False (concat (map fold_char (js_lower (js_trim n)))))))"
  have "category_slug n = ?c" "slug_re ?c"
    using ne by (auto simp: category_slug_def Let_def split: if_splits)
  moreover have "length ?c \<le> CATEGORY_SLUG_MAX"
    using length_trim_with [of "\<lambda>c. c = CHR ''-''" "take CATEGORY_SLUG_MAX (trim_hyphens
      (dash_runs False (concat (map fold_char (js_lower (js_trim n))))))"]
    by (simp add: trim_hyphens_def)
  ultimately show ?thesis using ne by (simp add: is_valid_category_slug_def)
qed

lemma upsert_category_ok:
  assumes "upsert_category db n = Inr db'" and "wf_vocabulary db"
  shows "wf_vocabulary db' \<and> set db \<subseteq> set db' \<and>
         (\<exists>k \<in> set db'. kc_name k = normalize_category_name n)"
  using assms category_slug_valid [of n] category_slug_normalize [of n] normalize_category_name_idem [of n]
  by (fastforce simp: upsert_category_def Let_def wf_vocabulary_def list_ex_iff
      normalize_category_name_def [symmetric] split: if_splits)

lemma upsert_categories_ok:
  assumes "upsert_categories db ns = Inr db'" and "wf_vocabulary db"
  shows "wf_vocabulary db' \<and> set db \<subseteq> set db'"
  using assms
proof (induction ns arbitrary: db)
  case (Cons n ns)
  then obtain d where d: "upsert_category db n = Inr d" "upsert_categories d ns = Inr db'"
    by (auto split: sum.splits)
  have "wf_vocabulary d \<and> set db \<subseteq> set d" using upsert_category_ok [OF d(1) Cons.prems(2)] by blast
  then show ?case using Cons.IH [OF d(2)] by blast
qed simp

lemma check_category_names_iff:
  "check_category_names names known = None \<longleftrightarrow>
     (\<forall>n \<in> set names. category_slug n \<noteq> [] \<and> category_slug n \<notin> set RESERVED_CATEGORY_SLUGS \<and>
        (\<forall>k \<in> set known. kc_slug k = category_slug n \<longrightarrow>
            normalize_category_name (kc_name k) = normalize_category_name n))"
  by (induction names known rule: check_category_names.induct)
    (auto simp: category_name_error_def category_collision_error_def Let_def find_None_all
      split: option.splits dest!: find_in_set)

lemma known_for_slug:
  "k \<in> set db \<Longrightarrow> n \<in> set names \<Longrightarrow> kc_slug k = category_slug n \<Longrightarrow> category_slug n \<noteq> [] \<Longrightarrow>
   k \<in> set (known_categories_for db names)"
  by (auto simp: known_categories_for_def Let_def)

lemma normalized_names:
  "n \<in> set (normalize_category_names names) \<Longrightarrow> normalize_category_name n = n"
  by (auto simp: normalize_category_names_def dest!: in_set_takeD)

text \<open>A list that passes the check can be written when its own new names have different slugs.\<close>

lemma upsert_categories_succeeds:
  assumes "wf_vocabulary db"
    and "\<forall>n \<in> set ns. normalize_category_name n = n \<and> category_slug n \<noteq> [] \<and>
           (\<forall>k \<in> set db. kc_slug k = category_slug n \<longrightarrow> kc_name k = n)"
    and "distinct (map category_slug ns)"
  shows "\<exists>db'. upsert_categories db ns = Inr db'"
  using assms
proof (induction ns arbitrary: db)
  case (Cons n ns)
  have n: "js_lower (js_trim n) = n" "category_slug n \<noteq> []"
    using Cons.prems(2) by (auto simp: normalize_category_name_def)
  obtain d where d: "upsert_category db n = Inr d"
    "set d \<subseteq> insert \<lparr>kc_name = n, kc_slug = category_slug n\<rparr> (set db)"
  proof (cases "\<exists>k \<in> set db. kc_name k = n")
    case True
    then have "upsert_category db n = Inr db" using n by (auto simp: upsert_category_def Let_def list_ex_iff)
    then show ?thesis using that by blast
  next
    case False
    then have "\<not> (\<exists>k \<in> set db. kc_slug k = category_slug n)" using Cons.prems(2) by auto
    with False have "upsert_category db n = Inr (db @ [\<lparr>kc_name = n, kc_slug = category_slug n\<rparr>])"
      using n by (auto simp: upsert_category_def Let_def list_ex_iff)
    then show ?thesis using that by auto
  qed
  have "wf_vocabulary d" using upsert_category_ok [OF d(1) Cons.prems(1)] by blast
  moreover have "\<forall>m \<in> set ns. normalize_category_name m = m \<and> category_slug m \<noteq> [] \<and>
      (\<forall>k \<in> set d. kc_slug k = category_slug m \<longrightarrow> kc_name k = m)"
    using Cons.prems(2,3) d(2) by fastforce
  ultimately obtain db' where "upsert_categories d ns = Inr db'"
    using Cons.IH [of d] Cons.prems(3) by auto
  then show ?case using d(1) by simp
qed simp

section \<open>Properties\<close>

text \<open>
  A submitted category list that passes the check, and whose names have pairwise different slugs, is
  written without a conflict: the vocabulary keeps its unique names and slugs, every existing
  category keeps its row, and no reserved slug is taken.
\<close>

theorem checked_categories_upsert:
  assumes wf: "wf_vocabulary db" and ok: "category_list_error db names = None"
    and differ: "distinct (map category_slug (normalize_category_names names))"
  shows "\<exists>db'. upsert_categories db (normalize_category_names names) = Inr db' \<and>
           wf_vocabulary db' \<and> set db \<subseteq> set db' \<and>
           (\<exists>n \<in> set (normalize_category_names names). category_slug n \<in> set RESERVED_CATEGORY_SLUGS) = False"
proof -
  let ?ns = "normalize_category_names names"
  have check: "check_category_names ?ns (known_categories_for db ?ns) = None"
    using ok by (cases "?ns = []") (simp_all add: category_list_error_def Let_def)
  have db: "normalize_category_name (kc_name k) = kc_name k" if "k \<in> set db" for k
    using wf that by (auto simp: wf_vocabulary_def list_all_iff)
  have each: "\<forall>n \<in> set ?ns. normalize_category_name n = n \<and> category_slug n \<noteq> [] \<and>
      (\<forall>k \<in> set db. kc_slug k = category_slug n \<longrightarrow> kc_name k = n)"
    using check normalized_names known_for_slug db unfolding check_category_names_iff by metis
  obtain db' where db': "upsert_categories db ?ns = Inr db'"
    using upsert_categories_succeeds [OF wf each differ] by blast
  then show ?thesis
    using upsert_categories_ok [OF db' wf] check unfolding check_category_names_iff by auto
qed

lemmas category_eval =
  category_list_error_def normalize_category_names_def normalize_category_name_def category_slug_def
  category_name_error_def category_collision_error_def known_categories_for_def fold_char_def
  slug_char_def slug_re_def trim_hyphens_def trim_with_def js_trim_def js_lower_def lower_char_def
  is_ws_def is_lower_def is_digit_def CATEGORY_SLUG_MAX_def RESERVED_CATEGORY_SLUGS_def
  upsert_category_def Let_def

theorem checked_categories_upsert_witness:
  "wf_vocabulary [\<lparr>kc_name = ''docs'', kc_slug = ''docs''\<rparr>] \<and>
   (\<exists>db'. upsert_categories [\<lparr>kc_name = ''docs'', kc_slug = ''docs''\<rparr>] [''docs'', ''web apps''] = Inr db')"
proof -
  let ?db = "[\<lparr>kc_name = ''docs'', kc_slug = ''docs''\<rparr>]"
  have wf: "wf_vocabulary ?db"
    by (simp add: wf_vocabulary_def is_valid_category_slug_def category_eval)
  have ns: "normalize_category_names ['' docs'', ''web apps''] = [''docs'', ''web apps'']"
    by (simp add: category_eval)
  have ok: "category_list_error ?db ['' docs'', ''web apps''] = None"
    by (simp add: category_eval)
  have "distinct (map category_slug (normalize_category_names ['' docs'', ''web apps'']))"
    unfolding ns by (simp add: category_eval)
  from checked_categories_upsert [OF wf ok this] show ?thesis using wf unfolding ns by blast
qed

text \<open>
  The check compares each name with the stored vocabulary only: two new names of one submission that
  share a slug pass it together, and writing them violates the unique slug.
\<close>

theorem sibling_categories_collide:
  "category_list_error [] [''c+'', ''c-''] = None \<and>
   upsert_categories [] (normalize_category_names [''c+'', ''c-'']) = Inl UniqueSlugViolation"
  by (simp add: category_eval)

end
