(* ===== verification/Store.thy ===== *)
theory Store
  imports ReviewTarget Policy Scan Category Semver
begin

text \<open>
  The state behind the governance operations of the web application: the Postgres tables that
  \<open>packages/web/src/lib/proposals.ts\<close>, \<open>grants.ts\<close>, \<open>maintainers.ts\<close> and \<open>audit.ts\<close> read and
  write, as lists of rows in the order of their creation, so that "latest" is the last matching row.

  A transaction is a function on this state: it ends with a result and the state it commits, or it
  aborts and the caller keeps the state it started from. Row ids come from \<open>db_uuid\<close>, the stream of
  the identifiers the database will generate, \<open>now()\<close> is \<open>db_now\<close>. Awards of achievements, quality
  scoring and the fan-out to followers are separate modules: a call of one of them is recorded, with
  its arguments and in order, in \<open>db_calls\<close>. Foreign keys are not enforced by the model.
\<close>

section \<open>Values\<close>

datatype json = JNull | JBool bool | JInt int | JStr string | JArr "json list" | JObj "(string \<times> json) list"

definition json_opt :: "string option \<Rightarrow> json" where
  "json_opt v = (case v of None \<Rightarrow> JNull | Some s \<Rightarrow> JStr s)"

text \<open>JavaScript truthiness of an optional string, and \<open>x?.trim() || null\<close>.\<close>

definition truthy :: "string option \<Rightarrow> bool" where
  "truthy v = (v \<noteq> None \<and> v \<noteq> Some [])"

definition trim_or_null :: "string option \<Rightarrow> string option" where
  "trim_or_null v = (case v of None \<Rightarrow> None | Some s \<Rightarrow> if js_trim s = [] then None else Some (js_trim s))"

section \<open>Rows\<close>

record namespace_row =
  nr_id :: ident
  nr_slug :: string
  nr_display :: string
  nr_require_review :: bool

record catalog_skill = skill_row +
  cs_slug :: string
  cs_title :: string
  cs_description :: string
  cs_tool :: string
  cs_pointer :: bool
  cs_active :: bool
  cs_deprecated :: bool
  cs_promoted_from :: "ident option"
  cs_icon_sha :: "string option"
  cs_icon_emoji :: "string option"
  cs_icon_source :: "string option"
  cs_created :: instant

record version_row =
  vr_id :: ident
  vr_skill :: ident
  vr_semver :: string
  vr_prerelease :: bool
  vr_active :: bool
  vr_usage :: "string option"
  vr_changed :: "string option"
  vr_key :: "string option"
  vr_sha :: "string option"
  vr_filename :: "string option"
  vr_content :: "string option"
  vr_url :: "string option"
  vr_ref :: "string option"
  vr_subdir :: "string option"
  vr_by :: ident
  vr_git_published :: bool

record mirror_row =
  mi_skill :: ident
  mi_semver :: string
  mi_url :: string
  mi_ref :: string
  mi_subdir :: "string option"
  mi_prerelease :: bool
  mi_usage :: "string option"
  mi_changed :: "string option"
  mi_by :: ident
  mi_commit :: "string option"
  mi_prescan :: "string option"

record maintainer_row =
  mt_skill :: ident
  mt_user :: ident
  mt_by :: ident

record skill_category_row =
  sc_skill :: ident
  sc_category :: string

record pointer_source =
  ps_url :: string
  ps_ref :: string
  ps_subdir :: "string option"
  ps_commit :: "string option"

record reuse_source =
  ru_version :: ident
  ru_semver :: string
  ru_external :: "pointer_source option"

text \<open>
  \<open>ProposalMetadata\<close>: the fields a caller may leave out are options; an icon field distinguishes
  left out (\<open>None\<close>), explicit null (\<open>Some None\<close>) and a value.
\<close>

record proposal_metadata =
  pm_slug :: string
  pm_title :: string
  pm_description :: string
  pm_categories :: "string list option"
  pm_tool :: string
  pm_usage :: "string option"
  pm_changed :: "string option"
  pm_visibility :: visibility
  pm_icon_sha :: "string option option"
  pm_icon_emoji :: "string option option"
  pm_icon_source :: "string option"
  pm_shared :: "ident list option"

record revision_payload =
  rp_meta :: proposal_metadata
  rp_key :: "string option"
  rp_sha :: "string option"
  rp_filename :: "string option"
  rp_content :: "string option"
  rp_pointer :: "pointer_source option"
  rp_reuse :: "reuse_source option"
  rp_promoted :: "ident option"

record proposal_row =
  pp_id :: ident
  pp_namespace :: ident
  pp_skill :: "ident option"
  pp_semver :: string
  pp_state :: proposal_state
  pp_by :: ident
  pp_request :: "ident option"
  pp_assignee :: "ident option"
  pp_assigned_by :: "ident option"
  pp_assigned_at :: "instant option"
  pp_reason :: "string option"
  pp_version :: "ident option"
  pp_routed :: "string option"
  pp_model :: "string option"
  pp_import :: "ident option"
  pp_updated :: instant

record revision_row =
  rv_proposal :: ident
  rv_no :: nat
  rv_payload :: revision_payload
  rv_author :: ident
  rv_note :: "string option"

record scan_report_row =
  sr_id :: ident
  sr_type :: string
  sr_subject :: ident
  sr_severity :: "severity option"
  sr_status :: string
  sr_findings :: "scan_finding list"
  sr_content_sha :: "string option"

record request_row =
  rq_id :: ident
  rq_open :: bool
  rq_requester :: "ident option"
  rq_title :: string
  rq_skill :: "ident option"
  rq_fulfilled_by :: "ident option"

record audit_entry =
  au_actor :: "ident option"
  au_action :: string
  au_type :: string
  au_target :: "ident option"
  au_namespace :: "ident option"
  au_before :: json
  au_after :: json

record notification_row =
  nt_user :: ident
  nt_type :: string
  nt_payload :: json

record dismissal_row =
  ds_skill :: ident
  ds_semver :: string
  ds_rule :: ident
  ds_revision :: ident
  ds_kind :: string
  ds_reason :: string
  ds_source :: string
  ds_by :: ident

record ack_row =
  ak_skill :: ident
  ak_semver :: string
  ak_report :: "ident option"
  ak_pairs :: "(string \<times> string option) list"
  ak_by :: ident
  ak_note :: "string option"
  ak_source :: string

record conversation_row =
  cv_id :: ident
  cv_type :: string
  cv_subject :: ident

record policy_rule_row =
  pl_rule :: policy_gate_rule
  pl_namespace :: "ident option"

text \<open>\<open>Award u key no_habits\<close>, \<open>WriteQuality version skill key\<close>, \<open>FanOut type actor payload skill excluded\<close>, \<open>DeleteObject key\<close>.\<close>

datatype module_call =
    Award ident string bool
  | WriteQuality ident ident "string option"
  | FanOut string ident json "ident option" "ident list"
  | DeleteObject string

record app_db =
  db_access :: access_db
  db_erased :: "ident \<Rightarrow> instant option"
  db_user_name :: "ident \<Rightarrow> string option"
  db_user_email :: "ident \<Rightarrow> string option"
  db_namespaces :: "namespace_row list"
  db_skills :: "catalog_skill list"
  db_versions :: "version_row list"
  db_mirrors :: "mirror_row list"
  db_maintainers :: "maintainer_row list"
  db_categories :: "known_category list"
  db_skill_categories :: "skill_category_row list"
  db_proposals :: "proposal_row list"
  db_revisions :: "revision_row list"
  db_scans :: "scan_report_row list"
  db_requests :: "request_row list"
  db_policy :: "policy_rule_row list"
  db_policy_run :: "ident \<Rightarrow> nat \<Rightarrow> policy_gate_verdict option"
  db_prereview_on :: bool
  db_ai_on :: bool
  db_auto_runs :: "ident \<Rightarrow> nat"
  db_dismissals :: "dismissal_row list"
  db_acks :: "ack_row list"
  db_conversations :: "conversation_row list"
  db_audit :: "audit_entry list"
  db_notifications :: "notification_row list"
  db_calls :: "module_call list"
  db_uuid :: "nat \<Rightarrow> ident"
  db_used :: nat
  db_now :: instant

section \<open>Primitive effects\<close>

definition append_audit :: "audit_entry \<Rightarrow> app_db \<Rightarrow> app_db" where
  "append_audit e db = db\<lparr>db_audit := db_audit db @ [e]\<rparr>"

definition notify :: "notification_row list \<Rightarrow> app_db \<Rightarrow> app_db" where
  "notify ns db = db\<lparr>db_notifications := db_notifications db @ ns\<rparr>"

definition record_call :: "module_call \<Rightarrow> app_db \<Rightarrow> app_db" where
  "record_call c db = db\<lparr>db_calls := db_calls db @ [c]\<rparr>"

definition fresh_id :: "app_db \<Rightarrow> ident \<times> app_db" where
  "fresh_id db = (db_uuid db (db_used db), db\<lparr>db_used := Suc (db_used db)\<rparr>)"

definition set_grants :: "grant_row list \<Rightarrow> app_db \<Rightarrow> app_db" where
  "set_grants gs db = db\<lparr>db_access := (db_access db)\<lparr>t_grants := gs\<rparr>\<rparr>"

definition find_last :: "('a \<Rightarrow> bool) \<Rightarrow> 'a list \<Rightarrow> 'a option" where
  "find_last P xs = find P (rev xs)"

definition user_active :: "app_db \<Rightarrow> ident \<Rightarrow> bool" where
  "user_active db u = list_ex (\<lambda>r. ur_id r = u \<and> ur_active r) (t_users (db_access db))"

definition find_skill :: "app_db \<Rightarrow> ident \<Rightarrow> catalog_skill option" where
  "find_skill db i = find (\<lambda>s. sk_id s = i) (db_skills db)"

definition namespace_slug :: "app_db \<Rightarrow> ident \<Rightarrow> string" where
  "namespace_slug db i = (case find (\<lambda>n. nr_id n = i) (db_namespaces db) of None \<Rightarrow> [] | Some n \<Rightarrow> nr_slug n)"

text \<open>A skill row as the visibility predicates of the access component see it.\<close>

definition base_row :: "catalog_skill \<Rightarrow> skill_row" where
  "base_row s = \<lparr>sk_id = sk_id s, sk_namespace = sk_namespace s, sk_visibility = sk_visibility s\<rparr>"

section \<open>Slug matches\<close>

record slug_match =
  sm_skill :: ident
  sm_namespace :: string
  sm_slug :: string
  sm_title :: string
  sm_pointer :: bool
  sm_deprecated :: bool

definition normalize_match_slug :: "string \<Rightarrow> string" where
  "normalize_match_slug s = js_lower (js_trim s)"

text \<open>
  \<open>findSlugMatches\<close>: the active skills with the slug that the viewer's visibility clause selects,
  oldest first.
\<close>

definition find_slug_matches :: "app_db \<Rightarrow> effective_access \<Rightarrow> string \<Rightarrow> ident option \<Rightarrow> slug_match list" where
  "find_slug_matches db a slug exclude =
     (let want = normalize_match_slug slug in
      if want = [] then []
      else
        let sees = (\<lambda>s. case skill_visibility_where a of None \<Rightarrow> True | Some p \<Rightarrow> p (db_access db) (base_row s));
            rows = filter (\<lambda>s. js_lower (cs_slug s) = want \<and> cs_active s \<and> sees s \<and>
                               (truthy exclude \<longrightarrow> Some (sk_id s) \<noteq> exclude)) (db_skills db)
        in map (\<lambda>s. \<lparr>sm_skill = sk_id s, sm_namespace = namespace_slug db (sk_namespace s), sm_slug = cs_slug s,
                      sm_title = cs_title s, sm_pointer = cs_pointer s, sm_deprecated = cs_deprecated s\<rparr>)
             (sort_key (\<lambda>s. (cs_created s, sk_id s)) rows))"

lemma find_slug_matches_iff:
  "m \<in> set (find_slug_matches db a slug None) \<longleftrightarrow>
     normalize_match_slug slug \<noteq> [] \<and>
     (\<exists>s \<in> set (db_skills db). js_lower (cs_slug s) = normalize_match_slug slug \<and> cs_active s \<and>
        is_skill_visible a (subject_of_row (db_access db) (base_row s)) \<and>
        m = \<lparr>sm_skill = sk_id s, sm_namespace = namespace_slug db (sk_namespace s), sm_slug = cs_slug s,
             sm_title = cs_title s, sm_pointer = cs_pointer s, sm_deprecated = cs_deprecated s\<rparr>)"
proof -
  have sees: "(case skill_visibility_where a of None \<Rightarrow> True | Some p \<Rightarrow> p (db_access db) (base_row s)) \<longleftrightarrow>
      is_skill_visible a (subject_of_row (db_access db) (base_row s))" for s
    using clause_rule.sees_iff [OF TrueI, where db = "db_access db" and v = a and s = "base_row s"]
      memory_rule.sees_iff [OF TrueI, where db = "db_access db" and v = a and s = "base_row s"]
    by (auto simp: visible_rows_def split: option.splits if_splits)
  show ?thesis
    by (auto simp: find_slug_matches_def Let_def sees truthy_def image_iff)
qed

section \<open>Frame rules\<close>

text \<open>The tables a primitive effect does not touch; every later component rests on these.\<close>

named_theorems store_simps \<open>what the primitive effects do to each table\<close>

lemma append_audit_simps [store_simps]:
  "db_audit (append_audit e db) = db_audit db @ [e]"
  "db_proposals (append_audit e db) = db_proposals db" "db_revisions (append_audit e db) = db_revisions db"
  "db_access (append_audit e db) = db_access db" "db_skills (append_audit e db) = db_skills db"
  "db_versions (append_audit e db) = db_versions db" "db_mirrors (append_audit e db) = db_mirrors db"
  "db_maintainers (append_audit e db) = db_maintainers db" "db_notifications (append_audit e db) = db_notifications db"
  "db_scans (append_audit e db) = db_scans db" "db_namespaces (append_audit e db) = db_namespaces db"
  "db_uuid (append_audit e db) = db_uuid db" "db_used (append_audit e db) = db_used db"
  by (simp_all add: append_audit_def)

lemma notify_simps [store_simps]:
  "db_notifications (notify ns db) = db_notifications db @ ns"
  "db_audit (notify ns db) = db_audit db"
  "db_proposals (notify ns db) = db_proposals db" "db_revisions (notify ns db) = db_revisions db"
  "db_access (notify ns db) = db_access db" "db_skills (notify ns db) = db_skills db"
  "db_versions (notify ns db) = db_versions db" "db_mirrors (notify ns db) = db_mirrors db"
  "db_maintainers (notify ns db) = db_maintainers db"
  "db_scans (notify ns db) = db_scans db" "db_namespaces (notify ns db) = db_namespaces db"
  "db_uuid (notify ns db) = db_uuid db" "db_used (notify ns db) = db_used db"
  by (simp_all add: notify_def)

lemma record_call_simps [store_simps]:
  "db_calls (record_call c db) = db_calls db @ [c]" "db_audit (record_call c db) = db_audit db"
  "db_proposals (record_call c db) = db_proposals db" "db_revisions (record_call c db) = db_revisions db"
  "db_access (record_call c db) = db_access db" "db_skills (record_call c db) = db_skills db"
  "db_versions (record_call c db) = db_versions db" "db_mirrors (record_call c db) = db_mirrors db"
  "db_maintainers (record_call c db) = db_maintainers db" "db_notifications (record_call c db) = db_notifications db"
  "db_scans (record_call c db) = db_scans db" "db_namespaces (record_call c db) = db_namespaces db"
  "db_uuid (record_call c db) = db_uuid db" "db_used (record_call c db) = db_used db"
  by (simp_all add: record_call_def)

lemma set_grants_simps [store_simps]:
  "db_audit (set_grants gs db) = db_audit db"
  "db_proposals (set_grants gs db) = db_proposals db" "db_revisions (set_grants gs db) = db_revisions db"
  "db_access (set_grants gs db) = (db_access db)\<lparr>t_grants := gs\<rparr>" "db_skills (set_grants gs db) = db_skills db"
  "db_versions (set_grants gs db) = db_versions db" "db_mirrors (set_grants gs db) = db_mirrors db"
  "db_maintainers (set_grants gs db) = db_maintainers db" "db_notifications (set_grants gs db) = db_notifications db"
  "db_scans (set_grants gs db) = db_scans db" "db_namespaces (set_grants gs db) = db_namespaces db"
  "db_uuid (set_grants gs db) = db_uuid db" "db_used (set_grants gs db) = db_used db"
  by (simp_all add: set_grants_def)

text \<open>The audit log only grows.\<close>

definition audit_grows :: "app_db \<Rightarrow> app_db \<Rightarrow> bool" where
  "audit_grows db db' = prefix (db_audit db) (db_audit db')"

lemma audit_grows_refl [simp, intro]: "audit_grows db db"
  by (simp add: audit_grows_def)

lemma audit_grows_trans [trans]: "audit_grows a b \<Longrightarrow> audit_grows b c \<Longrightarrow> audit_grows a c"
  by (auto simp: audit_grows_def)

end
