(* ===== verification/Grants.thy ===== *)
theory Grants
  imports Store
begin

text \<open>
  Sharing a restricted skill with other namespaces: \<open>packages/web/src/lib/grants.ts\<close>, with the
  maintainer pruning and the automatic maintainer rows of \<open>packages/web/src/lib/maintainers.ts\<close> and
  \<open>liveGrantTargets\<close> of \<open>proposals.ts\<close>.
\<close>

section \<open>Validation of the requested grantees\<close>

datatype grant_via = ViaManage | ViaProposalAccept | ViaDirectPublish | ViaReviewerEdit | ViaNamespaceDeleted | ViaVisibilityOrg

fun via_text :: "grant_via \<Rightarrow> string" where
  "via_text ViaManage = ''manage''"
| "via_text ViaProposalAccept = ''proposal_accept''"
| "via_text ViaDirectPublish = ''direct_publish''"
| "via_text ViaReviewerEdit = ''reviewer_edit''"
| "via_text ViaNamespaceDeleted = ''namespace_deleted''"
| "via_text ViaVisibilityOrg = ''visibility_org''"

record grant_skill =
  gs_id :: ident
  gs_namespace :: ident
  gs_visibility :: visibility

datatype grant_target_error = UnknownNamespace | OwnerNamespace | GlobalNamespace

text \<open>The 8-4-4-4-12 form of a UUID.\<close>

definition is_uuid :: "string \<Rightarrow> bool" where
  "is_uuid s = (map length (split_on (CHR ''-'') s) = [8, 4, 4, 4, 12] \<and>
                list_all (\<lambda>c. is_hex c \<or> c = CHR ''-'') s)"

fun check_targets ::
  "(ident \<Rightarrow> string option) \<Rightarrow> ident option \<Rightarrow> ident list \<Rightarrow> (grant_target_error \<times> ident) option" where
  "check_targets by_id owner [] = None"
| "check_targets by_id owner (i # is) =
     (case by_id i of
        None \<Rightarrow> Some (UnknownNamespace, i)
      | Some slug \<Rightarrow>
          if Some i = owner then Some (OwnerNamespace, i)
          else if slug = ''global'' then Some (GlobalNamespace, i)
          else check_targets by_id owner is)"

definition namespace_by_id :: "app_db \<Rightarrow> ident \<Rightarrow> string option" where
  "namespace_by_id db i = map_option nr_slug (find (\<lambda>n. nr_id n = i) (db_namespaces db))"

definition validate_grant_targets ::
  "app_db \<Rightarrow> ident option \<Rightarrow> string list \<Rightarrow> (grant_target_error \<times> ident) + ident list" where
  "validate_grant_targets db owner requested =
     (let ids = js_unique (filter (\<lambda>s. s \<noteq> []) (map js_trim requested)) in
      if ids = [] then Inr ids
      else case find (\<lambda>i. \<not> is_uuid i) ids of
        Some bad \<Rightarrow> Inl (UnknownNamespace, bad)
      | None \<Rightarrow>
          (case check_targets (namespace_by_id db) owner ids of
             Some e \<Rightarrow> Inl e
           | None \<Rightarrow> Inr ids))"

text \<open>\<open>liveGrantTargets\<close>: the submitted ids that are still grantable, in table order.\<close>

definition live_grant_targets :: "app_db \<Rightarrow> ident \<Rightarrow> ident list \<Rightarrow> ident list" where
  "live_grant_targets db owner ids =
     (if ids = [] then []
      else map nr_id (filter (\<lambda>n. nr_id n \<in> set ids \<and> nr_slug n \<noteq> ''global'' \<and> nr_id n \<noteq> owner) (db_namespaces db)))"

section \<open>Maintainers\<close>

definition eligible_sql :: "app_db \<Rightarrow> ident \<Rightarrow> ident \<Rightarrow> bool" where
  "eligible_sql db user skill =
     list_ex (\<lambda>s. sk_id s = skill \<and> user_can_see_skill_sql user (db_access db) (base_row s)) (db_skills db)"

definition maintainer_removed :: "grant_skill \<Rightarrow> ident option \<Rightarrow> string \<Rightarrow> ident \<Rightarrow> audit_entry" where
  "maintainer_removed skill actor via user =
     \<lparr>au_actor = actor, au_action = ''skill.maintainer_removed'', au_type = ''skill'', au_target = Some (gs_id skill),
      au_namespace = Some (gs_namespace skill), au_before = JObj [(''userId'', JStr user)],
      au_after = JObj [(''reason'', JStr ''no_longer_visible''), (''via'', JStr via)]\<rparr>"

definition prune_ineligible_maintainers ::
  "grant_skill \<Rightarrow> ident option \<Rightarrow> string \<Rightarrow> app_db \<Rightarrow> ident list \<times> app_db" where
  "prune_ineligible_maintainers skill actor via db =
     (let gone = (\<lambda>m. mt_skill m = gs_id skill \<and> \<not> eligible_sql db (mt_user m) (gs_id skill));
          users = map mt_user (filter gone (db_maintainers db));
          db1 = db\<lparr>db_maintainers := filter (\<lambda>m. \<not> gone m) (db_maintainers db)\<rparr>
      in (users, foldl (\<lambda>d u. append_audit (maintainer_removed skill actor via u) d) db1 users))"

definition insert_maintainer :: "ident \<Rightarrow> ident \<Rightarrow> app_db \<Rightarrow> bool \<times> app_db" where
  "insert_maintainer skill user db =
     (if list_ex (\<lambda>m. mt_skill m = skill \<and> mt_user m = user) (db_maintainers db) then (False, db)
      else (True, db\<lparr>db_maintainers := db_maintainers db @ [\<lparr>mt_skill = skill, mt_user = user, mt_by = user\<rparr>]\<rparr>))"

definition auto_add_submitter :: "grant_skill \<Rightarrow> ident \<Rightarrow> app_db \<Rightarrow> app_db" where
  "auto_add_submitter skill user db =
     (if \<not> eligible_sql db user (gs_id skill) then db else snd (insert_maintainer (gs_id skill) user db))"

definition is_implicit_maintainer :: "app_db \<Rightarrow> grant_skill \<Rightarrow> ident \<Rightarrow> bool" where
  "is_implicit_maintainer db skill user = (user \<in> set (namespace_admin_ids (db_access db) (gs_namespace skill)))"

text \<open>\<open>isOriginalProposer\<close>: the author of the skill's first version row.\<close>

definition is_original_proposer :: "app_db \<Rightarrow> ident \<Rightarrow> ident \<Rightarrow> bool" where
  "is_original_proposer db skill user =
     (case find (\<lambda>v. vr_skill v = skill) (db_versions db) of None \<Rightarrow> False | Some v \<Rightarrow> vr_by v = user)"

definition auto_add_submitter_on_new_version :: "grant_skill \<Rightarrow> ident \<Rightarrow> app_db \<Rightarrow> app_db" where
  "auto_add_submitter_on_new_version skill user db =
     (if \<not> eligible_sql db user (gs_id skill) then db
      else if is_implicit_maintainer db skill user then db
      else let (inserted, db1) = insert_maintainer (gs_id skill) user db in
        if \<not> inserted then db1
        else let db2 = append_audit
                   \<lparr>au_actor = Some user, au_action = ''skill.maintainer_auto_added'', au_type = ''skill'',
                    au_target = Some (gs_id skill), au_namespace = Some (gs_namespace skill),
                    au_before = JNull, au_after = JObj [(''userId'', JStr user)]\<rparr> db1
          in if is_original_proposer db2 (gs_id skill) user then db2
             else record_call (Award user ''maintainer_added'' True) db2)"

section \<open>Adding and removing a grant\<close>

definition user_label_sql :: "app_db \<Rightarrow> ident \<Rightarrow> string option" where
  "user_label_sql db u = (if truthy (db_user_name db u) then db_user_name db u else db_user_email db u)"

definition namespace_display :: "app_db \<Rightarrow> ident \<Rightarrow> string" where
  "namespace_display db i = (case find (\<lambda>n. nr_id n = i) (db_namespaces db) of None \<Rightarrow> [] | Some n \<Rightarrow> nr_display n)"

text \<open>
  \<open>notifyShared\<close>: the active admins of the receiving and of the owning namespace, minus the actor;
  no row when the skill or one of the namespaces does not exist.
\<close>

definition notify_shared :: "grant_skill \<Rightarrow> ident \<Rightarrow> ident option \<Rightarrow> app_db \<Rightarrow> app_db" where
  "notify_shared skill grantee actor db =
     (case find_skill db (gs_id skill) of
        None \<Rightarrow> db
      | Some s \<Rightarrow>
          if namespace_by_id db (sk_namespace s) = None \<or> namespace_by_id db grantee = None then db
          else
            let admins = map ur_id (filter (\<lambda>u. ur_active u \<and>
                   (ur_id u \<in> set (namespace_admin_ids (db_access db) grantee) \<or>
                    ur_id u \<in> set (namespace_admin_ids (db_access db) (sk_namespace s))) \<and>
                   Some (ur_id u) \<noteq> actor) (t_users (db_access db)));
                who = (case actor of None \<Rightarrow> None | Some a \<Rightarrow> user_label_sql db a);
                payload = JObj [(''namespaceSlug'', JStr (namespace_slug db (sk_namespace s))),
                   (''skillSlug'', JStr (cs_slug s)), (''skillTitle'', JStr (cs_title s)),
                   (''ownerNamespaceName'', JStr (namespace_display db (sk_namespace s))),
                   (''granteeNamespaceName'', JStr (namespace_display db grantee)),
                   (''granteeNamespaceId'', JStr grantee),
                   (''fromName'', JStr (case who of None \<Rightarrow> ''Someone'' | Some n \<Rightarrow> n))]
            in notify (map (\<lambda>u. \<lparr>nt_user = u, nt_type = ''skill.shared'', nt_payload = payload\<rparr>) admins) db)"

definition add_grant :: "grant_skill \<Rightarrow> ident \<Rightarrow> ident option \<Rightarrow> grant_via \<Rightarrow> app_db \<Rightarrow> bool \<times> app_db" where
  "add_grant skill grantee actor via db =
     (if list_ex (\<lambda>g. sng_skill g = gs_id skill \<and> sng_namespace g = grantee) (t_grants (db_access db)) then (False, db)
      else
        let db1 = set_grants (t_grants (db_access db) @ [\<lparr>sng_skill = gs_id skill, sng_namespace = grantee\<rparr>]) db;
            db2 = append_audit
              \<lparr>au_actor = actor, au_action = ''skill.namespace_shared'', au_type = ''skill'',
               au_target = Some (gs_id skill), au_namespace = Some (gs_namespace skill), au_before = JNull,
               au_after = JObj [(''namespaceId'', JStr grantee), (''via'', JStr (via_text via))]\<rparr> db1
        in (True, notify_shared skill grantee actor db2))"

definition remove_grant ::
  "grant_skill \<Rightarrow> ident \<Rightarrow> ident option \<Rightarrow> grant_via \<Rightarrow> app_db \<Rightarrow> (bool \<times> ident list) \<times> app_db" where
  "remove_grant skill grantee actor via db =
     (if \<not> list_ex (\<lambda>g. sng_skill g = gs_id skill \<and> sng_namespace g = grantee) (t_grants (db_access db))
      then ((False, []), db)
      else
        let db1 = set_grants (filter (\<lambda>g. \<not> (sng_skill g = gs_id skill \<and> sng_namespace g = grantee))
                     (t_grants (db_access db))) db;
            db2 = append_audit
              \<lparr>au_actor = actor, au_action = ''skill.namespace_unshared'', au_type = ''skill'',
               au_target = Some (gs_id skill), au_namespace = Some (gs_namespace skill),
               au_before = JObj [(''namespaceId'', JStr grantee)],
               au_after = JObj [(''via'', JStr (via_text via))]\<rparr> db1;
            (pruned, db3) = prune_ineligible_maintainers skill actor (via_text via) db2
        in ((True, pruned), db3))"

section \<open>Synchronizing the grants of a skill\<close>

fun add_grants :: "grant_skill \<Rightarrow> ident set \<Rightarrow> ident option \<Rightarrow> grant_via \<Rightarrow> ident list \<Rightarrow> app_db \<Rightarrow> ident list \<times> app_db" where
  "add_grants skill current actor via [] db = ([], db)"
| "add_grants skill current actor via (i # is) db =
     (if i \<in> current then add_grants skill current actor via is db
      else let (ok, db1) = add_grant skill i actor via db;
               (added, db2) = add_grants skill current actor via is db1
           in (if ok then i # added else added, db2))"

fun remove_grants :: "grant_skill \<Rightarrow> ident set \<Rightarrow> ident option \<Rightarrow> grant_via \<Rightarrow> ident list \<Rightarrow> app_db \<Rightarrow> ident list \<times> app_db" where
  "remove_grants skill keep actor via [] db = ([], db)"
| "remove_grants skill keep actor via (i # is) db =
     (if i \<in> keep then remove_grants skill keep actor via is db
      else let ((ok, pruned), db1) = remove_grant skill i actor via db;
               (removed, db2) = remove_grants skill keep actor via is db1
           in (if ok then i # removed else removed, db2))"

definition sync_grants ::
  "grant_skill \<Rightarrow> ident list \<Rightarrow> ident option \<Rightarrow> grant_via \<Rightarrow> app_db \<Rightarrow> (ident list \<times> ident list) \<times> app_db" where
  "sync_grants skill desired actor via db =
     (let current = js_unique (map sng_namespace (filter (\<lambda>g. sng_skill g = gs_id skill) (t_grants (db_access db)))) in
      if gs_visibility skill = OrgVisible
      then let (removed, db1) = remove_grants skill {} actor ViaVisibilityOrg current db in (([], removed), db1)
      else let want = js_unique (filter (\<lambda>i. i \<noteq> gs_namespace skill) desired);
               (added, db1) = add_grants skill (set current) actor via want db;
               (removed, db2) = remove_grants skill (set want) actor via current db1
           in ((added, removed), db2))"

section \<open>What the grant operations do\<close>

definition grants_of :: "app_db \<Rightarrow> ident \<Rightarrow> ident set" where
  "grants_of db skill = {n. \<lparr>sng_skill = skill, sng_namespace = n\<rparr> \<in> set (t_grants (db_access db))}"

text \<open>
  The frame of every grant operation: it may change grants, maintainers, the audit log, notifications
  and module calls, and nothing else.
\<close>

definition grant_frame :: "app_db \<Rightarrow> app_db \<Rightarrow> bool" where
  "grant_frame db db' =
     (db_proposals db' = db_proposals db \<and> db_revisions db' = db_revisions db \<and> db_skills db' = db_skills db \<and>
      db_versions db' = db_versions db \<and> db_mirrors db' = db_mirrors db \<and> db_scans db' = db_scans db \<and>
      db_namespaces db' = db_namespaces db \<and> db_uuid db' = db_uuid db \<and> db_used db' = db_used db \<and>
      t_users (db_access db') = t_users (db_access db) \<and> t_groups (db_access db') = t_groups (db_access db) \<and>
      t_memberships (db_access db') = t_memberships (db_access db) \<and> t_mappings (db_access db') = t_mappings (db_access db) \<and>
      audit_grows db db')"

lemma grant_frame_refl [simp, intro]: "grant_frame db db"
  by (simp add: grant_frame_def)

lemma grant_frame_trans [trans]: "grant_frame a b \<Longrightarrow> grant_frame b c \<Longrightarrow> grant_frame a c"
  by (auto simp: grant_frame_def intro: audit_grows_trans)

lemma frame_audit: "grant_frame db d \<Longrightarrow> grant_frame db (append_audit e d)"
  by (simp add: grant_frame_def store_simps audit_grows_def)

lemma frame_notify: "grant_frame db d \<Longrightarrow> grant_frame db (notify ns d)"
  by (simp add: grant_frame_def store_simps audit_grows_def)

lemma frame_call: "grant_frame db d \<Longrightarrow> grant_frame db (record_call c d)"
  by (simp add: grant_frame_def store_simps audit_grows_def)

lemma frame_grants: "grant_frame db d \<Longrightarrow> grant_frame db (set_grants gs d)"
  by (simp add: grant_frame_def store_simps audit_grows_def)

lemma frame_maintainers: "grant_frame db d \<Longrightarrow> grant_frame db (d\<lparr>db_maintainers := ms\<rparr>)"
  by (simp add: grant_frame_def audit_grows_def)

lemma frame_audits: "grant_frame db d \<Longrightarrow> grant_frame db (foldl (\<lambda>d u. append_audit (f u) d) d us)"
  by (rule foldl_invariant [where I = "grant_frame db"]) (auto intro: frame_audit)

lemma frame_prune: "grant_frame db d \<Longrightarrow> grant_frame db (snd (prune_ineligible_maintainers skill actor via d))"
  unfolding prune_ineligible_maintainers_def Let_def snd_conv by (intro frame_audits frame_maintainers)

lemma frame_notify_shared: "grant_frame db d \<Longrightarrow> grant_frame db (notify_shared skill g actor d)"
  by (auto simp: notify_shared_def Let_def intro: frame_notify split: option.splits)

lemmas frame_intros = frame_audit frame_notify frame_call frame_grants frame_maintainers frame_audits
  frame_prune frame_notify_shared grant_frame_refl

lemma frame_add_grant: "grant_frame db d \<Longrightarrow> grant_frame db (snd (add_grant skill g actor via d))"
  by (simp add: add_grant_def Let_def frame_intros)

lemma remove_grant_snd:
  "snd (remove_grant skill g actor via db) =
     (if \<not> list_ex (\<lambda>r. sng_skill r = gs_id skill \<and> sng_namespace r = g) (t_grants (db_access db)) then db
      else snd (prune_ineligible_maintainers skill actor (via_text via)
             (append_audit
              \<lparr>au_actor = actor, au_action = ''skill.namespace_unshared'', au_type = ''skill'',
               au_target = Some (gs_id skill), au_namespace = Some (gs_namespace skill),
               au_before = JObj [(''namespaceId'', JStr g)],
               au_after = JObj [(''via'', JStr (via_text via))]\<rparr>
              (set_grants (filter (\<lambda>r. \<not> (sng_skill r = gs_id skill \<and> sng_namespace r = g))
                 (t_grants (db_access db))) db))))"
  by (simp add: remove_grant_def Let_def split: prod.split)

lemma frame_remove_grant: "grant_frame db d \<Longrightarrow> grant_frame db (snd (remove_grant skill g actor via d))"
  by (simp add: remove_grant_snd frame_intros)

lemma frame_add_grants: "grant_frame db d \<Longrightarrow> grant_frame db (snd (add_grants skill cur actor via is d))"
proof (induction "is" arbitrary: d)
  case (Cons i "is")
  then show ?case
    using frame_add_grant [OF Cons.prems, of skill i actor via] by (simp add: split_beta Let_def)
qed simp

lemma frame_remove_grants: "grant_frame db d \<Longrightarrow> grant_frame db (snd (remove_grants skill keep actor via is d))"
proof (induction "is" arbitrary: d)
  case (Cons i "is")
  then show ?case
    using frame_remove_grant [OF Cons.prems, of skill i actor via] by (simp add: split_beta Let_def)
qed simp

lemma frame_sync_grants: "grant_frame db d \<Longrightarrow> grant_frame db (snd (sync_grants skill desired actor via d))"
  by (simp add: sync_grants_def Let_def split_beta frame_remove_grants frame_add_grants)

lemma frame_insert_maintainer: "grant_frame db d \<Longrightarrow> grant_frame db (snd (insert_maintainer s u d))"
  by (simp add: insert_maintainer_def frame_intros)

lemma frame_auto_add: "grant_frame db d \<Longrightarrow> grant_frame db (auto_add_submitter skill u d)"
  by (simp add: auto_add_submitter_def frame_insert_maintainer)

lemma frame_auto_add_version: "grant_frame db d \<Longrightarrow> grant_frame db (auto_add_submitter_on_new_version skill u d)"
  using frame_insert_maintainer [of db d "gs_id skill" u]
  by (simp add: auto_add_submitter_on_new_version_def Let_def split_beta frame_intros)

section \<open>The synchronized set\<close>

lemma prune_grants [simp]: "t_grants (db_access (snd (prune_ineligible_maintainers skill actor via db))) = t_grants (db_access db)"
proof -
  have "t_grants (db_access (foldl (\<lambda>d u. append_audit (f u) d) d us)) = t_grants (db_access d)"
    for f :: "ident \<Rightarrow> audit_entry" and d us
    by (induction us arbitrary: d) (simp_all add: store_simps)
  then show ?thesis by (simp add: prune_ineligible_maintainers_def Let_def)
qed

lemma notify_shared_grants [simp]: "t_grants (db_access (notify_shared skill g actor db)) = t_grants (db_access db)"
  by (simp add: notify_shared_def Let_def store_simps split: option.splits)

lemma add_grant_grants:
  "set (t_grants (db_access (snd (add_grant skill g actor via db)))) =
     insert \<lparr>sng_skill = gs_id skill, sng_namespace = g\<rparr> (set (t_grants (db_access db)))"
  by (auto simp: add_grant_def Let_def store_simps list_ex_iff) (metis grant_row.surjective old.unit.exhaust)

lemma remove_grant_grants:
  "set (t_grants (db_access (snd (remove_grant skill g actor via db)))) =
     set (t_grants (db_access db)) - {\<lparr>sng_skill = gs_id skill, sng_namespace = g\<rparr>}"
  by (auto simp: remove_grant_snd store_simps list_ex_iff)

lemma add_grants_grants:
  "set (t_grants (db_access (snd (add_grants skill cur actor via is db)))) =
     set (t_grants (db_access db)) \<union> (\<lambda>g. \<lparr>sng_skill = gs_id skill, sng_namespace = g\<rparr>) ` (set is - cur)"
  by (induction "is" arbitrary: db) (auto simp: split_beta Let_def add_grant_grants)

lemma remove_grants_grants:
  "set (t_grants (db_access (snd (remove_grants skill keep actor via is db)))) =
     set (t_grants (db_access db)) - (\<lambda>g. \<lparr>sng_skill = gs_id skill, sng_namespace = g\<rparr>) ` (set is - keep)"
  by (induction "is" arbitrary: db) (auto simp: split_beta Let_def remove_grant_grants)

lemma current_grants:
  "sng_namespace ` {r \<in> set gs. sng_skill r = k} = {n. \<lparr>sng_skill = k, sng_namespace = n\<rparr> \<in> set gs}"
proof (intro equalityI subsetI)
  fix n
  assume "n \<in> sng_namespace ` {r \<in> set gs. sng_skill r = k}"
  then obtain r where r: "r \<in> set gs" "sng_skill r = k" "sng_namespace r = n" by auto
  have "r = \<lparr>sng_skill = k, sng_namespace = n\<rparr>" using r(2,3) by simp
  then show "n \<in> {n. \<lparr>sng_skill = k, sng_namespace = n\<rparr> \<in> set gs}" using r(1) by simp
qed force

lemma sync_grants_rows:
  "set (t_grants (db_access (snd (sync_grants skill desired actor via db)))) =
     {r \<in> set (t_grants (db_access db)). sng_skill r \<noteq> gs_id skill} \<union>
     (if gs_visibility skill = OrgVisible then {}
      else (\<lambda>g. \<lparr>sng_skill = gs_id skill, sng_namespace = g\<rparr>) ` (set desired - {gs_namespace skill}))"
    (is "?L = ?R")
proof (rule set_eqI)
  fix r :: grant_row
  obtain k n where r: "r = \<lparr>sng_skill = k, sng_namespace = n\<rparr>" by (cases r)
  show "r \<in> ?L \<longleftrightarrow> r \<in> ?R"
    unfolding r
    by (auto simp: sync_grants_def Let_def split_beta add_grants_grants remove_grants_grants current_grants)
qed

section \<open>Properties\<close>


text \<open>
  Removing a grant leaves no explicit maintainer of the skill who can no longer see it: after the
  removal every remaining maintainer row of the skill belongs to a user the visibility predicate
  admits, and the rows of other skills are untouched.
\<close>

theorem remove_grant_prunes:
  assumes removed: "fst (fst (remove_grant skill g actor via db))"
    and m: "m \<in> set (db_maintainers (snd (remove_grant skill g actor via db)))" and own: "mt_skill m = gs_id skill"
  shows "eligible_sql (snd (remove_grant skill g actor via db)) (mt_user m) (gs_id skill) \<and>
         g \<notin> grants_of (snd (remove_grant skill g actor via db)) (gs_id skill)"
proof -
  have present: "list_ex (\<lambda>r. sng_skill r = gs_id skill \<and> sng_namespace r = g) (t_grants (db_access db))"
    using removed by (auto simp: remove_grant_def split: if_splits)
  define d where "d = append_audit
              \<lparr>au_actor = actor, au_action = ''skill.namespace_unshared'', au_type = ''skill'',
               au_target = Some (gs_id skill), au_namespace = Some (gs_namespace skill),
               au_before = JObj [(''namespaceId'', JStr g)],
               au_after = JObj [(''via'', JStr (via_text via))]\<rparr>
              (set_grants (filter (\<lambda>r. \<not> (sng_skill r = gs_id skill \<and> sng_namespace r = g))
                 (t_grants (db_access db))) db)"
  have after: "snd (remove_grant skill g actor via db) =
      snd (prune_ineligible_maintainers skill actor (via_text via) d)"
    using present by (simp add: remove_grant_snd d_def)
  have fold: "db_access (foldl (\<lambda>d u. append_audit (f u) d) x us) = db_access x \<and>
      db_skills (foldl (\<lambda>d u. append_audit (f u) d) x us) = db_skills x \<and>
      db_maintainers (foldl (\<lambda>d u. append_audit (f u) d) x us) = db_maintainers x"
    for f :: "ident \<Rightarrow> audit_entry" and x us
    by (induction us arbitrary: x) (simp_all add: store_simps)
  have "eligible_sql d (mt_user m) (gs_id skill)"
    using m own unfolding after by (simp add: prune_ineligible_maintainers_def Let_def fold)
  moreover have "eligible_sql (snd (prune_ineligible_maintainers skill actor (via_text via) d)) u k = eligible_sql d u k" for u k
    by (simp add: eligible_sql_def prune_ineligible_maintainers_def Let_def fold)
  moreover have "g \<notin> grants_of (snd (remove_grant skill g actor via db)) (gs_id skill)"
    by (auto simp: grants_of_def remove_grant_grants)
  ultimately show ?thesis unfolding after by simp
qed

text \<open>A restricted skill of another namespace, shared with the namespace of its two maintainers.\<close>

definition sample_shared :: app_db where
  "sample_shared =
     \<lparr>db_access = \<lparr>t_users = [\<lparr>ur_id = ''u'', ur_oid = ''ou'', ur_active = True\<rparr>, \<lparr>ur_id = ''v'', ur_oid = ''ov'', ur_active = True\<rparr>],
        t_groups = [\<lparr>gr_id = ''g'', gr_oid = ''og''\<rparr>, \<lparr>gr_id = ''h'', gr_oid = ''oh''\<rparr>],
        t_memberships = [\<lparr>gm_user = ''u'', gm_group = ''g''\<rparr>, \<lparr>gm_user = ''v'', gm_group = ''h''\<rparr>],
        t_mappings = [\<lparr>mr_id = ''m1'', mr_namespace = Some ''owner'', mr_role = NamespaceMember, mr_group = ''g''\<rparr>,
                      \<lparr>mr_id = ''m2'', mr_namespace = Some ''n'', mr_role = NamespaceMember, mr_group = ''h''\<rparr>],
        t_grants = [\<lparr>sng_skill = ''t'', sng_namespace = ''n''\<rparr>]\<rparr>,
      db_erased = Map.empty, db_user_name = Map.empty, db_user_email = Map.empty, db_namespaces = [],
      db_skills = [\<lparr>sk_id = ''t'', sk_namespace = ''owner'', sk_visibility = NamespaceVisible, cs_slug = ''lint'',
        cs_title = ''Lint'', cs_description = [], cs_tool = ''claude'', cs_pointer = False, cs_active = True,
        cs_deprecated = False, cs_promoted_from = None, cs_icon_sha = None, cs_icon_emoji = None,
        cs_icon_source = None, cs_created = 0\<rparr>],
      db_versions = [], db_mirrors = [],
      db_maintainers = [\<lparr>mt_skill = ''t'', mt_user = ''u'', mt_by = ''u''\<rparr>, \<lparr>mt_skill = ''t'', mt_user = ''v'', mt_by = ''u''\<rparr>],
      db_categories = [], db_skill_categories = [], db_proposals = [], db_revisions = [], db_scans = [],
      db_requests = [], db_policy = [], db_policy_run = (\<lambda>_ _. None), db_prereview_on = False, db_ai_on = False,
      db_auto_runs = (\<lambda>_. 0), db_dismissals = [], db_acks = [], db_conversations = [], db_audit = [],
      db_notifications = [], db_calls = [], db_uuid = (\<lambda>n. replicate n CHR ''x''), db_used = 0, db_now = 0\<rparr>"

text \<open>The maintainer of the owning namespace stays, the one who saw the skill through the grant is pruned.\<close>

theorem remove_grant_prunes_witness:
  "let d = snd (remove_grant \<lparr>gs_id = ''t'', gs_namespace = ''owner'', gs_visibility = NamespaceVisible\<rparr> ''n'' None ViaManage sample_shared)
   in map mt_user (db_maintainers d) = [''u''] \<and> eligible_sql d ''u'' ''t'' \<and> ''n'' \<notin> grants_of d ''t''"
proof -
  let ?s = "\<lparr>gs_id = ''t'', gs_namespace = ''owner'', gs_visibility = NamespaceVisible\<rparr>"
  have r: "fst (fst (remove_grant ?s ''n'' None ViaManage sample_shared))"
    by (simp add: remove_grant_def sample_shared_def split: prod.split)
  have m: "db_maintainers (snd (remove_grant ?s ''n'' None ViaManage sample_shared)) = [\<lparr>mt_skill = ''t'', mt_user = ''u'', mt_by = ''u''\<rparr>]"
    by (simp add: remove_grant_snd sample_shared_def prune_ineligible_maintainers_def eligible_sql_def base_row_def
        user_can_see_skill_sql_def append_audit_def set_grants_def)
  show ?thesis
    using remove_grant_prunes [OF r, of "\<lparr>mt_skill = ''t'', mt_user = ''u'', mt_by = ''u''\<rparr>"] m by simp
qed

end
