(* ===== verification/Publishing.thy ===== *)
theory Publishing
  imports Grants
begin

text \<open>
  Publishing a version: \<open>materializeVersion\<close> of \<open>packages/web/src/lib/proposals.ts\<close> with
  \<open>syncCategories\<close>. It creates the skill when there is none, or synchronizes the fields a new
  version may change; a pointer source is queued for mirroring, any other payload becomes an immutable
  version row at once.

  An exception (a unique index, a semver that does not increase, a category without a slug) is the
  left result; the caller's transaction rolls back.
\<close>

section \<open>Inputs and results\<close>

datatype tx_error = UniqueViolation string | CategoryNoSlug | SemverRejected semver_error | NoRevisions | MissingRow

record materialize_input =
  mz_namespace :: ident
  mz_skill :: "ident option"
  mz_semver :: string
  mz_by :: ident
  mz_payload :: revision_payload
  mz_actor :: "ident option"
  mz_via :: "grant_via option"
  mz_proposal :: "ident option"

record materialize_result =
  mr_skill_id :: ident
  mr_version_id :: "ident option"
  mr_pending :: bool

text \<open>\<open>x ?? null\<close> of a field that may be left out.\<close>

definition or_null :: "'a option option \<Rightarrow> 'a option" where
  "or_null x = (case x of None \<Rightarrow> None | Some v \<Rightarrow> v)"

definition set_skill :: "ident \<Rightarrow> (catalog_skill \<Rightarrow> catalog_skill) \<Rightarrow> app_db \<Rightarrow> app_db" where
  "set_skill i f db = db\<lparr>db_skills := map (\<lambda>s. if sk_id s = i then f s else s) (db_skills db)\<rparr>"

section \<open>Categories of a skill\<close>

definition link_category :: "ident \<Rightarrow> string \<Rightarrow> app_db \<Rightarrow> app_db" where
  "link_category skill name db =
     (if list_ex (\<lambda>l. sc_skill l = skill \<and> sc_category l = name) (db_skill_categories db) then db
      else db\<lparr>db_skill_categories := db_skill_categories db @ [\<lparr>sc_skill = skill, sc_category = name\<rparr>]\<rparr>)"

fun link_categories :: "ident \<Rightarrow> string list \<Rightarrow> app_db \<Rightarrow> tx_error + app_db" where
  "link_categories skill [] db = Inr db"
| "link_categories skill (n # ns) db =
     (case upsert_category (db_categories db) n of
        Inl YieldsNoSlug \<Rightarrow> Inl CategoryNoSlug
      | Inl UniqueSlugViolation \<Rightarrow> Inl (UniqueViolation ''categories.slug'')
      | Inr cats \<Rightarrow> link_categories skill ns (link_category skill n (db\<lparr>db_categories := cats\<rparr>)))"

text \<open>A category row is identified by its unique name.\<close>

definition sync_categories :: "ident \<Rightarrow> string list \<Rightarrow> app_db \<Rightarrow> tx_error + app_db" where
  "sync_categories skill names db =
     (let clean = normalize_category_names names in
      case link_categories skill clean db of
        Inl e \<Rightarrow> Inl e
      | Inr db1 \<Rightarrow> Inr (db1\<lparr>db_skill_categories :=
          filter (\<lambda>l. sc_skill l \<noteq> skill \<or> sc_category l \<in> set clean) (db_skill_categories db1)\<rparr>))"

section \<open>The skill\<close>

definition grant_actor :: "materialize_input \<Rightarrow> ident option" where
  "grant_actor inp = (case mz_actor inp of None \<Rightarrow> Some (mz_by inp) | Some a \<Rightarrow> Some a)"

definition grant_path :: "materialize_input \<Rightarrow> grant_via" where
  "grant_path inp = (case mz_via inp of None \<Rightarrow> ViaProposalAccept | Some v \<Rightarrow> v)"

definition new_skill_row :: "materialize_input \<Rightarrow> ident \<Rightarrow> instant \<Rightarrow> catalog_skill" where
  "new_skill_row inp i now =
     (let meta = rp_meta (mz_payload inp) in
      \<lparr>sk_id = i, sk_namespace = mz_namespace inp, sk_visibility = pm_visibility meta,
       cs_slug = pm_slug meta, cs_title = pm_title meta, cs_description = pm_description meta,
       cs_tool = pm_tool meta, cs_pointer = (rp_pointer (mz_payload inp) \<noteq> None), cs_active = True,
       cs_deprecated = False, cs_promoted_from = rp_promoted (mz_payload inp),
       cs_icon_sha = or_null (pm_icon_sha meta), cs_icon_emoji = or_null (pm_icon_emoji meta),
       cs_icon_source = pm_icon_source meta, cs_created = now\<rparr>)"

text \<open>The initial grants of a restricted skill, before the submitter's maintainer row.\<close>

definition share_new_skill :: "materialize_input \<Rightarrow> ident \<Rightarrow> app_db \<Rightarrow> app_db" where
  "share_new_skill inp i db =
     (let meta = rp_meta (mz_payload inp); shared = (case pm_shared meta of None \<Rightarrow> [] | Some ids \<Rightarrow> ids) in
      if pm_visibility meta = NamespaceVisible \<and> shared \<noteq> []
      then snd (sync_grants \<lparr>gs_id = i, gs_namespace = mz_namespace inp, gs_visibility = NamespaceVisible\<rparr>
                  (live_grant_targets db (mz_namespace inp) shared) (grant_actor inp) (grant_path inp) db)
      else db)"

definition insert_skill :: "materialize_input \<Rightarrow> app_db \<Rightarrow> ident \<times> app_db" where
  "insert_skill inp db =
     (let (i, db1) = fresh_id db
      in (i, db1\<lparr>db_skills := db_skills db1 @ [new_skill_row inp i (db_now db1)]\<rparr>))"

definition create_skill :: "materialize_input \<Rightarrow> app_db \<Rightarrow> tx_error + (ident \<times> app_db)" where
  "create_skill inp db =
     (let meta = rp_meta (mz_payload inp) in
      if list_ex (\<lambda>s. sk_namespace s = mz_namespace inp \<and> cs_slug s = pm_slug meta) (db_skills db)
      then Inl (UniqueViolation ''skills.namespace_id_slug'')
      else
        let (i, db1) = insert_skill inp db
        in case sync_categories i (case pm_categories meta of None \<Rightarrow> [] | Some c \<Rightarrow> c) db1 of
             Inl e \<Rightarrow> Inl e
           | Inr db2 \<Rightarrow>
               Inr (i, auto_add_submitter
                         \<lparr>gs_id = i, gs_namespace = mz_namespace inp, gs_visibility = pm_visibility meta\<rparr>
                         (mz_by inp) (share_new_skill inp i db2)))"

text \<open>\<open>coalesce\<close> on title and tool, the description as submitted; the icon when a field of it was sent.\<close>

definition update_metadata :: "proposal_metadata \<Rightarrow> ident \<Rightarrow> app_db \<Rightarrow> app_db" where
  "update_metadata meta i db =
     (let db1 = set_skill i (\<lambda>s. s\<lparr>cs_title := (case trim_or_null (Some (pm_title meta)) of None \<Rightarrow> cs_title s | Some t \<Rightarrow> t),
                                  cs_description := pm_description meta,
                                  cs_tool := (case trim_or_null (Some (pm_tool meta)) of None \<Rightarrow> cs_tool s | Some t \<Rightarrow> t)\<rparr>) db
      in if pm_icon_sha meta \<noteq> None \<or> pm_icon_emoji meta \<noteq> None
         then set_skill i (\<lambda>s. s\<lparr>cs_icon_sha := or_null (pm_icon_sha meta),
                                 cs_icon_emoji := or_null (pm_icon_emoji meta),
                                 cs_icon_source := pm_icon_source meta\<rparr>) db1
         else db1)"

definition share_existing_skill :: "materialize_input \<Rightarrow> grant_skill \<Rightarrow> app_db \<Rightarrow> app_db" where
  "share_existing_skill inp g db =
     (case pm_shared (rp_meta (mz_payload inp)) of
        None \<Rightarrow> db
      | Some ids \<Rightarrow> snd (sync_grants g
          (if gs_visibility g = NamespaceVisible then live_grant_targets db (gs_namespace g) ids else [])
          (grant_actor inp) (grant_path inp) db))"

definition update_skill :: "materialize_input \<Rightarrow> ident \<Rightarrow> app_db \<Rightarrow> tx_error + app_db" where
  "update_skill inp i db =
     (let meta = rp_meta (mz_payload inp) in
      case (case pm_categories meta of None \<Rightarrow> Inr db | Some c \<Rightarrow> sync_categories i c db) of
        Inl e \<Rightarrow> Inl e
      | Inr db1 \<Rightarrow>
          let db2 = update_metadata meta i db1
          in case find_skill db2 i of
               None \<Rightarrow> Inl MissingRow
             | Some cur \<Rightarrow>
                 let g = \<lparr>gs_id = i, gs_namespace = sk_namespace cur, gs_visibility = sk_visibility cur\<rparr>
                 in Inr (auto_add_submitter_on_new_version g (mz_by inp) (share_existing_skill inp g db2)))"

section \<open>The version\<close>

text \<open>\<open>/^[0-9a-f]{40}$/\<close>\<close>

definition is_commit_sha :: "string \<Rightarrow> bool" where
  "is_commit_sha s = (length s = 40 \<and>
     list_all (\<lambda>c. is_digit c \<or> (let n = code_of c in 97 \<le> n \<and> n \<le> 102)) s)"

definition version_note :: "materialize_input \<Rightarrow> string option" where
  "version_note inp = (if truthy (mz_skill inp) then pm_changed (rp_meta (mz_payload inp)) else None)"

definition enqueue_mirror :: "materialize_input \<Rightarrow> ident \<Rightarrow> pointer_source \<Rightarrow> app_db \<Rightarrow> app_db" where
  "enqueue_mirror inp i ptr db =
     (let prescan = (case mz_proposal inp of
            None \<Rightarrow> None
          | Some p \<Rightarrow> (case find_last (\<lambda>r. sr_type r = ''proposal'' \<and> sr_subject r = p \<and> sr_status r = ''scanned'')
                         (db_scans db) of None \<Rightarrow> None | Some r \<Rightarrow> sr_content_sha r));
          commit = (case ps_commit ptr of Some c \<Rightarrow> if c \<noteq> [] \<and> is_commit_sha c then Some c else None | None \<Rightarrow> None)
      in if list_ex (\<lambda>m. mi_skill m = i \<and> mi_semver m = mz_semver inp) (db_mirrors db) then db
         else db\<lparr>db_mirrors := db_mirrors db @
           [\<lparr>mi_skill = i, mi_semver = mz_semver inp, mi_url = ps_url ptr, mi_ref = ps_ref ptr,
             mi_subdir = trim_or_null (ps_subdir ptr), mi_prerelease = (channel_of (mz_semver inp) \<noteq> Stable),
             mi_usage = pm_usage (rp_meta (mz_payload inp)), mi_changed = version_note inp, mi_by = mz_by inp,
             mi_commit = commit, mi_prescan = prescan\<rparr>]\<rparr>)"

definition versions_of :: "app_db \<Rightarrow> ident \<Rightarrow> string list" where
  "versions_of db i = map vr_semver (filter (\<lambda>v. vr_skill v = i) (db_versions db))"

definition new_version_row :: "materialize_input \<Rightarrow> ident \<Rightarrow> ident \<Rightarrow> version_row" where
  "new_version_row inp i v =
     (let p = mz_payload inp; ext = (case rp_reuse p of None \<Rightarrow> None | Some r \<Rightarrow> ru_external r) in
      \<lparr>vr_id = v, vr_skill = i, vr_semver = mz_semver inp, vr_prerelease = (channel_of (mz_semver inp) \<noteq> Stable),
       vr_active = True, vr_usage = pm_usage (rp_meta p), vr_changed = version_note inp,
       vr_key = rp_key p, vr_sha = rp_sha p, vr_filename = rp_filename p, vr_content = rp_content p,
       vr_url = map_option ps_url ext, vr_ref = map_option ps_ref ext,
       vr_subdir = (case ext of None \<Rightarrow> None | Some e \<Rightarrow> trim_or_null (ps_subdir e)),
       vr_by = mz_by inp, vr_git_published = False\<rparr>)"

definition insert_version :: "materialize_input \<Rightarrow> ident \<Rightarrow> app_db \<Rightarrow> tx_error + (ident \<times> app_db)" where
  "insert_version inp i db =
     (let existing = versions_of db i in
      case assert_strictly_increasing (mz_semver inp) existing of
        Inl e \<Rightarrow> Inl (SemverRejected e)
      | Inr _ \<Rightarrow>
          if mz_semver inp \<in> set existing then Inl (UniqueViolation ''skill_versions.skill_id_semver'')
          else
            let (v, db1) = fresh_id db;
                db2 = db1\<lparr>db_versions := db_versions db1 @ [new_version_row inp i v]\<rparr>;
                db3 = (if mz_by inp \<noteq> []
                       then let d = record_call (Award (mz_by inp) ''first_published'' False) db2 in
                         (if existing \<noteq> [] then record_call (Award (mz_by inp) ''first_new_version'' True) d else d)
                       else db2)
            in Inr (v, record_call (WriteQuality v i (rp_key (mz_payload inp))) db3))"

definition materialize_version :: "materialize_input \<Rightarrow> app_db \<Rightarrow> tx_error + (materialize_result \<times> app_db)" where
  "materialize_version inp db =
     (case (case mz_skill inp of
              Some i \<Rightarrow> if i = [] then create_skill inp db
                        else (case update_skill inp i db of Inl e \<Rightarrow> Inl e | Inr db1 \<Rightarrow> Inr (i, db1))
            | None \<Rightarrow> create_skill inp db) of
        Inl e \<Rightarrow> Inl e
      | Inr (i, db1) \<Rightarrow>
          (case rp_pointer (mz_payload inp) of
             Some ptr \<Rightarrow> Inr (\<lparr>mr_skill_id = i, mr_version_id = None, mr_pending = True\<rparr>, enqueue_mirror inp i ptr db1)
           | None \<Rightarrow>
               (case insert_version inp i db1 of
                  Inl e \<Rightarrow> Inl e
                | Inr (v, db2) \<Rightarrow> Inr (\<lparr>mr_skill_id = i, mr_version_id = Some v, mr_pending = False\<rparr>, db2))))"

section \<open>The frame of publishing\<close>

text \<open>
  Publishing leaves proposals, revisions, scan reports and namespaces alone, never changes or removes
  a version or a queued mirror, and only appends to the audit log.
\<close>

definition publish_frame :: "app_db \<Rightarrow> app_db \<Rightarrow> bool" where
  "publish_frame db db' =
     (db_proposals db' = db_proposals db \<and> db_revisions db' = db_revisions db \<and> db_scans db' = db_scans db \<and>
      db_namespaces db' = db_namespaces db \<and> audit_grows db db' \<and>
      db_uuid db' = db_uuid db \<and> db_used db \<le> db_used db' \<and>
      prefix (db_versions db) (db_versions db') \<and> prefix (db_mirrors db) (db_mirrors db'))"

lemma publish_frame_refl [simp, intro]: "publish_frame db db"
  by (simp add: publish_frame_def)

lemma publish_frame_trans: "publish_frame a b \<Longrightarrow> publish_frame b c \<Longrightarrow> publish_frame a c"
  by (auto simp: publish_frame_def intro: audit_grows_trans)

lemma grant_publish_frame: "grant_frame db db' \<Longrightarrow> publish_frame db db'"
  by (simp add: publish_frame_def grant_frame_def)

text \<open>Publishing a skill's metadata does not touch the versions either.\<close>

definition catalog_frame :: "app_db \<Rightarrow> app_db \<Rightarrow> bool" where
  "catalog_frame db db' = (publish_frame db db' \<and> db_versions db' = db_versions db \<and> db_mirrors db' = db_mirrors db)"

lemma catalog_frame_refl [simp, intro]: "catalog_frame db db"
  by (simp add: catalog_frame_def)

lemma catalog_frame_trans: "catalog_frame a b \<Longrightarrow> catalog_frame b c \<Longrightarrow> catalog_frame a c"
  by (auto simp: catalog_frame_def intro: publish_frame_trans)

lemma grant_catalog_frame: "grant_frame db db' \<Longrightarrow> catalog_frame db db'"
  by (simp add: catalog_frame_def publish_frame_def grant_frame_def)

lemma catalog_skills [simp]: "catalog_frame db (d\<lparr>db_skills := ss\<rparr>) = catalog_frame db d"
  and catalog_categories [simp]: "catalog_frame db (d\<lparr>db_categories := cs\<rparr>) = catalog_frame db d"
  and catalog_links [simp]: "catalog_frame db (d\<lparr>db_skill_categories := ls\<rparr>) = catalog_frame db d"
  by (simp_all add: catalog_frame_def publish_frame_def audit_grows_def)

lemma catalog_set_skill [simp]: "catalog_frame db (set_skill i f d) = catalog_frame db d"
  by (simp add: set_skill_def)

lemma catalog_link [simp]: "catalog_frame db (link_category i n d) = catalog_frame db d"
  by (simp add: link_category_def)

lemma link_categories_frame: "link_categories i ns d = Inr d' \<Longrightarrow> catalog_frame db d \<Longrightarrow> catalog_frame db d'"
  by (induction i ns d rule: link_categories.induct) (auto split: sum.splits upsert_error.splits)

lemma sync_categories_frame: "sync_categories i ns d = Inr d' \<Longrightarrow> catalog_frame db d \<Longrightarrow> catalog_frame db d'"
  by (auto simp: sync_categories_def Let_def dest!: link_categories_frame split: sum.splits)

lemma share_new_frame: "grant_frame db (share_new_skill inp i db)"
  by (simp add: share_new_skill_def Let_def frame_sync_grants)

lemma share_existing_frame: "grant_frame db (share_existing_skill inp g db)"
  by (simp add: share_existing_skill_def frame_sync_grants split: option.splits)

lemma update_metadata_frame [simp]: "catalog_frame db (update_metadata meta i d) = catalog_frame db d"
  by (simp add: update_metadata_def Let_def)

lemma insert_skill_frame: "catalog_frame db (snd (insert_skill inp db))"
  by (simp add: insert_skill_def fresh_id_def Let_def catalog_frame_def publish_frame_def audit_grows_def)

lemma create_skill_frame:
  assumes "create_skill inp db = Inr (i, db')"
  shows "catalog_frame db db'"
proof -
  obtain c d2 g where d2: "sync_categories i c (snd (insert_skill inp db)) = Inr d2"
    and db': "db' = auto_add_submitter g (mz_by inp) (share_new_skill inp i d2)"
    using assms by (auto simp: create_skill_def Let_def split: if_splits sum.splits prod.splits)
  have "catalog_frame db d2" by (rule sync_categories_frame [OF d2 insert_skill_frame])
  moreover have "grant_frame d2 db'" unfolding db' by (rule frame_auto_add [OF share_new_frame])
  ultimately show ?thesis using catalog_frame_trans grant_catalog_frame by blast
qed

lemma update_skill_frame:
  assumes "update_skill inp i db = Inr db'"
  shows "catalog_frame db db'"
proof -
  let ?meta = "rp_meta (mz_payload inp)"
  obtain d1 g where d1: "(case pm_categories ?meta of None \<Rightarrow> Inr db | Some c \<Rightarrow> sync_categories i c db) = Inr d1"
    and db': "db' = auto_add_submitter_on_new_version g (mz_by inp)
                (share_existing_skill inp g (update_metadata ?meta i d1))"
    using assms by (auto simp: update_skill_def Let_def split: sum.splits option.splits)
  have "catalog_frame db d1"
    using d1 sync_categories_frame [OF _ catalog_frame_refl] by (auto split: option.splits)
  then have "catalog_frame db (update_metadata ?meta i d1)" by simp
  moreover have "grant_frame (update_metadata ?meta i d1) db'"
    unfolding db' by (rule frame_auto_add_version [OF share_existing_frame])
  ultimately show ?thesis using catalog_frame_trans grant_catalog_frame by blast
qed

lemma enqueue_mirror_frame: "publish_frame db (enqueue_mirror inp i ptr db)"
  by (simp add: enqueue_mirror_def Let_def publish_frame_def audit_grows_def)

lemma enqueue_mirror_versions [simp]: "db_versions (enqueue_mirror inp i ptr db) = db_versions db"
  by (simp add: enqueue_mirror_def Let_def)

lemma insert_version_ok:
  assumes "insert_version inp i db = Inr (v, db')"
  shows "publish_frame db db' \<and> db_versions db' = db_versions db @ [new_version_row inp i v] \<and>
         assert_strictly_increasing (mz_semver inp) (versions_of db i) = Inr ()"
  using assms
  by (auto simp: insert_version_def Let_def fresh_id_def publish_frame_def audit_grows_def store_simps
      split: sum.splits if_splits)

lemma insert_version_mirrors: "insert_version inp i db = Inr (v, db') \<Longrightarrow> db_mirrors db' = db_mirrors db"
  by (auto simp: insert_version_def Let_def fresh_id_def store_simps split: sum.splits if_splits)

lemma materialize_cases:
  assumes "materialize_version inp db = Inr (r, db')"
  obtains (mirror) d ptr where "catalog_frame db d" "rp_pointer (mz_payload inp) = Some ptr"
      "db' = enqueue_mirror inp (mr_skill_id r) ptr d" "mr_version_id r = None"
  | (version) d v where "catalog_frame db d" "rp_pointer (mz_payload inp) = None"
      "insert_version inp (mr_skill_id r) d = Inr (v, db')" "mr_version_id r = Some v"
proof -
  obtain i d where i: "(case mz_skill inp of
              Some i \<Rightarrow> if i = [] then create_skill inp db
                        else (case update_skill inp i db of Inl e \<Rightarrow> Inl e | Inr db1 \<Rightarrow> Inr (i, db1))
            | None \<Rightarrow> create_skill inp db) = Inr (i, d)"
    using assms by (auto simp: materialize_version_def split: sum.splits)
  have d: "catalog_frame db d"
    using i create_skill_frame update_skill_frame by (auto split: option.splits if_splits sum.splits)
  show ?thesis
  proof (cases "rp_pointer (mz_payload inp)")
    case (Some ptr)
    then show ?thesis using assms i d by (intro mirror) (auto simp: materialize_version_def)
  next
    case None
    obtain v where v: "insert_version inp i d = Inr (v, db')" "mr_skill_id r = i" "mr_version_id r = Some v"
      using assms i None by (auto simp: materialize_version_def split: sum.splits)
    then show ?thesis using version [of d v] d None by simp
  qed
qed

lemma materialize_frame:
  assumes "materialize_version inp db = Inr (r, db')"
  shows "publish_frame db db'"
  using assms
proof (cases rule: materialize_cases)
  case (mirror d ptr)
  then show ?thesis using publish_frame_trans enqueue_mirror_frame by (fastforce simp: catalog_frame_def)
next
  case (version d v)
  then show ?thesis using publish_frame_trans insert_version_ok by (fastforce simp: catalog_frame_def)
qed

section \<open>Version histories\<close>

lemma check_increasing_set:
  "check_increasing v es = Inr () \<longleftrightarrow> (\<forall>e \<in> set es. check_increasing v [e] = Inr ())"
  by (induction es) (auto split: option.splits)

lemma assert_increasing_set:
  "set es = set fs \<Longrightarrow> assert_strictly_increasing v es = Inr () \<Longrightarrow> assert_strictly_increasing v fs = Inr ()"
  using check_increasing_set [of v es] check_increasing_set [of v fs]
  by (auto simp: assert_strictly_increasing_def split: if_splits)

text \<open>Every skill's versions, newest first, form a history of strictly increasing versions.\<close>

definition histories_ok :: "app_db \<Rightarrow> bool" where
  "histories_ok db = (\<forall>i. version_history (rev (versions_of db i)))"

lemma materialize_histories:
  assumes "materialize_version inp db = Inr (r, db')" and "histories_ok db"
  shows "histories_ok db'"
  using assms(1)
proof (cases rule: materialize_cases)
  case (mirror d ptr)
  then show ?thesis using assms(2) by (simp add: histories_ok_def versions_of_def catalog_frame_def)
next
  case (version d v)
  have d: "versions_of d = versions_of db" using version(1) by (simp add: versions_of_def catalog_frame_def fun_eq_iff)
  note ins = insert_version_ok [OF version(3)]
  have row: "vr_skill (new_version_row inp (mr_skill_id r) v) = mr_skill_id r"
    "vr_semver (new_version_row inp (mr_skill_id r) v) = mz_semver inp"
    by (simp_all add: new_version_row_def Let_def)
  have vs: "versions_of db' i = (if i = mr_skill_id r then versions_of db i @ [mz_semver inp] else versions_of db i)" for i
    using ins row by (simp add: versions_of_def d [unfolded versions_of_def fun_eq_iff, rule_format, symmetric])
  have "assert_strictly_increasing (mz_semver inp) (rev (versions_of db (mr_skill_id r))) = Inr ()"
    using ins d by (auto intro: assert_increasing_set)
  then show ?thesis using assms(2) vs by (auto simp: histories_ok_def intro: history_publish)
qed

text \<open>A first hosted version with a valid semver is published when no skill has its slug yet.\<close>

lemma materialize_fresh:
  assumes "mz_skill inp = None" "pm_categories (rp_meta (mz_payload inp)) = None" "rp_pointer (mz_payload inp) = None"
    "is_valid_semver (mz_semver inp)" "db_skills db = []"
    and new: "\<forall>d i. create_skill inp db = Inr (i, d) \<longrightarrow> versions_of db i = []"
  shows "\<exists>r d. materialize_version inp db = Inr (r, d)"
proof -
  obtain i d where d: "create_skill inp db = Inr (i, d)"
    using assms(2,5) by (simp add: create_skill_def sync_categories_def normalize_category_names_def Let_def
        insert_skill_def fresh_id_def)
  have "versions_of d i = []"
    using create_skill_frame [OF d] new d by (auto simp: versions_of_def catalog_frame_def)
  then have "\<exists>v d'. insert_version inp i d = Inr (v, d')"
    using assms(4) by (simp add: insert_version_def assert_strictly_increasing_def Let_def fresh_id_def)
  then show ?thesis
    using assms(1,3) d by (auto simp: materialize_version_def)
qed

lemma set_skill_ids: "(\<And>s. sk_id (f s) = sk_id s) \<Longrightarrow> map sk_id (db_skills (set_skill i f db)) = map sk_id (db_skills db)"
  by (simp add: set_skill_def)

lemma update_metadata_ids: "map sk_id (db_skills (update_metadata meta i db)) = map sk_id (db_skills db)"
  by (simp add: update_metadata_def Let_def set_skill_ids)

lemma find_skill_exists: "find_skill db i \<noteq> None \<longleftrightarrow> i \<in> set (map sk_id (db_skills db))"
  by (auto simp: find_skill_def find_None_all)

text \<open>A hosted version above every stored one is published for a skill that exists.\<close>

lemma materialize_next:
  assumes "mz_skill inp = Some i" "i \<noteq> []" "pm_categories (rp_meta (mz_payload inp)) = None"
    "rp_pointer (mz_payload inp) = None" "\<exists>s \<in> set (db_skills db). sk_id s = i"
    "assert_strictly_increasing (mz_semver inp) (versions_of db i) = Inr ()" "mz_semver inp \<notin> set (versions_of db i)"
  shows "\<exists>r d. materialize_version inp db = Inr (r, d)"
proof -
  have "find_skill (update_metadata (rp_meta (mz_payload inp)) i db) i \<noteq> None"
    using assms(5) unfolding find_skill_exists update_metadata_ids by auto
  then obtain d where d: "update_skill inp i db = Inr d"
    using assms(3) by (auto simp: update_skill_def Let_def split: option.splits)
  then have "versions_of d i = versions_of db i"
    using update_skill_frame [OF d] by (simp add: versions_of_def catalog_frame_def)
  then have "\<exists>v d'. insert_version inp i d = Inr (v, d')"
    using assms(6,7) by (simp add: insert_version_def Let_def fresh_id_def)
  then show ?thesis
    using assms(1,2,4) d by (auto simp: materialize_version_def)
qed

section \<open>Properties\<close>


definition sample_store :: app_db where
  "sample_store =
     \<lparr>db_access = sample_db, db_erased = Map.empty, db_user_name = Map.empty, db_user_email = Map.empty,
      db_namespaces = [\<lparr>nr_id = ''n'', nr_slug = ''docs'', nr_display = ''Docs'', nr_require_review = True\<rparr>],
      db_skills = [], db_versions = [], db_mirrors = [], db_maintainers = [], db_categories = [],
      db_skill_categories = [], db_proposals = [], db_revisions = [], db_scans = [], db_requests = [],
      db_policy = [], db_policy_run = (\<lambda>_ _. None), db_prereview_on = False, db_ai_on = False,
      db_auto_runs = (\<lambda>_. 0), db_dismissals = [], db_acks = [], db_conversations = [], db_audit = [],
      db_notifications = [], db_calls = [], db_uuid = (\<lambda>n. ''id'' @ show_nat n), db_used = 0, db_now = 0\<rparr>"

definition sample_payload :: revision_payload where
  "sample_payload =
     \<lparr>rp_meta = \<lparr>pm_slug = ''lint'', pm_title = ''Lint'', pm_description = ''Lints'', pm_categories = None,
                pm_tool = ''claude'', pm_usage = None, pm_changed = None, pm_visibility = OrgVisible,
                pm_icon_sha = None, pm_icon_emoji = None, pm_icon_source = None, pm_shared = None\<rparr>,
      rp_key = Some ''uploads/k'', rp_sha = Some ''s'', rp_filename = None, rp_content = None,
      rp_pointer = None, rp_reuse = None, rp_promoted = None\<rparr>"

definition sample_input :: materialize_input where
  "sample_input =
     \<lparr>mz_namespace = ''n'', mz_skill = None, mz_semver = ''1.0.0'', mz_by = ''u'', mz_payload = sample_payload,
      mz_actor = None, mz_via = None, mz_proposal = None\<rparr>"

lemma sample_materialize:
  "\<exists>r db'. materialize_version sample_input sample_store = Inr (r, db')"
  by (rule materialize_fresh)
    (simp_all add: sample_input_def sample_payload_def sample_store_def semver_eval versions_of_def)


end
