(* ===== verification/ProposalActions.thy ===== *)
theory ProposalActions
  imports Publishing
begin

text \<open>
  The proposal workflow of \<open>packages/web/src/lib/proposals.ts\<close>: \<open>createProposal\<close>,
  \<open>performProposalAction\<close> with its gates, and \<open>deleteProposal\<close>, with the statements of
  \<open>requests.ts\<close>, \<open>reviewAssign.ts\<close>, \<open>contentRisk.ts\<close> and \<open>policy-db.ts\<close> they run in their
  transaction. Each handler returns its result and the state after it; a refused or failed one
  returns the state it started from.
\<close>

section \<open>Environment and errors\<close>

text \<open>The trimmed \<open>SKILLY_BOOTSTRAP_ADMIN_GROUP\<close> and whether \<open>CLAMAV_HOST\<close> is set.\<close>

record app_env =
  env_boot :: "ident option"
  env_av_required :: bool

text \<open>\<open>trips\<close> carry whether the actor may override them.\<close>

datatype action_error =
    ProposalNotFound
  | NotAllowed string
  | RevisionRequired
  | RevisionMoved
  | SlugTaken "slug_match list"
  | ReviseNeedsPayload
  | NothingChanged
  | ScanIncomplete scan_verdict_reason
  | ScanReasonMissing scan_verdict_reason
  | FindingsNeedOverride severity
  | PolicyNeedsOverride "(policy_trip \<times> bool) list"
  | PolicyReasonMissing "(policy_trip \<times> bool) list"
  | PolicyForbidden "(policy_trip \<times> bool) list"

fun error_status :: "action_error \<Rightarrow> nat" where
  "error_status ProposalNotFound = 404"
| "error_status (NotAllowed r) = 403"
| "error_status RevisionRequired = 422"
| "error_status RevisionMoved = 409"
| "error_status (SlugTaken ms) = 409"
| "error_status ReviseNeedsPayload = 422"
| "error_status NothingChanged = 422"
| "error_status (ScanIncomplete r) = 409"
| "error_status (ScanReasonMissing r) = 422"
| "error_status (FindingsNeedOverride s) = 409"
| "error_status (PolicyNeedsOverride ts) = 409"
| "error_status (PolicyReasonMissing ts) = 422"
| "error_status (PolicyForbidden ts) = 403"

datatype abort = Refused action_error | Threw tx_error

record action_input =
  ai_proposal :: ident
  ai_action :: proposal_action
  ai_actor :: ident
  ai_access :: effective_access
  ai_note :: "string option"
  ai_payload :: "revision_payload option"
  ai_semver :: "string option"
  ai_expected :: "nat option"
  ai_override :: bool
  ai_override_reason :: "string option"

datatype action_result = Performed proposal_state "ident option" | Aborted abort

section \<open>Rows of a proposal\<close>

definition load_proposal :: "app_db \<Rightarrow> ident \<Rightarrow> proposal_row option" where
  "load_proposal db i = find (\<lambda>p. pp_id p = i) (db_proposals db)"

definition revisions_of :: "app_db \<Rightarrow> ident \<Rightarrow> revision_row list" where
  "revisions_of db i = filter (\<lambda>r. rv_proposal r = i) (db_revisions db)"

definition max_revision :: "app_db \<Rightarrow> ident \<Rightarrow> nat" where
  "max_revision db i = foldl max 0 (map rv_no (revisions_of db i))"

text \<open>\<open>order by revision_no desc limit 1\<close>.\<close>

definition latest_payload :: "app_db \<Rightarrow> ident \<Rightarrow> tx_error + revision_payload" where
  "latest_payload db i =
     (case find (\<lambda>r. rv_no r = max_revision db i) (revisions_of db i) of
        None \<Rightarrow> Inl NoRevisions | Some r \<Rightarrow> Inr (rv_payload r))"

definition append_revision :: "ident \<Rightarrow> revision_payload \<Rightarrow> ident \<Rightarrow> string option \<Rightarrow> app_db \<Rightarrow> nat \<times> app_db" where
  "append_revision i payload author note db =
     (let n = max_revision db i + 1 in
      (n, db\<lparr>db_revisions := db_revisions db @
              [\<lparr>rv_proposal = i, rv_no = n, rv_payload = payload, rv_author = author, rv_note = note\<rparr>]\<rparr>))"

definition set_proposal :: "ident \<Rightarrow> (proposal_row \<Rightarrow> proposal_row) \<Rightarrow> app_db \<Rightarrow> app_db" where
  "set_proposal i f db = db\<lparr>db_proposals := map (\<lambda>p. if pp_id p = i then f p else p) (db_proposals db)\<rparr>"

section \<open>Comparing payloads\<close>

definition norm_set :: "string list option \<Rightarrow> bool \<Rightarrow> string list" where
  "norm_set xs lower =
     sort (js_unique (filter (\<lambda>s. s \<noteq> [])
       (map (\<lambda>x. if lower then js_lower (js_trim x) else js_trim x) (case xs of None \<Rightarrow> [] | Some ys \<Rightarrow> ys))))"

definition same_pointer :: "pointer_source option \<Rightarrow> pointer_source option \<Rightarrow> bool" where
  "same_pointer a b =
     (case (a, b) of
        (Some x, Some y) \<Rightarrow> ps_url x = ps_url y \<and> ps_ref x = ps_ref y \<and> ps_subdir x = ps_subdir y
      | _ \<Rightarrow> a = None \<and> b = None)"

definition payload_unchanged :: "revision_payload \<Rightarrow> revision_payload \<Rightarrow> bool" where
  "payload_unchanged prev new =
     (let a = rp_meta prev; b = rp_meta new in
      js_trim (pm_title a) = js_trim (pm_title b) \<and>
      js_trim (pm_description a) = js_trim (pm_description b) \<and>
      js_trim (pm_tool a) = js_trim (pm_tool b) \<and>
      pm_visibility a = pm_visibility b \<and>
      norm_set (pm_categories a) True = norm_set (pm_categories b) True \<and>
      trim_or_null (pm_usage a) = trim_or_null (pm_usage b) \<and>
      trim_or_null (pm_changed a) = trim_or_null (pm_changed b) \<and>
      or_null (pm_icon_sha a) = or_null (pm_icon_sha b) \<and>
      or_null (pm_icon_emoji a) = or_null (pm_icon_emoji b) \<and>
      (pm_shared a = None) = (pm_shared b = None) \<and>
      norm_set (pm_shared a) False = norm_set (pm_shared b) False \<and>
      rp_key prev = rp_key new \<and>
      same_pointer (rp_pointer prev) (rp_pointer new) \<and>
      map_option ru_version (rp_reuse prev) = map_option ru_version (rp_reuse new))"

definition revise_file_freeze_error :: "revision_payload \<Rightarrow> revision_payload \<Rightarrow> bool \<Rightarrow> bool" where
  "revise_file_freeze_error prev new reuse_current_files =
     (let is_pointer = (rp_pointer prev \<noteq> None \<or> (case rp_reuse prev of None \<Rightarrow> False | Some r \<Rightarrow> ru_external r \<noteq> None)) in
      if \<not> is_pointer then False
      else \<not> same_pointer (rp_pointer prev) (rp_pointer new) \<or> rp_key new \<noteq> rp_key prev \<or> reuse_current_files)"

section \<open>Notifications to reviewers\<close>

text \<open>\<open>notifyNamespaceReviewers\<close>: the reviewers query selects active users, erased or not.\<close>

definition notify_namespace_reviewers ::
  "app_env \<Rightarrow> ident \<Rightarrow> ident \<Rightarrow> string \<Rightarrow> json \<Rightarrow> app_db \<Rightarrow> app_db" where
  "notify_namespace_reviewers env ns submitter type payload db =
     notify (map (\<lambda>u. \<lparr>nt_user = u, nt_type = type, nt_payload = payload\<rparr>)
       (filter (\<lambda>u. u \<noteq> submitter) (reviewer_ids AllReviewers (\<lambda>_. None) (db_access db) ns (env_boot env)))) db"

definition notify_reviewers_needs_review ::
  "app_env \<Rightarrow> ident \<Rightarrow> ident \<Rightarrow> ident \<Rightarrow> string \<Rightarrow> string \<Rightarrow> ident option \<Rightarrow> string \<Rightarrow> app_db \<Rightarrow> app_db" where
  "notify_reviewers_needs_review env pid ns submitter slug semver assignee type db =
     (let payload = JObj [(''proposalId'', JStr pid), (''skillSlug'', JStr slug), (''semver'', JStr semver)] in
      case assignee of
        Some a \<Rightarrow>
          if a = [] then notify_namespace_reviewers env ns submitter type payload db
          else if a = submitter then db
          else if user_active db a \<and> db_erased db a = None
               then notify [\<lparr>nt_user = a, nt_type = type, nt_payload = payload\<rparr>] db else db
      | None \<Rightarrow> notify_namespace_reviewers env ns submitter type payload db)"

definition notify_proposal_created ::
  "app_env \<Rightarrow> ident \<Rightarrow> ident \<Rightarrow> ident \<Rightarrow> string \<Rightarrow> string \<Rightarrow> app_db \<Rightarrow> app_db" where
  "notify_proposal_created env pid ns submitter slug semver db =
     notify_reviewers_needs_review env pid ns submitter slug semver None ''proposal.needs_review''
       (notify [\<lparr>nt_user = submitter, nt_type = ''proposal.submitted'',
                 nt_payload = JObj [(''proposalId'', JStr pid), (''skillSlug'', JStr slug), (''semver'', JStr semver)]\<rparr>] db)"

section \<open>Creating a proposal\<close>

record create_input =
  ci_by :: ident
  ci_namespace :: ident
  ci_skill :: "ident option"
  ci_semver :: string
  ci_payload :: revision_payload
  ci_request :: "ident option"
  ci_routed :: "string option"
  ci_rules :: "string list"
  ci_model :: "string option"
  ci_import :: "ident option"

definition opt_field :: "string \<Rightarrow> string option \<Rightarrow> (string \<times> json) list" where
  "opt_field k v = (case v of None \<Rightarrow> [] | Some s \<Rightarrow> if s = [] then [] else [(k, JStr s)])"

text \<open>\<open>submissionChoosesIcon\<close> against the current icon (sha, emoji) of the target, if there is one.\<close>

definition submission_chooses_icon :: "proposal_metadata \<Rightarrow> (string option \<times> string option) option \<Rightarrow> bool" where
  "submission_chooses_icon meta current =
     (let sha = or_null (pm_icon_sha meta); emoji = trim_or_null (or_null (pm_icon_emoji meta));
          cur_sha = (case current of None \<Rightarrow> None | Some (s, e) \<Rightarrow> s);
          cur_emoji = (case current of None \<Rightarrow> None | Some (s, e) \<Rightarrow> e)
      in (truthy sha \<and> sha \<noteq> cur_sha) \<or> (truthy emoji \<and> emoji \<noteq> cur_emoji))"

definition chooses_icon :: "app_db \<Rightarrow> proposal_metadata \<Rightarrow> ident option \<Rightarrow> bool" where
  "chooses_icon db meta target =
     (if \<not> truthy target then submission_chooses_icon meta None
      else submission_chooses_icon meta
        (map_option (\<lambda>s. (cs_icon_sha s, cs_icon_emoji s)) (case target of None \<Rightarrow> None | Some i \<Rightarrow> find_skill db i)))"

definition created_row :: "create_input \<Rightarrow> ident \<Rightarrow> instant \<Rightarrow> proposal_row" where
  "created_row inp i now =
     \<lparr>pp_id = i, pp_namespace = ci_namespace inp, pp_skill = ci_skill inp, pp_semver = ci_semver inp,
      pp_state = Proposed, pp_by = ci_by inp, pp_request = ci_request inp, pp_assignee = None,
      pp_assigned_by = None, pp_assigned_at = None, pp_reason = None, pp_version = None,
      pp_routed = ci_routed inp, pp_model = ci_model inp, pp_import = ci_import inp, pp_updated = now\<rparr>"

definition created_audit :: "create_input \<Rightarrow> ident \<Rightarrow> audit_entry" where
  "created_audit inp i =
     \<lparr>au_actor = Some (ci_by inp), au_action = ''proposal.created'', au_type = ''proposal'', au_target = Some i,
      au_namespace = Some (ci_namespace inp), au_before = JNull,
      au_after = JObj ([(''state'', JStr ''proposed''), (''semver'', JStr (ci_semver inp))] @
                       opt_field ''aiDraftModel'' (ci_model inp) @ opt_field ''importId'' (ci_import inp))\<rparr>"

definition routed_audit :: "create_input \<Rightarrow> ident \<Rightarrow> audit_entry" where
  "routed_audit inp i =
     \<lparr>au_actor = Some (ci_by inp), au_action = ''proposal.routed_to_review'', au_type = ''proposal'',
      au_target = Some i, au_namespace = Some (ci_namespace inp), au_before = JNull,
      au_after = JObj [(''reason'', json_opt (ci_routed inp)), (''rules'', JArr (map JStr (ci_rules inp))),
                       (''semver'', JStr (ci_semver inp)), (''skill'', JStr (pm_slug (rp_meta (ci_payload inp))))]\<rparr>"

text \<open>The awards of a submission, after the proposal is stored.\<close>

definition award_submission :: "create_input \<Rightarrow> app_db \<Rightarrow> app_db" where
  "award_submission inp db =
     (let p = ci_payload inp;
          pointer = (rp_pointer p \<noteq> None \<or> (case rp_reuse p of None \<Rightarrow> False | Some r \<Rightarrow> ru_external r \<noteq> None));
          db1 = record_call (Award (ci_by inp) (if pointer then ''first_pointer_proposal'' else ''first_hosted_proposal'') False) db;
          db2 = (if truthy (ci_skill inp) \<and> \<not> truthy (rp_promoted p)
                 then record_call (Award (ci_by inp) ''first_version_proposal'' True) db1 else db1)
      in if \<not> truthy (rp_promoted p) \<and> chooses_icon db2 (rp_meta p) (ci_skill inp)
         then record_call (Award (ci_by inp) ''first_icon'' True) db2 else db2)"

definition create_proposal :: "app_env \<Rightarrow> create_input \<Rightarrow> app_db \<Rightarrow> ident \<times> app_db" where
  "create_proposal env inp db =
     (let (i, db0) = fresh_id db;
          db1 = db0\<lparr>db_proposals := db_proposals db0 @ [created_row inp i (db_now db0)]\<rparr>;
          db2 = db1\<lparr>db_revisions := db_revisions db1 @
                  [\<lparr>rv_proposal = i, rv_no = 1, rv_payload = ci_payload inp, rv_author = ci_by inp,
                    rv_note = Some ''initial submission''\<rparr>]\<rparr>;
          db3 = append_audit (created_audit inp i) db2;
          db4 = (if truthy (ci_routed inp) then append_audit (routed_audit inp i) db3 else db3);
          db5 = (if \<not> truthy (ci_import inp)
                 then notify_proposal_created env i (ci_namespace inp) (ci_by inp)
                        (pm_slug (rp_meta (ci_payload inp))) (ci_semver inp) db4
                 else db4)
      in (i, award_submission inp db5))"

section \<open>The accept gates\<close>

text \<open>
  The revision pin and the slug check: the match is decided by what the proposer can see, the refusal
  names only what the reviewer can see too.
\<close>

definition slug_clash :: "app_env \<Rightarrow> app_db \<Rightarrow> action_input \<Rightarrow> proposal_row \<Rightarrow> revision_payload \<Rightarrow> slug_match list option" where
  "slug_clash env db inp p lp =
     (let slug = pm_slug (rp_meta lp);
          matches = find_slug_matches db (user_access (db_access db) (pp_by p) (env_boot env)) slug None
      in if matches = [] then None
         else let seen = map sm_skill (find_slug_matches db (ai_access inp) slug None)
              in Some (filter (\<lambda>m. sm_skill m \<in> set seen) matches))"

definition accept_precheck :: "app_env \<Rightarrow> app_db \<Rightarrow> action_input \<Rightarrow> proposal_row \<Rightarrow> abort option" where
  "accept_precheck env db inp p =
     (case ai_expected inp of
        None \<Rightarrow> Some (Refused RevisionRequired)
      | Some n \<Rightarrow>
          if n \<noteq> max_revision db (ai_proposal inp) then Some (Refused RevisionMoved)
          else if truthy (pp_skill p) then None
          else case latest_payload db (ai_proposal inp) of
                 Inl e \<Rightarrow> Some (Threw e)
               | Inr lp \<Rightarrow>
                   if truthy (rp_promoted lp) then None
                   else case slug_clash env db inp p lp of
                          None \<Rightarrow> None
                        | Some shown \<Rightarrow> Some (Refused (SlugTaken shown)))"

text \<open>The staged upload a revise supersedes, when there is one.\<close>

definition superseded_key :: "revision_payload \<Rightarrow> revision_payload \<Rightarrow> string option" where
  "superseded_key prev new =
     (if truthy (rp_key prev) \<and> rp_key prev \<noteq> rp_key new \<and> rp_reuse prev = None \<and>
         (case rp_key prev of None \<Rightarrow> False | Some k \<Rightarrow> prefix ''uploads/'' k)
      then rp_key prev else None)"

definition revise_check :: "app_db \<Rightarrow> action_input \<Rightarrow> abort + string option" where
  "revise_check db inp =
     (case ai_payload inp of
        None \<Rightarrow> Inl (Refused ReviseNeedsPayload)
      | Some new \<Rightarrow>
          (case latest_payload db (ai_proposal inp) of
             Inl e \<Rightarrow> Inl (Threw e)
           | Inr prev \<Rightarrow> if payload_unchanged prev new then Inl (Refused NothingChanged)
                         else Inr (superseded_key prev new)))"

definition load_gate_scan :: "app_db \<Rightarrow> ident \<Rightarrow> scan_report_row option" where
  "load_gate_scan db pid =
     (case latest_payload db pid of
        Inl e \<Rightarrow> None
      | Inr p \<Rightarrow>
          if truthy (rp_key p)
          then find_last (\<lambda>r. sr_type r = ''artifact'' \<and> Some (sr_subject r) = rp_key p) (db_scans db)
          else if rp_pointer p \<noteq> None
          then find_last (\<lambda>r. sr_type r = ''proposal'' \<and> sr_subject r = pid) (db_scans db)
          else None)"

definition report_of :: "scan_report_row \<Rightarrow> gate_report" where
  "report_of r = \<lparr>gp_status = sr_status r, gp_findings = sr_findings r\<rparr>"

fun severity_text :: "severity \<Rightarrow> string" where
  "severity_text Info = ''info''"
| "severity_text Low = ''low''"
| "severity_text Medium = ''medium''"
| "severity_text High = ''high''"
| "severity_text Critical = ''critical''"

fun verdict_reason_text :: "scan_verdict_reason \<Rightarrow> string" where
  "verdict_reason_text ScanPending = ''pending''"
| "verdict_reason_text ScanUnreachable = ''unreachable''"
| "verdict_reason_text ScanChanged = ''changed''"
| "verdict_reason_text AvMissing = ''av_missing''"

definition json_finding :: "scan_finding \<Rightarrow> json" where
  "json_finding f = JObj ([(''scanner'', JStr (fd_scanner f)), (''severity'', JStr (severity_text (fd_severity f))),
                           (''rule'', JStr (fd_rule f)), (''message'', JStr (fd_message f))] @
                          (case fd_path f of None \<Rightarrow> [] | Some p \<Rightarrow> [(''path'', JStr p)]))"

definition blank_reason :: "action_input \<Rightarrow> bool" where
  "blank_reason inp = (trim_or_null (ai_override_reason inp) = None)"

definition proposal_audit ::
  "action_input \<Rightarrow> proposal_row \<Rightarrow> string \<Rightarrow> json \<Rightarrow> json \<Rightarrow> audit_entry" where
  "proposal_audit inp p action before after =
     \<lparr>au_actor = Some (ai_actor inp), au_action = action, au_type = ''proposal'', au_target = Some (ai_proposal inp),
      au_namespace = Some (pp_namespace p), au_before = before, au_after = after\<rparr>"

text \<open>The scan gates: a missing verdict first, then high or critical findings.\<close>

definition scan_gate :: "app_env \<Rightarrow> action_input \<Rightarrow> proposal_row \<Rightarrow> app_db \<Rightarrow> action_error + app_db" where
  "scan_gate env inp p db =
     (let scan = load_gate_scan db (ai_proposal inp);
          findings = (case scan of None \<Rightarrow> [] | Some r \<Rightarrow> sr_findings r);
          sev = (case scan of None \<Rightarrow> None | Some r \<Rightarrow> sr_severity r)
      in case scan_verdict (map_option report_of scan) (env_av_required env) of
        Some why \<Rightarrow>
          if \<not> ai_override inp then Inl (ScanIncomplete why)
          else if blank_reason inp then Inl (ScanReasonMissing why)
          else Inr (append_audit (proposal_audit inp p ''proposal.scan_override'' JNull
                 (JObj [(''missingVerdict'', JStr (verdict_reason_text why)), (''reason'', json_opt (ai_override_reason inp)),
                        (''severity'', json_opt (map_option severity_text sev)), (''findings'', JArr (map json_finding findings))])) db)
      | None \<Rightarrow>
          if requires_override sev then
            (if \<not> ai_override inp then Inl (FindingsNeedOverride (the sev))
             else Inr (append_audit (proposal_audit inp p ''proposal.scan_override'' JNull
                 (JObj [(''severity'', json_opt (map_option severity_text sev)), (''reason'', json_opt (ai_override_reason inp)),
                        (''findings'', JArr (map json_finding findings))])) db))
          else Inr db)"

definition applicable_policy_rules :: "app_db \<Rightarrow> ident \<Rightarrow> policy_gate_rule list" where
  "applicable_policy_rules db ns =
     sort_key (\<lambda>r. (if pr_scope r = PlatformScope then 0 else 1 :: nat, js_lower (pr_title r)))
       (map pl_rule (filter (\<lambda>x. pr_state (pl_rule x) \<noteq> Disabled \<and>
           (pr_scope (pl_rule x) = PlatformScope \<or> pl_namespace x = Some ns)) (db_policy db)))"

definition PREREVIEW_PROPOSAL_DAILY_CAP :: nat where
  "PREREVIEW_PROPOSAL_DAILY_CAP = 10"

definition proposal_no_verdict_reason :: "app_db \<Rightarrow> ident \<Rightarrow> policy_no_verdict" where
  "proposal_no_verdict_reason db pid =
     (if \<not> db_prereview_on db then NoVerdictOff
      else if \<not> db_ai_on db then NoVerdictUnavailable
      else if db_auto_runs db pid \<ge> PREREVIEW_PROPOSAL_DAILY_CAP then NoVerdictSkipped
      else NoVerdictPending)"

definition policy_actor_of :: "effective_access \<Rightarrow> ident \<Rightarrow> policy_actor" where
  "policy_actor_of a ns =
     \<lparr>pa_platform_admin = is_platform_admin a, pa_namespace_admin = (namespace_roles a ns = Some NamespaceAdmin)\<rparr>"

text \<open>
  \<open>evaluateProposalPolicyGate\<close>. \<open>db_policy_run db pid n\<close> is the verdict of the run last linked to
  revision \<open>n\<close> of the proposal.
\<close>

definition evaluate_policy_gate ::
  "app_db \<Rightarrow> ident \<Rightarrow> ident \<Rightarrow> effective_access \<Rightarrow> (policy_trip \<times> bool) list \<times> (ident \<Rightarrow> ident option)" where
  "evaluate_policy_gate db pid ns a =
     (let rules = applicable_policy_rules db ns in
      if \<not> list_ex (\<lambda>r. pr_state r = Enforced) rules then ([], Map.empty)
      else
        let verdict = (if revisions_of db pid = [] then None else db_policy_run db pid (max_revision db pid));
            nv = (if verdict \<noteq> None then NoVerdictPending else proposal_no_verdict_reason db pid);
            trips = policy_gate_trips rules verdict nv
        in (map (\<lambda>t. (t, can_override_policy_scope (tp_scope t) (policy_actor_of a ns))) trips,
            \<lambda>i. map_option pr_revision (find_last (\<lambda>r. pr_id r = i) rules)))"

definition json_trip :: "(ident \<Rightarrow> ident option) \<Rightarrow> policy_trip \<Rightarrow> json" where
  "json_trip revof t = JObj [(''ruleId'', JStr (tp_rule t)), (''revisionId'', json_opt (revof (tp_rule t))),
     (''title'', JStr (tp_title t)),
     (''scope'', JStr (case tp_scope t of PlatformScope \<Rightarrow> ''platform'' | NamespaceScope \<Rightarrow> ''namespace'')),
     (''reason'', JStr (case tp_reason t of TripViolates \<Rightarrow> ''violates'' | TripPending \<Rightarrow> ''pending'' | TripOff \<Rightarrow> ''off''
        | TripUnavailable \<Rightarrow> ''unavailable'' | TripSkipped \<Rightarrow> ''skipped'' | TripFailed \<Rightarrow> ''failed'' | TripStale \<Rightarrow> ''stale''))]"

definition policy_gate ::
  "action_input \<Rightarrow> proposal_row \<Rightarrow> app_db \<Rightarrow>
   action_error + ((policy_trip \<times> bool) list \<times> (ident \<Rightarrow> ident option) \<times> app_db)" where
  "policy_gate inp p db =
     (let (trips, revof) = evaluate_policy_gate db (ai_proposal inp) (pp_namespace p) (ai_access inp) in
      if trips = [] then Inr (trips, revof, db)
      else if \<not> ai_override inp then Inl (PolicyNeedsOverride trips)
      else if blank_reason inp then Inl (PolicyReasonMissing trips)
      else if list_ex (\<lambda>(t, ok). \<not> ok) trips then Inl (PolicyForbidden trips)
      else Inr (trips, revof, append_audit (proposal_audit inp p ''proposal.policy_override'' JNull
             (JObj [(''reason'', json_opt (ai_override_reason inp)),
                    (''rules'', JArr (map (\<lambda>(t, ok). json_trip revof t) trips))])) db))"

section \<open>Effects of an accept\<close>

definition record_acknowledgement ::
  "ident \<Rightarrow> string \<Rightarrow> ident option \<Rightarrow> scan_finding list \<Rightarrow> ident \<Rightarrow> string option \<Rightarrow> string \<Rightarrow> app_db \<Rightarrow> app_db" where
  "record_acknowledgement skill semver report findings by note source db =
     (let pairs = gate_tripping_pairs findings in
      if pairs = [] then db
      else db\<lparr>db_acks := db_acks db @ [\<lparr>ak_skill = skill, ak_semver = semver, ak_report = report, ak_pairs = pairs,
              ak_by = by, ak_note = trim_or_null note, ak_source = source\<rparr>]\<rparr>)"

text \<open>One accepted exception per violated rule; \<open>insertPolicyDismissal\<close> cuts the reason at 500 characters.\<close>

definition insert_exceptions ::
  "ident \<Rightarrow> string \<Rightarrow> action_input \<Rightarrow> (policy_trip \<times> bool) list \<Rightarrow> (ident \<Rightarrow> ident option) \<Rightarrow> app_db \<Rightarrow> app_db" where
  "insert_exceptions skill semver inp trips revof db =
     db\<lparr>db_dismissals := db_dismissals db @
       map (\<lambda>(t, ok). \<lparr>ds_skill = skill, ds_semver = semver, ds_rule = tp_rule t,
              ds_revision = (case revof (tp_rule t) of None \<Rightarrow> [] | Some r \<Rightarrow> r), ds_kind = ''accepted_exception'',
              ds_reason = take 500 (case trim_or_null (ai_override_reason inp) of None \<Rightarrow> [] | Some r \<Rightarrow> r),
              ds_source = ''override'', ds_by = ai_actor inp\<rparr>)
         (filter (\<lambda>(t, ok). tp_reason t = TripViolates) trips)\<rparr>"

text \<open>\<open>fulfilOriginRequest\<close>: its awards, the fan-out to followers, the requester's notification.\<close>

definition award_fulfilment :: "request_row \<Rightarrow> ident \<Rightarrow> app_db \<Rightarrow> app_db" where
  "award_fulfilment r by db =
     (if rq_requester r = Some by then db
      else let d = record_call (Award by ''first_fulfilment'' False) db in
        (case rq_requester r of
           Some u \<Rightarrow> if u = [] then d else record_call (Award u ''request_fulfilled'' True) d
         | None \<Rightarrow> d))"

definition announce_fulfilment :: "request_row \<Rightarrow> ident \<Rightarrow> ident \<Rightarrow> app_db \<Rightarrow> app_db" where
  "announce_fulfilment r skill by db =
     (case find_skill db skill of
        None \<Rightarrow> db
      | Some s \<Rightarrow>
          let about = [(''requestId'', JStr (rq_id r)), (''requestTitle'', JStr (rq_title r)),
                       (''namespaceSlug'', JStr (namespace_slug db (sk_namespace s))),
                       (''skillSlug'', JStr (cs_slug s))];
              requester = (case rq_requester r of Some u \<Rightarrow> if u = [] then [] else [u] | None \<Rightarrow> []);
              db1 = record_call (FanOut ''follow.request_fulfilled'' by (JObj about) (Some skill) requester) db
          in notify (map (\<lambda>u. \<lparr>nt_user = u, nt_type = ''request.fulfilled'',
                           nt_payload = JObj (about @ [(''byName'', json_opt (db_user_name db1 by))])\<rparr>)
               (filter (\<lambda>u. u \<noteq> by) requester)) db1)"

definition fulfil_origin_request :: "ident \<Rightarrow> ident \<Rightarrow> ident \<Rightarrow> ident \<Rightarrow> string \<Rightarrow> app_db \<Rightarrow> app_db" where
  "fulfil_origin_request request skill by actor via db =
     (case find (\<lambda>r. rq_id r = request \<and> rq_open r) (db_requests db) of
        None \<Rightarrow> db
      | Some r \<Rightarrow>
          let db1 = db\<lparr>db_requests := map (\<lambda>r. if rq_id r = request \<and> rq_open r
                        then r\<lparr>rq_open := False, rq_skill := Some skill, rq_fulfilled_by := Some by\<rparr> else r) (db_requests db)\<rparr>;
              db2 = append_audit \<lparr>au_actor = Some actor, au_action = ''request.fulfilled'', au_type = ''skill_request'',
                      au_target = Some request, au_namespace = None, au_before = JNull,
                      au_after = JObj [(''skillId'', JStr skill), (''fulfilledBy'', JStr by), (''via'', JStr via)]\<rparr> db1
          in announce_fulfilment r skill by (award_fulfilment r by db2))"

text \<open>Everything after the gates of an accept: the published version and what it brings along.\<close>

definition accept_input :: "action_input \<Rightarrow> proposal_row \<Rightarrow> revision_payload \<Rightarrow> materialize_input" where
  "accept_input inp p payload =
     \<lparr>mz_namespace = pp_namespace p, mz_skill = pp_skill p, mz_semver = pp_semver p, mz_by = pp_by p,
      mz_payload = payload, mz_actor = Some (ai_actor inp), mz_via = Some ViaProposalAccept,
      mz_proposal = Some (ai_proposal inp)\<rparr>"

definition accept_effects ::
  "action_input \<Rightarrow> proposal_row \<Rightarrow> scan_report_row option \<Rightarrow> (policy_trip \<times> bool) list \<Rightarrow> (ident \<Rightarrow> ident option) \<Rightarrow>
   materialize_result \<Rightarrow> app_db \<Rightarrow> app_db" where
  "accept_effects inp p scan trips revof r db =
     (let db1 = (case scan of
            Some s \<Rightarrow> if ai_override inp \<and> content_risk_trips_gate (sr_findings s)
                      then record_acknowledgement (mr_skill_id r) (pp_semver p) (Some (sr_id s)) (sr_findings s)
                             (ai_actor inp) (ai_override_reason inp) ''override'' db
                      else db
          | None \<Rightarrow> db);
          db2 = insert_exceptions (mr_skill_id r) (pp_semver p) inp trips revof db1
      in case pp_request p of
           Some q \<Rightarrow> if q = [] then db2
                     else fulfil_origin_request q (mr_skill_id r) (pp_by p) (ai_actor inp) ''proposal'' db2
         | None \<Rightarrow> db2)"

definition accept_publish :: "app_env \<Rightarrow> action_input \<Rightarrow> proposal_row \<Rightarrow> app_db \<Rightarrow> abort + (ident option \<times> app_db)" where
  "accept_publish env inp p db =
     (case scan_gate env inp p db of
        Inl e \<Rightarrow> Inl (Refused e)
      | Inr db1 \<Rightarrow>
          (case policy_gate inp p db1 of
             Inl e \<Rightarrow> Inl (Refused e)
           | Inr (trips, revof, db2) \<Rightarrow>
               (case latest_payload db2 (ai_proposal inp) of
                  Inl e \<Rightarrow> Inl (Threw e)
                | Inr payload \<Rightarrow>
                    (case materialize_version (accept_input inp p payload) db2 of
                       Inl e \<Rightarrow> Inl (Threw e)
                     | Inr (r, db3) \<Rightarrow>
                         Inr (mr_version_id r,
                              accept_effects inp p (load_gate_scan db (ai_proposal inp)) trips revof r db3)))))"

section \<open>Performing an action\<close>

text \<open>\<open>claimOnStartReview\<close>: an unassigned proposal becomes the starting reviewer's.\<close>

definition claim_on_start_review :: "ident \<Rightarrow> ident \<Rightarrow> ident \<Rightarrow> ident \<Rightarrow> app_db \<Rightarrow> app_db" where
  "claim_on_start_review pid ns submitter actor db =
     (if actor = submitter then db
      else if list_ex (\<lambda>p. pp_id p = pid \<and> pp_assignee p = None) (db_proposals db)
      then append_audit \<lparr>au_actor = Some actor, au_action = ''proposal.assigned'', au_type = ''proposal'',
             au_target = Some pid, au_namespace = Some ns, au_before = JObj [(''assigneeId'', JNull)],
             au_after = JObj [(''from'', JNull), (''to'', JStr actor), (''reason'', JStr ''start_review'')]\<rparr>
           (set_proposal pid (\<lambda>p. if pp_assignee p = None
              then p\<lparr>pp_assignee := Some actor, pp_assigned_by := Some actor, pp_assigned_at := Some (db_now db)\<rparr>
              else p) db)
      else db)"

definition update_proposal_row ::
  "action_input \<Rightarrow> proposal_state \<Rightarrow> ident option \<Rightarrow> app_db \<Rightarrow> app_db" where
  "update_proposal_row inp to version db =
     set_proposal (ai_proposal inp) (\<lambda>p. p\<lparr>pp_state := to,
         pp_reason := (case (if ai_action inp = Revise then None else ai_note inp) of
                         None \<Rightarrow> pp_reason p | Some n \<Rightarrow> Some n),
         pp_version := (case version of None \<Rightarrow> pp_version p | Some v \<Rightarrow> Some v),
         pp_semver := (case (if ai_action inp = Resubmit then ai_semver inp else None) of
                         None \<Rightarrow> pp_semver p | Some v \<Rightarrow> v),
         pp_updated := db_now db\<rparr>) db"

definition action_audit ::
  "action_input \<Rightarrow> proposal_row \<Rightarrow> proposal_state \<Rightarrow> ident option \<Rightarrow> nat option \<Rightarrow> string option \<Rightarrow> audit_entry" where
  "action_audit inp p to version revision superseded =
     proposal_audit inp p (''proposal.'' @ action_text (ai_action inp))
       (JObj [(''state'', JStr (state_text (pp_state p)))])
       (JObj ([(''state'', JStr (state_text to))] @
              (case version of None \<Rightarrow> [] | Some v \<Rightarrow> [(''materializedVersionId'', JStr v)]) @
              (case revision of None \<Rightarrow> [] | Some n \<Rightarrow> [(''revisionNo'', JInt (int n))]) @
              (if ai_action inp = Revise
               then [(''artifactChanged'', JBool (superseded \<noteq> None)), (''supersededArtifactKey'', json_opt superseded)]
               else [])))"

definition outcome_notification :: "action_input \<Rightarrow> proposal_row \<Rightarrow> proposal_state \<Rightarrow> notification_row" where
  "outcome_notification inp p to =
     \<lparr>nt_user = pp_by p, nt_type = ''proposal.'' @ action_text (ai_action inp),
      nt_payload = JObj [(''proposalId'', JStr (ai_proposal inp)), (''state'', JStr (state_text to)),
                         (''note'', json_opt (ai_note inp))]\<rparr>"

definition action_notifications ::
  "app_env \<Rightarrow> action_input \<Rightarrow> proposal_row \<Rightarrow> proposal_state \<Rightarrow> app_db \<Rightarrow> abort + app_db" where
  "action_notifications env inp p to db =
     (let ping = (\<lambda>db1 semver type.
            case latest_payload db1 (ai_proposal inp) of
              Inl e \<Rightarrow> Inl (Threw e)
            | Inr pl \<Rightarrow> Inr (notify_reviewers_needs_review env (ai_proposal inp) (pp_namespace p) (pp_by p)
                               (pm_slug (rp_meta pl)) semver (pp_assignee p) type db1))
      in if ai_action inp = Revise then ping db (pp_semver p) ''proposal.revise''
         else let db1 = notify [outcome_notification inp p to] db in
           if ai_action inp = Resubmit
           then ping db1 (case ai_semver inp of None \<Rightarrow> pp_semver p | Some v \<Rightarrow> v) ''proposal.needs_review''
           else Inr db1)"

text \<open>The transaction of an action that passed the permission check, up to its commit.\<close>

definition action_tx ::
  "app_env \<Rightarrow> action_input \<Rightarrow> proposal_row \<Rightarrow> proposal_state \<Rightarrow> app_db \<Rightarrow> abort + (ident option \<times> string option \<times> app_db)" where
  "action_tx env inp p to db =
     (case (if ai_action inp = Accept then accept_precheck env db inp p else None) of
        Some e \<Rightarrow> Inl e
      | None \<Rightarrow>
          (case (if ai_action inp = Revise then revise_check db inp else Inr None) of
             Inl e \<Rightarrow> Inl e
           | Inr superseded \<Rightarrow>
               (let (revision, db1) = (case ai_payload inp of
                      None \<Rightarrow> (None, db)
                    | Some pl \<Rightarrow> (let (n, d) = append_revision (ai_proposal inp) pl (ai_actor inp) (ai_note inp) db
                                  in (Some n, d)))
                in case (if ai_action inp = Accept then accept_publish env inp p db1 else Inr (None, db1)) of
                     Inl e \<Rightarrow> Inl e
                   | Inr (version, db2) \<Rightarrow>
                       let db3 = update_proposal_row inp to version db2;
                           db4 = (if ai_action inp = StartReview
                                  then claim_on_start_review (ai_proposal inp) (pp_namespace p) (pp_by p) (ai_actor inp) db3
                                  else db3);
                           db5 = append_audit (action_audit inp p to version revision superseded) db4
                       in case action_notifications env inp p to db5 of
                            Inl e \<Rightarrow> Inl e
                          | Inr db6 \<Rightarrow> Inr (version, superseded, db6))))"

text \<open>After the commit: a superseded staged upload no version references is deleted with its reports.\<close>

definition cleanup_superseded :: "string option \<Rightarrow> app_db \<Rightarrow> app_db" where
  "cleanup_superseded superseded db =
     (case superseded of
        None \<Rightarrow> db
      | Some k \<Rightarrow>
          if list_ex (\<lambda>v. vr_key v = Some k) (db_versions db) then db
          else let db1 = record_call (DeleteObject k) db
               in db1\<lparr>db_scans := filter (\<lambda>r. \<not> (sr_type r = ''artifact'' \<and> sr_subject r = k)) (db_scans db1)\<rparr>)"

definition caps_for :: "action_input \<Rightarrow> proposal_row \<Rightarrow> actor_caps" where
  "caps_for inp p =
     \<lparr>is_reviewer = can_review_namespace (ai_access inp) (pp_namespace p), is_submitter = (pp_by p = ai_actor inp)\<rparr>"

definition perform_proposal_action :: "app_env \<Rightarrow> action_input \<Rightarrow> app_db \<Rightarrow> action_result \<times> app_db" where
  "perform_proposal_action env inp db =
     (case load_proposal db (ai_proposal inp) of
        None \<Rightarrow> (Aborted (Refused ProposalNotFound), db)
      | Some p \<Rightarrow>
          (case can_perform (ai_action inp) (pp_state p) (caps_for inp p) of
             Inl reason \<Rightarrow> (Aborted (Refused (NotAllowed reason)), db)
           | Inr to \<Rightarrow>
               (case action_tx env inp p to db of
                  Inl e \<Rightarrow> (Aborted e, db)
                | Inr (version, superseded, db') \<Rightarrow> (Performed to version, cleanup_superseded superseded db'))))"

section \<open>Deleting a proposal\<close>

datatype delete_error = DeleteNotFound | DeleteForbidden | DeleteAccepted

definition mentions_proposal :: "ident \<Rightarrow> notification_row \<Rightarrow> bool" where
  "mentions_proposal pid n =
     (case nt_payload n of JObj fs \<Rightarrow> map_of fs ''proposalId'' = Some (JStr pid) | _ \<Rightarrow> False)"

definition mentions_conversation :: "ident list \<Rightarrow> notification_row \<Rightarrow> bool" where
  "mentions_conversation convs n =
     ((nt_type n = ''message.new'' \<or> nt_type n = ''message.mention'') \<and>
      (case nt_payload n of
         JObj fs \<Rightarrow> (case map_of fs ''conversationId'' of Some (JStr c) \<Rightarrow> c \<in> set convs | _ \<Rightarrow> False)
       | _ \<Rightarrow> False))"

definition delete_proposal_rows :: "ident \<Rightarrow> app_db \<Rightarrow> app_db" where
  "delete_proposal_rows pid db =
     (let convs = map cv_id (filter (\<lambda>c. cv_type c = ''proposal'' \<and> cv_subject c = pid) (db_conversations db))
      in db\<lparr>db_conversations := filter (\<lambda>c. \<not> (cv_type c = ''proposal'' \<and> cv_subject c = pid)) (db_conversations db),
            db_notifications := filter (\<lambda>n. \<not> mentions_conversation convs n \<and> \<not> mentions_proposal pid n) (db_notifications db),
            db_scans := filter (\<lambda>r. \<not> (sr_type r = ''proposal'' \<and> sr_subject r = pid)) (db_scans db),
            db_revisions := filter (\<lambda>r. rv_proposal r \<noteq> pid) (db_revisions db),
            db_proposals := filter (\<lambda>p. pp_id p \<noteq> pid) (db_proposals db)\<rparr>)"

definition delete_proposal :: "ident \<Rightarrow> ident \<Rightarrow> effective_access \<Rightarrow> app_db \<Rightarrow> (delete_error + unit) \<times> app_db" where
  "delete_proposal pid actor a db =
     (case load_proposal db pid of
        None \<Rightarrow> (Inl DeleteNotFound, db)
      | Some p \<Rightarrow>
          if \<not> can_review_namespace a (pp_namespace p) then (Inl DeleteForbidden, db)
          else if pp_state p = Accepted then (Inl DeleteAccepted, db)
          else (Inr (), append_audit
                 \<lparr>au_actor = Some actor, au_action = ''proposal.deleted'', au_type = ''proposal'', au_target = Some pid,
                  au_namespace = Some (pp_namespace p),
                  au_before = JObj [(''state'', JStr (state_text (pp_state p))), (''semver'', JStr (pp_semver p)),
                                    (''submittedBy'', JStr (pp_by p))],
                  au_after = JNull\<rparr> (delete_proposal_rows pid db)))"

end
