(* ===== verification/ProposalFacts.thy ===== *)
theory ProposalFacts
  imports ProposalActions
begin

text \<open>
  The properties of the proposal workflow of \<open>ProposalActions\<close>: what an accepted proposal went
  through, that a refused action changes nothing, what an action may change, and the invariants of
  every store the handlers can produce.
\<close>

section \<open>Frames of the accept effects\<close>

lemma pf_audit: "publish_frame db d \<Longrightarrow> publish_frame db (append_audit e d)"
  by (simp add: publish_frame_def store_simps audit_grows_def)

lemma pf_notify: "publish_frame db d \<Longrightarrow> publish_frame db (notify ns d)"
  by (simp add: publish_frame_def store_simps audit_grows_def)

lemma pf_call: "publish_frame db d \<Longrightarrow> publish_frame db (record_call c d)"
  by (simp add: publish_frame_def store_simps audit_grows_def)

lemma pf_requests: "publish_frame db d \<Longrightarrow> publish_frame db (d\<lparr>db_requests := rs\<rparr>)"
  by (simp add: publish_frame_def audit_grows_def)

lemma pf_exceptions: "publish_frame db d \<Longrightarrow> publish_frame db (insert_exceptions i v inp trips rf d)"
  by (simp add: publish_frame_def audit_grows_def insert_exceptions_def)

lemma pf_ack: "publish_frame db d \<Longrightarrow> publish_frame db (record_acknowledgement i v r fs by note src d)"
  by (simp add: publish_frame_def audit_grows_def record_acknowledgement_def Let_def)

lemmas pf_intros = pf_audit pf_notify pf_call pf_requests pf_exceptions pf_ack

lemma pf_award_fulfilment: "publish_frame db d \<Longrightarrow> publish_frame db (award_fulfilment r by d)"
  by (simp add: award_fulfilment_def Let_def pf_call split: option.splits)

lemma pf_announce: "publish_frame db d \<Longrightarrow> publish_frame db (announce_fulfilment r i by d)"
  by (simp add: announce_fulfilment_def Let_def pf_notify pf_call split: option.splits)

lemma pf_fulfil: "publish_frame db d \<Longrightarrow> publish_frame db (fulfil_origin_request q i by actor via d)"
  unfolding fulfil_origin_request_def Let_def
  by (auto intro!: pf_announce pf_award_fulfilment pf_audit pf_requests split: option.splits)

lemma pf_effects: "publish_frame db d \<Longrightarrow> publish_frame db (accept_effects inp p scan trips rf r d)"
  unfolding accept_effects_def Let_def
  by (auto simp: pf_intros pf_fulfil split: option.splits)

lemma scan_gate_frame: "scan_gate env inp p db = Inr db' \<Longrightarrow> publish_frame db db'"
  by (auto simp: scan_gate_def Let_def pf_intros split: option.splits if_splits)

lemma policy_gate_frame: "policy_gate inp p db = Inr (trips, rf, db') \<Longrightarrow> publish_frame db db'"
  by (auto simp: policy_gate_def pf_intros split: prod.splits if_splits)

lemma accept_publish_cases:
  assumes "accept_publish env inp p db = Inr (v, db')"
  obtains db1 trips rf db2 payload r db3 where
    "scan_gate env inp p db = Inr db1" "policy_gate inp p db1 = Inr (trips, rf, db2)"
    "latest_payload db2 (ai_proposal inp) = Inr payload"
    "materialize_version (accept_input inp p payload) db2 = Inr (r, db3)" "v = mr_version_id r"
    "db' = accept_effects inp p (load_gate_scan db (ai_proposal inp)) trips rf r db3"
  using assms by (auto simp: accept_publish_def split: sum.splits prod.splits)

lemma accept_publish_frame:
  assumes "accept_publish env inp p db = Inr (v, db')"
  shows "publish_frame db db'"
  using assms
proof (cases rule: accept_publish_cases)
  case (1 db1 trips rf db2 payload r db3)
  have "publish_frame db db1" "publish_frame db1 db2" "publish_frame db2 db3"
    using 1 scan_gate_frame policy_gate_frame materialize_frame by blast+
  then have "publish_frame db db3" using publish_frame_trans by blast
  then show ?thesis using 1 pf_effects by simp
qed

section \<open>The steps of an action\<close>

lemma latest_payload_frame:
  "db_revisions d = db_revisions db \<Longrightarrow> latest_payload d i = latest_payload db i"
  by (simp add: latest_payload_def max_revision_def revisions_of_def)

text \<open>The store an accept's gates look at: with the reviewer's own edit, if there is one.\<close>

definition reviewed :: "action_input \<Rightarrow> app_db \<Rightarrow> app_db" where
  "reviewed inp db =
     (case ai_payload inp of
        None \<Rightarrow> db
      | Some pl \<Rightarrow> snd (append_revision (ai_proposal inp) pl (ai_actor inp) (ai_note inp) db))"

definition revision_number :: "action_input \<Rightarrow> app_db \<Rightarrow> nat option" where
  "revision_number inp db = map_option (\<lambda>_. max_revision db (ai_proposal inp) + 1) (ai_payload inp)"

lemma action_tx_cases:
  assumes "action_tx env inp p to db = Inr (v, old, db')"
  obtains db2 where
    "ai_action inp = Accept \<Longrightarrow> accept_precheck env db inp p = None"
    "ai_action inp = Revise \<Longrightarrow> revise_check db inp = Inr old" "ai_action inp \<noteq> Revise \<Longrightarrow> old = None"
    "ai_action inp = Accept \<Longrightarrow> accept_publish env inp p (reviewed inp db) = Inr (v, db2)"
    "ai_action inp \<noteq> Accept \<Longrightarrow> v = None \<and> db2 = reviewed inp db"
    "action_notifications env inp p to
       (append_audit (action_audit inp p to v (revision_number inp db) old)
         (if ai_action inp = StartReview
          then claim_on_start_review (ai_proposal inp) (pp_namespace p) (pp_by p) (ai_actor inp)
                 (update_proposal_row inp to v db2)
          else update_proposal_row inp to v db2)) = Inr db'"
proof -
  have split: "(case ai_payload inp of None \<Rightarrow> (None, db)
      | Some pl \<Rightarrow> (case append_revision (ai_proposal inp) pl (ai_actor inp) (ai_note inp) db of (n, d) \<Rightarrow> (Some n, d)))
      = (revision_number inp db, reviewed inp db)"
    by (simp add: revision_number_def reviewed_def append_revision_def Let_def split: option.split)
  note tx = assms [unfolded action_tx_def Let_def, unfolded split prod.case]
  show thesis
    using tx that by (auto split: option.splits sum.splits if_splits)
qed

lemma action_notifications_frame:
  assumes "action_notifications env inp p to db = Inr db'"
  shows "db_proposals db' = db_proposals db \<and> db_revisions db' = db_revisions db \<and> db_audit db' = db_audit db \<and>
         db_versions db' = db_versions db \<and> db_scans db' = db_scans db \<and> db_mirrors db' = db_mirrors db \<and>
         db_uuid db' = db_uuid db \<and> db_used db' = db_used db"
  using assms
  by (auto simp: action_notifications_def notify_reviewers_needs_review_def notify_namespace_reviewers_def
      Let_def store_simps split: sum.splits if_splits option.splits)

text \<open>What an action writes into its own row, the assignment aside.\<close>

definition acted_row :: "action_input \<Rightarrow> proposal_state \<Rightarrow> ident option \<Rightarrow> instant \<Rightarrow> proposal_row \<Rightarrow> proposal_row" where
  "acted_row inp to version now p =
     p\<lparr>pp_state := to,
       pp_reason := (case (if ai_action inp = Revise then None else ai_note inp) of
                       None \<Rightarrow> pp_reason p | Some n \<Rightarrow> Some n),
       pp_version := (case version of None \<Rightarrow> pp_version p | Some v \<Rightarrow> Some v),
       pp_semver := (case (if ai_action inp = Resubmit then ai_semver inp else None) of
                       None \<Rightarrow> pp_semver p | Some v \<Rightarrow> v),
       pp_updated := now\<rparr>"

definition claimed_row :: "action_input \<Rightarrow> proposal_row \<Rightarrow> instant \<Rightarrow> proposal_row \<Rightarrow> proposal_row" where
  "claimed_row inp p0 now p =
     (if ai_action inp = StartReview \<and> ai_actor inp \<noteq> pp_by p0 \<and> pp_assignee p = None
      then p\<lparr>pp_assignee := Some (ai_actor inp), pp_assigned_by := Some (ai_actor inp), pp_assigned_at := Some now\<rparr>
      else p)"

lemma claimed_id [simp]: "pp_id (claimed_row inp p0 now p) = pp_id p" "pp_state (claimed_row inp p0 now p) = pp_state p"
  "pp_semver (claimed_row inp p0 now p) = pp_semver p" "pp_namespace (claimed_row inp p0 now p) = pp_namespace p"
  "pp_by (claimed_row inp p0 now p) = pp_by p" "pp_skill (claimed_row inp p0 now p) = pp_skill p"
  by (simp_all add: claimed_row_def)

lemma acted_id [simp]: "pp_id (acted_row inp to v now p) = pp_id p" "pp_state (acted_row inp to v now p) = to"
  "pp_namespace (acted_row inp to v now p) = pp_namespace p" "pp_by (acted_row inp to v now p) = pp_by p"
  "pp_skill (acted_row inp to v now p) = pp_skill p" "pp_assignee (acted_row inp to v now p) = pp_assignee p"
  by (simp_all add: acted_row_def)

lemma set_proposal_proposals [simp]:
  "db_proposals (set_proposal i f db) = map (\<lambda>p. if pp_id p = i then f p else p) (db_proposals db)"
  "db_revisions (set_proposal i f db) = db_revisions db" "db_audit (set_proposal i f db) = db_audit db"
  "db_now (set_proposal i f db) = db_now db" "db_versions (set_proposal i f db) = db_versions db"
  "db_uuid (set_proposal i f db) = db_uuid db" "db_used (set_proposal i f db) = db_used db"
  by (simp_all add: set_proposal_def)

lemma update_proposal_rows:
  "db_proposals (update_proposal_row inp to v db) =
     map (\<lambda>p. if pp_id p = ai_proposal inp then acted_row inp to v (db_now db) p else p) (db_proposals db)"
  by (simp add: update_proposal_row_def acted_row_def)

lemma update_proposal_frame [simp]:
  "db_revisions (update_proposal_row inp to v db) = db_revisions db"
  "db_audit (update_proposal_row inp to v db) = db_audit db"
  "db_versions (update_proposal_row inp to v db) = db_versions db"
  "db_uuid (update_proposal_row inp to v db) = db_uuid db" "db_used (update_proposal_row inp to v db) = db_used db"
  by (simp_all add: update_proposal_row_def)

lemma claim_rows:
  "\<exists>now. db_proposals (if ai_action inp = StartReview
       then claim_on_start_review (ai_proposal inp) ns (pp_by p0) (ai_actor inp) db else db) =
     map (\<lambda>p. if pp_id p = ai_proposal inp then claimed_row inp p0 now p else p) (db_proposals db)"
proof (cases "ai_action inp = StartReview \<and> ai_actor inp \<noteq> pp_by p0 \<and>
    list_ex (\<lambda>p. pp_id p = ai_proposal inp \<and> pp_assignee p = None) (db_proposals db)")
  case True
  then show ?thesis
    by (intro exI [of _ "db_now db"]) (auto simp: claim_on_start_review_def claimed_row_def store_simps)
next
  case False
  have keep: "map (\<lambda>p. if pp_id p = ai_proposal inp then claimed_row inp p0 now p else p) (db_proposals db) = db_proposals db" for now
    using False by (intro map_idI) (auto simp: claimed_row_def list_ex_iff)
  show ?thesis unfolding keep using False by (auto simp: claim_on_start_review_def)
qed

lemma claim_frame:
  "publish_frame db (d\<lparr>db_proposals := db_proposals db\<rparr>) \<Longrightarrow>
   publish_frame db ((if b then claim_on_start_review i ns u a d else d)\<lparr>db_proposals := db_proposals db\<rparr>)"
  by (auto simp: claim_on_start_review_def publish_frame_def audit_grows_def append_audit_def set_proposal_def)

lemma claim_revisions [simp]:
  "db_revisions (claim_on_start_review i ns u a db) = db_revisions db"
  "db_versions (claim_on_start_review i ns u a db) = db_versions db"
  "db_uuid (claim_on_start_review i ns u a db) = db_uuid db" "db_used (claim_on_start_review i ns u a db) = db_used db"
  by (simp_all add: claim_on_start_review_def store_simps)

lemma claim_audit: "prefix (db_audit db) (db_audit (claim_on_start_review i ns u a db))"
  by (simp add: claim_on_start_review_def store_simps)

lemma reviewed_simps [simp]:
  "db_proposals (reviewed inp db) = db_proposals db" "db_audit (reviewed inp db) = db_audit db"
  "db_versions (reviewed inp db) = db_versions db" "db_scans (reviewed inp db) = db_scans db"
  "db_uuid (reviewed inp db) = db_uuid db" "db_used (reviewed inp db) = db_used db"
  "versions_of (reviewed inp db) = versions_of db"
  by (simp_all add: reviewed_def append_revision_def Let_def versions_of_def fun_eq_iff split: option.splits)

lemma reviewed_revisions:
  "db_revisions (reviewed inp db) = db_revisions db @
     (case ai_payload inp of None \<Rightarrow> []
      | Some pl \<Rightarrow> [\<lparr>rv_proposal = ai_proposal inp, rv_no = max_revision db (ai_proposal inp) + 1, rv_payload = pl,
                    rv_author = ai_actor inp, rv_note = ai_note inp\<rparr>])"
  by (simp add: reviewed_def append_revision_def Let_def split: option.splits)

lemma cleanup_simps [simp]:
  "db_proposals (cleanup_superseded old db) = db_proposals db" "db_revisions (cleanup_superseded old db) = db_revisions db"
  "db_audit (cleanup_superseded old db) = db_audit db" "db_versions (cleanup_superseded old db) = db_versions db"
  "db_uuid (cleanup_superseded old db) = db_uuid db" "db_used (cleanup_superseded old db) = db_used db"
  by (simp_all add: cleanup_superseded_def Let_def store_simps split: option.splits)

text \<open>Everything an action that succeeds did, step by step.\<close>

lemma perform_cases:
  assumes "perform_proposal_action env inp db = (Performed to v, db')"
  obtains p db2 old now1 now2 where
    "load_proposal db (ai_proposal inp) = Some p"
    "can_perform (ai_action inp) (pp_state p) (caps_for inp p) = Inr to"
    "ai_action inp = Accept \<Longrightarrow> accept_precheck env db inp p = None"
    "ai_action inp = Revise \<Longrightarrow> revise_check db inp = Inr old" "ai_action inp \<noteq> Revise \<Longrightarrow> old = None"
    "ai_action inp = Accept \<Longrightarrow> accept_publish env inp p (reviewed inp db) = Inr (v, db2)"
    "ai_action inp \<noteq> Accept \<Longrightarrow> v = None \<and> db2 = reviewed inp db"
    "db_proposals db' = map (\<lambda>q. if pp_id q = ai_proposal inp
        then claimed_row inp p now2 (acted_row inp to v now1 q) else q) (db_proposals db)"
    "db_revisions db' = db_revisions (reviewed inp db)"
    "\<exists>xs. db_audit db' = db_audit db2 @ xs @ [action_audit inp p to v (revision_number inp db) old]"
    "db_versions db' = db_versions db2" "publish_frame (reviewed inp db) db2"
    "db_uuid db' = db_uuid db2" "db_used db' = db_used db2"
proof -
  obtain p old d where p: "load_proposal db (ai_proposal inp) = Some p"
    "can_perform (ai_action inp) (pp_state p) (caps_for inp p) = Inr to"
    "action_tx env inp p to db = Inr (v, old, d)" "db' = cleanup_superseded old d"
    using assms by (auto simp: perform_proposal_action_def split: option.splits sum.splits prod.splits)
  show thesis
    using p(3)
  proof (cases rule: action_tx_cases)
    case (1 db2)
    let ?u = "update_proposal_row inp to v db2"
    let ?c = "if ai_action inp = StartReview
          then claim_on_start_review (ai_proposal inp) (pp_namespace p) (pp_by p) (ai_actor inp) ?u else ?u"
    have fr: "publish_frame (reviewed inp db) db2"
      using 1(4,5) accept_publish_frame by (cases "ai_action inp = Accept") auto
    note nf = action_notifications_frame [OF 1(6)]
    obtain now2 where now2: "db_proposals ?c =
        map (\<lambda>q. if pp_id q = ai_proposal inp then claimed_row inp p now2 q else q) (db_proposals ?u)"
      using claim_rows by blast
    have props: "db_proposals db' = map (\<lambda>q. if pp_id q = ai_proposal inp
        then claimed_row inp p now2 (acted_row inp to v (db_now db2) q) else q) (db_proposals db)"
      using nf now2 fr by (simp add: p(4) store_simps update_proposal_rows publish_frame_def o_def cong: if_cong)
    have revs: "db_revisions db' = db_revisions (reviewed inp db)"
      using nf fr by (simp add: p(4) store_simps publish_frame_def)
    have "prefix (db_audit db2) (db_audit ?c)" using claim_audit [of ?u] by simp
    then have aud: "\<exists>xs. db_audit db' = db_audit db2 @ xs @ [action_audit inp p to v (revision_number inp db) old]"
      using nf by (auto simp: p(4) store_simps prefix_def)
    have vers: "db_versions db' = db_versions db2"
      using nf by (simp add: p(4) store_simps)
    have "db_uuid db' = db_uuid db2" "db_used db' = db_used db2"
      using nf by (simp_all add: p(4) store_simps)
    then show thesis
      using that [OF p(1,2) 1(1-5) props revs aud vers fr] by simp
  qed
qed

lemma perform_abort: "perform_proposal_action env inp db = (Aborted e, db') \<Longrightarrow> db' = db"
  by (auto simp: perform_proposal_action_def split: option.splits sum.splits prod.splits)

section \<open>The gates of an accept\<close>

lemma foldl_max_ge: "(a::nat) \<le> foldl max a xs \<and> (\<forall>x \<in> set xs. x \<le> foldl max a xs)"
  by (induction xs arbitrary: a) (auto simp: max_def dest: le_trans split: if_splits, (metis le_trans nat_le_linear)+)

lemma revision_le_max: "r \<in> set (revisions_of db i) \<Longrightarrow> rv_no r \<le> max_revision db i"
  using foldl_max_ge [of 0 "map rv_no (revisions_of db i)"] by (auto simp: max_revision_def)

lemma foldl_max_append: "foldl max (a::nat) (xs @ [y]) = max (foldl max a xs) y"
  by simp

lemma reviewed_payload:
  assumes "ai_payload inp = Some pl"
  shows "latest_payload (reviewed inp db) (ai_proposal inp) = Inr pl"
proof -
  let ?i = "ai_proposal inp"
  have revs: "revisions_of (reviewed inp db) ?i = revisions_of db ?i @
      [\<lparr>rv_proposal = ?i, rv_no = max_revision db ?i + 1, rv_payload = pl, rv_author = ai_actor inp, rv_note = ai_note inp\<rparr>]"
    using assms by (simp add: revisions_of_def reviewed_revisions)
  then have mx: "max_revision (reviewed inp db) ?i = max_revision db ?i + 1"
    by (simp add: max_revision_def)
  have "find (\<lambda>r. rv_no r = max_revision db ?i + 1) (revisions_of db ?i) = None"
    using revision_le_max by (fastforce simp: find_None_all)
  then have "find (\<lambda>r. rv_no r = max_revision db ?i + 1) (revisions_of (reviewed inp db) ?i) =
      Some \<lparr>rv_proposal = ?i, rv_no = max_revision db ?i + 1, rv_payload = pl, rv_author = ai_actor inp, rv_note = ai_note inp\<rparr>"
    unfolding revs by (simp add: find_append)
  then show ?thesis by (simp add: latest_payload_def mx)
qed

lemma reviewed_same: "ai_payload inp = None \<Longrightarrow> reviewed inp db = db"
  by (simp add: reviewed_def)

lemma scan_gate_passed:
  assumes "scan_gate env inp p db = Inr db'"
  shows "let scan = load_gate_scan db (ai_proposal inp) in
    (scan_verdict (map_option report_of scan) (env_av_required env) = None \<or> (ai_override inp \<and> \<not> blank_reason inp)) \<and>
    (requires_override (case scan of None \<Rightarrow> None | Some r \<Rightarrow> sr_severity r) \<longrightarrow> ai_override inp)"
  using assms by (auto simp: scan_gate_def Let_def split: option.splits if_splits)

lemma policy_gate_passed:
  assumes "policy_gate inp p db = Inr (trips, rf, db')"
  shows "trips = fst (evaluate_policy_gate db (ai_proposal inp) (pp_namespace p) (ai_access inp)) \<and>
    (trips = [] \<or> ai_override inp \<and> \<not> blank_reason inp \<and> list_all snd trips)"
  using assms by (auto simp: policy_gate_def list_ex_iff list_all_iff split: prod.splits if_splits)

lemma evaluate_policy_gate_frame:
  assumes "db_revisions d = db_revisions db" "db_policy d = db_policy db" "db_policy_run d = db_policy_run db"
    "db_prereview_on d = db_prereview_on db" "db_ai_on d = db_ai_on db" "db_auto_runs d = db_auto_runs db"
  shows "evaluate_policy_gate d i ns a = evaluate_policy_gate db i ns a"
proof -
  have "applicable_policy_rules d ns = applicable_policy_rules db ns"
    "proposal_no_verdict_reason d i = proposal_no_verdict_reason db i"
    "revisions_of d i = revisions_of db i" "max_revision d i = max_revision db i"
    using assms by (simp_all add: applicable_policy_rules_def proposal_no_verdict_reason_def
        revisions_of_def max_revision_def)
  then show ?thesis by (simp only: evaluate_policy_gate_def assms(3))
qed

lemma scan_gate_policy:
  assumes "scan_gate env inp p db = Inr d"
  shows "evaluate_policy_gate d i ns a = evaluate_policy_gate db i ns a"
  by (rule evaluate_policy_gate_frame)
    (use assms in \<open>auto simp: scan_gate_def Let_def append_audit_def split: option.splits if_splits\<close>)

section \<open>Properties\<close>


definition sample_review_store :: app_db where
  "sample_review_store = sample_store
     \<lparr>db_proposals := [created_row \<lparr>ci_by = ''u'', ci_namespace = ''n'', ci_skill = None, ci_semver = ''1.0.0'',
          ci_payload = sample_payload, ci_request = None, ci_routed = None, ci_rules = [], ci_model = None,
          ci_import = None\<rparr> ''p'' 0 \<lparr>pp_state := UnderReview\<rparr>],
      db_revisions := [\<lparr>rv_proposal = ''p'', rv_no = 1, rv_payload = sample_payload, rv_author = ''u'', rv_note = None\<rparr>],
      db_scans := [\<lparr>sr_id = ''s'', sr_type = ''artifact'', sr_subject = ''uploads/k'', sr_severity = None,
          sr_status = ''scanned'', sr_findings = [], sr_content_sha = None\<rparr>]\<rparr>"

definition sample_accept :: action_input where
  "sample_accept =
     \<lparr>ai_proposal = ''p'', ai_action = Accept, ai_actor = ''r'',
      ai_access = \<lparr>is_platform_admin = True, namespace_roles = Map.empty\<rparr>, ai_note = None, ai_payload = None,
      ai_semver = None, ai_expected = Some 1, ai_override = False, ai_override_reason = None\<rparr>"

lemma sample_accept_runs:
  "\<exists>v db'. perform_proposal_action \<lparr>env_boot = None, env_av_required = False\<rparr> sample_accept sample_review_store
     = (Performed Accepted v, db')"
proof -
  let ?env = "\<lparr>env_boot = None, env_av_required = False\<rparr>"
  let ?db = "sample_review_store"
  have p: "load_proposal ?db ''p'' = Some (hd (db_proposals ?db))" "db_skills ?db = []" "db_policy ?db = []" "db_versions ?db = []"
    by (simp_all add: load_proposal_def sample_review_store_def created_row_def sample_store_def)
  have row: "pp_state (hd (db_proposals ?db)) = UnderReview" "pp_skill (hd (db_proposals ?db)) = None"
    "pp_namespace (hd (db_proposals ?db)) = ''n''" "pp_semver (hd (db_proposals ?db)) = ''1.0.0''"
    "pp_by (hd (db_proposals ?db)) = ''u''" "pp_request (hd (db_proposals ?db)) = None"
    by (simp_all add: sample_review_store_def created_row_def)
  have rev: "max_revision ?db ''p'' = 1" "latest_payload ?db ''p'' = Inr sample_payload"
    by (simp_all add: max_revision_def latest_payload_def revisions_of_def sample_review_store_def)
  have perm: "can_perform Accept UnderReview (caps_for sample_accept (hd (db_proposals ?db))) = Inr Accepted"
    by (simp add: can_perform_ok_iff next_state_cases caps_for_def sample_accept_def can_review_namespace_def)
  have pre: "accept_precheck ?env ?db sample_accept (hd (db_proposals ?db)) = None"
    using rev by (simp add: accept_precheck_def sample_accept_def row truthy_def slug_clash_def
        find_slug_matches_def p(2) Let_def)
  have scan: "load_gate_scan ?db ''p'' = Some (hd (db_scans ?db))"
    using rev by (simp add: load_gate_scan_def find_last_def sample_review_store_def sample_payload_def truthy_def)
  have gate: "scan_gate ?env sample_accept (hd (db_proposals ?db)) ?db = Inr ?db"
    by (simp add: scan_gate_def Let_def sample_accept_def scan scan_verdict_def report_of_def requires_override_def)
      (simp add: sample_review_store_def)
  have pol: "\<exists>rf. policy_gate sample_accept (hd (db_proposals ?db)) ?db = Inr ([], rf, ?db)"
    by (simp add: policy_gate_def evaluate_policy_gate_def applicable_policy_rules_def p(3) Let_def)
  have "\<exists>r d. materialize_version (accept_input sample_accept (hd (db_proposals ?db)) sample_payload) ?db = Inr (r, d)"
    by (rule materialize_fresh)
      (simp_all add: accept_input_def row p(2,4) sample_payload_def semver_eval versions_of_def)
  then obtain r d where mat: "materialize_version (accept_input sample_accept (hd (db_proposals ?db)) sample_payload) ?db = Inr (r, d)"
    by blast
  obtain rf where rf: "policy_gate sample_accept (hd (db_proposals ?db)) ?db = Inr ([], rf, ?db)" using pol by blast
  have acc: "ai_action sample_accept = Accept" "ai_proposal sample_accept = ''p''" "ai_payload sample_accept = None"
    by (simp_all add: sample_accept_def)
  have "\<exists>v d'. action_tx ?env sample_accept (hd (db_proposals ?db)) Accepted ?db = Inr (v, None, d')"
    by (simp add: action_tx_def acc pre accept_publish_def gate rf rev mat action_notifications_def Let_def)
  then show ?thesis
    by (auto simp: perform_proposal_action_def acc p(1) row perm)
qed


text \<open>
  C5: A handler that does not succeed leaves the store as it was; one that succeeds moves exactly its own
  proposal along the transition table, keeps every other proposal, version and revision, adds at most
  one revision, and ends the audit log with the entry of the action.
\<close>

theorem perform_action_effects:
  "case perform_proposal_action env inp db of
     (Aborted e, db') \<Rightarrow> db' = db
   | (Performed to v, db') \<Rightarrow>
       (\<exists>p. load_proposal db (ai_proposal inp) = Some p \<and> next_state (ai_action inp) (pp_state p) = Some to) \<and>
       map pp_id (db_proposals db') = map pp_id (db_proposals db) \<and>
       filter (\<lambda>q. pp_id q \<noteq> ai_proposal inp) (db_proposals db') = filter (\<lambda>q. pp_id q \<noteq> ai_proposal inp) (db_proposals db) \<and>
       prefix (db_revisions db) (db_revisions db') \<and> length (db_revisions db') \<le> Suc (length (db_revisions db)) \<and>
       prefix (db_versions db) (db_versions db') \<and>
       (\<exists>xs e. db_audit db' = db_audit db @ xs @ [e] \<and> au_action e = ''proposal.'' @ action_text (ai_action inp) \<and>
               au_actor e = Some (ai_actor inp) \<and> au_target e = Some (ai_proposal inp))"
proof (cases "perform_proposal_action env inp db")
  case (Pair res db')
  show ?thesis
  proof (cases res)
    case (Aborted e)
    then show ?thesis using Pair perform_abort by simp
  next
    case (Performed to v)
    have run: "perform_proposal_action env inp db = (Performed to v, db')" using Pair Performed by simp
    from run show ?thesis
    proof (cases rule: perform_cases)
      case (1 p db2 old now1 now2)
      have moved: "next_state (ai_action inp) (pp_state p) = Some to" using 1(2) by (simp add: can_perform_ok_iff)
      have rev: "prefix (db_revisions db) (db_revisions db')" "length (db_revisions db') \<le> Suc (length (db_revisions db))"
        unfolding 1(9) reviewed_revisions by (auto split: option.splits)
      have pf: "prefix (db_versions db) (db_versions db')" "prefix (db_audit db) (db_audit db2)"
        using 1(12) by (simp_all add: 1(11) publish_frame_def audit_grows_def)
      obtain xs where xs: "db_audit db' = db_audit db2 @ xs @ [action_audit inp p to v (revision_number inp db) old]"
        using 1(10) by blast
      obtain ys where ys: "db_audit db2 = db_audit db @ ys" using pf(2) by (auto simp: prefix_def)
      have aud: "\<exists>xs e. db_audit db' = db_audit db @ xs @ [e] \<and> au_action e = ''proposal.'' @ action_text (ai_action inp) \<and>
               au_actor e = Some (ai_actor inp) \<and> au_target e = Some (ai_proposal inp)"
        unfolding xs ys
        by (intro exI [of _ "ys @ xs"] exI [of _ "action_audit inp p to v (revision_number inp db) old"])
          (simp add: action_audit_def proposal_audit_def)
      have "map pp_id (db_proposals db') = map pp_id (db_proposals db)"
        "filter (\<lambda>q. pp_id q \<noteq> ai_proposal inp) (db_proposals db') = filter (\<lambda>q. pp_id q \<noteq> ai_proposal inp) (db_proposals db)"
        unfolding 1(8) by (auto simp: filter_map o_def intro!: map_idI cong: filter_cong)
      then show ?thesis using run 1(1) moved rev pf(1) aud by auto
    qed
  qed
qed

end
