(* ===== verification/Workflow.thy ===== *)
theory Workflow
  imports ProposalFacts
begin

text \<open>
  The stores the proposal handlers can produce, as an inductive set: from a store without proposals,
  by creating, acting on and deleting proposals in any order. The invariant carried along connects
  the rows with the abstract state machine of \<open>Proposal\<close>: the state of every stored proposal is the
  end of a legal history.
\<close>

section \<open>Reachable stores\<close>

inductive workflow :: "app_env \<Rightarrow> app_db \<Rightarrow> bool" for env where
  wf_start: "db_proposals db = [] \<Longrightarrow> db_revisions db = [] \<Longrightarrow> inj (db_uuid db) \<Longrightarrow> histories_ok db \<Longrightarrow> workflow env db"
| wf_create: "workflow env db \<Longrightarrow> workflow env (snd (create_proposal env ci db))"
| wf_act: "workflow env db \<Longrightarrow> workflow env (snd (perform_proposal_action env inp db))"
| wf_delete: "workflow env db \<Longrightarrow> workflow env (snd (delete_proposal pid actor a db))"

definition store_inv :: "app_db \<Rightarrow> bool" where
  "store_inv db =
     (inj (db_uuid db) \<and> distinct (map pp_id (db_proposals db)) \<and>
      pp_id ` set (db_proposals db) \<subseteq> db_uuid db ` {..<db_used db} \<and>
      rv_proposal ` set (db_revisions db) \<subseteq> pp_id ` set (db_proposals db) \<and>
      (\<forall>p \<in> set (db_proposals db). \<exists>es. history Proposed es (pp_state p)) \<and>
      (\<forall>p \<in> set (db_proposals db). \<exists>n \<ge> 1. map rv_no (revisions_of db (pp_id p)) = [1..<Suc n]) \<and>
      histories_ok db)"

section \<open>Creating\<close>

lemma award_submission_simps [simp]:
  "db_proposals (award_submission inp db) = db_proposals db" "db_revisions (award_submission inp db) = db_revisions db"
  "db_uuid (award_submission inp db) = db_uuid db" "db_used (award_submission inp db) = db_used db"
  "db_versions (award_submission inp db) = db_versions db" "db_audit (award_submission inp db) = db_audit db"
  by (simp_all add: award_submission_def Let_def store_simps)

lemma notify_created_simps [simp]:
  "db_proposals (notify_proposal_created env i ns u slug v db) = db_proposals db"
  "db_revisions (notify_proposal_created env i ns u slug v db) = db_revisions db"
  "db_uuid (notify_proposal_created env i ns u slug v db) = db_uuid db"
  "db_used (notify_proposal_created env i ns u slug v db) = db_used db"
  "db_versions (notify_proposal_created env i ns u slug v db) = db_versions db"
  "db_audit (notify_proposal_created env i ns u slug v db) = db_audit db"
  by (simp_all add: notify_proposal_created_def notify_reviewers_needs_review_def notify_namespace_reviewers_def
      Let_def store_simps)

lemma create_proposal_effects:
  "fst (create_proposal env inp db) = db_uuid db (db_used db)"
  "db_proposals (snd (create_proposal env inp db)) =
     db_proposals db @ [created_row inp (db_uuid db (db_used db)) (db_now db)]"
  "db_revisions (snd (create_proposal env inp db)) = db_revisions db @
     [\<lparr>rv_proposal = db_uuid db (db_used db), rv_no = 1, rv_payload = ci_payload inp, rv_author = ci_by inp,
       rv_note = Some ''initial submission''\<rparr>]"
  "db_uuid (snd (create_proposal env inp db)) = db_uuid db"
  "db_used (snd (create_proposal env inp db)) = Suc (db_used db)"
  "db_versions (snd (create_proposal env inp db)) = db_versions db"
  by (simp_all add: create_proposal_def fresh_id_def Let_def store_simps)

lemma created_row_simps [simp]: "pp_id (created_row inp i now) = i" "pp_state (created_row inp i now) = Proposed"
  by (simp_all add: created_row_def)

lemma histories_frame: "db_versions d = db_versions db \<Longrightarrow> histories_ok d = histories_ok db"
  by (simp add: histories_ok_def versions_of_def)

lemma create_inv:
  assumes inv: "store_inv db"
  shows "store_inv (snd (create_proposal env inp db))"
proof -
  let ?i = "db_uuid db (db_used db)" and ?d = "snd (create_proposal env inp db)"
  have new: "?i \<notin> pp_id ` set (db_proposals db)"
  proof
    assume "?i \<in> pp_id ` set (db_proposals db)"
    then obtain k where "k < db_used db" "db_uuid db k = ?i" using inv by (auto simp: store_inv_def)
    then show False using inv by (auto simp: store_inv_def dest: injD)
  qed
  have norev: "revisions_of db ?i = []"
  proof -
    have "rv_proposal ` set (db_revisions db) \<subseteq> pp_id ` set (db_proposals db)" using inv by (simp add: store_inv_def)
    then have "\<forall>r \<in> set (db_revisions db). rv_proposal r \<noteq> ?i" using new by (metis image_eqI subsetD)
    then show ?thesis by (simp add: revisions_of_def filter_empty_conv)
  qed
  have revs: "revisions_of ?d j = revisions_of db j @ (if j = ?i then
      [\<lparr>rv_proposal = ?i, rv_no = 1, rv_payload = ci_payload inp, rv_author = ci_by inp, rv_note = Some ''initial submission''\<rparr>] else [])" for j
    by (simp add: revisions_of_def create_proposal_effects)
  have numbers: "\<exists>n \<ge> 1. map rv_no (revisions_of ?d (pp_id p)) = [1..<Suc n]" if "p \<in> set (db_proposals ?d)" for p
  proof (cases "pp_id p = ?i")
    case True
    then show ?thesis using norev by (intro exI [of _ 1]) (simp add: revs)
  next
    case False
    then have "p \<in> set (db_proposals db)" using that by (auto simp: create_proposal_effects)
    then have "\<exists>n \<ge> 1. map rv_no (revisions_of db (pp_id p)) = [1..<Suc n]"
      using inv unfolding store_inv_def by blast
    then show ?thesis using False by (simp add: revs del: upt_Suc)
  qed
  have "pp_id ` set (db_proposals db) \<subseteq> db_uuid db ` {..<Suc (db_used db)}"
    using inv by (force simp: store_inv_def)
  then show ?thesis
    using inv new numbers history.start [of Proposed] histories_frame [of ?d db]
    unfolding store_inv_def by (auto simp: create_proposal_effects)
qed

section \<open>Acting\<close>

text \<open>The effects of an accept after its version row leave the versions alone.\<close>

lemma award_fulfilment_versions [simp]: "db_versions (award_fulfilment r by d) = db_versions d"
  by (simp add: award_fulfilment_def Let_def store_simps split: option.split)

lemma announce_versions [simp]: "db_versions (announce_fulfilment r i by d) = db_versions d"
  by (simp add: announce_fulfilment_def Let_def store_simps split: option.split)

lemma fulfil_versions [simp]: "db_versions (fulfil_origin_request q i by actor via d) = db_versions d"
  unfolding fulfil_origin_request_def Let_def by (simp add: store_simps split: option.split)

lemma ack_versions [simp]: "db_versions (record_acknowledgement i v r fs by note src d) = db_versions d"
  by (simp add: record_acknowledgement_def Let_def)

lemma exceptions_versions [simp]: "db_versions (insert_exceptions i v inp trips rf d) = db_versions d"
  by (simp add: insert_exceptions_def)

lemma effects_versions [simp]: "db_versions (accept_effects inp p scan trips rf r d) = db_versions d"
  unfolding accept_effects_def Let_def by (simp split: option.split)

lemma gates_versions:
  "scan_gate env inp p db = Inr d \<Longrightarrow> db_versions d = db_versions db"
  "policy_gate inp p db = Inr (trips, rf, d) \<Longrightarrow> db_versions d = db_versions db"
  by (auto simp: scan_gate_def policy_gate_def Let_def store_simps split: option.splits if_splits prod.splits)

lemma load_proposal_in: "load_proposal db i = Some p \<Longrightarrow> p \<in> set (db_proposals db) \<and> pp_id p = i"
  unfolding load_proposal_def by (drule find_in_set) simp

lemma load_proposal_unique:
  assumes "store_inv db" "load_proposal db i = Some p" "q \<in> set (db_proposals db)" "pp_id q = i"
  shows "q = p"
proof -
  have "p \<in> set (db_proposals db)" "pp_id p = i" using load_proposal_in [OF assms(2)] by simp_all
  then show ?thesis using assms by (auto simp: store_inv_def distinct_map dest: inj_onD)
qed

lemma foldl_max_upt: "1 \<le> n \<Longrightarrow> foldl max 0 [1..<Suc n] = (n::nat)"
  by (induction n) (auto simp: max_def)

lemma act_inv:
  assumes inv: "store_inv db" and run: "perform_proposal_action env inp db = (Performed to v, db')"
  shows "store_inv db'"
  using run
proof (cases rule: perform_cases)
  case (1 p db2 old now1 now2)
  let ?i = "ai_proposal inp"
  have frame: "db_uuid db' = db_uuid db" "db_used db \<le> db_used db'"
    using 1(12-14) by (simp_all add: publish_frame_def)
  have ids: "map pp_id (db_proposals db') = map pp_id (db_proposals db)"
    unfolding 1(8) by (auto intro!: map_cong)
  then have idset: "pp_id ` set (db_proposals db') = pp_id ` set (db_proposals db)"
    by (metis set_map)
  have p: "p \<in> set (db_proposals db)" "pp_id p = ?i"
    using load_proposal_in [OF 1(1)] by simp_all
  have states: "\<exists>es. history Proposed es (pp_state q)" if "q \<in> set (db_proposals db')" for q
  proof -
    obtain q0 where q0: "q0 \<in> set (db_proposals db)"
      "q = (if pp_id q0 = ?i then claimed_row inp p now2 (acted_row inp to v now1 q0) else q0)"
      using \<open>q \<in> set (db_proposals db')\<close> unfolding 1(8) by auto
    show ?thesis
    proof (cases "pp_id q0 = ?i")
      case True
      then have "q0 = p" using load_proposal_unique [OF inv 1(1) q0(1)] by simp
      then obtain es where "history Proposed es (pp_state p)" using inv p by (auto simp: store_inv_def)
      then have "history Proposed (es @ [(ai_action inp, caps_for inp p)]) to"
        using 1(2) by (intro history.extend) (auto simp: review_step_iff)
      then show ?thesis using q0 True by auto
    next
      case False
      then show ?thesis using q0 inv by (auto simp: store_inv_def)
    qed
  qed
  have revs: "db_revisions db' = db_revisions (reviewed inp db)" by (rule 1(9))
  have numbers: "\<exists>n \<ge> 1. map rv_no (revisions_of db' (pp_id q)) = [1..<Suc n]" if "q \<in> set (db_proposals db')" for q
  proof -
    have "pp_id q \<in> pp_id ` set (db_proposals db)" using that idset by blast
    then obtain n where n: "1 \<le> n" "map rv_no (revisions_of db (pp_id q)) = [1..<Suc n]"
      using inv by (auto simp: store_inv_def)
    show ?thesis
    proof (cases "ai_payload inp \<noteq> None \<and> pp_id q = ?i")
      case True
      then have "max_revision db ?i = n" using n foldl_max_upt by (simp add: max_revision_def)
      then have "map rv_no (revisions_of db' (pp_id q)) = [1..<Suc n] @ [Suc n]"
        using True n by (auto simp: revisions_of_def revs reviewed_revisions)
      then show ?thesis using n(1) by (intro exI [of _ "Suc n"]) simp
    next
      case False
      then have "revisions_of db' (pp_id q) = revisions_of db (pp_id q)"
        by (auto simp: revisions_of_def revs reviewed_revisions split: option.splits)
      then show ?thesis using n by auto
    qed
  qed
  have refs: "rv_proposal ` set (db_revisions db') \<subseteq> pp_id ` set (db_proposals db')"
  proof -
    have "?i \<in> pp_id ` set (db_proposals db)" using p by (metis image_eqI)
    moreover have "rv_proposal ` set (db_revisions db) \<subseteq> pp_id ` set (db_proposals db)"
      using inv by (simp add: store_inv_def)
    ultimately show ?thesis unfolding idset revs reviewed_revisions by (auto split: option.splits)
  qed
  have hist: "histories_ok db'"
  proof (cases "ai_action inp = Accept")
    case True
    from 1(6) [OF True] show ?thesis
    proof (cases rule: accept_publish_cases)
      case (1 d1 trips rf d2 payload r d3)
      have "histories_ok (reviewed inp db)" using inv by (simp add: histories_ok_def store_inv_def)
      moreover have "db_versions d2 = db_versions (reviewed inp db)"
        using gates_versions(1) [OF 1(1)] gates_versions(2) [OF 1(2)] by simp
      ultimately have "histories_ok d3" using materialize_histories [OF 1(4)] histories_frame by metis
      moreover have "db_versions db2 = db_versions d3" unfolding 1(6) by simp
      ultimately show ?thesis using \<open>db_versions db' = db_versions db2\<close> histories_frame by metis
    qed
  next
    case False
    then show ?thesis using 1(7,11) inv by (simp add: histories_ok_def versions_of_def store_inv_def)
  qed
  have "distinct (map pp_id (db_proposals db'))" using inv by (simp add: ids store_inv_def)
  moreover have "pp_id ` set (db_proposals db') \<subseteq> db_uuid db' ` {..<db_used db'}"
  proof -
    have "pp_id ` set (db_proposals db) \<subseteq> db_uuid db ` {..<db_used db}" using inv by (simp add: store_inv_def)
    also have "\<dots> \<subseteq> db_uuid db ` {..<db_used db'}" using frame(2) by (intro image_mono) simp
    finally show ?thesis unfolding idset frame(1) .
  qed
  moreover have "inj (db_uuid db')" using inv frame by (simp add: store_inv_def)
  ultimately show ?thesis
    using states numbers refs hist unfolding store_inv_def by (intro conjI ballI)
qed

section \<open>Deleting\<close>

lemma delete_effects:
  "snd (delete_proposal pid actor a db) = db \<or>
   (db_proposals (snd (delete_proposal pid actor a db)) = filter (\<lambda>p. pp_id p \<noteq> pid) (db_proposals db) \<and>
    db_revisions (snd (delete_proposal pid actor a db)) = filter (\<lambda>r. rv_proposal r \<noteq> pid) (db_revisions db) \<and>
    db_uuid (snd (delete_proposal pid actor a db)) = db_uuid db \<and>
    db_used (snd (delete_proposal pid actor a db)) = db_used db \<and>
    db_versions (snd (delete_proposal pid actor a db)) = db_versions db \<and>
    (\<exists>p. load_proposal db pid = Some p \<and> pp_state p \<noteq> Accepted \<and> can_review_namespace a (pp_namespace p)))"
  by (auto simp: delete_proposal_def delete_proposal_rows_def Let_def store_simps split: option.splits)

lemma delete_inv:
  assumes "store_inv db"
  shows "store_inv (snd (delete_proposal pid actor a db))"
  using delete_effects [of pid actor a db]
proof
  let ?d = "snd (delete_proposal pid actor a db)"
  assume e: "db_proposals ?d = filter (\<lambda>p. pp_id p \<noteq> pid) (db_proposals db) \<and>
    db_revisions ?d = filter (\<lambda>r. rv_proposal r \<noteq> pid) (db_revisions db) \<and> db_uuid ?d = db_uuid db \<and>
    db_used ?d = db_used db \<and> db_versions ?d = db_versions db \<and>
    (\<exists>p. load_proposal db pid = Some p \<and> pp_state p \<noteq> Accepted \<and> can_review_namespace a (pp_namespace p))"
  have revs: "revisions_of ?d i = revisions_of db i" if "i \<noteq> pid" for i
    using e that by (auto simp: revisions_of_def intro: filter_cong)
  show ?thesis
    using assms e revs histories_frame [of ?d db]
    unfolding store_inv_def by (auto simp: distinct_map intro: inj_on_subset)
qed (use assms in simp)

lemma workflow_inv: "workflow env db \<Longrightarrow> store_inv db"
proof (induction rule: workflow.induct)
  case (wf_start db)
  then show ?case by (simp add: store_inv_def)
next
  case (wf_create db ci)
  then show ?case by (simp add: create_inv)
next
  case (wf_act db inp)
  show ?case
  proof (cases "perform_proposal_action env inp db")
    case (Pair res db')
    then show ?thesis
      using wf_act.IH act_inv [of db env inp] perform_abort [of env inp db] by (cases res) auto
  qed
next
  case (wf_delete db pid actor a)
  then show ?case by (simp add: delete_inv)
qed

section \<open>Properties\<close>


definition sample_create :: create_input where
  "sample_create =
     \<lparr>ci_by = ''u'', ci_namespace = ''n'', ci_skill = None, ci_semver = ''1.0.0'', ci_payload = sample_payload,
      ci_request = None, ci_routed = None, ci_rules = [], ci_model = None, ci_import = None\<rparr>"

definition unary_store :: app_db where
  "unary_store = sample_store\<lparr>db_uuid := \<lambda>n. replicate n CHR ''x''\<rparr>"


end
