(* ===== verification/DirectPublish.thy ===== *)
theory DirectPublish
  imports Workflow
begin

text \<open>
  Publishing without a review, promotion to the global namespace, and keeping the current files of a
  skill for its next version: \<open>directPublish\<close>, \<open>hostedContentCheck\<close>, \<open>promoteToGlobal\<close>,
  \<open>resolveReuseSource\<close> and \<open>applyReuseToPayload\<close> of \<open>packages/web/src/lib/proposals.ts\<close>.

  A direct publish ends in one of four ways: published, routed to review as a new proposal, refused,
  or rolled back by an exception of the publishing transaction.
\<close>

section \<open>Inputs and results\<close>

record content_check =
  dc_findings :: "scan_finding list"
  dc_report :: "ident option"
  dc_unreachable :: bool

record publish_input =
  pu_access :: effective_access
  pu_actor :: ident
  pu_namespace :: string
  pu_semver :: string
  pu_payload :: revision_payload
  pu_request :: "ident option"
  pu_check :: "content_check option"
  pu_override :: bool
  pu_reason :: "string option"
  pu_model :: "string option"
  pu_import :: "ident option"
  pu_route_overrides :: bool

datatype publish_error =
    PublishNoNamespace
  | PublishForbidden
  | PublishScanIncomplete scan_verdict_reason
  | PublishReasonMissing scan_verdict_reason
  | PublishNeedsOverride bool "severity option"
  | PublishSlugTaken "slug_match list"

datatype routed_reason = RoutedContentRisk | RoutedPolicy | RoutedScanPending

fun routed_text :: "routed_reason \<Rightarrow> string" where
  "routed_text RoutedContentRisk = ''content_risk''"
| "routed_text RoutedPolicy = ''policy''"
| "routed_text RoutedScanPending = ''scan_pending''"

datatype publish_result =
    Published ident "ident option" bool
  | Routed ident "scan_finding list" routed_reason
  | PublishRefused publish_error
  | PublishThrew tx_error

fun publish_error_status :: "publish_error \<Rightarrow> nat" where
  "publish_error_status PublishNoNamespace = 404"
| "publish_error_status PublishForbidden = 403"
| "publish_error_status (PublishScanIncomplete r) = 409"
| "publish_error_status (PublishReasonMissing r) = 422"
| "publish_error_status (PublishNeedsOverride u s) = 409"
| "publish_error_status (PublishSlugTaken ms) = 409"

section \<open>The content check\<close>

definition latest_artifact_report :: "app_db \<Rightarrow> string option \<Rightarrow> scan_report_row option" where
  "latest_artifact_report db key =
     (if \<not> truthy key then None
      else find_last (\<lambda>r. sr_type r = ''artifact'' \<and> Some (sr_subject r) = key) (db_scans db))"

definition hosted_content_check :: "app_db \<Rightarrow> revision_payload \<Rightarrow> content_check" where
  "hosted_content_check db payload =
     (let report = latest_artifact_report db (rp_key payload) in
      \<lparr>dc_findings = (case report of None \<Rightarrow> [] | Some r \<Rightarrow> sr_findings r),
       dc_report = map_option sr_id report, dc_unreachable = False\<rparr>)"

definition publish_check :: "publish_input \<Rightarrow> app_db \<Rightarrow> content_check" where
  "publish_check inp db =
     (case pu_check inp of Some c \<Rightarrow> c | None \<Rightarrow> hosted_content_check db (pu_payload inp))"

definition publish_content :: "publish_input \<Rightarrow> app_db \<Rightarrow> scan_finding list" where
  "publish_content inp db = content_risk_findings (dc_findings (publish_check inp db))"

definition publish_trips :: "publish_input \<Rightarrow> app_db \<Rightarrow> bool" where
  "publish_trips inp db =
     (dc_unreachable (publish_check inp db) \<or> content_risk_trips_gate (publish_content inp db))"

definition override_holder :: "publish_input \<Rightarrow> ident \<Rightarrow> bool" where
  "override_holder inp ns = (can_review_namespace (pu_access inp) ns \<and> \<not> pu_route_overrides inp)"

text \<open>The missing scan verdict of a hosted artifact, if any.\<close>

definition missing_verdict :: "app_env \<Rightarrow> publish_input \<Rightarrow> app_db \<Rightarrow> scan_verdict_reason option" where
  "missing_verdict env inp db =
     (if pu_check inp = None \<and> truthy (rp_key (pu_payload inp))
      then scan_verdict
             (map_option report_of
               (find_last (\<lambda>r. sr_type r = ''artifact'' \<and> Some (sr_subject r) = rp_key (pu_payload inp)) (db_scans db)))
             (env_av_required env)
      else None)"

section \<open>Routing to review\<close>

text \<open>The request a submission answers, when its id names an open one.\<close>

definition open_request :: "publish_input \<Rightarrow> app_db \<Rightarrow> ident option" where
  "open_request inp db =
     (case pu_request inp of
        None \<Rightarrow> None
      | Some q \<Rightarrow> if id_shaped q \<and> list_ex (\<lambda>r. rq_id r = q \<and> rq_open r) (db_requests db) then Some q else None)"

definition routed_create ::
  "publish_input \<Rightarrow> ident \<Rightarrow> ident option \<Rightarrow> routed_reason \<Rightarrow> string list \<Rightarrow> app_db \<Rightarrow> create_input" where
  "routed_create inp ns existing why rules db =
     \<lparr>ci_by = pu_actor inp, ci_namespace = ns, ci_skill = existing, ci_semver = pu_semver inp,
      ci_payload = pu_payload inp, ci_request = open_request inp db, ci_routed = Some (routed_text why),
      ci_rules = rules, ci_model = pu_model inp, ci_import = pu_import inp\<rparr>"

definition route_to_review ::
  "app_env \<Rightarrow> publish_input \<Rightarrow> ident \<Rightarrow> ident option \<Rightarrow> routed_reason \<Rightarrow> string list \<Rightarrow> app_db \<Rightarrow> publish_result \<times> app_db" where
  "route_to_review env inp ns existing why rules db =
     (let (i, db') = create_proposal env (routed_create inp ns existing why rules db) db
      in (Routed i (publish_content inp db) why, db'))"

definition content_rules :: "publish_input \<Rightarrow> app_db \<Rightarrow> string list" where
  "content_rules inp db =
     (if dc_unreachable (publish_check inp db) then [''source-unreachable'']
      else js_unique (map fd_rule (filter (\<lambda>f. fd_severity f = High \<or> fd_severity f = Critical) (publish_content inp db))))"

section \<open>Publishing\<close>

definition publish_audit :: "publish_input \<Rightarrow> ident \<Rightarrow> ident \<Rightarrow> string \<Rightarrow> json \<Rightarrow> audit_entry" where
  "publish_audit inp ns skill action after =
     \<lparr>au_actor = Some (pu_actor inp), au_action = action, au_type = ''skill'', au_target = Some skill,
      au_namespace = Some ns, au_before = JNull, au_after = after\<rparr>"

definition publish_materialize :: "publish_input \<Rightarrow> ident \<Rightarrow> ident option \<Rightarrow> materialize_input" where
  "publish_materialize inp ns existing =
     \<lparr>mz_namespace = ns, mz_skill = existing, mz_semver = pu_semver inp, mz_by = pu_actor inp,
      mz_payload = pu_payload inp, mz_actor = Some (pu_actor inp), mz_via = Some ViaDirectPublish,
      mz_proposal = None\<rparr>"

definition award_publish :: "publish_input \<Rightarrow> ident option \<Rightarrow> bool \<Rightarrow> bool \<Rightarrow> app_db \<Rightarrow> app_db" where
  "award_publish inp existing pending icon db =
     (let db1 = (if existing \<noteq> None then record_call (Award (pu_actor inp) ''first_version_proposal'' (\<not> pending)) db else db)
      in if icon then record_call (Award (pu_actor inp) ''first_icon'' True) db1 else db1)"

text \<open>What an override holder's publish over a missing verdict or content findings records.\<close>

definition record_overrides ::
  "publish_input \<Rightarrow> ident \<Rightarrow> ident \<Rightarrow> scan_verdict_reason option \<Rightarrow> content_check \<Rightarrow> bool \<Rightarrow> app_db \<Rightarrow> app_db" where
  "record_overrides inp ns skill missing chk trips db =
     (let db1 = (case missing of
            None \<Rightarrow> db
          | Some why \<Rightarrow> append_audit (publish_audit inp ns skill ''skill.publish_scan_override''
              (JObj [(''semver'', JStr (pu_semver inp)), (''reason'', json_opt (pu_reason inp)),
                     (''missingVerdict'', JStr (verdict_reason_text why))])) db)
      in if trips
         then record_acknowledgement skill (pu_semver inp) (dc_report chk) (content_risk_findings (dc_findings chk))
                (pu_actor inp) (pu_reason inp) ''override''
                (append_audit (publish_audit inp ns skill ''skill.publish_scan_override''
                  (JObj [(''semver'', JStr (pu_semver inp)), (''reason'', json_opt (pu_reason inp)),
                         (''unreachable'', JBool (dc_unreachable chk)),
                         (''findings'', JArr (map json_finding (content_risk_findings (dc_findings chk))))])) db1)
         else db1)"

text \<open>The transaction behind the gates.\<close>

definition publish_tx ::
  "publish_input \<Rightarrow> ident \<Rightarrow> ident option \<Rightarrow> scan_verdict_reason option \<Rightarrow> content_check \<Rightarrow> bool \<Rightarrow> app_db \<Rightarrow>
   publish_result \<times> app_db" where
  "publish_tx inp ns existing missing chk trips db =
     (let meta = rp_meta (pu_payload inp);
          clash = (if existing = None then find_slug_matches db (pu_access inp) (pm_slug meta) None else [])
      in if clash \<noteq> [] then (PublishRefused (PublishSlugTaken clash), db)
         else
           let icon = (\<not> truthy (rp_promoted (pu_payload inp)) \<and> chooses_icon db meta existing)
           in case materialize_version (publish_materialize inp ns existing) db of
                Inl e \<Rightarrow> (PublishThrew e, db)
              | Inr (r, db1) \<Rightarrow>
                  let skill = mr_skill_id r;
                      db2 = append_audit (publish_audit inp ns skill ''skill.published''
                              (JObj ([(''semver'', JStr (pu_semver inp)), (''slug'', JStr (pm_slug meta)),
                                      (''pending'', JBool (mr_pending r))] @ opt_field ''aiDraftModel'' (pu_model inp))))
                              (award_publish inp existing (mr_pending r) icon db1);
                      db3 = record_overrides inp ns skill missing chk trips db2
                  in (Published skill (mr_version_id r) (mr_pending r),
                      case pu_request inp of
                        None \<Rightarrow> db3
                      | Some q \<Rightarrow> if q = [] then db3
                                  else fulfil_origin_request q skill (pu_actor inp) (pu_actor inp) ''direct_publish'' db3))"

text \<open>The gates in their order: missing verdict, content findings of a member, policy, override.\<close>

definition publish_gated :: "app_env \<Rightarrow> publish_input \<Rightarrow> ident \<Rightarrow> ident option \<Rightarrow> app_db \<Rightarrow> publish_result \<times> app_db" where
  "publish_gated env inp ns existing db =
     (let missing = missing_verdict env inp db; trips = publish_trips inp db;
          holder = override_holder inp ns; rules = applicable_policy_rules db ns
      in if missing \<noteq> None \<and> \<not> holder
         then route_to_review env inp ns existing RoutedScanPending [''scan-'' @ verdict_reason_text (the missing)] db
         else if missing \<noteq> None \<and> \<not> pu_override inp
         then (PublishRefused (PublishScanIncomplete (the missing)), db)
         else if missing \<noteq> None \<and> trim_or_null (pu_reason inp) = None
         then (PublishRefused (PublishReasonMissing (the missing)), db)
         else if trips \<and> \<not> holder
         then route_to_review env inp ns existing RoutedContentRisk (content_rules inp db) db
         else if policy_publish_route rules (policy_actor_of (pu_access inp) ns) = RouteReview
         then route_to_review env inp ns existing RoutedPolicy (map pr_title (enforced_rules rules)) db
         else if trips \<and> \<not> pu_override inp
         then (PublishRefused (PublishNeedsOverride (dc_unreachable (publish_check inp db))
                 (max_severity (publish_content inp db))), db)
         else publish_tx inp ns existing missing (publish_check inp db) trips db)"

definition direct_publish :: "app_env \<Rightarrow> publish_input \<Rightarrow> app_db \<Rightarrow> publish_result \<times> app_db" where
  "direct_publish env inp db =
     (case find (\<lambda>n. nr_slug n = pu_namespace inp) (db_namespaces db) of
        None \<Rightarrow> (PublishRefused PublishNoNamespace, db)
      | Some n \<Rightarrow>
          if \<not> can_direct_publish (pu_access inp) (nr_id n) (nr_require_review n)
          then (PublishRefused PublishForbidden, db)
          else publish_gated env inp (nr_id n)
                 (map_option sk_id (find (\<lambda>s. sk_namespace s = nr_id n \<and> cs_slug s = pm_slug (rp_meta (pu_payload inp)))
                   (db_skills db))) db)"

section \<open>Frames\<close>

lemma pf_award_publish: "publish_frame db d \<Longrightarrow> publish_frame db (award_publish inp existing pending icon d)"
  by (simp add: award_publish_def Let_def pf_call)

lemma pf_overrides: "publish_frame db d \<Longrightarrow> publish_frame db (record_overrides inp ns skill missing chk trips d)"
  by (simp add: record_overrides_def Let_def pf_audit pf_ack split: option.split)

lemma award_publish_versions [simp]: "db_versions (award_publish inp existing pending icon d) = db_versions d"
  by (simp add: award_publish_def Let_def store_simps)

lemma overrides_versions [simp]: "db_versions (record_overrides inp ns skill missing chk trips d) = db_versions d"
  by (simp add: record_overrides_def Let_def store_simps split: option.split)

lemma publish_tx_published:
  assumes "publish_tx inp ns existing missing chk trips db = (Published i v pending, db')"
  obtains r d where "materialize_version (publish_materialize inp ns existing) db = Inr (r, d)"
    "i = mr_skill_id r" "v = mr_version_id r" "publish_frame db db'" "db_versions db' = db_versions d"
    "existing = None \<longrightarrow> find_slug_matches db (pu_access inp) (pm_slug (rp_meta (pu_payload inp))) None = []"
proof -
  from assms obtain r d where m: "materialize_version (publish_materialize inp ns existing) db = Inr (r, d)"
    and i: "i = mr_skill_id r" "v = mr_version_id r"
    and slug: "existing = None \<longrightarrow> find_slug_matches db (pu_access inp) (pm_slug (rp_meta (pu_payload inp))) None = []"
    by (auto simp: publish_tx_def Let_def split: if_splits sum.splits)
  have frame: "publish_frame db d" by (rule materialize_frame [OF m])
  have "publish_frame db db' \<and> db_versions db' = db_versions d"
    using assms m frame
    by (auto simp: publish_tx_def Let_def store_simps pf_fulfil pf_overrides pf_award_publish pf_audit
        split: if_splits option.splits)
  then show thesis using that m i slug by blast
qed

lemma publish_tx_other:
  "publish_tx inp ns existing missing chk trips db = (res, db') \<Longrightarrow> \<forall>i v p. res \<noteq> Published i v p \<Longrightarrow>
     db' = db \<and> (\<forall>i fs w. res \<noteq> Routed i fs w)"
  by (auto simp: publish_tx_def Let_def split: if_splits sum.splits)

lemma route_to_review_effects:
  assumes "route_to_review env inp ns existing why rules db = (res, db')"
  shows "res = Routed (db_uuid db (db_used db)) (publish_content inp db) why \<and>
         db_proposals db' = db_proposals db @
           [created_row (routed_create inp ns existing why rules db) (db_uuid db (db_used db)) (db_now db)] \<and>
         db_versions db' = db_versions db"
  using assms create_proposal_effects [of env "routed_create inp ns existing why rules db" db]
  by (auto simp: route_to_review_def split: prod.splits)

lemma route_to_review_not_published: "route_to_review env inp ns existing why rules db \<noteq> (Published i v pending, db')"
  by (simp add: route_to_review_def split: prod.split)

text \<open>Which gate decided, for each of the results.\<close>

lemma publish_gated_cases:
  assumes "publish_gated env inp ns existing db = (res, db')"
  obtains (routed) why rules where "route_to_review env inp ns existing why rules db = (res, db')"
      "why = RoutedPolicy \<or> \<not> override_holder inp ns"
      "why = RoutedScanPending \<longrightarrow> missing_verdict env inp db \<noteq> None"
      "why = RoutedContentRisk \<longrightarrow> publish_trips inp db"
      "why = RoutedPolicy \<longrightarrow>
         policy_publish_route (applicable_policy_rules db ns) (policy_actor_of (pu_access inp) ns) = RouteReview"
  | (refused) e where "res = PublishRefused e" "db' = db" "override_holder inp ns" "\<not> pu_override inp \<or> trim_or_null (pu_reason inp) = None"
  | (tx) "publish_tx inp ns existing (missing_verdict env inp db) (publish_check inp db) (publish_trips inp db) db = (res, db')"
      "missing_verdict env inp db \<noteq> None \<longrightarrow> override_holder inp ns \<and> pu_override inp \<and> trim_or_null (pu_reason inp) \<noteq> None"
      "publish_trips inp db \<longrightarrow> override_holder inp ns \<and> pu_override inp"
      "policy_publish_route (applicable_policy_rules db ns) (policy_actor_of (pu_access inp) ns) = RouteThrough"
proof (cases "\<exists>why rules. route_to_review env inp ns existing why rules db = (res, db') \<and>
    (why = RoutedPolicy \<or> \<not> override_holder inp ns) \<and>
    (why = RoutedScanPending \<longrightarrow> missing_verdict env inp db \<noteq> None) \<and> (why = RoutedContentRisk \<longrightarrow> publish_trips inp db) \<and>
    (why = RoutedPolicy \<longrightarrow>
       policy_publish_route (applicable_policy_rules db ns) (policy_actor_of (pu_access inp) ns) = RouteReview)")
  case True
  then show ?thesis using routed by blast
next
  case False
  show ?thesis
    using assms False refused tx
    by (auto simp: publish_gated_def Let_def split: if_splits) (metis publish_route.exhaust)+
qed

section \<open>Properties of a direct publish\<close>

definition publish_existing :: "publish_input \<Rightarrow> app_db \<Rightarrow> ident \<Rightarrow> ident option" where
  "publish_existing inp db ns =
     map_option sk_id (find (\<lambda>s. sk_namespace s = ns \<and> cs_slug s = pm_slug (rp_meta (pu_payload inp))) (db_skills db))"

lemma direct_publish_permitted:
  assumes "direct_publish env inp db = (res, db')" "\<forall>e. res \<noteq> PublishRefused e"
  obtains n where "n \<in> set (db_namespaces db)" "nr_slug n = pu_namespace inp"
    "can_direct_publish (pu_access inp) (nr_id n) (nr_require_review n)"
    "publish_gated env inp (nr_id n) (publish_existing inp db (nr_id n)) db = (res, db')"
proof -
  obtain n where n: "find (\<lambda>n. nr_slug n = pu_namespace inp) (db_namespaces db) = Some n"
    using assms by (auto simp: direct_publish_def split: option.splits)
  then have "n \<in> set (db_namespaces db)" "nr_slug n = pu_namespace inp"
    using find_in_set [OF n] by auto
  then show thesis
    using that assms n by (auto simp: direct_publish_def publish_existing_def split: if_splits)
qed

text \<open>
  C8: A version is published without a review only for an actor who may publish directly in the
  namespace, with a complete scan verdict or an override holder's reasoned override of it, without
  gate-tripping content findings or with an override holder's override, when the actor could override
  every enforced policy rule, and, for a new skill, when no skill the actor sees has its slug.
\<close>

theorem direct_publish_gated:
  assumes run: "direct_publish env inp db = (Published i v pending, db')"
  shows "\<exists>n \<in> set (db_namespaces db). nr_slug n = pu_namespace inp \<and>
    can_direct_publish (pu_access inp) (nr_id n) (nr_require_review n) \<and>
    (missing_verdict env inp db = None \<or>
       override_holder inp (nr_id n) \<and> pu_override inp \<and> trim_or_null (pu_reason inp) \<noteq> None) \<and>
    (\<not> publish_trips inp db \<or> override_holder inp (nr_id n) \<and> pu_override inp) \<and>
    policy_publish_route (applicable_policy_rules db (nr_id n)) (policy_actor_of (pu_access inp) (nr_id n)) = RouteThrough \<and>
    (publish_existing inp db (nr_id n) \<noteq> None \<or>
       find_slug_matches db (pu_access inp) (pm_slug (rp_meta (pu_payload inp))) None = []) \<and>
    (\<exists>r d. materialize_version (publish_materialize inp (nr_id n) (publish_existing inp db (nr_id n))) db = Inr (r, d) \<and>
       i = mr_skill_id r \<and> v = mr_version_id r \<and> db_versions db' = db_versions d)"
proof -
  obtain n where n: "n \<in> set (db_namespaces db)" "nr_slug n = pu_namespace inp"
    "can_direct_publish (pu_access inp) (nr_id n) (nr_require_review n)"
    "publish_gated env inp (nr_id n) (publish_existing inp db (nr_id n)) db = (Published i v pending, db')"
    by (rule direct_publish_permitted [OF run]) simp
  from n(4) show ?thesis
  proof (cases rule: publish_gated_cases)
    case (routed why rules)
    then show ?thesis using route_to_review_not_published by blast
  next
    case (refused e)
    then show ?thesis by simp
  next
    case tx
    from tx(1) show ?thesis
    proof (rule publish_tx_published)
      fix r d
      assume "materialize_version (publish_materialize inp (nr_id n) (publish_existing inp db (nr_id n))) db = Inr (r, d)"
        "i = mr_skill_id r" "v = mr_version_id r" "db_versions db' = db_versions d"
        "publish_existing inp db (nr_id n) = None \<longrightarrow>
           find_slug_matches db (pu_access inp) (pm_slug (rp_meta (pu_payload inp))) None = []"
      then show ?thesis using n(1-3) tx(2-4) by (intro bexI [of _ n]) auto
    qed
  qed
qed

text \<open>
  C31: What a direct publish does to the store: a refusal or an exception leaves it as it was; a publish
  leaves proposals and scan reports alone and changes no version; a submission routed to review is
  published nowhere, appends exactly one proposal, in state proposed, by the actor, with the reason of
  the routing, and it is routed for a gate only when the actor could not have overridden it.
\<close>

theorem direct_publish_effects:
  "case direct_publish env inp db of
     (PublishRefused e, db') \<Rightarrow> db' = db
   | (PublishThrew e, db') \<Rightarrow> db' = db
   | (Published i v pending, db') \<Rightarrow> publish_frame db db'
   | (Routed pid fs why, db') \<Rightarrow>
       db_versions db' = db_versions db \<and>
       (\<exists>p. db_proposals db' = db_proposals db @ [p] \<and> pp_id p = pid \<and> pp_state p = Proposed \<and>
          pp_by p = pu_actor inp \<and> pp_routed p = Some (routed_text why) \<and>
          (why = RoutedPolicy \<or> \<not> override_holder inp (pp_namespace p)))"
proof (cases "direct_publish env inp db")
  case (Pair res db')
  show ?thesis
  proof (cases "\<exists>e. res = PublishRefused e")
    case True
    then obtain e where e: "res = PublishRefused e" ..
    have "db' = db"
      using Pair e by (auto simp: direct_publish_def publish_gated_def publish_tx_def route_to_review_def Let_def
          split: option.splits if_splits sum.splits prod.splits)
    then show ?thesis using Pair e by simp
  next
    case False
    then have not_refused: "\<forall>e. res \<noteq> PublishRefused e" by blast
    obtain n :: namespace_row where n: "publish_gated env inp (nr_id n) (publish_existing inp db (nr_id n)) db = (res, db')"
      by (rule direct_publish_permitted [OF Pair not_refused])
    from n show ?thesis
    proof (cases rule: publish_gated_cases)
      case (routed why rules)
      show ?thesis
        using route_to_review_effects [OF routed(1)] routed(2) Pair
        by (auto simp: created_row_def routed_create_def)
    next
      case (refused e)
      then show ?thesis using False by simp
    next
      case tx
      show ?thesis
      proof (cases "\<exists>i v pending. res = Published i v pending")
        case True
        then obtain i v pending where r: "res = Published i v pending" by blast
        then have "publish_frame db db'" using tx(1) by (auto elim: publish_tx_published)
        then show ?thesis using Pair r by simp
      next
        case no: False
        then show ?thesis using publish_tx_other [OF tx(1)] Pair False by (cases res) auto
      qed
    qed
  qed
qed

definition sample_publish :: publish_input where
  "sample_publish =
     \<lparr>pu_access = \<lparr>is_platform_admin = True, namespace_roles = Map.empty\<rparr>, pu_actor = ''u'', pu_namespace = ''docs'',
      pu_semver = ''1.0.0'', pu_payload = sample_payload, pu_request = None, pu_check = None, pu_override = False,
      pu_reason = None, pu_model = None, pu_import = None, pu_route_overrides = False\<rparr>"

lemma sample_publish_runs:
  "\<exists>i v pending db'. direct_publish \<lparr>env_boot = None, env_av_required = False\<rparr> sample_publish sample_review_store
     = (Published i v pending, db')"
proof -
  let ?env = "\<lparr>env_boot = None, env_av_required = False\<rparr>"
  let ?db = "sample_review_store"
  have db: "db_skills ?db = []" "db_policy ?db = []" "db_versions ?db = []"
    "db_namespaces ?db = [\<lparr>nr_id = ''n'', nr_slug = ''docs'', nr_display = ''Docs'', nr_require_review = True\<rparr>]"
    "db_scans ?db = [\<lparr>sr_id = ''s'', sr_type = ''artifact'', sr_subject = ''uploads/k'', sr_severity = None,
          sr_status = ''scanned'', sr_findings = [], sr_content_sha = None\<rparr>]"
    by (simp_all add: sample_review_store_def sample_store_def)
  have pay: "rp_key (pu_payload sample_publish) = Some ''uploads/k''" "pu_check sample_publish = None"
    "pu_override sample_publish = False"
    by (simp_all add: sample_publish_def sample_payload_def)
  have missing: "missing_verdict ?env sample_publish ?db = None"
    by (simp add: missing_verdict_def pay truthy_def find_last_def db scan_verdict_def report_of_def)
  have trips: "\<not> publish_trips sample_publish ?db"
    by (simp add: publish_trips_def publish_content_def publish_check_def pay hosted_content_check_def
        latest_artifact_report_def truthy_def find_last_def db Let_def content_risk_trips_gate_def
        gate_tripping_pairs_def content_risk_findings_def gate_pairs_loop.simps)
  have pol: "policy_publish_route (applicable_policy_rules ?db ns) a = RouteThrough" for ns a
    by (simp add: policy_publish_route_def applicable_policy_rules_def enforced_rules_def db)
  have "\<exists>r d. materialize_version (publish_materialize sample_publish ''n'' None) ?db = Inr (r, d)"
    by (rule materialize_fresh)
      (simp_all add: publish_materialize_def sample_publish_def sample_payload_def db semver_eval versions_of_def)
  then obtain r d where m: "materialize_version (publish_materialize sample_publish ''n'' None) ?db = Inr (r, d)" by blast
  have tx: "\<exists>i v pending db'. publish_tx sample_publish ''n'' None miss chk tr ?db = (Published i v pending, db')" for miss chk tr
    by (simp add: publish_tx_def Let_def m find_slug_matches_def db)
  show ?thesis
    using tx by (simp add: direct_publish_def db publish_gated_def Let_def missing trips pol
        can_direct_publish_def) (simp add: sample_publish_def can_direct_publish_def)
qed

theorem direct_publish_gated_witness:
  "\<exists>i v pending db'. direct_publish \<lparr>env_boot = None, env_av_required = False\<rparr> sample_publish sample_review_store
     = (Published i v pending, db') \<and>
   (\<exists>n \<in> set (db_namespaces sample_review_store). can_direct_publish (pu_access sample_publish) (nr_id n) (nr_require_review n))"
proof -
  obtain i v pending db' where run: "direct_publish \<lparr>env_boot = None, env_av_required = False\<rparr> sample_publish sample_review_store
     = (Published i v pending, db')"
    using sample_publish_runs by blast
  show ?thesis using run direct_publish_gated [OF run] by blast
qed

theorem direct_publish_effects_witness:
  "\<exists>i v pending db'. direct_publish \<lparr>env_boot = None, env_av_required = False\<rparr> sample_publish sample_review_store
     = (Published i v pending, db') \<and> prefix (db_versions sample_review_store) (db_versions db')"
proof -
  obtain i v pending db' where run: "direct_publish \<lparr>env_boot = None, env_av_required = False\<rparr> sample_publish sample_review_store
     = (Published i v pending, db')"
    using sample_publish_runs by blast
  have "publish_frame sample_review_store db'"
    using direct_publish_effects [where env = "\<lparr>env_boot = None, env_av_required = False\<rparr>" and inp = sample_publish and db = sample_review_store] run
    by simp
  then show ?thesis using run by (auto simp: publish_frame_def)
qed

end
