(* ===== verification/Reuse.thy ===== *)
theory Reuse
  imports DirectPublish
begin

text \<open>
  The target of a new version as its submitter sees it, keeping the current files for a new version,
  and promotion to the global namespace: \<open>findVisibleTargetSkill\<close>, \<open>loadVisibleTarget\<close>,
  \<open>reuseNoopError\<close>, \<open>resolveReuseSource\<close>, \<open>applyReuseToPayload\<close> and \<open>promoteToGlobal\<close> of
  \<open>packages/web/src/lib/proposals.ts\<close>.
\<close>

section \<open>The visible target\<close>

definition find_visible_target_skill :: "app_db \<Rightarrow> effective_access \<Rightarrow> ident \<Rightarrow> string \<Rightarrow> (ident \<times> bool) option" where
  "find_visible_target_skill db a ns slug =
     (case find (\<lambda>s. sk_namespace s = ns \<and> cs_slug s = slug) (db_skills db) of
        None \<Rightarrow> None
      | Some s \<Rightarrow> if \<not> is_skill_visible a (subject_of_row (db_access db) (base_row s)) then None
                  else Some (sk_id s, cs_active s))"

definition load_visible_target :: "app_db \<Rightarrow> effective_access option \<Rightarrow> ident \<Rightarrow> (ident \<times> visibility) option" where
  "load_visible_target db access i =
     (case access of
        None \<Rightarrow> None
      | Some a \<Rightarrow>
          (case find_skill db i of
             None \<Rightarrow> None
           | Some s \<Rightarrow> if \<not> is_skill_visible a (subject_of_row (db_access db) (base_row s)) then None
                       else Some (sk_namespace s, sk_visibility s)))"

section \<open>Keep current files\<close>

record reuse_snapshot =
  rs_version :: ident
  rs_semver :: string
  rs_key :: string
  rs_sha :: "string option"
  rs_content :: "string option"
  rs_filename :: "string option"
  rs_usage :: "string option"
  rs_external :: "pointer_source option"

datatype reuse_error =
    ReuseNoTarget
  | ReuseNoStable
  | ReuseMirrorPending string
  | ReuseNothingChanged
  | ReuseThrew semver_error

definition skill_category_names :: "app_db \<Rightarrow> ident \<Rightarrow> string list" where
  "skill_category_names db i = map sc_category (filter (\<lambda>l. sc_skill l = i) (db_skill_categories db))"

text \<open>\<open>reuseNoopError\<close>: the target's current state, or the reused usage, must differ somewhere.\<close>

definition reuse_noop_error :: "app_db \<Rightarrow> ident \<Rightarrow> proposal_metadata \<Rightarrow> string option \<Rightarrow> reuse_error option" where
  "reuse_noop_error db i meta reused_usage =
     (case find_skill db i of
        None \<Rightarrow> Some ReuseNoTarget
      | Some cur \<Rightarrow>
          if js_trim (pm_title meta) \<noteq> js_trim (cs_title cur) \<or>
             js_trim (pm_description meta) \<noteq> js_trim (cs_description cur) \<or>
             js_trim (pm_tool meta) \<noteq> cs_tool cur \<or>
             norm_set (pm_categories meta) True \<noteq> norm_set (Some (skill_category_names db i)) True \<or>
             trim_or_null (pm_usage meta) \<noteq> trim_or_null reused_usage \<or>
             (pm_icon_sha meta \<noteq> None \<and> or_null (pm_icon_sha meta) \<noteq> cs_icon_sha cur) \<or>
             (pm_icon_emoji meta \<noteq> None \<and> or_null (pm_icon_emoji meta) \<noteq> cs_icon_emoji cur) \<or>
             (pm_shared meta \<noteq> None \<and>
              norm_set (pm_shared meta) False \<noteq> norm_set (Some (shared_namespace_ids_sql (db_access db) (base_row cur))) False)
          then None else Some ReuseNothingChanged)"

definition active_versions :: "app_db \<Rightarrow> ident \<Rightarrow> version_row list" where
  "active_versions db i = filter (\<lambda>v. vr_skill v = i \<and> vr_active v) (db_versions db)"

definition snapshot_of :: "version_row \<Rightarrow> reuse_snapshot" where
  "snapshot_of v =
     \<lparr>rs_version = vr_id v, rs_semver = vr_semver v, rs_key = (case vr_key v of None \<Rightarrow> [] | Some k \<Rightarrow> k),
      rs_sha = vr_sha v, rs_content = vr_content v, rs_filename = vr_filename v, rs_usage = vr_usage v,
      rs_external = (case (vr_url v, vr_ref v) of
          (Some u, Some r) \<Rightarrow> if u \<noteq> [] \<and> r \<noteq> []
             then Some \<lparr>ps_url = u, ps_ref = r, ps_subdir = vr_subdir v, ps_commit = None\<rparr> else None
        | _ \<Rightarrow> None)\<rparr>"

definition resolve_reuse_source ::
  "app_db \<Rightarrow> effective_access \<Rightarrow> ident \<Rightarrow> proposal_metadata option \<Rightarrow> reuse_error + reuse_snapshot" where
  "resolve_reuse_source db a i meta =
     (if load_visible_target db (Some a) i = None then Inl ReuseNoTarget
      else case resolve_latest (map vr_semver (active_versions db i)) of
             Inl e \<Rightarrow> Inl (ReuseThrew e)
           | Inr None \<Rightarrow> Inl ReuseNoStable
           | Inr (Some latest) \<Rightarrow>
               (case find (\<lambda>v. vr_semver v = latest) (active_versions db i) of
                  None \<Rightarrow> Inl ReuseNoStable
                | Some v \<Rightarrow>
                    if \<not> truthy (vr_key v) then Inl (ReuseMirrorPending latest)
                    else case (case meta of None \<Rightarrow> None | Some m \<Rightarrow> reuse_noop_error db i m (vr_usage v)) of
                           Some e \<Rightarrow> Inl e
                         | None \<Rightarrow> Inr (snapshot_of v)))"

definition apply_reuse :: "revision_payload \<Rightarrow> reuse_snapshot \<Rightarrow> revision_payload" where
  "apply_reuse p r =
     p\<lparr>rp_key := Some (rs_key r), rp_sha := rs_sha r, rp_content := rs_content r, rp_filename := rs_filename r,
       rp_pointer := None,
       rp_reuse := Some \<lparr>ru_version = rs_version r, ru_semver = rs_semver r, ru_external = rs_external r\<rparr>\<rparr>"

section \<open>Promotion to the global namespace\<close>

datatype promote_error =
    PromoteNotFound
  | PromoteAlreadyGlobal
  | PromoteForbidden
  | PromoteDeprecated
  | PromoteNoStable
  | PromoteThrew tx_error

text \<open>The payload of a promotion: the source version's artifact or its pointer, org-wide.\<close>

definition promote_metadata :: "app_db \<Rightarrow> catalog_skill \<Rightarrow> version_row \<Rightarrow> proposal_metadata" where
  "promote_metadata db s v =
     \<lparr>pm_slug = cs_slug s, pm_title = cs_title s, pm_description = cs_description s,
      pm_categories = Some (sort (skill_category_names db (sk_id s))), pm_tool = cs_tool s, pm_usage = vr_usage v,
      pm_changed = None, pm_visibility = OrgVisible, pm_icon_sha = Some (cs_icon_sha s),
      pm_icon_emoji = Some (cs_icon_emoji s), pm_icon_source = cs_icon_source s, pm_shared = None\<rparr>"

definition promote_payload :: "app_db \<Rightarrow> catalog_skill \<Rightarrow> version_row \<Rightarrow> revision_payload" where
  "promote_payload db s v =
     (if truthy (vr_ref v)
      then \<lparr>rp_meta = promote_metadata db s v, rp_key = None, rp_sha = None, rp_filename = None, rp_content = None,
            rp_pointer = Some \<lparr>ps_url = (case vr_url v of None \<Rightarrow> [] | Some u \<Rightarrow> u),
                               ps_ref = (case vr_ref v of None \<Rightarrow> [] | Some r \<Rightarrow> r),
                               ps_subdir = vr_subdir v, ps_commit = None\<rparr>,
            rp_reuse = None, rp_promoted = Some (vr_id v)\<rparr>
      else \<lparr>rp_meta = promote_metadata db s v, rp_key = vr_key v, rp_sha = vr_sha v, rp_filename = None,
            rp_content = vr_content v, rp_pointer = None, rp_reuse = None, rp_promoted = Some (vr_id v)\<rparr>)"

definition find_by_slugs :: "app_db \<Rightarrow> string \<Rightarrow> string \<Rightarrow> catalog_skill option" where
  "find_by_slugs db ns slug =
     find (\<lambda>s. list_ex (\<lambda>n. nr_id n = sk_namespace s \<and> nr_slug n = ns) (db_namespaces db) \<and> cs_slug s = slug \<and> cs_active s)
       (db_skills db)"

definition promote_create :: "app_db \<Rightarrow> ident \<Rightarrow> catalog_skill \<Rightarrow> version_row \<Rightarrow> ident \<Rightarrow> create_input" where
  "promote_create db actor s v global =
     \<lparr>ci_by = actor, ci_namespace = global,
      ci_skill = map_option sk_id (find (\<lambda>x. sk_namespace x = global \<and> cs_slug x = cs_slug s) (db_skills db)),
      ci_semver = vr_semver v, ci_payload = promote_payload db s v, ci_request = None, ci_routed = None,
      ci_rules = [], ci_model = None, ci_import = None\<rparr>"

definition promote_to_global ::
  "app_env \<Rightarrow> effective_access \<Rightarrow> ident \<Rightarrow> string \<Rightarrow> string \<Rightarrow> app_db \<Rightarrow> (promote_error + ident) \<times> app_db" where
  "promote_to_global env a actor ns slug db =
     (case find_by_slugs db ns slug of
        None \<Rightarrow> (Inl PromoteNotFound, db)
      | Some s \<Rightarrow>
          if \<not> is_skill_visible a (subject_of_row (db_access db) (base_row s)) then (Inl PromoteNotFound, db)
          else if ns = ''global'' then (Inl PromoteAlreadyGlobal, db)
          else if \<not> can_initiate_promotion a (sk_namespace s) then (Inl PromoteForbidden, db)
          else if cs_deprecated s then (Inl PromoteDeprecated, db)
          else (case resolve_latest (map vr_semver (active_versions db (sk_id s))) of
                  Inl e \<Rightarrow> (Inl (PromoteThrew (SemverRejected e)), db)
                | Inr None \<Rightarrow> (Inl PromoteNoStable, db)
                | Inr (Some latest) \<Rightarrow>
                    (case (find (\<lambda>v. vr_semver v = latest) (active_versions db (sk_id s)),
                           find (\<lambda>n. nr_slug n = ''global'') (db_namespaces db)) of
                       (Some v, Some g) \<Rightarrow>
                         (let (i, db') = create_proposal env (promote_create db actor s v (nr_id g)) db in (Inr i, db'))
                     | _ \<Rightarrow> (Inl (PromoteThrew MissingRow), db))))"

section \<open>The newest stable version\<close>

definition newest_stable :: "app_db \<Rightarrow> ident \<Rightarrow> version_row \<Rightarrow> bool" where
  "newest_stable db i v =
     (v \<in> set (active_versions db i) \<and> channel_of (vr_semver v) = Stable \<and>
      (\<forall>w \<in> set (active_versions db i). channel_of (vr_semver w) = Stable \<longrightarrow> semver_cmp (vr_semver w) (vr_semver v) \<le> 0))"

lemma latest_newest:
  assumes "resolve_latest (map vr_semver (active_versions db i)) = Inr (Some l)"
    and "find (\<lambda>v. vr_semver v = l) (active_versions db i) = Some v"
  shows "newest_stable db i v \<and> vr_semver v = l"
proof -
  have v: "v \<in> set (active_versions db i)" "vr_semver v = l"
    using find_in_set [OF assms(2)] by auto
  then show ?thesis
    using resolve_latest_spec [of "map vr_semver (active_versions db i)"] assms(1)
    by (simp add: newest_stable_def)
qed

lemma resolve_reuse_cases:
  assumes "resolve_reuse_source db a i meta = Inr r"
  obtains s v where "find_skill db i = Some s" "is_skill_visible a (subject_of_row (db_access db) (base_row s))"
    "newest_stable db i v" "truthy (vr_key v)" "r = snapshot_of v"
    "\<forall>m. meta = Some m \<longrightarrow> reuse_noop_error db i m (vr_usage v) = None"
proof -
  obtain s where s: "find_skill db i = Some s" "is_skill_visible a (subject_of_row (db_access db) (base_row s))"
    using assms by (auto simp: resolve_reuse_source_def load_visible_target_def split: if_splits option.splits)
  obtain l v where "resolve_latest (map vr_semver (active_versions db i)) = Inr (Some l)"
    "find (\<lambda>v. vr_semver v = l) (active_versions db i) = Some v" "truthy (vr_key v)" "r = snapshot_of v"
    "\<forall>m. meta = Some m \<longrightarrow> reuse_noop_error db i m (vr_usage v) = None"
    using assms by (auto simp: resolve_reuse_source_def split: if_splits sum.splits option.splits)
  then show thesis using that s latest_newest by blast
qed

section \<open>Properties\<close>

text \<open>
  C39: Keeping the current files gives the next version the bytes of the newest stable one: the snapshot is
  taken only from a target the actor sees, and publishing a payload it was applied to appends one
  version with the same object, hash, content digest and file name and the same pointer provenance,
  and queues no mirror.
\<close>

theorem reuse_republishes_same_files:
  assumes snap: "resolve_reuse_source db a i meta = Inr r"
    and pub: "materialize_version inp db = Inr (res, db')" and pay: "mz_payload inp = apply_reuse p r"
  shows "\<exists>s v. find_skill db i = Some s \<and> is_skill_visible a (subject_of_row (db_access db) (base_row s)) \<and>
     newest_stable db i v \<and>
     (\<exists>w. db_versions db' = db_versions db @ [w] \<and> vr_key w = vr_key v \<and> vr_sha w = vr_sha v \<and>
        vr_content w = vr_content v \<and> vr_filename w = vr_filename v \<and>
        (truthy (vr_url v) \<and> truthy (vr_ref v) \<longrightarrow>
           vr_url w = vr_url v \<and> vr_ref w = vr_ref v \<and> vr_subdir w = trim_or_null (vr_subdir v))) \<and>
     db_mirrors db' = db_mirrors db"
proof -
  obtain s v where s: "find_skill db i = Some s" "is_skill_visible a (subject_of_row (db_access db) (base_row s))"
    and v: "newest_stable db i v" "truthy (vr_key v)" "r = snapshot_of v"
    using resolve_reuse_cases [OF snap] by blast
  have none: "rp_pointer (mz_payload inp) = None" by (simp add: pay apply_reuse_def)
  from pub have "\<exists>w. db_versions db' = db_versions db @ [w] \<and> vr_key w = vr_key v \<and> vr_sha w = vr_sha v \<and>
        vr_content w = vr_content v \<and> vr_filename w = vr_filename v \<and>
        (truthy (vr_url v) \<and> truthy (vr_ref v) \<longrightarrow>
           vr_url w = vr_url v \<and> vr_ref w = vr_ref v \<and> vr_subdir w = trim_or_null (vr_subdir v)) \<and>
        db_mirrors db' = db_mirrors db"
  proof (cases rule: materialize_cases)
    case (mirror d ptr)
    then show ?thesis using none by simp
  next
    case (version d u)
    let ?w = "new_version_row inp (mr_skill_id res) u"
    have "db_versions db' = db_versions db @ [?w]"
      using insert_version_ok [OF version(3)] version(1) by (simp add: catalog_frame_def)
    moreover have "db_mirrors db' = db_mirrors db"
      using insert_version_mirrors [OF version(3)] version(1) by (simp add: catalog_frame_def)
    moreover have "vr_key ?w = vr_key v \<and> vr_sha ?w = vr_sha v \<and> vr_content ?w = vr_content v \<and> vr_filename ?w = vr_filename v"
      using v(2) by (auto simp: new_version_row_def pay apply_reuse_def v(3) snapshot_of_def truthy_def Let_def)
    moreover have "truthy (vr_url v) \<and> truthy (vr_ref v) \<longrightarrow>
        vr_url ?w = vr_url v \<and> vr_ref ?w = vr_ref v \<and> vr_subdir ?w = trim_or_null (vr_subdir v)"
      by (auto simp: new_version_row_def pay apply_reuse_def v(3) snapshot_of_def truthy_def Let_def)
    ultimately show ?thesis by blast
  qed
  then show ?thesis using s v(1) by blast
qed

text \<open>
  A promotion is always reviewed: it publishes nothing and appends one proposal to the global
  namespace, in state proposed, carrying the newest stable version of a skill the actor sees, may
  promote and that is not deprecated; every refusal leaves the store as it was.
\<close>

theorem promotion_is_proposed:
  "case promote_to_global env a actor ns slug db of
     (Inl e, db') \<Rightarrow> db' = db
   | (Inr i, db') \<Rightarrow>
       (\<exists>s v g. find_by_slugs db ns slug = Some s \<and> is_skill_visible a (subject_of_row (db_access db) (base_row s)) \<and>
          ns \<noteq> ''global'' \<and> can_initiate_promotion a (sk_namespace s) \<and> \<not> cs_deprecated s \<and>
          newest_stable db (sk_id s) v \<and> g \<in> set (db_namespaces db) \<and> nr_slug g = ''global'' \<and>
          db_proposals db' = db_proposals db @ [created_row (promote_create db actor s v (nr_id g)) i (db_now db)] \<and>
          db_versions db' = db_versions db)"
proof (cases "promote_to_global env a actor ns slug db")
  case (Pair res db')
  show ?thesis
  proof (cases res)
    case (Inl e)
    then show ?thesis using Pair
      by (auto simp: promote_to_global_def split: option.splits if_splits sum.splits prod.splits)
  next
    case (Inr i)
    obtain s where s: "find_by_slugs db ns slug = Some s"
      using Pair Inr by (auto simp: promote_to_global_def split: option.splits)
    obtain l v g where gates: "is_skill_visible a (subject_of_row (db_access db) (base_row s))" "ns \<noteq> ''global''"
      "can_initiate_promotion a (sk_namespace s)" "\<not> cs_deprecated s"
      and l: "resolve_latest (map vr_semver (active_versions db (sk_id s))) = Inr (Some l)"
      and v: "find (\<lambda>v. vr_semver v = l) (active_versions db (sk_id s)) = Some v"
      and g: "find (\<lambda>n. nr_slug n = ''global'') (db_namespaces db) = Some g"
      and run: "create_proposal env (promote_create db actor s v (nr_id g)) db = (i, db')"
      using Pair Inr s by (auto simp: promote_to_global_def split: option.splits if_splits sum.splits prod.splits)
    have "g \<in> set (db_namespaces db) \<and> nr_slug g = ''global''" using find_in_set [OF g] by auto
    then show ?thesis
      using Pair Inr s gates latest_newest [OF l v]
        create_proposal_effects [of env "promote_create db actor s v (nr_id g)" db] run by auto
  qed
qed

definition sample_catalog :: app_db where
  "sample_catalog = sample_store
     \<lparr>db_skills := [\<lparr>sk_id = ''t'', sk_namespace = ''n'', sk_visibility = OrgVisible, cs_slug = ''lint'', cs_title = ''Old'',
        cs_description = [], cs_tool = ''claude'', cs_pointer = False, cs_active = True, cs_deprecated = False,
        cs_promoted_from = None, cs_icon_sha = None, cs_icon_emoji = None, cs_icon_source = None, cs_created = 0\<rparr>],
      db_versions := [\<lparr>vr_id = ''v'', vr_skill = ''t'', vr_semver = ''1.0.0'', vr_prerelease = False, vr_active = True,
        vr_usage = None, vr_changed = None, vr_key = Some ''uploads/k'', vr_sha = Some ''s'', vr_filename = None,
        vr_content = None, vr_url = None, vr_ref = None, vr_subdir = None, vr_by = ''u'', vr_git_published = True\<rparr>]\<rparr>"

theorem reuse_republishes_same_files_witness:
  "\<exists>r inp res db'. resolve_reuse_source sample_catalog \<lparr>is_platform_admin = False, namespace_roles = Map.empty\<rparr> ''t''
       (Some (rp_meta sample_payload)) = Inr r \<and>
     materialize_version inp sample_catalog = Inr (res, db') \<and> mz_payload inp = apply_reuse sample_payload r \<and>
     length (db_versions db') = 2 \<and> db_mirrors db' = []"
proof -
  let ?a = "\<lparr>is_platform_admin = False, namespace_roles = Map.empty\<rparr>"
  let ?inp = "\<lambda>r. \<lparr>mz_namespace = ''n'', mz_skill = Some ''t'', mz_semver = ''1.1.0'', mz_by = ''u'',
      mz_payload = apply_reuse sample_payload r, mz_actor = None, mz_via = None, mz_proposal = None\<rparr>"
  have lat: "resolve_latest [''1.0.0''] = Inr (Some ''1.0.0'')" by (simp add: resolve_latest_def semver_eval)
  have trim: "js_trim ''Lint'' \<noteq> js_trim ''Old''" by code_simp
  obtain r where r: "resolve_reuse_source sample_catalog ?a ''t'' (Some (rp_meta sample_payload)) = Inr r"
    by (simp add: resolve_reuse_source_def load_visible_target_def find_skill_def sample_catalog_def lat
        is_skill_visible_def subject_of_row_def base_row_def active_versions_def truthy_def
        reuse_noop_error_def sample_payload_def trim)
  have "\<exists>res db'. materialize_version (?inp r) sample_catalog = Inr (res, db')"
    by (rule materialize_next [of _ "''t''"])
      (simp_all add: apply_reuse_def sample_payload_def sample_catalog_def versions_of_def
        assert_strictly_increasing_def semver_eval)
  then obtain res db' where m: "materialize_version (?inp r) sample_catalog = Inr (res, db')" by blast
  have base: "length (db_versions sample_catalog) = 1" "db_mirrors sample_catalog = []"
    by (simp_all add: sample_catalog_def sample_store_def)
  have "length (db_versions db') = 2 \<and> db_mirrors db' = []"
    using reuse_republishes_same_files [OF r m, of sample_payload] base by force
  then show ?thesis using r m by (intro exI [of _ r] exI [of _ "?inp r"] exI [of _ res] exI [of _ db']) simp
qed

end
