(* ===== verification/Marketplace.thy ===== *)
theory Marketplace
  imports Store
begin

text \<open>
  The plugin-marketplace contract of \<open>packages/shared/src/plugin-marketplace.ts\<close>: names and repository
  keys of the public and the namespace marketplaces, the grouping of skills into plugins (one per
  category, and \<open>general\<close>), the manifests, and the placement of a bundle's files.

  \<open>localeCompare\<close> is the collation of the host: the definitions that sort take it as the argument
  \<open>lc\<close>. URL building rests on the WHATWG URL parser and is not modelled.
\<close>

section \<open>Names and repository keys\<close>

definition MARKETPLACE_PATH_PREFIX :: string where
  "MARKETPLACE_PATH_PREFIX = ''_marketplace''"

definition PUBLIC_MARKETPLACE_KEY :: string where
  "PUBLIC_MARKETPLACE_KEY = ''_public''"

definition PLUGIN_ROOT :: string where
  "PLUGIN_ROOT = ''plugins''"

definition SKILLS_DIR :: string where
  "SKILLS_DIR = ''skills''"

definition GENERAL_PLUGIN_SLUG :: string where
  "GENERAL_PLUGIN_SLUG = ''general''"

datatype marketplace_scope = PublicMarket | NamespaceMarket string

definition RESERVED_MARKETPLACE_NAMES :: "string list" where
  "RESERVED_MARKETPLACE_NAMES =
     [''claude-code-marketplace'', ''claude-code-plugins'', ''claude-plugins-official'', ''anthropic-marketplace'',
      ''anthropic-plugins'', ''agent-skills'', ''healthcare'']"

text \<open>\<open>KEBAB\<close>: \<open>^[a-z0-9]+(-[a-z0-9]+)*$\<close>.\<close>

definition kebab :: "string \<Rightarrow> bool" where
  "kebab s = list_all (\<lambda>w. w \<noteq> [] \<and> list_all slug_char w) (split_on (CHR ''-'') s)"

datatype prefix_error = PrefixRequired | PrefixTooLong | PrefixNotKebab

definition validate_marketplace_prefix :: "string \<Rightarrow> prefix_error option" where
  "validate_marketplace_prefix pre =
     (let p = js_trim pre in
      if p = [] then Some PrefixRequired
      else if length p > 32 then Some PrefixTooLong
      else if \<not> kebab p then Some PrefixNotKebab
      else None)"

fun marketplace_name :: "string \<Rightarrow> marketplace_scope \<Rightarrow> string" where
  "marketplace_name pre PublicMarket = pre @ ''-public''"
| "marketplace_name pre (NamespaceMarket ns) = pre @ ''-'' @ ns"

definition is_reserved_marketplace_name :: "string \<Rightarrow> bool" where
  "is_reserved_marketplace_name name = (js_lower name \<in> set RESERVED_MARKETPLACE_NAMES)"

definition reserved_name_conflicts :: "string \<Rightarrow> string list \<Rightarrow> string option list" where
  "reserved_name_conflicts pre slugs =
     (if is_reserved_marketplace_name (marketplace_name pre PublicMarket) then [None] else []) @
     map Some (filter (\<lambda>s. is_reserved_marketplace_name (marketplace_name pre (NamespaceMarket s))) slugs)"

fun marketplace_repo_key :: "marketplace_scope \<Rightarrow> string" where
  "marketplace_repo_key PublicMarket = PUBLIC_MARKETPLACE_KEY"
| "marketplace_repo_key (NamespaceMarket ns) = ns"

definition marketplace_repo_url_path :: "marketplace_scope \<Rightarrow> string" where
  "marketplace_repo_url_path scope = ''/'' @ MARKETPLACE_PATH_PREFIX @ ''/'' @ marketplace_repo_key scope @ ''.git''"

definition parse_marketplace_repo_key :: "string \<Rightarrow> string \<Rightarrow> marketplace_scope option" where
  "parse_marketplace_repo_key segment key =
     (if segment \<noteq> MARKETPLACE_PATH_PREFIX then None
      else if key = PUBLIC_MARKETPLACE_KEY then Some PublicMarket
      else if \<not> slug_re key then None
      else Some (NamespaceMarket key))"

section \<open>Grouping skills into plugins\<close>

record member_skill =
  ms_namespace :: string
  ms_slug :: string
  ms_title :: string
  ms_categories :: "string list"

record market_category =
  mc_slug :: string
  mc_name :: string
  mc_description :: "string option"

record plugin_group =
  pg_slug :: string
  pg_display :: string
  pg_description :: "string option"
  pg_members :: "(member_skill \<times> string) list"

record dir_collision =
  co_plugin :: string
  co_dir :: string
  co_winner :: member_skill
  co_skipped :: member_skill

text \<open>\<open>a.localeCompare(b) || c.localeCompare(d)\<close>: zero is falsy.\<close>

definition compare_members :: "(string \<Rightarrow> string \<Rightarrow> int) \<Rightarrow> member_skill \<Rightarrow> member_skill \<Rightarrow> int" where
  "compare_members lc a b =
     (if lc (ms_namespace a) (ms_namespace b) \<noteq> 0 then lc (ms_namespace a) (ms_namespace b)
      else lc (ms_slug a) (ms_slug b))"

definition member_skill_dir :: "marketplace_scope \<Rightarrow> string \<Rightarrow> string \<Rightarrow> string" where
  "member_skill_dir scope ns slug = (if scope = NamespaceMarket ns then slug else ns @ ''-'' @ slug)"

definition find_category :: "market_category list \<Rightarrow> string \<Rightarrow> market_category option" where
  "find_category cats slug = find_last (\<lambda>c. mc_slug c = slug) cats"

definition plugin_targets :: "market_category list \<Rightarrow> member_skill \<Rightarrow> string list" where
  "plugin_targets cats s =
     (let slugs = filter (\<lambda>c. find_category cats c \<noteq> None) (js_unique (ms_categories s))
      in if slugs \<noteq> [] then slugs else [GENERAL_PLUGIN_SLUG])"

text \<open>The insertion-ordered map \<open>buckets\<close>.\<close>

fun add_to_bucket :: "string \<Rightarrow> member_skill \<Rightarrow> (string \<times> member_skill list) list \<Rightarrow> (string \<times> member_skill list) list" where
  "add_to_bucket t s [] = [(t, [s])]"
| "add_to_bucket t s ((u, list) # bs) = (if u = t then (u, list @ [s]) # bs else (u, list) # add_to_bucket t s bs)"

definition fill_buckets :: "market_category list \<Rightarrow> member_skill list \<Rightarrow> (string \<times> member_skill list) list" where
  "fill_buckets cats skills =
     foldl (\<lambda>bs s. foldl (\<lambda>bs t. add_to_bucket t s bs) bs (plugin_targets cats s)) [] skills"

text \<open>The inner loop: \<open>seen\<close> is the part of the members already placed.\<close>

fun place_members ::
  "marketplace_scope \<Rightarrow> string \<Rightarrow> member_skill list \<Rightarrow> (member_skill \<times> string) list \<Rightarrow>
   (member_skill \<times> string) list \<times> dir_collision list" where
  "place_members scope slug [] placed = (placed, [])"
| "place_members scope slug (s # ss) placed =
     (let dir = member_skill_dir scope (ms_namespace s) (ms_slug s) in
      case find (\<lambda>p. snd p = dir) placed of
        Some winner \<Rightarrow>
          (let (ms, cs) = place_members scope slug ss placed
           in (ms, \<lparr>co_plugin = slug, co_dir = dir, co_winner = fst winner, co_skipped = s\<rparr> # cs))
      | None \<Rightarrow> place_members scope slug ss (placed @ [(s, dir)]))"

definition make_plugin ::
  "marketplace_scope \<Rightarrow> market_category list \<Rightarrow> string \<times> member_skill list \<Rightarrow> plugin_group \<times> dir_collision list" where
  "make_plugin scope cats b =
     (let (slug, list) = b; (members, collisions) = place_members scope slug list []; cat = find_category cats slug
      in (\<lparr>pg_slug = slug,
           pg_display = (if slug = GENERAL_PLUGIN_SLUG then GENERAL_PLUGIN_SLUG
                         else case cat of None \<Rightarrow> slug | Some c \<Rightarrow> mc_name c),
           pg_description = (if slug = GENERAL_PLUGIN_SLUG then None
                             else case cat of None \<Rightarrow> None | Some c \<Rightarrow> mc_description c),
           pg_members = members\<rparr>, collisions))"

definition plugin_order :: "(string \<Rightarrow> string \<Rightarrow> int) \<Rightarrow> plugin_group \<Rightarrow> plugin_group \<Rightarrow> int" where
  "plugin_order lc a b =
     (if pg_slug a = GENERAL_PLUGIN_SLUG then 1
      else if pg_slug b = GENERAL_PLUGIN_SLUG then -1
      else lc (pg_slug a) (pg_slug b))"

definition group_skills_into_plugins ::
  "(string \<Rightarrow> string \<Rightarrow> int) \<Rightarrow> marketplace_scope \<Rightarrow> member_skill list \<Rightarrow> market_category list \<Rightarrow>
   plugin_group list \<times> dir_collision list" where
  "group_skills_into_plugins lc scope skills cats =
     (let made = map (make_plugin scope cats) (fill_buckets cats (js_sort (compare_members lc) skills))
      in (js_sort (plugin_order lc) (map fst made), concat (map snd made)))"

section \<open>Manifests\<close>

definition plugin_description :: "plugin_group \<Rightarrow> string \<Rightarrow> string" where
  "plugin_description g owner =
     (if truthy (pg_description g) \<and> trim_or_null (pg_description g) \<noteq> None
      then js_trim (the (pg_description g))
      else let n = length (pg_members g); noun = (if n = 1 then ''skill'' else ''skills'')
        in if pg_slug g = GENERAL_PLUGIN_SLUG
           then show_nat n @ '' '' @ noun @ '' without a category from '' @ owner
           else show_nat n @ '' '' @ noun @ '' in '' @ pg_display g @ '' from '' @ owner)"

definition plugin_keywords :: "member_skill list \<Rightarrow> string list" where
  "plugin_keywords ms = js_unique (filter (\<lambda>k. k \<noteq> []) (concat (map (\<lambda>m. [js_trim (ms_title m), ms_slug m]) ms)))"

definition plugin_version :: "nat \<Rightarrow> string" where
  "plugin_version n = ''1.0.'' @ show_nat n"

record plugin_components =
  pc_hooks :: bool
  pc_mcp :: bool
  pc_lsp :: bool
  pc_commands :: bool
  pc_agents :: bool

definition no_components :: plugin_components where
  "no_components = \<lparr>pc_hooks = False, pc_mcp = False, pc_lsp = False, pc_commands = False, pc_agents = False\<rparr>"

record plugin_input =
  pi_slug :: string
  pi_display :: string
  pi_description :: "string option"
  pi_version :: string
  pi_keywords :: "string list"
  pi_category :: "string option"
  pi_homepage :: "string option"
  pi_components :: plugin_components

definition manifest_entry :: "plugin_input \<Rightarrow> json" where
  "manifest_entry p =
     JObj ([(''name'', JStr (pi_slug p)), (''source'', JStr (''./'' @ PLUGIN_ROOT @ ''/'' @ pi_slug p)),
            (''displayName'', JStr (pi_display p)), (''version'', JStr (pi_version p))] @
           (case pi_description p of None \<Rightarrow> [] | Some d \<Rightarrow> if d = [] then [] else [(''description'', JStr d)]) @
           (if pi_keywords p = [] then [] else [(''keywords'', JArr (map JStr (pi_keywords p)))]) @
           (case pi_category p of None \<Rightarrow> [] | Some c \<Rightarrow> if c = [] then [] else [(''category'', JStr c)]) @
           (case pi_homepage p of None \<Rightarrow> [] | Some h \<Rightarrow> if h = [] then [] else [(''homepage'', JStr h)]))"

definition build_marketplace_json ::
  "string \<Rightarrow> marketplace_scope \<Rightarrow> string \<Rightarrow> string option \<Rightarrow> string option \<Rightarrow> string \<Rightarrow> plugin_input list \<Rightarrow> json" where
  "build_marketplace_json pre scope owner email description version plugins =
     JObj [(''name'', JStr (marketplace_name pre scope)),
           (''owner'', JObj ((''name'', JStr owner) #
              (case email of None \<Rightarrow> [] | Some e \<Rightarrow> if e = [] then [] else [(''email'', JStr e)]))),
           (''description'', JStr (case description of
               Some d \<Rightarrow> d
             | None \<Rightarrow> if scope = PublicMarket
                 then ''Skills available to everyone in this organization, published from skilly.''
                 else ''Restricted skills from the '' @ owner @ '' namespace on skilly.'')),
           (''version'', JStr version),
           (''metadata'', JObj [(''pluginRoot'', JStr (''./'' @ PLUGIN_ROOT))]),
           (''plugins'', JArr (map manifest_entry plugins))]"

definition build_plugin_json :: "plugin_input \<Rightarrow> json" where
  "build_plugin_json p =
     (let c = pi_components p in
      JObj ([(''name'', JStr (pi_slug p)), (''version'', JStr (pi_version p)),
             (''skills'', JArr [JStr (''./'' @ SKILLS_DIR @ ''/'')])] @
            (case pi_description p of None \<Rightarrow> [] | Some d \<Rightarrow> if d = [] then [] else [(''description'', JStr d)]) @
            (if pc_hooks c then [(''hooks'', JStr ''./hooks.json'')] else []) @
            (if pc_mcp c then [(''mcpServers'', JStr ''./mcp.json'')] else []) @
            (if pc_lsp c then [(''lspServers'', JStr ''./lsp.json'')] else []) @
            (if pc_commands c then [(''commands'', JArr [JStr ''./commands/''])] else []) @
            (if pc_agents c then [(''agents'', JArr [JStr ''./agents/''])] else [])))"

section \<open>Placing a bundle's files\<close>

text \<open>
  \<open>COMPONENT_FILES\<close> and \<open>COMPONENT_DIRS\<close> are object literals: indexing one with a name it does not
  have finds the property the name has on \<open>Object.prototype\<close>, which is truthy for each of these.
\<close>

definition object_prototype_names :: "string list" where
  "object_prototype_names =
     [''constructor'', ''__defineGetter__'', ''__defineSetter__'', ''hasOwnProperty'', ''__lookupGetter__'',
      ''__lookupSetter__'', ''isPrototypeOf'', ''propertyIsEnumerable'', ''toString'', ''valueOf'', ''__proto__'',
      ''toLocaleString'']"

definition COMPONENT_FILES :: "(string \<times> (plugin_components \<Rightarrow> plugin_components)) list" where
  "COMPONENT_FILES =
     [(''hooks.json'', \<lambda>c. c\<lparr>pc_hooks := True\<rparr>), (''mcp.json'', \<lambda>c. c\<lparr>pc_mcp := True\<rparr>),
      (''lsp.json'', \<lambda>c. c\<lparr>pc_lsp := True\<rparr>)]"

definition COMPONENT_DIRS :: "(string \<times> (plugin_components \<Rightarrow> plugin_components)) list" where
  "COMPONENT_DIRS = [(''commands'', \<lambda>c. c\<lparr>pc_commands := True\<rparr>), (''agents'', \<lambda>c. c\<lparr>pc_agents := True\<rparr>)]"

definition js_index :: "(string \<times> (plugin_components \<Rightarrow> plugin_components)) list \<Rightarrow> string \<Rightarrow> (plugin_components \<Rightarrow> plugin_components) option" where
  "js_index tbl k =
     (case map_of tbl k of Some f \<Rightarrow> Some f
      | None \<Rightarrow> if k \<in> set object_prototype_names then Some id else None)"

text \<open>\<open>raw.replace(/^\.?\//, "")\<close>.\<close>

definition strip_root :: "string \<Rightarrow> string" where
  "strip_root raw =
     (case raw of
        CHR ''/'' # r \<Rightarrow> r
      | CHR ''.'' # CHR ''/'' # r \<Rightarrow> r
      | _ \<Rightarrow> raw)"

definition is_component_path :: "string \<Rightarrow> bool" where
  "is_component_path path =
     (if js_index COMPONENT_FILES path \<noteq> None then True
      else CHR ''/'' \<in> set path \<and> js_index COMPONENT_DIRS (hd (split_on (CHR ''/'') path)) \<noteq> None)"

fun plan_loop :: "string \<Rightarrow> string list \<Rightarrow> (string \<times> string) list \<Rightarrow> plugin_components \<Rightarrow> (string \<times> string) list \<times> plugin_components" where
  "plan_loop dir [] moves c = (moves, c)"
| "plan_loop dir (raw # rest) moves c =
     (let path = strip_root raw in
      if path = [] then plan_loop dir rest moves c
      else case js_index COMPONENT_FILES path of
        Some f \<Rightarrow> plan_loop dir rest (moves @ [(raw, path)]) (f c)
      | None \<Rightarrow>
          (case (if CHR ''/'' \<in> set path then js_index COMPONENT_DIRS (hd (split_on (CHR ''/'') path)) else None) of
             Some f \<Rightarrow> plan_loop dir rest (moves @ [(raw, path)]) (f c)
           | None \<Rightarrow> plan_loop dir rest (moves @ [(raw, SKILLS_DIR @ ''/'' @ dir @ ''/'' @ path)]) c))"

definition plan_plugin_layout :: "string \<Rightarrow> string list \<Rightarrow> (string \<times> string) list \<times> plugin_components" where
  "plan_plugin_layout dir paths = plan_loop dir paths [] no_components"

definition marketplace_repo_path :: "string \<Rightarrow> string \<Rightarrow> string" where
  "marketplace_repo_path plugin path = PLUGIN_ROOT @ ''/'' @ plugin @ ''/'' @ path"

section \<open>Buckets\<close>

definition bucket :: "(string \<times> member_skill list) list \<Rightarrow> string \<Rightarrow> member_skill list" where
  "bucket bs t = (case map_of bs t of None \<Rightarrow> [] | Some l \<Rightarrow> l)"

definition buckets_ok :: "(string \<times> member_skill list) list \<Rightarrow> bool" where
  "buckets_ok bs = (distinct (map fst bs) \<and> (\<forall>b \<in> set bs. snd b \<noteq> []))"

lemma add_to_bucket_keys: "set (map fst (add_to_bucket t s bs)) = insert t (set (map fst bs))"
  by (induction t s bs rule: add_to_bucket.induct) auto

lemma add_to_bucket_ok: "buckets_ok bs \<Longrightarrow> buckets_ok (add_to_bucket t s bs)"
proof (induction t s bs rule: add_to_bucket.induct)
  case (2 t s u list bs)
  then show ?case using add_to_bucket_keys [of t s bs] by (auto simp: buckets_ok_def simp del: set_map)
qed (simp add: buckets_ok_def)

lemma bucket_add: "bucket (add_to_bucket t s bs) u = bucket bs u @ (if u = t then [s] else [])"
  by (induction t s bs rule: add_to_bucket.induct) (auto simp: bucket_def)

lemma add_targets:
  assumes "distinct ts" "buckets_ok bs"
  shows "buckets_ok (foldl (\<lambda>bs t. add_to_bucket t s bs) bs ts) \<and>
         bucket (foldl (\<lambda>bs t. add_to_bucket t s bs) bs ts) u = bucket bs u @ (if u \<in> set ts then [s] else [])"
  using assms by (induction ts arbitrary: bs) (auto simp: bucket_add add_to_bucket_ok)

lemma plugin_targets_distinct [simp]: "distinct (plugin_targets cats s)"
  by (simp add: plugin_targets_def Let_def)

lemma fill_buckets_spec:
  "buckets_ok (fill_buckets cats skills) \<and>
   bucket (fill_buckets cats skills) u = filter (\<lambda>s. u \<in> set (plugin_targets cats s)) skills"
proof -
  have "buckets_ok (foldl (\<lambda>bs s. foldl (\<lambda>bs t. add_to_bucket t s bs) bs (plugin_targets cats s)) bs skills) \<and>
    bucket (foldl (\<lambda>bs s. foldl (\<lambda>bs t. add_to_bucket t s bs) bs (plugin_targets cats s)) bs skills) u =
      bucket bs u @ filter (\<lambda>s. u \<in> set (plugin_targets cats s)) skills" if "buckets_ok bs" for bs
    using that
  proof (induction skills arbitrary: bs)
    case (Cons s ss)
    show ?case using add_targets [OF plugin_targets_distinct Cons.prems, where s = s and u = u and cats1 = cats] Cons.IH by simp
  qed simp
  from this [of "[]"] show ?thesis by (simp add: fill_buckets_def buckets_ok_def bucket_def)
qed

lemma fill_buckets_in:
  "(u, l) \<in> set (fill_buckets cats skills) \<longleftrightarrow>
     l = filter (\<lambda>s. u \<in> set (plugin_targets cats s)) skills \<and> l \<noteq> []"
proof -
  note ok = fill_buckets_spec [of cats skills u]
  show ?thesis
  proof
    assume "(u, l) \<in> set (fill_buckets cats skills)"
    then show "l = filter (\<lambda>s. u \<in> set (plugin_targets cats s)) skills \<and> l \<noteq> []"
      using ok by (auto simp: buckets_ok_def bucket_def dest: map_of_is_SomeI)
  next
    assume "l = filter (\<lambda>s. u \<in> set (plugin_targets cats s)) skills \<and> l \<noteq> []"
    then show "(u, l) \<in> set (fill_buckets cats skills)"
      using ok by (auto simp: bucket_def dest: map_of_SomeD split: option.splits)
  qed
qed

section \<open>Placing members\<close>

definition skill_dir :: "marketplace_scope \<Rightarrow> member_skill \<Rightarrow> string" where
  "skill_dir scope s = member_skill_dir scope (ms_namespace s) (ms_slug s)"

lemma place_members_spec:
  assumes "place_members scope slug ss placed = (ms, cs)" "distinct (map snd placed)" "\<forall>p \<in> set placed. snd p = skill_dir scope (fst p)"
  shows "set placed \<subseteq> set ms \<and> distinct (map snd ms) \<and> (\<forall>p \<in> set ms. snd p = skill_dir scope (fst p)) \<and>
    fst ` set ms \<union> co_skipped ` set cs = fst ` set placed \<union> set ss \<and>
    (\<forall>c \<in> set cs. co_plugin c = slug \<and> (co_winner c, co_dir c) \<in> set ms \<and> skill_dir scope (co_skipped c) = co_dir c)"
  using assms
proof (induction ss arbitrary: placed ms cs)
  case (Cons s ss)
  let ?dir = "member_skill_dir scope (ms_namespace s) (ms_slug s)"
  show ?case
  proof (cases "find (\<lambda>p. snd p = ?dir) placed")
    case None
    then have "distinct (map snd (placed @ [(s, ?dir)]))"
      using Cons.prems by (auto simp: find_None_all)
    then show ?thesis
      using Cons.IH [of "placed @ [(s, ?dir)]" ms cs] Cons.prems None by (auto simp: skill_dir_def)
  next
    case (Some w)
    then have w: "w \<in> set placed" "snd w = ?dir" using find_in_set [OF Some] by auto
    obtain cs' where cs': "place_members scope slug ss placed = (ms, cs')"
      "cs = \<lparr>co_plugin = slug, co_dir = ?dir, co_winner = fst w, co_skipped = s\<rparr> # cs'"
      using Cons.prems(1) Some by (auto simp: Let_def split: prod.splits)
    note ih = Cons.IH [OF cs'(1) Cons.prems(2,3)]
    have "(fst w, ?dir) \<in> set ms" using w ih by (metis prod.collapse subsetD)
    then show ?thesis using ih cs'(2) by (auto simp: skill_dir_def)
  qed
qed simp

lemma place_members_start:
  assumes "place_members scope slug ss [] = (ms, cs)"
  shows "distinct (map snd ms) \<and> fst ` set ms \<union> co_skipped ` set cs = set ss \<and> (ss \<noteq> [] \<longrightarrow> ms \<noteq> []) \<and>
    (\<forall>p \<in> set ms. snd p = skill_dir scope (fst p)) \<and>
    (\<forall>c \<in> set cs. co_plugin c = slug \<and> (co_winner c, co_dir c) \<in> set ms \<and> skill_dir scope (co_skipped c) = co_dir c)"
proof -
  have spec: "distinct (map snd ms)" "fst ` set ms \<union> co_skipped ` set cs = set ss"
    "\<forall>p \<in> set ms. snd p = skill_dir scope (fst p)"
    "\<forall>c \<in> set cs. co_plugin c = slug \<and> (co_winner c, co_dir c) \<in> set ms \<and> skill_dir scope (co_skipped c) = co_dir c"
    using place_members_spec [OF assms] by simp_all
  then have "ms \<noteq> []" if "ss \<noteq> []" using that by (cases cs) auto
  then show ?thesis using spec by blast
qed

lemma make_plugin_eq:
  "place_members scope (fst b) (snd b) [] = (ms, cs) \<Longrightarrow>
     pg_members (fst (make_plugin scope cats b)) = ms \<and> snd (make_plugin scope cats b) = cs"
  by (cases b) (simp add: make_plugin_def Let_def)

section \<open>Properties of the grouping\<close>

lemma plugin_targets_iff:
  "t \<in> set (plugin_targets cats s) \<longleftrightarrow>
     (t \<in> set (ms_categories s) \<and> find_category cats t \<noteq> None) \<or>
     (t = GENERAL_PLUGIN_SLUG \<and> (\<forall>c \<in> set (ms_categories s). find_category cats c = None))"
  by (auto simp: plugin_targets_def Let_def filter_empty_conv)

text \<open>
  Every qualifying skill is in the plugin of each of its known categories, or in \<open>general\<close> when it has
  none, and in no other; it is there under a directory that is unique in the plugin, or it is reported
  as a collision with the member that owns its directory. Every plugin has a member and its own slug.
\<close>

theorem plugins_partition_skills:
  "case group_skills_into_plugins lc scope skills cats of (plugins, collisions) \<Rightarrow>
     distinct (map pg_slug plugins) \<and>
     (\<forall>t. (\<exists>g \<in> set plugins. pg_slug g = t) \<longleftrightarrow> (\<exists>s \<in> set skills. t \<in> set (plugin_targets cats s))) \<and>
     (\<forall>g \<in> set plugins. pg_members g \<noteq> [] \<and> distinct (map snd (pg_members g)) \<and>
        (\<forall>m \<in> set (pg_members g). snd m = skill_dir scope (fst m)) \<and>
        fst ` set (pg_members g) \<union> {co_skipped c | c. c \<in> set collisions \<and> co_plugin c = pg_slug g} =
          {s \<in> set skills. pg_slug g \<in> set (plugin_targets cats s)}) \<and>
     (\<forall>c \<in> set collisions. \<exists>g \<in> set plugins. pg_slug g = co_plugin c \<and> (co_winner c, co_dir c) \<in> set (pg_members g) \<and>
        skill_dir scope (co_skipped c) = co_dir c)"
proof -
  let ?sorted = "js_sort (compare_members lc) skills"
  let ?bs = "fill_buckets cats ?sorted"
  let ?made = "map (make_plugin scope cats) ?bs"
  have slug: "pg_slug (fst (make_plugin scope cats b)) = fst b" for b
    by (simp add: make_plugin_def Let_def split: prod.split)
  have made: "distinct (map snd (pg_members (fst (make_plugin scope cats b)))) \<and>
      fst ` set (pg_members (fst (make_plugin scope cats b))) \<union> co_skipped ` set (snd (make_plugin scope cats b)) = set (snd b) \<and>
      (snd b \<noteq> [] \<longrightarrow> pg_members (fst (make_plugin scope cats b)) \<noteq> []) \<and>
      (\<forall>p \<in> set (pg_members (fst (make_plugin scope cats b))). snd p = skill_dir scope (fst p)) \<and>
      (\<forall>c \<in> set (snd (make_plugin scope cats b)). co_plugin c = fst b \<and>
         (co_winner c, co_dir c) \<in> set (pg_members (fst (make_plugin scope cats b))) \<and> skill_dir scope (co_skipped c) = co_dir c)" for b
    using place_members_start [of scope "fst b" "snd b"]
    by (cases "place_members scope (fst b) (snd b) []") (simp add: make_plugin_eq)
  have keys: "distinct (map fst ?bs)" using fill_buckets_spec by (simp add: buckets_ok_def)
  have res: "group_skills_into_plugins lc scope skills cats =
      (js_sort (plugin_order lc) (map fst ?made), concat (map snd ?made))"
    by (simp add: group_skills_into_plugins_def Let_def)
  have slugs: "map pg_slug (map fst ?made) = map fst ?bs" by (simp add: slug)
  have "distinct (map pg_slug (js_sort (plugin_order lc) (map fst ?made)))"
    using keys slugs js_sort_distinct_map by metis
  moreover have "(\<exists>g \<in> set (map fst ?made). pg_slug g = t) \<longleftrightarrow> (\<exists>s \<in> set skills. t \<in> set (plugin_targets cats s))" for t
  proof -
    have "(\<exists>g \<in> set (map fst ?made). pg_slug g = t) \<longleftrightarrow> (\<exists>b \<in> set ?bs. fst b = t)" using slug by auto
    also have "\<dots> \<longleftrightarrow> (\<exists>l. (t, l) \<in> set ?bs)" by force
    finally show ?thesis by (auto simp: fill_buckets_in filter_empty_conv)
  qed
  moreover have "pg_members g \<noteq> [] \<and> distinct (map snd (pg_members g)) \<and>
        (\<forall>m \<in> set (pg_members g). snd m = skill_dir scope (fst m)) \<and>
        fst ` set (pg_members g) \<union> {co_skipped c | c. c \<in> set (concat (map snd ?made)) \<and> co_plugin c = pg_slug g} =
          {s \<in> set skills. pg_slug g \<in> set (plugin_targets cats s)}" if "g \<in> set (map fst ?made)" for g
  proof -
    obtain b where b: "b \<in> set ?bs" "g = fst (make_plugin scope cats b)" using \<open>g \<in> set (map fst ?made)\<close> by auto
    have l: "snd b = filter (\<lambda>s. fst b \<in> set (plugin_targets cats s)) ?sorted" "snd b \<noteq> []"
      using b(1) fill_buckets_in [of "fst b" "snd b" cats ?sorted] unfolding prod.collapse by blast+
    have plug: "co_plugin c = fst b'" if "c \<in> set (snd (make_plugin scope cats b'))" for b' c
      using made [of b'] that by blast
    have same: "b' = b" if "b' \<in> set ?bs" "fst b' = fst b" for b'
      using keys b(1) that by (meson distinct_map inj_onD)
    have own: "set (snd (make_plugin scope cats b)) = {c \<in> set (concat (map snd ?made)). co_plugin c = fst b}"
    proof (intro equalityI subsetI)
      fix c
      assume c: "c \<in> set (snd (make_plugin scope cats b))"
      then show "c \<in> {c \<in> set (concat (map snd ?made)). co_plugin c = fst b}" using plug [OF c] b(1) by auto
    next
      fix c
      assume "c \<in> {c \<in> set (concat (map snd ?made)). co_plugin c = fst b}"
      then obtain b' where "b' \<in> set ?bs" "c \<in> set (snd (make_plugin scope cats b'))" "co_plugin c = fst b" by auto
      then show "c \<in> set (snd (make_plugin scope cats b))" using plug same by metis
    qed
    have sk: "co_skipped ` set (snd (make_plugin scope cats b)) =
        {co_skipped c | c. c \<in> set (concat (map snd ?made)) \<and> co_plugin c = fst b}"
      unfolding own by blast
    have mem: "fst ` set (pg_members g) \<union> co_skipped ` set (snd (make_plugin scope cats b)) = set (snd b)"
      "distinct (map snd (pg_members g))" "pg_members g \<noteq> []" "\<forall>p \<in> set (pg_members g). snd p = skill_dir scope (fst p)"
      using made [of b] l(2) unfolding b(2) by blast+
    have "set (snd b) = {s \<in> set skills. fst b \<in> set (plugin_targets cats s)}" unfolding l(1) by simp
    then show ?thesis using mem sk slug [of b] b(2) by simp

  qed
  moreover have "\<exists>g \<in> set (map fst ?made). pg_slug g = co_plugin c \<and> (co_winner c, co_dir c) \<in> set (pg_members g) \<and>
        skill_dir scope (co_skipped c) = co_dir c" if "c \<in> set (concat (map snd ?made))" for c
  proof -
    have "\<exists>b \<in> set ?bs. c \<in> set (snd (make_plugin scope cats b))" using that by simp
    then obtain b where "b \<in> set ?bs" "c \<in> set (snd (make_plugin scope cats b))" by blast
    then show ?thesis using made [of b] slug [of b] by (intro bexI [of _ "fst (make_plugin scope cats b)"]) auto
  qed
  ultimately show ?thesis unfolding res by simp
qed

text \<open>
  A skill shared into a namespace marketplace can take the directory of one of the namespace's own
  skills: with \<open>core-lint\<close> the namespace's own and \<open>lint\<close> shared from \<open>core\<close>, a namespace that
  sorts first, the plugin carries the shared skill and the own one is skipped.
\<close>

definition own_lint :: member_skill where
  "own_lint = \<lparr>ms_namespace = ''web'', ms_slug = ''core-lint'', ms_title = ''Own'', ms_categories = []\<rparr>"

definition shared_lint :: member_skill where
  "shared_lint = \<lparr>ms_namespace = ''core'', ms_slug = ''lint'', ms_title = ''Shared'', ms_categories = []\<rparr>"

theorem shared_skill_shadows_own:
  assumes "0 < lc ''web'' ''core''"
  shows "case group_skills_into_plugins lc (NamespaceMarket ''web'') [own_lint, shared_lint] [] of
    (plugins, collisions) \<Rightarrow>
      map (\<lambda>g. (pg_slug g, pg_members g)) plugins = [(''general'', [(shared_lint, ''core-lint'')])] \<and>
      collisions = [\<lparr>co_plugin = ''general'', co_dir = ''core-lint'', co_winner = shared_lint, co_skipped = own_lint\<rparr>]"
proof -
  have "js_sort (compare_members lc) [own_lint, shared_lint] = [shared_lint, own_lint]"
    using assms by (simp add: js_sort_def compare_members_def own_lint_def shared_lint_def)
  moreover have "plugin_targets [] s = [''general'']" for s
    by (simp add: plugin_targets_def find_category_def find_last_def GENERAL_PLUGIN_SLUG_def)
  ultimately show ?thesis
    by (simp add: group_skills_into_plugins_def fill_buckets_def make_plugin_def member_skill_dir_def
        own_lint_def shared_lint_def js_sort_def Let_def)
qed

theorem shared_skill_shadows_own_witness:
  "case group_skills_into_plugins ord_cmp (NamespaceMarket ''web'') [own_lint, shared_lint] [] of
    (plugins, collisions) \<Rightarrow> map co_skipped collisions = [own_lint]"
  using shared_skill_shadows_own [of ord_cmp] by (simp add: ord_cmp_def case_prod_beta)

theorem plugins_partition_skills_witness:
  "case group_skills_into_plugins ord_cmp PublicMarket [own_lint, shared_lint] [] of
    (plugins, collisions) \<Rightarrow> \<exists>g \<in> set plugins. pg_slug g = ''general''"
proof -
  obtain plugins collisions where g: "group_skills_into_plugins ord_cmp PublicMarket [own_lint, shared_lint] [] = (plugins, collisions)"
    by force
  have "''general'' \<in> set (plugin_targets [] own_lint)"
    by (simp add: plugin_targets_def find_category_def find_last_def GENERAL_PLUGIN_SLUG_def)
  then show ?thesis
    using plugins_partition_skills [where lc = ord_cmp and scope = PublicMarket and skills = "[own_lint, shared_lint]" and cats = "[]"] g by auto
qed

section \<open>Properties of the layout\<close>

definition placed_at :: "string \<Rightarrow> string \<Rightarrow> string" where
  "placed_at dir path = (if is_component_path path then path else SKILLS_DIR @ ''/'' @ dir @ ''/'' @ path)"

lemma plan_loop_moves:
  "fst (plan_loop dir paths moves c) =
     moves @ map (\<lambda>raw. (raw, placed_at dir (strip_root raw))) (filter (\<lambda>raw. strip_root raw \<noteq> []) paths)"
  by (induction dir paths moves c rule: plan_loop.induct)
    (auto simp: Let_def placed_at_def is_component_path_def split: option.splits)

lemma js_index_iff: "js_index tbl k \<noteq> None \<longleftrightarrow> k \<in> fst ` set tbl \<or> k \<in> set object_prototype_names"
proof (cases "map_of tbl k")
  case None
  then have "k \<notin> fst ` set tbl" by (simp add: map_of_eq_None_iff)
  then show ?thesis using None by (simp add: js_index_def)
next
  case (Some f)
  then have "k \<in> fst ` set tbl" by (metis map_of_eq_None_iff option.distinct(1))
  then show ?thesis using Some by (simp add: js_index_def)
qed

text \<open>
  Every file with a name is moved exactly once, in order: to its own path at the plugin root when it is
  one of the three component files or lies under one of the two component directories, and under the
  skill's directory otherwise; except that a file or a top directory named like a property of
  \<open>Object.prototype\<close> is hoisted to the plugin root too.
\<close>

theorem plugin_layout_placement:
  "fst (plan_plugin_layout dir paths) =
     map (\<lambda>raw. (raw, placed_at dir (strip_root raw))) (filter (\<lambda>raw. strip_root raw \<noteq> []) paths) \<and>
   (is_component_path path \<longleftrightarrow>
      path \<in> {''hooks.json'', ''mcp.json'', ''lsp.json''} \<or> path \<in> set object_prototype_names \<or>
      (CHR ''/'' \<in> set path \<and>
        (hd (split_on (CHR ''/'') path) \<in> {''commands'', ''agents''} \<or>
         hd (split_on (CHR ''/'') path) \<in> set object_prototype_names)))"
proof -
  have "is_component_path path \<longleftrightarrow>
      path \<in> {''hooks.json'', ''mcp.json'', ''lsp.json''} \<or> path \<in> set object_prototype_names \<or>
      (CHR ''/'' \<in> set path \<and>
        (hd (split_on (CHR ''/'') path) \<in> {''commands'', ''agents''} \<or>
         hd (split_on (CHR ''/'') path) \<in> set object_prototype_names))"
    unfolding is_component_path_def js_index_iff by (auto simp: COMPONENT_FILES_def COMPONENT_DIRS_def)
  then show ?thesis by (simp add: plan_plugin_layout_def plan_loop_moves)
qed

end
