(* ===== verification/GitAuth.thy ===== *)
theory GitAuth
  imports Marketplace
begin

text \<open>
  The git gateway: \<open>packages/worker/src/git/authorize.ts\<close> (parsing a smart-HTTP path, the decision to
  serve a clone) and the per-installation limiter \<open>GitTokenLimiter\<close> of
  \<open>packages/worker/src/rateLimit.ts\<close>.

  The decision core takes its catalog and token lookups as an argument (\<open>GitAuthDeps\<close>); so does the
  model. Clock values are milliseconds.
\<close>

section \<open>Requests\<close>

datatype git_operation = UploadPack | ReceivePack

record git_request =
  gq_namespace :: string
  gq_slug :: string
  gq_marketplace :: "marketplace_scope option"
  gq_operation :: git_operation
  gq_rpc :: bool
  gq_head :: bool

definition build_request :: "string \<Rightarrow> string \<Rightarrow> git_operation \<Rightarrow> bool \<Rightarrow> bool \<Rightarrow> git_request option" where
  "build_request ns slug operation rpc head =
     (let market = parse_marketplace_repo_key ns slug in
      if market = None \<and> prefix ''_'' ns then None
      else Some \<lparr>gq_namespace = ns, gq_slug = slug, gq_marketplace = market, gq_operation = operation,
                 gq_rpc = rpc, gq_head = head\<rparr>)"

text \<open>\<open>([^/]+)\.git\<close> on one path segment.\<close>

definition repo_name :: "string \<Rightarrow> string option" where
  "repo_name seg = (if suffix ''.git'' seg \<and> length seg > 4 then Some (take (length seg - 4) seg) else None)"

definition parse_git_path :: "string \<Rightarrow> string option \<Rightarrow> git_request option" where
  "parse_git_path pathname service =
     (case split_on (CHR ''/'') pathname of
        [z, ns, seg, what] \<Rightarrow>
          (if z \<noteq> [] \<or> ns = [] then None
           else case repo_name seg of
             None \<Rightarrow> None
           | Some slug \<Rightarrow>
               if what = ''HEAD'' then build_request ns slug UploadPack False True
               else if what = ''git-upload-pack'' then build_request ns slug UploadPack True False
               else if what = ''git-receive-pack'' then build_request ns slug ReceivePack True False
               else None)
      | [z, ns, seg, info, refs] \<Rightarrow>
          (if z \<noteq> [] \<or> ns = [] \<or> info \<noteq> ''info'' \<or> refs \<noteq> ''refs'' then None
           else case repo_name seg of
             None \<Rightarrow> None
           | Some slug \<Rightarrow>
               if service = Some ''git-upload-pack'' then build_request ns slug UploadPack False False
               else if service = Some ''git-receive-pack'' then build_request ns slug ReceivePack False False
               else None)
      | _ \<Rightarrow> None)"

text \<open>\<open>decode\<close> is the base64 decoding of the runtime's \<open>Buffer\<close>, \<open>None\<close> when it throws.\<close>

definition token_from_auth_header :: "(string \<Rightarrow> string option) \<Rightarrow> string option \<Rightarrow> string option" where
  "token_from_auth_header decode header =
     (case header of
        None \<Rightarrow> None
      | Some h \<Rightarrow>
          if \<not> prefix ''Basic '' h then None
          else case decode (drop 6 h) of
                 None \<Rightarrow> None
               | Some d \<Rightarrow>
                   let password = (if CHR '':'' \<in> set d then drop 1 (dropWhile (\<lambda>c. c \<noteq> CHR '':'') d) else d)
                   in if password = [] then None else Some password)"

section \<open>The decision\<close>

record skill_ref =
  sf_id :: ident
  sf_namespace :: ident
  sf_visibility :: visibility
  sf_active :: bool
  sf_shared :: "ident list option"

record marketplace_ref =
  mf_scope :: marketplace_scope
  mf_namespace :: "ident option"
  mf_enabled :: bool

datatype token_type = InstallToken | MarketplaceToken

record token_principal =
  tp_user :: "ident option"
  tp_token :: ident
  tp_type :: token_type
  tp_skill :: "ident option"
  tp_market :: "marketplace_scope option"
  tp_system :: bool
  tp_inactive :: bool

record git_deps =
  gd_skill :: "string \<Rightarrow> string \<Rightarrow> skill_ref option"
  gd_marketplace :: "marketplace_scope \<Rightarrow> marketplace_ref option"
  gd_token :: "string \<Rightarrow> token_principal option"
  gd_access :: "ident \<Rightarrow> effective_access"

datatype git_refusal_code = OwnerInactive | TokenInvalid | ScopeMismatch | NotVisible | PushDenied

record git_refusal =
  gf_code :: git_refusal_code
  gf_owner :: "ident option"
  gf_token :: "ident option"

datatype git_decision =
    AllowSkill skill_ref token_principal
  | AllowMarketplace marketplace_ref token_principal
  | Deny nat string "git_refusal option"

definition refusal_for :: "git_refusal_code \<Rightarrow> token_principal \<Rightarrow> git_refusal" where
  "refusal_for code p = \<lparr>gf_code = code, gf_owner = tp_user p, gf_token = Some (tp_token p)\<rparr>"

definition bare_refusal :: "git_refusal_code \<Rightarrow> git_refusal" where
  "bare_refusal code = \<lparr>gf_code = code, gf_owner = None, gf_token = None\<rparr>"

definition INVALID_TOKEN :: string where
  "INVALID_TOKEN = ''invalid or expired token''"

definition owner_inactive_refusal :: "token_principal \<Rightarrow> git_decision option" where
  "owner_inactive_refusal p =
     (if tp_inactive p \<and> truthy (tp_user p) then Some (Deny 401 INVALID_TOKEN (Some (refusal_for OwnerInactive p))) else None)"

definition same_scope :: "marketplace_scope option \<Rightarrow> marketplace_scope \<Rightarrow> bool" where
  "same_scope a b = (case a of None \<Rightarrow> False | Some s \<Rightarrow> s = b)"

definition skill_subject :: "skill_ref \<Rightarrow> visibility_subject" where
  "skill_subject s = \<lparr>vs_namespace = sf_namespace s, vs_visibility = sf_visibility s, vs_shared = sf_shared s\<rparr>"

definition authorize_skill :: "git_request \<Rightarrow> string option \<Rightarrow> git_deps \<Rightarrow> git_decision" where
  "authorize_skill q token deps =
     (case token of
        None \<Rightarrow> Deny 401 ''authentication required'' None
      | Some t \<Rightarrow>
          if t = [] then Deny 401 ''authentication required'' None
          else case gd_token deps t of
            None \<Rightarrow> Deny 401 INVALID_TOKEN (Some (bare_refusal TokenInvalid))
          | Some p \<Rightarrow>
              (case owner_inactive_refusal p of
                 Some d \<Rightarrow> d
               | None \<Rightarrow>
                   (case gd_skill deps (gq_namespace q) (gq_slug q) of
                      None \<Rightarrow> Deny 404 ''skill not found'' (Some (refusal_for ScopeMismatch p))
                    | Some s \<Rightarrow>
                        if \<not> sf_active s \<or> tp_type p \<noteq> InstallToken \<or> tp_skill p \<noteq> Some (sf_id s)
                        then Deny 404 ''skill not found'' (Some (refusal_for ScopeMismatch p))
                        else if sf_visibility s = NamespaceVisible \<and> \<not> tp_system p \<and> \<not> truthy (tp_user p)
                        then Deny 403 ''not authorized for this namespace'' (Some (refusal_for NotVisible p))
                        else if sf_visibility s = NamespaceVisible \<and> \<not> tp_system p \<and>
                                \<not> is_skill_visible (gd_access deps (the (tp_user p))) (skill_subject s)
                        then Deny 403 ''not authorized for this namespace'' (Some (refusal_for NotVisible p))
                        else AllowSkill s p)))"

definition market_subject :: "ident \<Rightarrow> visibility_subject" where
  "market_subject ns = \<lparr>vs_namespace = ns, vs_visibility = NamespaceVisible, vs_shared = None\<rparr>"

definition authorize_marketplace :: "marketplace_scope \<Rightarrow> string option \<Rightarrow> git_deps \<Rightarrow> git_decision" where
  "authorize_marketplace scope token deps =
     (case gd_marketplace deps scope of
        None \<Rightarrow> Deny 404 ''marketplace not found'' None
      | Some m \<Rightarrow>
          if \<not> mf_enabled m then Deny 404 ''marketplace not found'' None
          else (case token of
             None \<Rightarrow> Deny 401 ''authentication required'' None
           | Some t \<Rightarrow>
               if t = [] then Deny 401 ''authentication required'' None
               else case gd_token deps t of
                 None \<Rightarrow> Deny 401 INVALID_TOKEN (Some (bare_refusal TokenInvalid))
               | Some p \<Rightarrow>
                   (case owner_inactive_refusal p of
                      Some d \<Rightarrow> d
                    | None \<Rightarrow>
                        if tp_type p \<noteq> MarketplaceToken \<or> \<not> same_scope (tp_market p) scope
                        then Deny 403 ''token is scoped to a different marketplace'' None
                        else if scope \<noteq> PublicMarket \<and> (\<not> truthy (tp_user p) \<or> \<not> truthy (mf_namespace m))
                        then Deny 403 ''not authorized for this namespace'' None
                        else if scope \<noteq> PublicMarket \<and>
                                \<not> is_skill_visible (gd_access deps (the (tp_user p))) (market_subject (the (mf_namespace m)))
                        then Deny 403 ''not authorized for this namespace'' None
                        else AllowMarketplace m p)))"

definition authorize_git_request :: "git_request \<Rightarrow> string option \<Rightarrow> git_deps \<Rightarrow> git_decision" where
  "authorize_git_request q token deps =
     (if gq_operation q = ReceivePack
      then Deny 403 ''registry is read-only (push denied)'' (Some (bare_refusal PushDenied))
      else case gq_marketplace q of
             Some scope \<Rightarrow> authorize_marketplace scope token deps
           | None \<Rightarrow> authorize_skill q token deps)"

section \<open>The per-installation limiter\<close>

record rate_window =
  rw_count :: nat
  rw_reset :: int

record token_limiter =
  tl_max :: nat
  tl_window :: int
  tl_windows :: "ident \<rightharpoonup> rate_window"
  tl_sweep :: int

record rate_decision =
  rd_ok :: bool
  rd_limit :: nat
  rd_remaining :: nat
  rd_reset_seconds :: int

definition new_limiter :: "nat \<Rightarrow> int \<Rightarrow> token_limiter" where
  "new_limiter mx window = \<lparr>tl_max = mx, tl_window = window, tl_windows = Map.empty, tl_sweep = 0\<rparr>"

definition sweep :: "int \<Rightarrow> token_limiter \<Rightarrow> token_limiter" where
  "sweep now l =
     (if now - tl_sweep l < 60000 then l
      else l\<lparr>tl_sweep := now,
             tl_windows := (\<lambda>k. case tl_windows l k of None \<Rightarrow> None | Some w \<Rightarrow> if rw_reset w \<le> now then None else Some w)\<rparr>)"

text \<open>\<open>Math.ceil(ms / 1000)\<close>.\<close>

definition ceil_seconds :: "int \<Rightarrow> int" where
  "ceil_seconds ms = - ((- ms) div 1000)"

definition current_window :: "ident \<Rightarrow> int \<Rightarrow> token_limiter \<Rightarrow> rate_window" where
  "current_window k now l =
     (case tl_windows l k of
        None \<Rightarrow> \<lparr>rw_count = 0, rw_reset = now + tl_window l\<rparr>
      | Some w \<Rightarrow> if rw_reset w \<le> now then \<lparr>rw_count = 0, rw_reset = now + tl_window l\<rparr> else w)"

definition hit :: "ident \<Rightarrow> int \<Rightarrow> token_limiter \<Rightarrow> rate_decision \<times> token_limiter" where
  "hit k now l0 =
     (let l = sweep now l0; w = current_window k now l; secs = max 1 (ceil_seconds (rw_reset w - now)) in
      if rw_count w \<ge> tl_max l
      then (\<lparr>rd_ok = False, rd_limit = tl_max l, rd_remaining = 0, rd_reset_seconds = secs\<rparr>,
            l\<lparr>tl_windows := (tl_windows l)(k \<mapsto> w)\<rparr>)
      else (\<lparr>rd_ok = True, rd_limit = tl_max l, rd_remaining = tl_max l - Suc (rw_count w), rd_reset_seconds = secs\<rparr>,
            l\<lparr>tl_windows := (tl_windows l)(k \<mapsto> w\<lparr>rw_count := Suc (rw_count w)\<rparr>)\<rparr>))"

section \<open>Properties of the gateway\<close>

lemma truthy_iff: "truthy v \<longleftrightarrow> (\<exists>u. v = Some u \<and> u \<noteq> [])"
  by (cases v) (auto simp: truthy_def)

definition usable_principal :: "git_deps \<Rightarrow> string option \<Rightarrow> token_principal \<Rightarrow> bool" where
  "usable_principal deps token p =
     (truthy token \<and> gd_token deps (the token) = Some p \<and> \<not> (tp_inactive p \<and> truthy (tp_user p)))"

lemma owner_inactive_iff:
  "owner_inactive_refusal p = None \<longleftrightarrow> \<not> (tp_inactive p \<and> truthy (tp_user p))"
  "owner_inactive_refusal p \<noteq> Some (AllowSkill s q)" "owner_inactive_refusal p \<noteq> Some (AllowMarketplace m q)"
  by (simp_all add: owner_inactive_refusal_def)

lemma skill_never_market [simp]: "authorize_skill q token deps \<noteq> AllowMarketplace m p"
  by (auto simp: authorize_skill_def owner_inactive_refusal_def split: option.splits if_splits)

lemma market_never_skill [simp]: "authorize_marketplace scope token deps \<noteq> AllowSkill s p"
  by (auto simp: authorize_marketplace_def owner_inactive_refusal_def split: option.splits if_splits)

lemma not_org: "v = NamespaceVisible \<longleftrightarrow> v \<noteq> OrgVisible"
  by (cases v) simp_all

lemma authorize_skill_allows:
  "authorize_skill q token deps = AllowSkill s p \<longleftrightarrow>
     usable_principal deps token p \<and> gd_skill deps (gq_namespace q) (gq_slug q) = Some s \<and> sf_active s \<and>
     tp_type p = InstallToken \<and> tp_skill p = Some (sf_id s) \<and>
     (sf_visibility s = OrgVisible \<or> tp_system p \<or>
        truthy (tp_user p) \<and> is_skill_visible (gd_access deps (the (tp_user p))) (skill_subject s))"
proof (cases "\<exists>t r. token = Some t \<and> t \<noteq> [] \<and> gd_token deps t = Some r")
  case False
  then show ?thesis
  proof -
    have "\<not> usable_principal deps token p" using False by (auto simp: usable_principal_def truthy_iff)
    moreover have "authorize_skill q token deps \<noteq> AllowSkill s p"
      using False by (cases token; cases "the token = []"; cases "gd_token deps (the token)") (simp_all add: authorize_skill_def)
    ultimately show ?thesis by blast
  qed
next
  case True
  then obtain t r where t: "token = Some t" "t \<noteq> []" "gd_token deps t = Some r" by blast
  show ?thesis
  proof (cases "owner_inactive_refusal r")
    case (Some d)
    then show ?thesis using t owner_inactive_iff(1) [of r] owner_inactive_iff(2) [of r s p]
      by (auto simp: authorize_skill_def usable_principal_def truthy_def)
  next
    case None
    show ?thesis
    proof (cases "gd_skill deps (gq_namespace q) (gq_slug q)")
      case None
      then show ?thesis using t \<open>owner_inactive_refusal r = None\<close> by (simp add: authorize_skill_def)
    next
      case (Some k)
      then show ?thesis using t \<open>owner_inactive_refusal r = None\<close> owner_inactive_iff(1) [of r]
        by (auto simp: authorize_skill_def usable_principal_def truthy_def not_org)
    qed
  qed
qed

lemma authorize_marketplace_allows:
  "authorize_marketplace scope token deps = AllowMarketplace m p \<longleftrightarrow>
     usable_principal deps token p \<and> gd_marketplace deps scope = Some m \<and> mf_enabled m \<and>
     tp_type p = MarketplaceToken \<and> tp_market p = Some scope \<and>
     (scope = PublicMarket \<or> truthy (tp_user p) \<and> truthy (mf_namespace m) \<and>
        is_skill_visible (gd_access deps (the (tp_user p))) (market_subject (the (mf_namespace m))))"
proof (cases "\<exists>t r. token = Some t \<and> t \<noteq> [] \<and> gd_token deps t = Some r")
  case False
  then show ?thesis
  proof -
    have "\<not> usable_principal deps token p" using False by (auto simp: usable_principal_def truthy_iff)
    moreover have "authorize_marketplace scope token deps \<noteq> AllowMarketplace m p"
      using False by (cases token; cases "the token = []"; cases "gd_token deps (the token)") (simp_all add: authorize_marketplace_def split: option.split)
    ultimately show ?thesis by blast
  qed
next
  case True
  then obtain t r where t: "token = Some t" "t \<noteq> []" "gd_token deps t = Some r" by blast
  show ?thesis
  proof (cases "owner_inactive_refusal r")
    case (Some d)
    then show ?thesis using t owner_inactive_iff(1) [of r] owner_inactive_iff(3) [of r m p]
      by (auto simp: authorize_marketplace_def usable_principal_def truthy_def split: option.split)
  next
    case None
    then show ?thesis using t owner_inactive_iff(1) [of r]
      by (cases "gd_marketplace deps scope"; cases "tp_market r")
        (auto simp: authorize_marketplace_def usable_principal_def truthy_def same_scope_def)
  qed
qed

text \<open>
  C12: A clone of a skill repository is served exactly for a fetch with a valid install token of an active
  owner, minted for that active skill, whose owner still sees the skill when it is restricted (system
  tokens excepted); a clone of a marketplace exactly for a fetch with a valid marketplace token of an
  active owner for that enabled marketplace, whose owner still has access to its namespace.
\<close>

theorem git_access_exactly:
  "(authorize_git_request q token deps = AllowSkill s p \<longleftrightarrow>
     gq_operation q = UploadPack \<and> gq_marketplace q = None \<and> usable_principal deps token p \<and>
     gd_skill deps (gq_namespace q) (gq_slug q) = Some s \<and> sf_active s \<and>
     tp_type p = InstallToken \<and> tp_skill p = Some (sf_id s) \<and>
     (sf_visibility s = OrgVisible \<or> tp_system p \<or>
        truthy (tp_user p) \<and> is_skill_visible (gd_access deps (the (tp_user p))) (skill_subject s))) \<and>
   (authorize_git_request q token deps = AllowMarketplace m p \<longleftrightarrow>
     gq_operation q = UploadPack \<and>
     (\<exists>scope. gq_marketplace q = Some scope \<and> usable_principal deps token p \<and>
        gd_marketplace deps scope = Some m \<and> mf_enabled m \<and>
        tp_type p = MarketplaceToken \<and> tp_market p = Some scope \<and>
        (scope = PublicMarket \<or> truthy (tp_user p) \<and> truthy (mf_namespace m) \<and>
           is_skill_visible (gd_access deps (the (tp_user p))) (market_subject (the (mf_namespace m))))))"
  by (cases "gq_operation q"; cases "gq_marketplace q";
      simp add: authorize_git_request_def authorize_skill_allows authorize_marketplace_allows)+

text \<open>
  What an anonymous caller learns: on a skill path nothing, every fetch answers 401, and so does every
  fetch with a token that is not valid; on a marketplace path a fetch answers 404 or 401 depending on
  whether the marketplace exists and is enabled.
\<close>

theorem git_anonymous_answers:
  assumes fetch: "gq_operation q = UploadPack" and anon: "\<not> truthy token \<or> gd_token deps (the token) = None"
  shows "case authorize_git_request q token deps of
      Deny status reason refusal \<Rightarrow>
        (case gq_marketplace q of
           None \<Rightarrow> status = 401
         | Some scope \<Rightarrow> status = (if \<exists>m. gd_marketplace deps scope = Some m \<and> mf_enabled m then 401 else 404))
    | _ \<Rightarrow> False"
proof (cases "gq_marketplace q")
  case None
  then show ?thesis
    using fetch anon by (cases token) (auto simp: authorize_git_request_def authorize_skill_def truthy_def)
next
  case (Some scope)
  then show ?thesis
    using fetch anon
    by (cases token; cases "gd_marketplace deps scope")
      (auto simp: authorize_git_request_def authorize_marketplace_def truthy_def)
qed

definition sample_deps :: git_deps where
  "sample_deps =
     \<lparr>gd_skill = \<lambda>_ _. None,
      gd_marketplace = \<lambda>sc. if sc = NamespaceMarket ''docs''
        then Some \<lparr>mf_scope = sc, mf_namespace = Some ''n'', mf_enabled = True\<rparr> else None,
      gd_token = \<lambda>_. None, gd_access = \<lambda>_. \<lparr>is_platform_admin = False, namespace_roles = Map.empty\<rparr>\<rparr>"

definition sample_request :: "marketplace_scope \<Rightarrow> git_request" where
  "sample_request scope =
     \<lparr>gq_namespace = ''_marketplace'', gq_slug = ''docs'', gq_marketplace = Some scope, gq_operation = UploadPack,
      gq_rpc = False, gq_head = False\<rparr>"

theorem git_anonymous_answers_witness:
  "\<exists>r. authorize_git_request (sample_request (NamespaceMarket ''docs'')) None sample_deps = Deny 401 r None"
proof -
  have "\<not> truthy None" "gq_operation (sample_request (NamespaceMarket ''docs'')) = UploadPack"
    "\<exists>m. gd_marketplace sample_deps (NamespaceMarket ''docs'') = Some m \<and> mf_enabled m"
    by (simp_all add: truthy_def sample_request_def sample_deps_def)
  then show ?thesis
    using git_anonymous_answers [of "sample_request (NamespaceMarket ''docs'')" None sample_deps]
    by (simp add: authorize_git_request_def authorize_marketplace_def sample_request_def sample_deps_def)
qed

section \<open>Paths\<close>

lemma slug_no_slash: "slug_re s \<Longrightarrow> CHR ''/'' \<notin> set s \<and> s \<noteq> [] \<and> \<not> prefix ''_'' s"
  by (cases s) (auto simp: slug_re_def slug_char_def is_lower_def is_digit_def list_all_iff)

lemma parse_info_refs:
  assumes "CHR ''/'' \<notin> set ns" "CHR ''/'' \<notin> set slug" "ns \<noteq> []" "slug \<noteq> []"
  shows "parse_git_path (''/'' @ ns @ ''/'' @ slug @ ''.git/info/refs'') (Some ''git-upload-pack'') =
           build_request ns slug UploadPack False False"
proof -
  have "CHR ''/'' \<notin> set (slug @ ''.git'')" using assms by simp
  then have "split_on (CHR ''/'') (ns @ ''/'' @ slug @ ''.git/info/refs'') = [ns, slug @ ''.git'', ''info'', ''refs'']"
    using split_on_append_sep [OF assms(1), of "slug @ ''.git/info/refs''"]
      split_on_append_sep [of "CHR ''/''" "slug @ ''.git''" "''info/refs''"] by simp
  moreover have "repo_name (slug @ ''.git'') = Some slug" using assms(4) by (simp add: repo_name_def suffix_def)
  ultimately show ?thesis using assms(3) by (simp add: parse_git_path_def)
qed

text \<open>
  The URL a marketplace is announced with leads back to it: the gateway parses its path to a fetch of
  the same marketplace, and no path of a namespace and a skill slug is ever taken for a marketplace.
\<close>

theorem marketplace_path_roundtrip:
  assumes "scope = PublicMarket \<or> scope = NamespaceMarket ns" and "slug_re ns" and "slug_re slug"
  shows "map_option gq_marketplace
           (parse_git_path (marketplace_repo_url_path scope @ ''/info/refs'') (Some ''git-upload-pack'')) = Some (Some scope) \<and>
         map_option (\<lambda>q. (gq_namespace q, gq_slug q, gq_marketplace q))
           (parse_git_path (''/'' @ ns @ ''/'' @ slug @ ''.git/info/refs'') (Some ''git-upload-pack'')) = Some (ns, slug, None)"
proof -
  have key: "CHR ''/'' \<notin> set (marketplace_repo_key scope)" "marketplace_repo_key scope \<noteq> []"
    using assms(1) slug_no_slash [OF assms(2)] by (auto simp: PUBLIC_MARKETPLACE_KEY_def)
  have pre: "CHR ''/'' \<notin> set MARKETPLACE_PATH_PREFIX" "MARKETPLACE_PATH_PREFIX \<noteq> []"
    by (simp_all add: MARKETPLACE_PATH_PREFIX_def)
  have "parse_marketplace_repo_key MARKETPLACE_PATH_PREFIX (marketplace_repo_key scope) = Some scope"
    using assms(1,2) slug_no_slash [OF assms(2)] by (auto simp: parse_marketplace_repo_key_def PUBLIC_MARKETPLACE_KEY_def)
  moreover have "marketplace_repo_url_path scope @ ''/info/refs'' =
      ''/'' @ MARKETPLACE_PATH_PREFIX @ ''/'' @ marketplace_repo_key scope @ ''.git/info/refs''"
    by (simp add: marketplace_repo_url_path_def)
  ultimately have "map_option gq_marketplace
      (parse_git_path (marketplace_repo_url_path scope @ ''/info/refs'') (Some ''git-upload-pack'')) = Some (Some scope)"
    using parse_info_refs [OF pre(1) key(1) pre(2) key(2)] by (simp add: build_request_def)
  moreover have "parse_marketplace_repo_key ns slug = None"
    using slug_no_slash [OF assms(2)] by (auto simp: parse_marketplace_repo_key_def MARKETPLACE_PATH_PREFIX_def)
  moreover have "parse_git_path (''/'' @ ns @ ''/'' @ slug @ ''.git/info/refs'') (Some ''git-upload-pack'') =
      build_request ns slug UploadPack False False"
    using slug_no_slash [OF assms(2)] slug_no_slash [OF assms(3)] by (intro parse_info_refs) blast+
  ultimately show ?thesis using slug_no_slash [OF assms(2)] by (simp add: build_request_def)
qed

theorem marketplace_path_roundtrip_witness:
  "map_option gq_marketplace
     (parse_git_path (marketplace_repo_url_path (NamespaceMarket ''docs'') @ ''/info/refs'') (Some ''git-upload-pack'')) =
     Some (Some (NamespaceMarket ''docs''))"
proof -
  have "slug_re ''docs''" "slug_re ''lint''" by code_simp+
  then show ?thesis using marketplace_path_roundtrip [of "NamespaceMarket ''docs''" "''docs''" "''lint''"] by blast
qed

section \<open>The limiter per installation\<close>

text \<open>A run of requests (token, time), and the specification: one fixed window per token.\<close>

fun run_hits :: "(ident \<times> int) list \<Rightarrow> token_limiter \<Rightarrow> (ident \<times> int \<times> bool) list" where
  "run_hits [] l = []"
| "run_hits ((k, t) # rs) l = (let (d, l') = hit k t l in (k, t, rd_ok d) # run_hits rs l')"

lemma run_hits_step [simp]:
  "run_hits ((k, t) # rs) l = (k, t, rd_ok (fst (hit k t l))) # run_hits rs (snd (hit k t l))"
  by (simp split: prod.split)

declare run_hits.simps(2) [simp del]

definition window_at :: "int \<Rightarrow> int \<Rightarrow> rate_window option \<Rightarrow> rate_window" where
  "window_at len t w =
     (case w of None \<Rightarrow> \<lparr>rw_count = 0, rw_reset = t + len\<rparr>
      | Some v \<Rightarrow> if rw_reset v \<le> t then \<lparr>rw_count = 0, rw_reset = t + len\<rparr> else v)"

fun single_run :: "nat \<Rightarrow> int \<Rightarrow> rate_window option \<Rightarrow> int list \<Rightarrow> (int \<times> bool) list" where
  "single_run mx len w [] = []"
| "single_run mx len w (t # ts) =
     (let v = window_at len t w; ok = rw_count v < mx
      in (t, ok) # single_run mx len (Some (if ok then v\<lparr>rw_count := Suc (rw_count v)\<rparr> else v)) ts)"

lemma hit_limits [simp]:
  "tl_max (snd (hit k t l)) = tl_max l" "tl_window (snd (hit k t l)) = tl_window l"
  by (simp_all add: hit_def sweep_def Let_def)

lemma current_window_eq: "current_window k t l = window_at (tl_window l) t (tl_windows l k)"
  by (simp add: current_window_def window_at_def)

lemma window_at_sweep: "t \<le> u \<Longrightarrow> window_at len u (tl_windows (sweep t l) k) = window_at len u (tl_windows l k)"
  by (auto simp: window_at_def sweep_def split: option.split)

lemma sweep_same [simp]: "tl_max (sweep t l) = tl_max l" "tl_window (sweep t l) = tl_window l"
  by (simp_all add: sweep_def)

lemma hit_ok: "rd_ok (fst (hit k t l)) \<longleftrightarrow> rw_count (window_at (tl_window l) t (tl_windows l k)) < tl_max l"
  using window_at_sweep [of t t "tl_window l" l k] by (auto simp: hit_def Let_def current_window_eq)

lemma hit_same_token:
  "tl_windows (snd (hit k t l)) k =
     (let v = window_at (tl_window l) t (tl_windows l k)
      in Some (if rw_count v < tl_max l then v\<lparr>rw_count := Suc (rw_count v)\<rparr> else v))"
  using window_at_sweep [of t t "tl_window l" l k] by (auto simp: hit_def Let_def current_window_eq)

lemma hit_other_token: "k' \<noteq> k \<Longrightarrow> tl_windows (snd (hit k t l)) k' = tl_windows (sweep t l) k'"
  by (simp add: hit_def Let_def)

text \<open>Requests of other tokens, and the sweep, never change what a token gets.\<close>

lemma hits_of_token:
  assumes "sorted (map snd rs)" "\<forall>r \<in> set rs. t0 \<le> snd r"
    and "\<forall>u \<ge> t0. window_at (tl_window l) u (tl_windows l k) = window_at (tl_window l) u w"
  shows "map snd (filter (\<lambda>r. fst r = k) (run_hits rs l)) =
         single_run (tl_max l) (tl_window l) w (map snd (filter (\<lambda>r. fst r = k) rs))"
  using assms
proof (induction rs arbitrary: l w t0)
  case (Cons r rs)
  obtain j t where r: "r = (j, t)" by (cases r)
  let ?l = "snd (hit j t l)"
  have t: "t0 \<le> t" "sorted (map snd rs)" "\<forall>r \<in> set rs. t \<le> snd r" using Cons.prems(1,2) r by auto
  have run: "run_hits (r # rs) l = (j, t, rd_ok (fst (hit j t l))) # run_hits rs ?l"
    by (simp add: r)
  show ?case
  proof (cases "j = k")
    case True
    let ?v = "window_at (tl_window l) t w"
    have v: "window_at (tl_window l) t (tl_windows l k) = ?v" using Cons.prems(3) t(1) by simp
    have "\<forall>u \<ge> t. window_at (tl_window ?l) u (tl_windows ?l k) =
        window_at (tl_window ?l) u (Some (if rw_count ?v < tl_max l then ?v\<lparr>rw_count := Suc (rw_count ?v)\<rparr> else ?v))"
      using hit_same_token [of k t l] v by (simp add: True Let_def)
    from Cons.IH [OF t(2,3) this] show ?thesis
      using v True hit_ok [of k t l] by (simp add: run r Let_def)
  next
    case False
    have "\<forall>u \<ge> t. window_at (tl_window ?l) u (tl_windows ?l k) = window_at (tl_window ?l) u w"
      using Cons.prems(3) t(1) hit_other_token [of k j t l] window_at_sweep False by auto
    from Cons.IH [OF t(2,3) this] show ?thesis using False by (simp add: run r)
  qed
qed simp

definition accepted_in :: "int \<Rightarrow> int \<Rightarrow> (int \<times> bool) list \<Rightarrow> nat" where
  "accepted_in a b xs = length (filter (\<lambda>x. snd x \<and> a \<le> fst x \<and> fst x < b) xs)"

lemma accepted_cons [simp]:
  "accepted_in a b [] = 0"
  "accepted_in a b ((t, ok) # xs) = (if ok \<and> a \<le> t \<and> t < b then 1 else 0) + accepted_in a b xs"
  by (simp_all add: accepted_in_def)

lemma accepted_none: "\<forall>t \<in> set ts. b \<le> t \<Longrightarrow> accepted_in a b (single_run mx len w ts) = 0"
  by (induction ts arbitrary: w) (auto simp: Let_def)

lemma accepted_window:
  assumes "sorted ts" "rw_count v \<le> mx" "b \<le> rw_reset v"
  shows "accepted_in a b (single_run mx len (Some v) ts) \<le> mx - rw_count v"
  using assms
proof (induction ts arbitrary: v)
  case (Cons t ts)
  show ?case
  proof (cases "t < rw_reset v")
    case True
    then have w: "window_at len t (Some v) = v" by (simp add: window_at_def)
    show ?thesis
      using Cons.IH [of v] Cons.IH [of "v\<lparr>rw_count := Suc (rw_count v)\<rparr>"] Cons.prems by (auto simp: w Let_def)
  next
    case False
    then have "\<forall>u \<in> set (t # ts). b \<le> u" using Cons.prems by auto
    then show ?thesis using accepted_none by (metis zero_le)
  qed
qed simp

lemma accepted_fresh:
  assumes "sorted (t # ts)" "window_at len t w = \<lparr>rw_count = 0, rw_reset = t + len\<rparr>" "b \<le> t + len"
  shows "accepted_in a b (single_run mx len w (t # ts)) \<le> mx"
proof -
  have "single_run mx len w (t # ts) = single_run mx len (Some \<lparr>rw_count = 0, rw_reset = t + len\<rparr>) (t # ts) \<or> len \<le> 0"
    by (simp add: assms(2)) (simp add: window_at_def)
  then show ?thesis
  proof
    assume "len \<le> 0"
    then have "\<forall>u \<in> set (t # ts). b \<le> u" using assms(1,3) by auto
    then show ?thesis using accepted_none by (metis zero_le)
  qed (use accepted_window [of "t # ts" "\<lparr>rw_count = 0, rw_reset = t + len\<rparr>" mx b a len] assms in simp)
qed

lemma accepted_sliding:
  assumes "sorted ts" "\<forall>t \<in> set ts. a \<le> t" "\<forall>v. w = Some v \<longrightarrow> rw_count v \<le> mx"
  shows "accepted_in a (a + len) (single_run mx len w ts) \<le>
           (case w of None \<Rightarrow> mx | Some v \<Rightarrow> (mx - rw_count v) + mx)"
  using assms
proof (induction ts arbitrary: w)
  case (Cons t ts)
  show ?case
  proof (cases "window_at len t w = \<lparr>rw_count = 0, rw_reset = t + len\<rparr>")
    case True
    have "accepted_in a (a + len) (single_run mx len w (t # ts)) \<le> mx"
      using Cons.prems by (intro accepted_fresh [OF _ True]) auto
    then show ?thesis by (auto split: option.split)
  next
    case False
    then obtain v where v: "w = Some v" "window_at len t w = v" by (cases w) (auto simp: window_at_def split: if_splits)
    show ?thesis
      using Cons.IH [of "Some v"] Cons.IH [of "Some (v\<lparr>rw_count := Suc (rw_count v)\<rparr>)"] Cons.prems v
      by (auto simp: Let_def)
  qed
qed (auto split: option.split)

lemma accepted_any:
  assumes "sorted ts" "\<forall>v. w = Some v \<longrightarrow> rw_count v \<le> mx"
  shows "accepted_in a (a + len) (single_run mx len w ts) \<le> 2 * mx"
  using assms
proof (induction ts arbitrary: w)
  case (Cons t ts)
  show ?case
  proof (cases "a \<le> t")
    case True
    have "accepted_in a (a + len) (single_run mx len w (t # ts)) \<le> (case w of None \<Rightarrow> mx | Some v \<Rightarrow> (mx - rw_count v) + mx)"
      using Cons.prems True by (intro accepted_sliding) auto
    then show ?thesis by (auto split: option.splits simp del: single_run.simps)
  next
    case False
    have "rw_count (window_at len t w) \<le> mx" using Cons.prems(2) by (auto simp: window_at_def split: option.split)
    then show ?thesis using Cons.IH Cons.prems(1) False by (auto simp: Let_def)
  qed
qed simp

text \<open>
  Whatever other installations do, in any interval as long as the window a token is served at most
  twice its quota, and its decisions are those of one fixed window fed with its own requests alone.
\<close>

theorem token_limiter_bounds:
  assumes "sorted (map snd rs)"
  shows "map snd (filter (\<lambda>r. fst r = k) (run_hits rs (new_limiter mx len))) =
           single_run mx len None (map snd (filter (\<lambda>r. fst r = k) rs)) \<and>
         length (filter (\<lambda>(j, t, ok). j = k \<and> ok \<and> a \<le> t \<and> t < a + len) (run_hits rs (new_limiter mx len))) \<le> 2 * mx"
proof -
  have base: "\<forall>r \<in> set rs. (if rs = [] then 0 else snd (hd rs)) \<le> snd r"
    using assms by (cases rs) auto
  have runs: "map snd (filter (\<lambda>r. fst r = k) (run_hits rs (new_limiter mx len))) =
      single_run mx len None (map snd (filter (\<lambda>r. fst r = k) rs))"
    using hits_of_token [OF assms base, of "new_limiter mx len" k None] by (simp add: new_limiter_def)
  have "sorted (map snd (filter (\<lambda>r. fst r = k) rs))" using assms by (rule sorted_filter)
  then have "accepted_in a (a + len) (map snd (filter (\<lambda>r. fst r = k) (run_hits rs (new_limiter mx len)))) \<le> 2 * mx"
    unfolding runs by (intro accepted_any) simp_all
  moreover have "length (filter (\<lambda>(j, t, ok). j = k \<and> ok \<and> a \<le> t \<and> t < a + len) xs) =
      accepted_in a (a + len) (map snd (filter (\<lambda>r. fst r = k) xs))" for xs :: "(ident \<times> int \<times> bool) list"
    by (induction xs) (auto simp: accepted_in_def)
  ultimately show ?thesis using runs by simp
qed

theorem token_limiter_bounds_witness:
  "map (\<lambda>(k, t, ok). ok) (run_hits [(''x'', 0), (''y'', 0), (''x'', 5), (''x'', 10)] (new_limiter 1 10)) =
     [True, True, False, True] \<and>
   length (filter (\<lambda>(j, t, ok). j = ''x'' \<and> ok \<and> 3 \<le> t \<and> t < 3 + 10)
     (run_hits [(''x'', 0), (''y'', 0), (''x'', 5), (''x'', 10)] (new_limiter 1 10))) \<le> 2 * 1"
proof -
  have s: "sorted (map snd [(''x'', 0::int), (''y'', 0), (''x'', 5), (''x'', 10)])" by simp
  have "map (\<lambda>(k, t, ok). ok) (run_hits [(''x'', 0), (''y'', 0), (''x'', 5), (''x'', 10)] (new_limiter 1 10)) =
     [True, True, False, True]" by code_simp
  then show ?thesis using token_limiter_bounds [OF s, of "''x''" 1 10 3] by simp
qed

end
