(* ===== verification/LineDiff.thy ===== *)
theory LineDiff
  imports Prelude
begin

text \<open>
  The line diff of the review page: \<open>packages/shared/src/linediff.ts\<close>. The table of LCS lengths is
  filled row by row from the bottom, the backtracking reads it by index, and the script is grouped
  into hunks with three lines of context.

  Table entries are at most the number of lines of a side, 2000 for a file that is diffed, so the
  \<open>Uint32Array\<close> of the source never wraps; they are natural numbers here.
\<close>

section \<open>The edit script\<close>

datatype diff_line_type = DiffContext | DiffAdd | DiffDel

record diff_line =
  dl_type :: diff_line_type
  dl_text :: string
  dl_old :: "nat option"
  dl_new :: "nat option"

record diff_hunk =
  hk_old_start :: nat
  hk_old_lines :: nat
  hk_new_start :: nat
  hk_new_lines :: nat
  hk_lines :: "diff_line list"

record line_diff =
  df_hunks :: "diff_hunk list"
  df_added :: nat
  df_removed :: nat

definition DIFF_MAX_LINES_PER_SIDE :: nat where
  "DIFF_MAX_LINES_PER_SIDE = 2000"

definition DIFF_CONTEXT :: nat where
  "DIFF_CONTEXT = 3"

definition split_lines :: "string \<Rightarrow> string list" where
  "split_lines s =
     (if s = [] then []
      else let lines = split_on (CHR 0x0A) s in if last lines = [] then butlast lines else lines)"

text \<open>Row \<open>i\<close> of the table from row \<open>i + 1\<close>, right to left.\<close>

fun dp_row :: "string \<Rightarrow> string list \<Rightarrow> nat list \<Rightarrow> nat list" where
  "dp_row x (y # ys) (below # right) =
     (let row = dp_row x ys right
      in (if x = y then hd right + 1 else max below (hd row)) # row)"
| "dp_row x ys below = [0]"

fun dp_table :: "string list \<Rightarrow> string list \<Rightarrow> nat list list" where
  "dp_table [] ys = [replicate (length ys + 1) 0]"
| "dp_table (x # xs) ys = (let below = dp_table xs ys in dp_row x ys (hd below) # below)"

definition context_line :: "string \<Rightarrow> nat \<Rightarrow> nat \<Rightarrow> diff_line" where
  "context_line s i j = \<lparr>dl_type = DiffContext, dl_text = s, dl_old = Some (i + 1), dl_new = Some (j + 1)\<rparr>"

definition del_line :: "string \<Rightarrow> nat \<Rightarrow> diff_line" where
  "del_line s i = \<lparr>dl_type = DiffDel, dl_text = s, dl_old = Some (i + 1), dl_new = None\<rparr>"

definition add_line :: "string \<Rightarrow> nat \<Rightarrow> diff_line" where
  "add_line s j = \<lparr>dl_type = DiffAdd, dl_text = s, dl_old = None, dl_new = Some (j + 1)\<rparr>"

text \<open>The backtracking loop at position \<open>(i, j)\<close>, and the two loops that drain a side.\<close>

function edit_script :: "nat list list \<Rightarrow> string list \<Rightarrow> string list \<Rightarrow> nat \<Rightarrow> nat \<Rightarrow> diff_line list" where
  "edit_script dp a b i j =
     (if i < length a \<and> j < length b then
        (if a ! i = b ! j then context_line (a ! i) i j # edit_script dp a b (i + 1) (j + 1)
         else if dp ! (i + 1) ! j \<ge> dp ! i ! (j + 1) then del_line (a ! i) i # edit_script dp a b (i + 1) j
         else add_line (b ! j) j # edit_script dp a b i (j + 1))
      else if i < length a then del_line (a ! i) i # edit_script dp a b (i + 1) j
      else if j < length b then add_line (b ! j) j # edit_script dp a b i (j + 1)
      else [])"
  by pat_completeness auto
termination
  by (relation "measure (\<lambda>(dp, a, b, i, j). (length a - i) + (length b - j))") auto

declare edit_script.simps [simp del]

section \<open>Hunks\<close>

definition changed_at :: "diff_line list \<Rightarrow> nat list" where
  "changed_at script = filter (\<lambda>k. dl_type (script ! k) \<noteq> DiffContext) [0..<length script]"

definition add_range :: "nat \<Rightarrow> (nat \<times> nat) list \<Rightarrow> nat \<Rightarrow> (nat \<times> nat) list" where
  "add_range n ranges k =
     (let s = k - DIFF_CONTEXT; e = min (n - 1) (k + DIFF_CONTEXT) in
      if ranges \<noteq> [] \<and> s \<le> snd (last ranges) + 1
      then butlast ranges @ [(fst (last ranges), max (snd (last ranges)) e)]
      else ranges @ [(s, e)])"

definition hunk_ranges :: "diff_line list \<Rightarrow> (nat \<times> nat) list" where
  "hunk_ranges script = foldl (add_range (length script)) [] (changed_at script)"

text \<open>\<open>script.slice(s, e + 1)\<close>.\<close>

definition slice :: "'a list \<Rightarrow> nat \<times> nat \<Rightarrow> 'a list" where
  "slice xs r = take (snd r + 1 - fst r) (drop (fst r) xs)"

definition first_number :: "nat option list \<Rightarrow> nat" where
  "first_number ns = (case find (\<lambda>n. n \<noteq> None) ns of Some (Some n) \<Rightarrow> n | _ \<Rightarrow> 0)"

definition make_hunk :: "diff_line list \<Rightarrow> diff_hunk" where
  "make_hunk lines =
     \<lparr>hk_old_start = first_number (map dl_old lines), hk_old_lines = length (filter (\<lambda>l. dl_type l \<noteq> DiffAdd) lines),
      hk_new_start = first_number (map dl_new lines), hk_new_lines = length (filter (\<lambda>l. dl_type l \<noteq> DiffDel) lines),
      hk_lines = lines\<rparr>"

definition group_hunks :: "diff_line list \<Rightarrow> diff_hunk list" where
  "group_hunks script = map (\<lambda>r. make_hunk (slice script r)) (hunk_ranges script)"

definition diff_script :: "string list \<Rightarrow> string list \<Rightarrow> diff_line list" where
  "diff_script a b = edit_script (dp_table a b) a b 0 0"

text \<open>\<open>None\<close> is the refusal \<open>too-large\<close>.\<close>

definition diff_lines :: "string \<Rightarrow> string \<Rightarrow> line_diff option" where
  "diff_lines old_text new_text =
     (let a = split_lines old_text; b = split_lines new_text in
      if length a > DIFF_MAX_LINES_PER_SIDE \<or> length b > DIFF_MAX_LINES_PER_SIDE then None
      else let script = diff_script a b in
        Some \<lparr>df_hunks = group_hunks script, df_added = length (filter (\<lambda>l. dl_type l = DiffAdd) script),
              df_removed = length (filter (\<lambda>l. dl_type l = DiffDel) script)\<rparr>)"

section \<open>The table holds the LCS lengths\<close>

fun lcs :: "'a list \<Rightarrow> 'a list \<Rightarrow> nat" where
  "lcs (x # xs) (y # ys) = (if x = y then lcs xs ys + 1 else max (lcs xs (y # ys)) (lcs (x # xs) ys))"
| "lcs xs ys = 0"

lemma lcs_Nil [simp]: "lcs [] ys = 0" "lcs xs [] = 0"
  by (cases ys; simp) (cases xs; simp)

lemma subseq_tl: "subseq c (x # xs) \<Longrightarrow> subseq (tl c) xs"
  by (cases c) (auto dest: subseq_Cons' split: if_splits)

lemma lcs_longest: "subseq c xs \<Longrightarrow> subseq c ys \<Longrightarrow> length c \<le> lcs xs ys"
proof (induction xs ys arbitrary: c rule: lcs.induct)
  case (1 x xs y ys)
  show ?case
  proof (cases "x = y")
    case True
    have "length (tl c) \<le> lcs xs ys"
      by (rule "1.IH"(1) [OF True subseq_tl [OF "1.prems"(1)] subseq_tl [OF "1.prems"(2)]])
    then show ?thesis using True by simp
  next
    case False
    show ?thesis
    proof (cases c)
      case (Cons z zs)
      then have "subseq c xs \<or> subseq c ys" using "1.prems" False by (auto split: if_splits)
      then show ?thesis using "1.IH"(2,3) [OF False] "1.prems" False by (auto simp: le_max_iff_disj)
    qed simp
  qed
qed auto

lemma dp_row_lcs:
  "below = map (\<lambda>j. lcs xs (drop j ys)) [0..<Suc (length ys)] \<Longrightarrow>
   dp_row x ys below = map (\<lambda>j. lcs (x # xs) (drop j ys)) [0..<Suc (length ys)]"
proof (induction ys arbitrary: below)
  case (Cons y ys)
  have shift: "map f [0..<Suc (Suc n)] = f 0 # map (\<lambda>j. f (Suc j)) [0..<Suc n]" for f :: "nat \<Rightarrow> nat" and n
    by (simp only: upt_conv_Cons map_Suc_upt [symmetric] list.map map_map o_def zero_less_Suc)
  have below: "below = lcs xs (y # ys) # map (\<lambda>j. lcs xs (drop j ys)) [0..<Suc (length ys)]"
    using Cons.prems shift [of "\<lambda>j. lcs xs (drop j (y # ys))" "length ys"] by simp
  have "hd (map (\<lambda>j. g (drop j ys)) [0..<Suc (length ys)]) = g ys" for g :: "string list \<Rightarrow> nat"
    by (simp add: hd_map upt_conv_Cons del: upt_Suc)
  then show ?case
    using Cons.IH [OF refl] shift [of "\<lambda>j. lcs (x # xs) (drop j (y # ys))" "length ys"]
    by (simp add: below Let_def del: upt_Suc)
qed simp

lemma dp_table_rows: "length (dp_table a b) = Suc (length a)"
  by (induction a) (simp_all add: Let_def)

lemma dp_table_lcs:
  "i \<le> length a \<Longrightarrow> j \<le> length b \<Longrightarrow> dp_table a b ! i ! j = lcs (drop i a) (drop j b)"
proof -
  have rows: "i \<le> length a \<Longrightarrow> dp_table a b ! i = map (\<lambda>j. lcs (drop i a) (drop j b)) [0..<Suc (length b)]" for i
  proof (induction a arbitrary: i)
    case Nil
    then show ?case by (simp add: map_replicate_const del: upt_Suc)
  next
    case (Cons x a)
    show ?case
    proof (cases i)
      case 0
      have "hd (dp_table a b) = dp_table a b ! 0"
        using dp_table_rows [of a b] by (cases "dp_table a b") simp_all
      then show ?thesis using Cons.IH [of 0] dp_row_lcs [of _ a b x] 0 by (simp add: Let_def del: upt_Suc)
    next
      case (Suc k)
      then show ?thesis using Cons by (simp add: Let_def del: upt_Suc)
    qed
  qed
  then show "i \<le> length a \<Longrightarrow> j \<le> length b \<Longrightarrow> dp_table a b ! i ! j = lcs (drop i a) (drop j b)"
    by (simp del: upt_Suc)
qed

section \<open>The script\<close>

lemma edit_script_sides:
  assumes "i \<le> length a" "j \<le> length b"
  shows "map dl_text (filter (\<lambda>l. dl_type l \<noteq> DiffAdd) (edit_script dp a b i j)) = drop i a \<and>
    map dl_text (filter (\<lambda>l. dl_type l \<noteq> DiffDel) (edit_script dp a b i j)) = drop j b \<and>
    map dl_old (filter (\<lambda>l. dl_type l \<noteq> DiffAdd) (edit_script dp a b i j)) = map Some [i + 1..<length a + 1] \<and>
    map dl_new (filter (\<lambda>l. dl_type l \<noteq> DiffDel) (edit_script dp a b i j)) = map Some [j + 1..<length b + 1]"
  using assms
proof (induction dp a b i j rule: edit_script.induct)
  case (1 dp a b i j)
  have upt: "i < length a \<Longrightarrow> [i + 1..<length a + 1] = (i + 1) # [i + 1 + 1..<length a + 1]"
    "j < length b \<Longrightarrow> [j + 1..<length b + 1] = (j + 1) # [j + 1 + 1..<length b + 1]"
    by (simp_all add: upt_conv_Cons del: upt_Suc)
  have dr: "i < length a \<Longrightarrow> drop i a = a ! i # drop (i + 1) a" "j < length b \<Longrightarrow> drop j b = b ! j # drop (j + 1) b"
    by (simp_all add: Cons_nth_drop_Suc)
  consider (match) "i < length a" "j < length b" "a ! i = b ! j"
    | (del) "i < length a" "j < length b" "a ! i \<noteq> b ! j" "dp ! (i + 1) ! j \<ge> dp ! i ! (j + 1)"
    | (add) "i < length a" "j < length b" "a ! i \<noteq> b ! j" "\<not> dp ! (i + 1) ! j \<ge> dp ! i ! (j + 1)"
    | (rest_a) "i < length a" "\<not> j < length b" | (rest_b) "\<not> i < length a" "j < length b"
    | (fin) "\<not> i < length a" "\<not> j < length b"
    by blast
  then show ?case
  proof cases
    case match
    then show ?thesis using "1.IH"(1) "1.prems" upt dr
      by (subst edit_script.simps) (simp add: context_line_def edit_script.simps [of dp a b i j] del: upt_Suc)
  next
    case del
    then show ?thesis using "1.IH"(2) "1.prems" upt dr
      by (simp add: del_line_def edit_script.simps [of dp a b i j] del: upt_Suc)
  next
    case add
    then show ?thesis using "1.IH"(3) "1.prems" upt dr
      by (simp add: add_line_def edit_script.simps [of dp a b i j] del: upt_Suc)
  next
    case rest_a
    then have "edit_script dp a b i j = del_line (a ! i) i # edit_script dp a b (i + 1) j" by (subst edit_script.simps) simp
    then show ?thesis using rest_a "1.IH"(4) "1.prems" upt dr by (simp add: del_line_def del: upt_Suc)
  next
    case rest_b
    then have "edit_script dp a b i j = add_line (b ! j) j # edit_script dp a b i (j + 1)" by (subst edit_script.simps) simp
    then show ?thesis using rest_b "1.IH"(5) "1.prems" upt dr by (simp add: add_line_def del: upt_Suc)
  next
    case fin
    then have "edit_script dp a b i j = []" by (subst edit_script.simps) simp
    then show ?thesis using fin "1.prems" by simp
  qed
qed

lemma edit_script_context:
  assumes "i \<le> length a" "j \<le> length b"
  shows "length (filter (\<lambda>l. dl_type l = DiffContext) (edit_script (dp_table a b) a b i j)) = lcs (drop i a) (drop j b)"
  using assms
proof (induction "dp_table a b" a b i j rule: edit_script.induct)
  case (1 a b i j)
  have dr: "i < length a \<Longrightarrow> drop i a = a ! i # drop (i + 1) a" "j < length b \<Longrightarrow> drop j b = b ! j # drop (j + 1) b"
    by (simp_all add: Cons_nth_drop_Suc)
  have tab: "i < length a \<Longrightarrow> dp_table a b ! (i + 1) ! j = lcs (drop (i + 1) a) (drop j b)"
    "j < length b \<Longrightarrow> dp_table a b ! i ! (j + 1) = lcs (drop i a) (drop (j + 1) b)"
    using "1.prems" by (simp_all add: dp_table_lcs)
  consider (match) "i < length a" "j < length b" "a ! i = b ! j"
    | (del) "i < length a" "j < length b" "a ! i \<noteq> b ! j" "dp_table a b ! (i + 1) ! j \<ge> dp_table a b ! i ! (j + 1)"
    | (add) "i < length a" "j < length b" "a ! i \<noteq> b ! j" "\<not> dp_table a b ! (i + 1) ! j \<ge> dp_table a b ! i ! (j + 1)"
    | (rest_a) "i < length a" "\<not> j < length b" | (rest_b) "\<not> i < length a" "j < length b"
    | (fin) "\<not> i < length a" "\<not> j < length b"
    by blast
  then show ?case
  proof cases
    case match
    then show ?thesis using "1.hyps"(1) "1.prems" dr
      by (simp add: context_line_def edit_script.simps [of "dp_table a b" a b i j])
  next
    case del
    then have "lcs (drop i a) (drop j b) = lcs (drop (i + 1) a) (drop j b)" using dr tab by simp
    then show ?thesis using del "1.hyps"(2) "1.prems"
      by (simp add: del_line_def edit_script.simps [of "dp_table a b" a b i j])
  next
    case add
    then have "lcs (drop i a) (drop j b) = lcs (drop i a) (drop (j + 1) b)" using dr tab by simp
    then show ?thesis using add "1.hyps"(3) "1.prems"
      by (simp add: add_line_def edit_script.simps [of "dp_table a b" a b i j])
  next
    case rest_a
    then have "edit_script (dp_table a b) a b i j = del_line (a ! i) i # edit_script (dp_table a b) a b (i + 1) j" by (subst edit_script.simps) simp
    then show ?thesis using rest_a "1.hyps"(4) "1.prems" by (simp add: del_line_def)
  next
    case rest_b
    then have "edit_script (dp_table a b) a b i j = add_line (b ! j) j # edit_script (dp_table a b) a b i (j + 1)" by (subst edit_script.simps) simp
    then show ?thesis using rest_b "1.hyps"(5) "1.prems" by (simp add: add_line_def)
  next
    case fin
    then have "edit_script (dp_table a b) a b i j = []" by (subst edit_script.simps) simp
    then show ?thesis using fin "1.prems" by simp
  qed
qed

section \<open>The hunks\<close>

lemma nths_split_lt: "(\<And>a b. a \<in> A \<Longrightarrow> b \<in> B \<Longrightarrow> a < b) \<Longrightarrow> nths xs (A \<union> B) = nths xs A @ nths xs B"
proof (induction xs rule: rev_induct)
  case (snoc x xs)
  have "length xs \<in> A \<Longrightarrow> nths xs B = []"
    using snoc.prems by (fastforce simp: nths_def filter_empty_conv in_set_zip)
  then show ?case using snoc by (auto simp: nths_append nths_Cons)
qed simp

lemma slice_nths: "fst r \<le> snd r + 1 \<Longrightarrow> slice xs r = nths xs {fst r..snd r}"
proof -
  assume le: "fst r \<le> snd r + 1"
  have "{..<snd r + 1} = {..<fst r} \<union> {fst r..snd r}" using le by auto
  moreover have "nths xs ({..<fst r} \<union> {fst r..snd r}) = nths xs {..<fst r} @ nths xs {fst r..snd r}"
    by (rule nths_split_lt) auto
  ultimately have "take (snd r + 1) xs = take (fst r) xs @ nths xs {fst r..snd r}"
    by (metis nths_upt_eq_take)
  moreover have "take (snd r + 1) xs = take (fst r) xs @ slice xs r"
    using le take_add [of "fst r" "snd r + 1 - fst r" xs] by (simp add: slice_def)
  ultimately show ?thesis by simp
qed

lemma filter_nths: "(\<And>i. i < length xs \<Longrightarrow> P (xs ! i) \<Longrightarrow> i \<in> A) \<Longrightarrow> filter P (nths xs A) = filter P xs"
proof (induction xs rule: rev_induct)
  case (snoc x xs)
  have "filter P (nths xs A) = filter P xs"
    using snoc.prems by (intro snoc.IH) (metis append_Cons_eq_iff length_append_singleton less_Suc_eq nth_append)
  moreover have "P x \<Longrightarrow> length xs \<in> A" using snoc.prems [of "length xs"] by simp
  ultimately show ?case by (auto simp: nths_append)
qed simp

definition ranges_ok :: "nat \<Rightarrow> (nat \<times> nat) list \<Rightarrow> bool" where
  "ranges_ok n rs = (sorted_wrt (\<lambda>r r'. snd r + 1 < fst r') rs \<and> (\<forall>r \<in> set rs. fst r \<le> snd r \<and> snd r < n))"

lemma ranges_ok_last:
  assumes "ranges_ok n rs" "rs \<noteq> []"
  shows "\<forall>r \<in> set (butlast rs). snd r + 1 < fst (last rs)" "fst (last rs) \<le> snd (last rs)" "snd (last rs) < n"
    "ranges_ok n (butlast rs)"
proof -
  obtain rs' r where "rs = rs' @ [r]" using assms(2) by (metis append_butlast_last_id)
  then show "\<forall>r \<in> set (butlast rs). snd r + 1 < fst (last rs)" "fst (last rs) \<le> snd (last rs)" "snd (last rs) < n"
    "ranges_ok n (butlast rs)"
    using assms(1) by (auto simp: ranges_ok_def sorted_wrt_append)
qed

lemma add_range_ok:
  assumes ok: "ranges_ok n rs" and k: "k < n" "\<forall>r \<in> set rs. fst r \<le> k"
  shows "ranges_ok n (add_range n rs k) \<and> (\<forall>r \<in> set (add_range n rs k). fst r \<le> k) \<and>
    (\<exists>r \<in> set (add_range n rs k). fst r \<le> k \<and> k \<le> snd r) \<and>
    (\<forall>i. (\<exists>r \<in> set rs. fst r \<le> i \<and> i \<le> snd r) \<longrightarrow> (\<exists>r \<in> set (add_range n rs k). fst r \<le> i \<and> i \<le> snd r))"
proof (cases "rs \<noteq> [] \<and> k - DIFF_CONTEXT \<le> snd (last rs) + 1")
  case True
  let ?e = "min (n - 1) (k + DIFF_CONTEXT)"
  have e: "k \<le> ?e" "?e < n" using k(1) by (simp_all add: DIFF_CONTEXT_def)
  have eq: "add_range n rs k = butlast rs @ [(fst (last rs), max (snd (last rs)) ?e)]"
    using True by (simp add: add_range_def Let_def)
  have l: "fst (last rs) \<le> k" "rs = butlast rs @ [last rs]" using True k(2) by simp_all
  have "(\<exists>r \<in> set (add_range n rs k). fst r \<le> i \<and> i \<le> snd r)" if "\<exists>r \<in> set rs. fst r \<le> i \<and> i \<le> snd r" for i
  proof -
    from that obtain r where r: "r \<in> set (butlast rs @ [last rs])" "fst r \<le> i" "i \<le> snd r" using l(2) by metis
    then show ?thesis unfolding eq by (auto simp: le_max_iff_disj)
  qed
  moreover have "ranges_ok n (add_range n rs k)"
    using ranges_ok_last [OF ok] True e unfolding eq by (auto simp: ranges_ok_def sorted_wrt_append)
  moreover have "\<forall>r \<in> set (add_range n rs k). fst r \<le> k"
    using k(2) l(1) True unfolding eq by (auto dest: in_set_butlastD)
  moreover have "\<exists>r \<in> set (add_range n rs k). fst r \<le> k \<and> k \<le> snd r"
    using l(1) e(1) unfolding eq by (auto simp: le_max_iff_disj)
  ultimately show ?thesis by blast
next
  case False
  let ?s = "k - DIFF_CONTEXT" and ?e = "min (n - 1) (k + DIFF_CONTEXT)"
  have e: "?s \<le> k" "k \<le> ?e" "?e < n" using k(1) by (simp_all add: DIFF_CONTEXT_def)
  have eq: "add_range n rs k = rs @ [(?s, ?e)]"
    using False by (auto simp: add_range_def Let_def)
  have "snd r + 1 < ?s" if "r \<in> set rs" for r
  proof -
    have ne: "rs \<noteq> []" using that by auto
    then have "r \<in> set (butlast rs @ [last rs])" using that by simp
    then have "r \<in> set (butlast rs) \<or> r = last rs" by auto
    moreover have "snd r \<le> snd (last rs)" if "r \<in> set (butlast rs)"
      using ranges_ok_last(1) [OF ok ne] ranges_ok_last(2) [OF ok ne] that by fastforce
    ultimately have "snd r \<le> snd (last rs)" by auto
    then show ?thesis using False ne by simp
  qed
  then have "ranges_ok n (add_range n rs k)"
    using ok e unfolding eq by (auto simp: ranges_ok_def sorted_wrt_append)
  then show ?thesis using k(2) e unfolding eq by auto
qed

lemma hunk_ranges_spec:
  "ranges_ok (length script) (hunk_ranges script) \<and>
   (\<forall>k \<in> set (changed_at script). \<exists>r \<in> set (hunk_ranges script). fst r \<le> k \<and> k \<le> snd r)"
proof -
  let ?n = "length script"
  have all: "ranges_ok ?n (foldl (add_range ?n) rs ks) \<and>
    (\<forall>i. i \<in> set ks \<or> (\<exists>r \<in> set rs. fst r \<le> i \<and> i \<le> snd r) \<longrightarrow>
       (\<exists>r \<in> set (foldl (add_range ?n) rs ks). fst r \<le> i \<and> i \<le> snd r))"
    if "ranges_ok ?n rs" "sorted ks" "\<forall>k \<in> set ks. k < ?n" "\<forall>r \<in> set rs. \<forall>k \<in> set ks. fst r \<le> k" for rs ks
    using that
  proof (induction ks arbitrary: rs)
    case (Cons k ks)
    have add: "ranges_ok ?n (add_range ?n rs k)" "\<forall>r \<in> set (add_range ?n rs k). fst r \<le> k"
      "\<exists>r \<in> set (add_range ?n rs k). fst r \<le> k \<and> k \<le> snd r"
      "\<forall>i. (\<exists>r \<in> set rs. fst r \<le> i \<and> i \<le> snd r) \<longrightarrow> (\<exists>r \<in> set (add_range ?n rs k). fst r \<le> i \<and> i \<le> snd r)"
      using add_range_ok [of ?n rs k] Cons.prems by auto
    have below: "\<forall>r \<in> set (add_range ?n rs k). \<forall>j \<in> set ks. fst r \<le> j"
      using add(2) Cons.prems(2) by fastforce
    have ks: "sorted ks" "\<forall>k \<in> set ks. k < ?n" using Cons.prems(2,3) by simp_all
    note IH = Cons.IH [OF add(1) ks below]
    have ih: "ranges_ok ?n (foldl (add_range ?n) (add_range ?n rs k) ks)"
      "\<And>i. i \<in> set ks \<or> (\<exists>r \<in> set (add_range ?n rs k). fst r \<le> i \<and> i \<le> snd r) \<Longrightarrow>
        \<exists>r \<in> set (foldl (add_range ?n) (add_range ?n rs k) ks). fst r \<le> i \<and> i \<le> snd r"
      by (rule conjunct1 [OF IH]) (rule conjunct2 [OF IH, THEN spec, THEN mp])
    have "\<exists>r \<in> set (foldl (add_range ?n) (add_range ?n rs k) ks). fst r \<le> i \<and> i \<le> snd r"
      if "i \<in> set (k # ks) \<or> (\<exists>r \<in> set rs. fst r \<le> i \<and> i \<le> snd r)" for i
    proof (cases "i = k")
      case True
      then show ?thesis using ih(2) add(3) by blast
    next
      case False
      then have "i \<in> set ks \<or> (\<exists>r \<in> set rs. fst r \<le> i \<and> i \<le> snd r)" using that by simp
      then show ?thesis using ih(2) add(4) by blast
    qed
    then show ?case using ih(1) by simp
  qed auto
  have "sorted (changed_at script)" unfolding changed_at_def by (intro sorted_wrt_filter) simp
  moreover have "\<forall>k \<in> set (changed_at script). k < ?n" by (simp add: changed_at_def)
  ultimately have sp: "ranges_ok ?n (foldl (add_range ?n) [] (changed_at script)) \<and>
    (\<forall>i. i \<in> set (changed_at script) \<or> (\<exists>r \<in> set []. fst r \<le> i \<and> i \<le> snd r) \<longrightarrow>
       (\<exists>r \<in> set (foldl (add_range ?n) [] (changed_at script)). fst r \<le> i \<and> i \<le> snd r))"
    by (intro all) (simp_all add: ranges_ok_def)
  have "\<exists>r \<in> set (hunk_ranges script). fst r \<le> k \<and> k \<le> snd r" if "k \<in> set (changed_at script)" for k
    using conjunct2 [OF sp, THEN spec, of k] that unfolding hunk_ranges_def by blast
  then show ?thesis using conjunct1 [OF sp] unfolding hunk_ranges_def by blast
qed

lemma concat_slices:
  assumes "ranges_ok n rs"
  shows "concat (map (slice xs) rs) = nths xs (\<Union>r \<in> set rs. {fst r..snd r})"
  using assms
proof (induction rs)
  case (Cons r rs)
  have r: "fst r \<le> snd r + 1" "ranges_ok n rs" "\<forall>r' \<in> set rs. snd r + 1 < fst r'"
    using Cons.prems by (auto simp: ranges_ok_def)
  have "nths xs ({fst r..snd r} \<union> (\<Union>r \<in> set rs. {fst r..snd r})) =
      nths xs {fst r..snd r} @ nths xs (\<Union>r \<in> set rs. {fst r..snd r})"
    using r(3) by (intro nths_split_lt) force
  then show ?case using Cons.IH [OF r(2)] slice_nths [OF r(1)] by simp
qed simp

lemma hunks_changed:
  "filter (\<lambda>l. dl_type l \<noteq> DiffContext) (concat (map hk_lines (group_hunks script))) =
   filter (\<lambda>l. dl_type l \<noteq> DiffContext) script"
proof -
  have "concat (map hk_lines (group_hunks script)) = concat (map (slice script) (hunk_ranges script))"
    by (simp add: group_hunks_def make_hunk_def o_def)
  also have "\<dots> = nths script (\<Union>r \<in> set (hunk_ranges script). {fst r..snd r})"
    using hunk_ranges_spec by (intro concat_slices) blast
  finally show ?thesis
    using hunk_ranges_spec [of script] by (simp, intro filter_nths) (fastforce simp: changed_at_def)
qed

section \<open>The diff of two texts\<close>

definition count_type :: "diff_line_type \<Rightarrow> diff_line list \<Rightarrow> nat" where
  "count_type t ls = length (filter (\<lambda>l. dl_type l = t) ls)"

lemma count_sides:
  "length (filter (\<lambda>l. dl_type l \<noteq> DiffAdd) ls) = count_type DiffContext ls + count_type DiffDel ls"
  "length (filter (\<lambda>l. dl_type l \<noteq> DiffDel) ls) = count_type DiffContext ls + count_type DiffAdd ls"
proof (induction ls)
  case (Cons l ls)
  { case 1 then show ?case using Cons by (cases "dl_type l") (auto simp: count_type_def) }
  { case 2 then show ?case using Cons by (cases "dl_type l") (auto simp: count_type_def) }
qed (simp_all add: count_type_def)

text \<open>What a reviewer may rely on: \<open>script\<close> reads as the old file without its additions and as the
  new file without its deletions, line numbers included, and its unchanged lines are a longest
  common subsequence of the two files.\<close>

definition is_edit_script :: "string list \<Rightarrow> string list \<Rightarrow> diff_line list \<Rightarrow> bool" where
  "is_edit_script a b script \<longleftrightarrow>
     map (\<lambda>l. (dl_old l, dl_text l)) (filter (\<lambda>l. dl_type l \<noteq> DiffAdd) script) =
       zip (map Some [1..<length a + 1]) a \<and>
     map (\<lambda>l. (dl_new l, dl_text l)) (filter (\<lambda>l. dl_type l \<noteq> DiffDel) script) =
       zip (map Some [1..<length b + 1]) b"

lemma map_pair_zip: "map (\<lambda>x. (f x, g x)) xs = zip (map f xs) (map g xs)"
  by (induction xs) simp_all

lemma diff_script_is_edit_script: "is_edit_script a b (diff_script a b)"
  using edit_script_sides [of 0 a 0 b "dp_table a b"]
  by (simp add: is_edit_script_def diff_script_def map_pair_zip del: upt_Suc)

lemma diff_script_counts:
  "count_type DiffContext (diff_script a b) = lcs a b"
  "count_type DiffDel (diff_script a b) + lcs a b = length a"
  "count_type DiffAdd (diff_script a b) + lcs a b = length b"
proof -
  show c: "count_type DiffContext (diff_script a b) = lcs a b"
    using edit_script_context [of 0 a 0 b] by (simp add: count_type_def diff_script_def)
  have "map dl_text (filter (\<lambda>l. dl_type l \<noteq> DiffAdd) (diff_script a b)) = a"
    "map dl_text (filter (\<lambda>l. dl_type l \<noteq> DiffDel) (diff_script a b)) = b"
    using edit_script_sides [of 0 a 0 b "dp_table a b"] by (simp_all add: diff_script_def)
  then have "length (filter (\<lambda>l. dl_type l \<noteq> DiffAdd) (diff_script a b)) = length a"
    "length (filter (\<lambda>l. dl_type l \<noteq> DiffDel) (diff_script a b)) = length b"
    by (metis length_map)+
  then show "count_type DiffDel (diff_script a b) + lcs a b = length a"
    "count_type DiffAdd (diff_script a b) + lcs a b = length b"
    using c by (simp_all add: count_sides)
qed

text \<open>
  C37: A diff of two files that fit the cap is correct and minimal. Some edit script between the
  old and the new lines, numbered from 1 on each side, has exactly the changed lines the hunks show,
  in their order, and the reported counts; and together with any common subsequence of the two files
  the counted additions and deletions take no more lines than the files have, so no shorter script
  exists.\<close>

theorem diff_lines_correct:
  assumes "diff_lines old_text new_text = Some d"
    and "subseq c (split_lines old_text)" and "subseq c (split_lines new_text)"
  shows "\<exists>script. is_edit_script (split_lines old_text) (split_lines new_text) script \<and>
    filter (\<lambda>l. dl_type l \<noteq> DiffContext) (concat (map hk_lines (df_hunks d))) =
      filter (\<lambda>l. dl_type l \<noteq> DiffContext) script \<and>
    df_added d = count_type DiffAdd script \<and> df_removed d = count_type DiffDel script \<and>
    df_added d + df_removed d + 2 * length c \<le> length (split_lines old_text) + length (split_lines new_text)"
proof -
  let ?a = "split_lines old_text" and ?b = "split_lines new_text"
  let ?s = "diff_script ?a ?b"
  have d: "df_hunks d = group_hunks ?s" "df_added d = count_type DiffAdd ?s" "df_removed d = count_type DiffDel ?s"
    using assms(1) by (auto simp: diff_lines_def Let_def count_type_def split: if_splits)
  have "length c \<le> lcs ?a ?b" by (rule lcs_longest [OF assms(2,3)])
  then have "df_added d + df_removed d + 2 * length c \<le> length ?a + length ?b"
    using diff_script_counts [of ?a ?b] d by linarith
  then show ?thesis
    using diff_script_is_edit_script [of ?a ?b] hunks_changed [of ?s] d by (intro exI [of _ ?s]) simp
qed

definition sample_old :: string where
  "sample_old = ''a'' @ [CHR 0x0A] @ ''b'' @ [CHR 0x0A]"

definition sample_new :: string where
  "sample_new = ''a'' @ [CHR 0x0A] @ ''c''"

lemma sample_lines: "split_lines sample_old = [''a'', ''b'']" "split_lines sample_new = [''a'', ''c'']"
  by code_simp+

lemma sample_diff: "diff_lines sample_old sample_new =
  Some \<lparr>df_hunks = [\<lparr>hk_old_start = 1, hk_old_lines = 2, hk_new_start = 1, hk_new_lines = 2,
    hk_lines = [context_line ''a'' 0 0, del_line ''b'' 1, add_line ''c'' 1]\<rparr>], df_added = 1, df_removed = 1\<rparr>"
  by code_simp

lemma diff_lines_correct_witness:
  "\<exists>d. diff_lines sample_old sample_new = Some d \<and> df_added d + df_removed d + 2 \<le> 4"
  using diff_lines_correct [OF sample_diff, of "[''a'']"] sample_diff
  by (simp add: sample_lines)

end
