(* ===== verification/OAuthPolicy.thy ===== *)
theory OAuthPolicy
  imports Store
begin

text \<open>
  The pure half of the OAuth 2.1 authorization server: \<open>packages/shared/src/oauth.ts\<close>. PKCE, redirect
  URIs, resource indicators, lifetimes, the bounds of the platform settings, dynamic client
  registration and the metadata documents.

  The runtime's WHATWG URL parser is the argument \<open>parse\<close> (\<open>None\<close> when \<open>new URL\<close> throws), SHA-256 in
  base64url the argument \<open>s256\<close>; what the code reads of a parsed URL is the record \<open>web_url\<close>.
\<close>

section \<open>Values off the wire\<close>

text \<open>A JavaScript \<open>unknown\<close>: \<open>JsOther\<close> is a number that is no integer, or an object.\<close>

datatype js_value =
    JsUndefined | JsNull | JsBool bool | JsInteger int | JsText string | JsArray "js_value list" | JsOther

record web_url =
  wu_protocol :: string
  wu_host :: string
  wu_path :: string
  wu_search :: string
  wu_hash :: string
  wu_origin :: string

type_synonym url_parser = "string \<Rightarrow> web_url option"

definition strip_trailing_slashes :: "string \<Rightarrow> string" where
  "strip_trailing_slashes s = rev (dropWhile (\<lambda>c. c = CHR ''/'') (rev s))"

section \<open>Settings\<close>

definition MCP_SCOPE :: string where "MCP_SCOPE = ''mcp''"

definition AUTH_CODE_TTL_SECONDS :: int where "AUTH_CODE_TTL_SECONDS = 60"

definition PKCE_METHOD :: string where "PKCE_METHOD = ''S256''"

text \<open>Bounds and default of a setting, in its unit.\<close>

record setting_bounds =
  sb_min :: int
  sb_max :: int
  sb_default :: int

definition MCP_ACCESS_TTL_MINUTES :: setting_bounds where
  "MCP_ACCESS_TTL_MINUTES = \<lparr>sb_min = 5, sb_max = 1440, sb_default = 60\<rparr>"

definition MCP_REFRESH_TTL_DAYS :: setting_bounds where
  "MCP_REFRESH_TTL_DAYS = \<lparr>sb_min = 1, sb_max = 365, sb_default = 90\<rparr>"

definition MCP_INLINE_UPLOAD_BYTES :: setting_bounds where
  "MCP_INLINE_UPLOAD_BYTES = \<lparr>sb_min = 64 * 1024, sb_max = 32 * 1024 * 1024, sb_default = 2 * 1024 * 1024\<rparr>"

definition MCP_RESOURCE_BYTES :: setting_bounds where
  "MCP_RESOURCE_BYTES = \<lparr>sb_min = 64 * 1024, sb_max = 16 * 1024 * 1024, sb_default = 1024 * 1024\<rparr>"

definition coerce_int_in_range :: "js_value \<Rightarrow> setting_bounds \<Rightarrow> int" where
  "coerce_int_in_range v b =
     (case v of JsInteger n \<Rightarrow> if sb_min b \<le> n \<and> n \<le> sb_max b then n else sb_default b
      | _ \<Rightarrow> sb_default b)"

definition coerce_mcp_enabled :: "js_value \<Rightarrow> bool" where
  "coerce_mcp_enabled v = (v \<noteq> JsBool False)"

definition coerce_mcp_access_ttl_minutes :: "js_value \<Rightarrow> int" where
  "coerce_mcp_access_ttl_minutes v = coerce_int_in_range v MCP_ACCESS_TTL_MINUTES"

definition coerce_mcp_refresh_ttl_days :: "js_value \<Rightarrow> int" where
  "coerce_mcp_refresh_ttl_days v = coerce_int_in_range v MCP_REFRESH_TTL_DAYS"

definition coerce_mcp_inline_upload_bytes :: "js_value \<Rightarrow> int" where
  "coerce_mcp_inline_upload_bytes v = coerce_int_in_range v MCP_INLINE_UPLOAD_BYTES"

definition coerce_mcp_resource_bytes :: "js_value \<Rightarrow> int" where
  "coerce_mcp_resource_bytes v = coerce_int_in_range v MCP_RESOURCE_BYTES"

text \<open>The admin panel's side: \<open>None\<close> is the thrown message.\<close>

definition assert_in_bounds :: "setting_bounds \<Rightarrow> js_value \<Rightarrow> int option" where
  "assert_in_bounds b v =
     (case v of JsInteger n \<Rightarrow> if n < sb_min b \<or> n > sb_max b then None else Some n | _ \<Rightarrow> None)"

definition assert_mcp_access_ttl_minutes :: "js_value \<Rightarrow> int option" where
  "assert_mcp_access_ttl_minutes = assert_in_bounds MCP_ACCESS_TTL_MINUTES"

definition assert_mcp_refresh_ttl_days :: "js_value \<Rightarrow> int option" where
  "assert_mcp_refresh_ttl_days = assert_in_bounds MCP_REFRESH_TTL_DAYS"

definition assert_mcp_inline_upload_bytes :: "js_value \<Rightarrow> int option" where
  "assert_mcp_inline_upload_bytes = assert_in_bounds MCP_INLINE_UPLOAD_BYTES"

definition assert_mcp_resource_bytes :: "js_value \<Rightarrow> int option" where
  "assert_mcp_resource_bytes = assert_in_bounds MCP_RESOURCE_BYTES"

section \<open>PKCE\<close>

definition verifier_char :: "char \<Rightarrow> bool" where
  "verifier_char c = (is_alnum c \<or> c \<in> {CHR ''-'', CHR ''.'', CHR ''_'', CHR ''~''})"

definition pkce_challenge :: "(string \<Rightarrow> string) \<Rightarrow> string \<Rightarrow> string" where
  "pkce_challenge s256 verifier = s256 verifier"

definition verify_pkce :: "(string \<Rightarrow> string) \<Rightarrow> string \<Rightarrow> string \<Rightarrow> bool" where
  "verify_pkce s256 verifier challenge =
     (if \<not> (43 \<le> length verifier \<and> length verifier \<le> 128 \<and> list_all verifier_char verifier) then False
      else if challenge = [] then False
      else pkce_challenge s256 verifier = challenge)"

section \<open>Redirect URIs\<close>

definition is_loopback_http :: "web_url \<Rightarrow> bool" where
  "is_loopback_http u = (wu_protocol u = ''http:'' \<and> wu_host u \<in> {''127.0.0.1'', ''[::1]'', ''::1''})"

definition REFUSED_REDIRECT_SCHEMES :: "string list" where
  "REFUSED_REDIRECT_SCHEMES = [''javascript:'', ''data:'', ''vbscript:'', ''file:'', ''blob:'', ''about:'']"

datatype redirect_error =
    RedirectEmpty | RedirectWildcard | RedirectUnparsable | RedirectFragment | RedirectScheme string
  | RedirectLocalhost | RedirectPlainHttp | RedirectUnsupported string

text \<open>The pattern of a scheme with its colon.\<close>

definition scheme_shaped :: "string \<Rightarrow> bool" where
  "scheme_shaped p =
     (p \<noteq> [] \<and> last p = CHR '':'' \<and> butlast p \<noteq> [] \<and> is_alpha (hd p) \<and>
      list_all (\<lambda>c. is_alnum c \<or> c \<in> {CHR ''+'', CHR ''.'', CHR ''-''}) (butlast p))"

definition validate_redirect_uri :: "url_parser \<Rightarrow> string \<Rightarrow> redirect_error option" where
  "validate_redirect_uri parse raw =
     (if js_trim raw = [] then Some RedirectEmpty
      else if CHR ''*'' \<in> set raw then Some RedirectWildcard
      else case parse raw of
        None \<Rightarrow> Some RedirectUnparsable
      | Some u \<Rightarrow>
          if wu_hash u \<noteq> [] then Some RedirectFragment
          else if js_lower (wu_protocol u) \<in> set REFUSED_REDIRECT_SCHEMES then Some (RedirectScheme (wu_protocol u))
          else if wu_protocol u = ''https:'' then None
          else if wu_protocol u = ''http:'' then
            (if wu_host u = ''localhost'' then Some RedirectLocalhost
             else if is_loopback_http u then None else Some RedirectPlainHttp)
          else if scheme_shaped (wu_protocol u) \<and> length raw > length (wu_protocol u) + 1 then None
          else Some (RedirectUnsupported (wu_protocol u)))"

definition redirect_uri_allowed :: "url_parser \<Rightarrow> string list \<Rightarrow> string \<Rightarrow> bool" where
  "redirect_uri_allowed parse registered requested =
     (if requested \<in> set registered then True
      else case parse requested of
        None \<Rightarrow> False
      | Some req \<Rightarrow>
          if \<not> is_loopback_http req then False
          else list_ex (\<lambda>r. case parse r of
                 None \<Rightarrow> False
               | Some reg \<Rightarrow> is_loopback_http reg \<and> wu_host reg = wu_host req \<and> wu_path reg = wu_path req \<and>
                             wu_search reg = wu_search req) registered)"

definition resource_matches :: "url_parser \<Rightarrow> string \<Rightarrow> string option \<Rightarrow> bool" where
  "resource_matches parse canonical requested =
     (if \<not> truthy requested then True
      else case (parse (the requested), parse canonical) of
        (Some want, Some mine) \<Rightarrow>
          if js_lower (wu_origin want) \<noteq> js_lower (wu_origin mine) then False
          else let wp = strip_trailing_slashes (wu_path want); mp = strip_trailing_slashes (wu_path mine)
               in wp = [] \<or> wp = mp \<or> prefix (wp @ ''/'') mp
      | _ \<Rightarrow> False)"

section \<open>Lifetimes, in milliseconds\<close>

definition access_token_expiry :: "int \<Rightarrow> instant \<Rightarrow> instant" where
  "access_token_expiry ttl_minutes now = now + ttl_minutes * 60000"

definition refresh_token_expiry :: "int \<Rightarrow> instant \<Rightarrow> instant" where
  "refresh_token_expiry ttl_days now = now + ttl_days * 86400000"

definition auth_code_expiry :: "instant \<Rightarrow> instant" where
  "auth_code_expiry now = now + AUTH_CODE_TTL_SECONDS * 1000"

section \<open>Dynamic client registration\<close>

record dcr_request =
  dr_client_name :: js_value
  dr_client_uri :: js_value
  dr_logo_uri :: js_value
  dr_redirect_uris :: js_value
  dr_auth_method :: js_value
  dr_grant_types :: js_value
  dr_response_types :: js_value
  dr_software_id :: js_value
  dr_software_version :: js_value

record dcr_client =
  dc_name :: string
  dc_uri :: "string option"
  dc_logo :: "string option"
  dc_redirects :: "string list"
  dc_software :: "string option"
  dc_software_version :: "string option"

datatype dcr_error =
    DcrNoRedirects | DcrTooManyRedirects | DcrRedirectNotText | DcrRedirect redirect_error
  | DcrConfidential | DcrGrantsNotArray | DcrGrantType | DcrResponsesNotArray | DcrResponseType
  | DcrUrlNotText string | DcrUrlScheme string | DcrUrlInvalid string

definition MAX_REDIRECT_URIS :: nat where "MAX_REDIRECT_URIS = 8"

definition MAX_NAME_LEN :: nat where "MAX_NAME_LEN = 120"

definition optional_http_url :: "url_parser \<Rightarrow> js_value \<Rightarrow> string \<Rightarrow> dcr_error + string option" where
  "optional_http_url parse v field =
     (if v = JsUndefined \<or> v = JsNull \<or> v = JsText [] then Inr None
      else case v of
        JsText t \<Rightarrow>
          (case parse t of
             None \<Rightarrow> Inl (DcrUrlInvalid field)
           | Some u \<Rightarrow> if wu_protocol u \<noteq> ''https:'' \<and> wu_protocol u \<noteq> ''http:'' then Inl (DcrUrlScheme field)
                       else Inr (Some (take 500 t)))
      | _ \<Rightarrow> Inl (DcrUrlNotText field))"

text \<open>The loop over the requested redirect URIs, with the list collected so far.\<close>

fun collect_redirects :: "url_parser \<Rightarrow> js_value list \<Rightarrow> string list \<Rightarrow> dcr_error + string list" where
  "collect_redirects parse [] acc = Inr acc"
| "collect_redirects parse (v # vs) acc =
     (case v of
        JsText t \<Rightarrow>
          (case validate_redirect_uri parse t of
             Some e \<Rightarrow> Inl (DcrRedirect e)
           | None \<Rightarrow> collect_redirects parse vs (if t \<in> set acc then acc else acc @ [t]))
      | _ \<Rightarrow> Inl DcrRedirectNotText)"

text \<open>\<open>find\<close> gives the first offending entry, which is not reported when it is \<open>undefined\<close>.\<close>

definition first_bad :: "(js_value \<Rightarrow> bool) \<Rightarrow> js_value list \<Rightarrow> bool" where
  "first_bad bad vs = (case find bad vs of None \<Rightarrow> False | Some v \<Rightarrow> v \<noteq> JsUndefined)"

definition check_grant_types :: "js_value \<Rightarrow> dcr_error option" where
  "check_grant_types v =
     (case v of
        JsUndefined \<Rightarrow> None
      | JsArray gs \<Rightarrow> if first_bad (\<lambda>g. g \<noteq> JsText ''authorization_code'' \<and> g \<noteq> JsText ''refresh_token'') gs
                      then Some DcrGrantType else None
      | _ \<Rightarrow> Some DcrGrantsNotArray)"

definition check_response_types :: "js_value \<Rightarrow> dcr_error option" where
  "check_response_types v =
     (case v of
        JsUndefined \<Rightarrow> None
      | JsArray rs \<Rightarrow> if first_bad (\<lambda>r. r \<noteq> JsText ''code'') rs then Some DcrResponseType else None
      | _ \<Rightarrow> Some DcrResponsesNotArray)"

definition text_slice :: "js_value \<Rightarrow> nat \<Rightarrow> string option" where
  "text_slice v n = (case v of JsText t \<Rightarrow> Some (take n t) | _ \<Rightarrow> None)"

definition client_display_name :: "js_value \<Rightarrow> string" where
  "client_display_name v =
     (let raw = (case v of JsText t \<Rightarrow> js_trim t | _ \<Rightarrow> [])
      in take MAX_NAME_LEN (if raw = [] then ''Unnamed MCP client'' else raw))"

definition validate_dcr :: "url_parser \<Rightarrow> dcr_request \<Rightarrow> dcr_error + dcr_client" where
  "validate_dcr parse body =
     (case dr_redirect_uris body of
        JsArray uris \<Rightarrow>
          if uris = [] then Inl DcrNoRedirects
          else if length uris > MAX_REDIRECT_URIS then Inl DcrTooManyRedirects
          else (case collect_redirects parse uris [] of
            Inl e \<Rightarrow> Inl e
          | Inr redirects \<Rightarrow>
              if dr_auth_method body \<noteq> JsUndefined \<and> dr_auth_method body \<noteq> JsText ''none'' then Inl DcrConfidential
              else case check_grant_types (dr_grant_types body) of
                Some e \<Rightarrow> Inl e
              | None \<Rightarrow>
                (case check_response_types (dr_response_types body) of
                   Some e \<Rightarrow> Inl e
                 | None \<Rightarrow>
                   (case optional_http_url parse (dr_client_uri body) ''client_uri'' of
                      Inl e \<Rightarrow> Inl e
                    | Inr uri \<Rightarrow>
                      (case optional_http_url parse (dr_logo_uri body) ''logo_uri'' of
                         Inl e \<Rightarrow> Inl e
                       | Inr logo \<Rightarrow>
                         Inr \<lparr>dc_name = client_display_name (dr_client_name body), dc_uri = uri, dc_logo = logo,
                              dc_redirects = redirects, dc_software = text_slice (dr_software_id body) 120,
                              dc_software_version = text_slice (dr_software_version body) 60\<rparr>))))
      | _ \<Rightarrow> Inl DcrNoRedirects)"

section \<open>Metadata documents\<close>

definition authorization_server_metadata :: "string \<Rightarrow> json" where
  "authorization_server_metadata base_url =
     (let base = strip_trailing_slashes base_url in
      JObj [(''issuer'', JStr base),
            (''authorization_endpoint'', JStr (base @ ''/oauth/authorize'')),
            (''token_endpoint'', JStr (base @ ''/oauth/token'')),
            (''registration_endpoint'', JStr (base @ ''/oauth/register'')),
            (''revocation_endpoint'', JStr (base @ ''/oauth/revoke'')),
            (''scopes_supported'', JArr [JStr MCP_SCOPE]),
            (''response_types_supported'', JArr [JStr ''code'']),
            (''grant_types_supported'', JArr [JStr ''authorization_code'', JStr ''refresh_token'']),
            (''code_challenge_methods_supported'', JArr [JStr PKCE_METHOD]),
            (''token_endpoint_auth_methods_supported'', JArr [JStr ''none'']),
            (''authorization_response_iss_parameter_supported'', JBool True),
            (''service_documentation'', JStr (base @ ''/mcp''))])"

definition protected_resource_metadata :: "string \<Rightarrow> json" where
  "protected_resource_metadata base_url =
     (let base = strip_trailing_slashes base_url in
      JObj [(''resource'', JStr (base @ ''/mcp'')), (''authorization_servers'', JArr [JStr base]),
            (''scopes_supported'', JArr [JStr MCP_SCOPE]), (''bearer_methods_supported'', JArr [JStr ''header'']),
            (''resource_documentation'', JStr (base @ ''/mcp''))])"

definition www_authenticate :: "string \<Rightarrow> string \<Rightarrow> string" where
  "www_authenticate base_url err =
     (let base = strip_trailing_slashes base_url in
      ''Bearer error='' @ [CHR 0x22] @ err @ [CHR 0x22] @ '', resource_metadata='' @ [CHR 0x22] @ base @
      ''/.well-known/oauth-protected-resource'' @ [CHR 0x22])"

section \<open>Properties\<close>

text \<open>What a redirect URI that registration accepts can be.\<close>

definition safe_redirect :: "url_parser \<Rightarrow> string \<Rightarrow> bool" where
  "safe_redirect parse r =
     (CHR ''*'' \<notin> set r \<and>
      (case parse r of
         None \<Rightarrow> False
       | Some u \<Rightarrow> wu_hash u = [] \<and> js_lower (wu_protocol u) \<notin> set REFUSED_REDIRECT_SCHEMES \<and>
           (wu_protocol u = ''http:'' \<longrightarrow> is_loopback_http u)))"

lemma validate_redirect_safe: "validate_redirect_uri parse r = None \<Longrightarrow> safe_redirect parse r"
  by (auto simp: validate_redirect_uri_def safe_redirect_def split: if_splits option.splits)

lemma collect_redirects_spec:
  "collect_redirects parse vs acc = Inr rs \<Longrightarrow> distinct acc \<Longrightarrow>
     distinct rs \<and> set rs = set acc \<union> {t. JsText t \<in> set vs} \<and> length acc \<le> length rs \<and>
     length rs \<le> length acc + length vs \<and> (\<forall>v \<in> set vs. \<exists>t. v = JsText t \<and> safe_redirect parse t)"
proof (induction parse vs acc rule: collect_redirects.induct)
  case (2 parse v vs acc)
  then obtain t where t: "v = JsText t" "validate_redirect_uri parse t = None"
    by (auto split: js_value.splits option.splits)
  let ?acc = "if t \<in> set acc then acc else acc @ [t]"
  have "collect_redirects parse vs ?acc = Inr rs" "distinct ?acc" using "2.prems" t by simp_all
  from "2.IH" [OF t this] show ?case
    using t validate_redirect_safe [OF t(2)] by (auto split: if_splits)
qed simp

lemma validate_dcr_cases:
  assumes "validate_dcr parse body = Inr c"
  obtains uris where "dr_redirect_uris body = JsArray uris" "uris \<noteq> []" "length uris \<le> MAX_REDIRECT_URIS"
    "collect_redirects parse uris [] = Inr (dc_redirects c)" "length (dc_name c) \<le> MAX_NAME_LEN"
  using assms by (auto simp: validate_dcr_def client_display_name_def Let_def
      split: js_value.splits if_splits sum.splits option.splits)

text \<open>
  An accepted registration has between one and eight distinct redirect URIs, exactly the ones asked
  for, and none of them can be used to send a code to plain HTTP off the machine, to a scheme that
  runs script or reads local files, or behind a wildcard or a fragment.
\<close>

theorem registered_redirects_safe:
  assumes "validate_dcr parse body = Inr c"
  shows "0 < length (dc_redirects c) \<and> length (dc_redirects c) \<le> 8 \<and> distinct (dc_redirects c) \<and>
    dr_redirect_uris body \<in> JsArray ` {vs. set vs = JsText ` set (dc_redirects c)} \<and>
    list_all (safe_redirect parse) (dc_redirects c)"
proof -
  obtain uris where u: "dr_redirect_uris body = JsArray uris" "uris \<noteq> []" "length uris \<le> MAX_REDIRECT_URIS"
    and c: "collect_redirects parse uris [] = Inr (dc_redirects c)"
    using validate_dcr_cases [OF assms] by blast
  have all: "distinct (dc_redirects c)" "set (dc_redirects c) = {t. JsText t \<in> set uris}"
    "length (dc_redirects c) \<le> length uris" "\<forall>v \<in> set uris. \<exists>t. v = JsText t \<and> safe_redirect parse t"
    using collect_redirects_spec [OF c] by auto
  have texts: "set uris = JsText ` set (dc_redirects c)" using all(2,4) by auto
  then have "dc_redirects c \<noteq> []" using u(2) by auto
  moreover have "list_all (safe_redirect parse) (dc_redirects c)"
    using all(2,4) by (auto simp: list_all_iff)
  ultimately show ?thesis using u all(1,3) texts by (auto simp: MAX_REDIRECT_URIS_def)
qed

text \<open>
  A loopback redirect with a fragment, which registration refuses, passes the check of the authorize
  endpoint when a registered loopback redirect differs from it in nothing but the fragment.
\<close>

theorem loopback_redirect_fragment_allowed:
  assumes "parse requested = Some (u\<lparr>wu_hash := h\<rparr>)" "parse r = Some u" "r \<in> set registered"
    and "is_loopback_http u" "h \<noteq> []" "js_trim requested \<noteq> []" "CHR ''*'' \<notin> set requested"
  shows "redirect_uri_allowed parse registered requested \<and>
    validate_redirect_uri parse requested = Some RedirectFragment"
proof
  let ?req = "u\<lparr>wu_hash := h\<rparr>"
  have "list_ex (\<lambda>r. case parse r of None \<Rightarrow> False
      | Some reg \<Rightarrow> is_loopback_http reg \<and> wu_host reg = wu_host ?req \<and> wu_path reg = wu_path ?req \<and>
          wu_search reg = wu_search ?req) registered"
    unfolding list_ex_iff using assms(2-4) by (intro bexI [of _ r]) simp_all
  then show "redirect_uri_allowed parse registered requested"
    using assms(1,4) by (simp add: redirect_uri_allowed_def is_loopback_http_def)
  show "validate_redirect_uri parse requested = Some RedirectFragment"
    using assms by (simp add: validate_redirect_uri_def)
qed

definition sample_url :: web_url where
  "sample_url = \<lparr>wu_protocol = ''http:'', wu_host = ''127.0.0.1'', wu_path = ''/cb'', wu_search = [], wu_hash = [],
     wu_origin = ''http://127.0.0.1:9''\<rparr>"

definition sample_parser :: url_parser where
  "sample_parser s = (if s = ''http://127.0.0.1:9/cb'' then Some sample_url
     else if s = ''http://127.0.0.1:9/cb#x'' then Some (sample_url\<lparr>wu_hash := ''#x''\<rparr>) else None)"

theorem loopback_redirect_fragment_allowed_witness:
  "redirect_uri_allowed sample_parser [''http://127.0.0.1:9/cb''] ''http://127.0.0.1:9/cb#x''"
  using loopback_redirect_fragment_allowed [where parse = sample_parser and requested = "''http://127.0.0.1:9/cb#x''"
      and u = sample_url and h = "''#x''" and r = "''http://127.0.0.1:9/cb''" and registered = "[''http://127.0.0.1:9/cb'']"]
  by (simp add: sample_parser_def sample_url_def is_loopback_http_def js_trim_def trim_with_def is_ws_def)

definition sample_registration :: dcr_request where
  "sample_registration = \<lparr>dr_client_name = JsText ''cli'', dr_client_uri = JsUndefined, dr_logo_uri = JsNull,
     dr_redirect_uris = JsArray [JsText ''http://127.0.0.1:9/cb''], dr_auth_method = JsText ''none'',
     dr_grant_types = JsUndefined, dr_response_types = JsUndefined, dr_software_id = JsUndefined,
     dr_software_version = JsUndefined\<rparr>"

theorem registered_redirects_safe_witness:
  "\<exists>c. validate_dcr sample_parser sample_registration = Inr c \<and> list_all (safe_redirect sample_parser) (dc_redirects c)"
proof -
  have "\<exists>c. validate_dcr sample_parser sample_registration = Inr c" by (rule exI) code_simp
  then show ?thesis using registered_redirects_safe by blast
qed

text \<open>
  The settings the token endpoints read are within their bounds whatever is stored, and a value the
  administration accepts is the value they read.
\<close>

lemma settings_within_bounds:
  "5 \<le> coerce_mcp_access_ttl_minutes v \<and> coerce_mcp_access_ttl_minutes v \<le> 1440"
  "1 \<le> coerce_mcp_refresh_ttl_days v \<and> coerce_mcp_refresh_ttl_days v \<le> 365"
  by (auto simp: coerce_mcp_access_ttl_minutes_def coerce_mcp_refresh_ttl_days_def coerce_int_in_range_def
      MCP_ACCESS_TTL_MINUTES_def MCP_REFRESH_TTL_DAYS_def split: js_value.split)

lemma assert_coerce:
  "assert_in_bounds b v = Some n \<Longrightarrow> coerce_int_in_range v b = n \<and> sb_min b \<le> n \<and> n \<le> sb_max b"
  by (auto simp: assert_in_bounds_def coerce_int_in_range_def split: js_value.splits if_splits)

end
