(* ===== verification/OAuth.thy ===== *)
theory OAuth
  imports OAuthPolicy
begin

text \<open>
  The stateful half of the OAuth 2.1 authorization server: consent and connections of
  \<open>packages/web/src/lib/mcpOauth.ts\<close>, the token and revocation endpoints and the housekeeping of
  \<open>packages/worker/src/mcp/oauthRouter.ts\<close>, and bearer authentication of
  \<open>packages/worker/src/mcp/auth.ts\<close>.

  The tables are lists of rows. Ids come from the stream \<open>oa_uuid\<close>, opaque tokens from the stream
  \<open>oa_random\<close>, and the clock of the database and of the processes is \<open>oa_now\<close>. SHA-256, the URL
  parser and the configured base URL are the fields of \<open>oauth_env\<close>. The caches of settings and role
  mappings (five and thirty seconds) are not modelled: reads see the tables.
\<close>

section \<open>Tables\<close>

record oauth_client =
  oc_id :: ident
  oc_client_id :: string
  oc_registration :: dcr_client
  oc_ip :: "string option"
  oc_created :: instant
  oc_last_used :: "instant option"
  oc_blocked :: "instant option"

record oauth_grant =
  og_id :: ident
  og_user :: ident
  og_client :: ident
  og_created :: instant
  og_last_used :: "instant option"
  og_revoked :: "instant option"
  og_revoked_by :: "ident option"

datatype token_kind = CodeToken | AccessToken | RefreshToken

record oauth_token =
  ot_id :: ident
  ot_grant :: ident
  ot_kind :: token_kind
  ot_hash :: string
  ot_expires :: instant
  ot_used :: "instant option"
  ot_rotated :: "ident option"
  ot_challenge :: "string option"
  ot_redirect :: "string option"
  ot_resource :: "string option"

record authorize_request =
  ar_client :: string
  ar_redirect :: string
  ar_state :: "string option"
  ar_challenge :: string
  ar_method :: string
  ar_resource :: "string option"
  ar_scope :: "string option"

record pending_row =
  pa_id :: ident
  pa_user :: ident
  pa_client :: ident
  pa_request :: authorize_request
  pa_created :: instant
  pa_consumed :: "instant option"

record oauth_db =
  oa_access :: access_db
  oa_clients :: "oauth_client list"
  oa_grants :: "oauth_grant list"
  oa_tokens :: "oauth_token list"
  oa_pending :: "pending_row list"
  oa_audit :: "audit_entry list"
  oa_events :: "string list"
  oa_settings :: "string \<Rightarrow> js_value"
  oa_uuid :: "nat \<Rightarrow> ident"
  oa_used :: nat
  oa_random :: "nat \<Rightarrow> string"
  oa_drawn :: nat
  oa_now :: instant

record oauth_env =
  oe_parse :: url_parser
  oe_hash :: "string \<Rightarrow> string"
  oe_s256 :: "string \<Rightarrow> string"
  oe_public_base :: "string option"
  oe_registry_url :: "string option"
  oe_nextauth_url :: "string option"
  oe_bootstrap :: "string option"

definition public_base_url :: "oauth_env \<Rightarrow> string" where
  "public_base_url env =
     strip_trailing_slashes
       (case oe_public_base env of Some u \<Rightarrow> u
        | None \<Rightarrow> (case oe_registry_url env of Some u \<Rightarrow> u
                 | None \<Rightarrow> (case oe_nextauth_url env of Some u \<Rightarrow> u | None \<Rightarrow> ''http://localhost:3000'')))"

definition canonical_resource :: "oauth_env \<Rightarrow> string" where
  "canonical_resource env = public_base_url env @ ''/mcp''"

section \<open>Primitive effects\<close>

definition oa_fresh :: "oauth_db \<Rightarrow> ident \<times> oauth_db" where
  "oa_fresh db = (oa_uuid db (oa_used db), db\<lparr>oa_used := Suc (oa_used db)\<rparr>)"

text \<open>\<open>newOpaqueToken\<close>: the next value of the generator.\<close>

definition new_opaque_token :: "oauth_db \<Rightarrow> string \<times> oauth_db" where
  "new_opaque_token db = (oa_random db (oa_drawn db), db\<lparr>oa_drawn := Suc (oa_drawn db)\<rparr>)"

definition oa_append_audit :: "audit_entry \<Rightarrow> oauth_db \<Rightarrow> oauth_db" where
  "oa_append_audit e db = db\<lparr>oa_audit := oa_audit db @ [e]\<rparr>"

definition log_mcp_event :: "string \<Rightarrow> oauth_db \<Rightarrow> oauth_db" where
  "log_mcp_event code db = db\<lparr>oa_events := oa_events db @ [code]\<rparr>"

definition set_grant :: "(oauth_grant \<Rightarrow> bool) \<Rightarrow> (oauth_grant \<Rightarrow> oauth_grant) \<Rightarrow> oauth_db \<Rightarrow> oauth_db" where
  "set_grant P f db = db\<lparr>oa_grants := map (\<lambda>g. if P g then f g else g) (oa_grants db)\<rparr>"

definition set_token :: "(oauth_token \<Rightarrow> bool) \<Rightarrow> (oauth_token \<Rightarrow> oauth_token) \<Rightarrow> oauth_db \<Rightarrow> oauth_db" where
  "set_token P f db = db\<lparr>oa_tokens := map (\<lambda>t. if P t then f t else t) (oa_tokens db)\<rparr>"

definition set_client :: "(oauth_client \<Rightarrow> bool) \<Rightarrow> (oauth_client \<Rightarrow> oauth_client) \<Rightarrow> oauth_db \<Rightarrow> oauth_db" where
  "set_client P f db = db\<lparr>oa_clients := map (\<lambda>c. if P c then f c else c) (oa_clients db)\<rparr>"

definition find_grant :: "oauth_db \<Rightarrow> ident \<Rightarrow> oauth_grant option" where
  "find_grant db i = find (\<lambda>g. og_id g = i) (oa_grants db)"

definition find_client_row :: "oauth_db \<Rightarrow> ident \<Rightarrow> oauth_client option" where
  "find_client_row db i = find (\<lambda>c. oc_id c = i) (oa_clients db)"

text \<open>The lookup by kind and hash, which a unique index backs.\<close>

definition find_token :: "oauth_db \<Rightarrow> token_kind \<Rightarrow> string \<Rightarrow> oauth_token option" where
  "find_token db kind h = find (\<lambda>t. ot_kind t = kind \<and> ot_hash t = h) (oa_tokens db)"

text \<open>\<open>users\<close> row of an id, as \<open>status = 'active'\<close>; \<open>None\<close> without a row.\<close>

definition user_status :: "oauth_db \<Rightarrow> ident \<Rightarrow> bool option" where
  "user_status db u = map_option ur_active (find (\<lambda>r. ur_id r = u) (t_users (oa_access db)))"

text \<open>The unique index on kind and hash: \<open>None\<close> is the exception of a violated one.\<close>

definition insert_token :: "oauth_token \<Rightarrow> oauth_db \<Rightarrow> oauth_db option" where
  "insert_token t db =
     (if find_token db (ot_kind t) (ot_hash t) \<noteq> None then None else Some (db\<lparr>oa_tokens := oa_tokens db @ [t]\<rparr>))"

section \<open>Settings\<close>

record mcp_settings =
  ms_enabled :: bool
  ms_access_minutes :: int
  ms_refresh_days :: int
  ms_inline_bytes :: int
  ms_resource_bytes :: int

definition get_mcp_settings :: "oauth_db \<Rightarrow> mcp_settings" where
  "get_mcp_settings db =
     \<lparr>ms_enabled = coerce_mcp_enabled (oa_settings db ''mcp_enabled''),
      ms_access_minutes = coerce_mcp_access_ttl_minutes (oa_settings db ''mcp_access_token_ttl_minutes''),
      ms_refresh_days = coerce_mcp_refresh_ttl_days (oa_settings db ''mcp_refresh_token_ttl_days''),
      ms_inline_bytes = coerce_mcp_inline_upload_bytes (oa_settings db ''mcp_max_inline_upload_bytes''),
      ms_resource_bytes = coerce_mcp_resource_bytes (oa_settings db ''mcp_max_resource_bytes'')\<rparr>"

section \<open>Registration and the authorize leg\<close>

definition insert_client :: "dcr_client \<Rightarrow> string option \<Rightarrow> oauth_db \<Rightarrow> oauth_client \<times> oauth_db" where
  "insert_client c ip db =
     (let (tok, db1) = new_opaque_token db; (i, db2) = oa_fresh db1;
          row = \<lparr>oc_id = i, oc_client_id = ''mcp_'' @ tok, oc_registration = c, oc_ip = ip,
                 oc_created = oa_now db, oc_last_used = None, oc_blocked = None\<rparr>
      in (row, db2\<lparr>oa_clients := oa_clients db2 @ [row]\<rparr>))"

definition register_client ::
  "oauth_env \<Rightarrow> dcr_request \<Rightarrow> string option \<Rightarrow> oauth_db \<Rightarrow> (dcr_error + oauth_client) \<times> oauth_db" where
  "register_client env body ip db =
     (case validate_dcr (oe_parse env) body of
        Inl e \<Rightarrow> (Inl e, db)
      | Inr c \<Rightarrow> (let (row, db') = insert_client c ip db in (Inr row, db')))"

definition find_client :: "oauth_db \<Rightarrow> string \<Rightarrow> oauth_client option" where
  "find_client db cid = find (\<lambda>c. oc_client_id c = cid) (oa_clients db)"

datatype authorize_error =
    AuthorizeDuplicate string | AuthorizeNoClient | AuthorizeUnknownClient | AuthorizeBlocked
  | AuthorizeNoRedirect | AuthorizeRedirectMismatch | AuthorizeResponseType | AuthorizeNoPkce
  | AuthorizePkceMethod | AuthorizeTarget | AuthorizeScope

definition param :: "(string \<times> string) list \<Rightarrow> string \<Rightarrow> string" where
  "param ps k = (case map_of ps k of None \<Rightarrow> [] | Some v \<Rightarrow> v)"

definition repeated_param :: "(string \<times> string) list \<Rightarrow> string option" where
  "repeated_param ps = find (\<lambda>k. length (filter (\<lambda>p. fst p = k) ps) > 1) (map fst ps)"

text \<open>The words of a scope, splitting at every white space; the source splits at runs of it and
  accepts empty words too.\<close>

definition scope_words :: "string \<Rightarrow> string list" where
  "scope_words s = split_on (CHR '' '') (map (\<lambda>c. if is_ws c then CHR '' '' else c) s)"

definition check_authorize_request ::
  "oauth_env \<Rightarrow> oauth_db \<Rightarrow> (string \<times> string) list \<Rightarrow> authorize_error + (oauth_client \<times> authorize_request)" where
  "check_authorize_request env db ps =
     (case repeated_param ps of
        Some k \<Rightarrow> Inl (AuthorizeDuplicate k)
      | None \<Rightarrow>
        if param ps ''client_id'' = [] then Inl AuthorizeNoClient
        else case find_client db (param ps ''client_id'') of
          None \<Rightarrow> Inl AuthorizeUnknownClient
        | Some c \<Rightarrow>
            if oc_blocked c \<noteq> None then Inl AuthorizeBlocked
            else if param ps ''redirect_uri'' = [] then Inl AuthorizeNoRedirect
            else if \<not> redirect_uri_allowed (oe_parse env) (dc_redirects (oc_registration c)) (param ps ''redirect_uri'')
            then Inl AuthorizeRedirectMismatch
            else if param ps ''response_type'' \<noteq> ''code'' then Inl AuthorizeResponseType
            else if param ps ''code_challenge'' = [] then Inl AuthorizeNoPkce
            else if param ps ''code_challenge_method'' \<noteq> ''S256'' then Inl AuthorizePkceMethod
            else if truthy (map_of ps ''resource'') \<and>
                    \<not> resource_matches (oe_parse env) (canonical_resource env) (map_of ps ''resource'')
            then Inl AuthorizeTarget
            else if truthy (map_of ps ''scope'') \<and>
                    \<not> list_all (\<lambda>w. w = MCP_SCOPE \<or> w = []) (scope_words (param ps ''scope''))
            then Inl AuthorizeScope
            else Inr (c, \<lparr>ar_client = param ps ''client_id'', ar_redirect = param ps ''redirect_uri'',
                          ar_state = map_of ps ''state'', ar_challenge = param ps ''code_challenge'',
                          ar_method = param ps ''code_challenge_method'', ar_resource = map_of ps ''resource'',
                          ar_scope = map_of ps ''scope''\<rparr>))"

section \<open>Consent\<close>

definition PENDING_TTL :: int where "PENDING_TTL = 10 * 60000"

definition stash_authorize_request ::
  "ident \<Rightarrow> oauth_client \<Rightarrow> authorize_request \<Rightarrow> oauth_db \<Rightarrow> ident \<times> oauth_db" where
  "stash_authorize_request u c rq db =
     (let (i, db1) = oa_fresh db
      in (i, db1\<lparr>oa_pending := oa_pending db1 @
             [\<lparr>pa_id = i, pa_user = u, pa_client = oc_id c, pa_request = rq, pa_created = oa_now db,
               pa_consumed = None\<rparr>]\<rparr>))"

definition pending_live :: "oauth_db \<Rightarrow> ident \<Rightarrow> ident \<Rightarrow> pending_row \<Rightarrow> bool" where
  "pending_live db i u p =
     (pa_id p = i \<and> pa_user p = u \<and> pa_consumed p = None \<and> pa_created p > oa_now db - PENDING_TTL \<and>
      find_client_row db (pa_client p) \<noteq> None)"

text \<open>\<open>update ... returning\<close>: the row is read and consumed by one statement.\<close>

definition take_authorize_request ::
  "ident \<Rightarrow> ident \<Rightarrow> oauth_db \<Rightarrow> (string \<times> authorize_request) option \<times> oauth_db" where
  "take_authorize_request i u db =
     (if \<not> id_shaped i then (None, db)
      else case find (pending_live db i u) (oa_pending db) of
        None \<Rightarrow> (None, db)
      | Some p \<Rightarrow>
          (map_option (\<lambda>c. (oc_client_id c, pa_request p)) (find_client_row db (pa_client p)),
           db\<lparr>oa_pending := map (\<lambda>q. if pending_live db i u q then q\<lparr>pa_consumed := Some (oa_now db)\<rparr> else q)
                (oa_pending db)\<rparr>))"

definition live_grant :: "oauth_db \<Rightarrow> ident \<Rightarrow> ident \<Rightarrow> oauth_grant option" where
  "live_grant db u c = find (\<lambda>g. og_user g = u \<and> og_client g = c \<and> og_revoked g = None) (oa_grants db)"

definition ensure_grant :: "ident \<Rightarrow> oauth_client \<Rightarrow> oauth_db \<Rightarrow> ident \<times> oauth_db" where
  "ensure_grant u c db =
     (case live_grant db u (oc_id c) of
        Some g \<Rightarrow> (og_id g, db)
      | None \<Rightarrow>
          (let (i, db1) = oa_fresh db
           in (i, oa_append_audit
                 \<lparr>au_actor = Some u, au_action = ''mcp.grant_created'', au_type = ''oauth_grant'', au_target = Some i,
                  au_namespace = None, au_before = JNull,
                  au_after = JObj [(''client'', JStr (dc_name (oc_registration c))), (''clientId'', JStr (oc_client_id c))]\<rparr>
                 (db1\<lparr>oa_grants := oa_grants db1 @
                    [\<lparr>og_id = i, og_user = u, og_client = oc_id c, og_created = oa_now db, og_last_used = None,
                      og_revoked = None, og_revoked_by = None\<rparr>]\<rparr>))))"

text \<open>
  The transaction of an approval: \<open>None\<close> is its rollback. The redirect of the answer is the request's
  one with the query parameters given here; its serialization is the runtime's.
\<close>

definition approve_authorization ::
  "oauth_env \<Rightarrow> ident \<Rightarrow> oauth_client \<Rightarrow> authorize_request \<Rightarrow> oauth_db \<Rightarrow>
   (string \<times> (string \<times> string) list) option \<times> oauth_db" where
  "approve_authorization env u c rq db =
     (let (g, db1) = ensure_grant u c db; (code, db2) = new_opaque_token db1; (i, db3) = oa_fresh db2
      in case insert_token
                \<lparr>ot_id = i, ot_grant = g, ot_kind = CodeToken, ot_hash = oe_hash env code,
                 ot_expires = auth_code_expiry (oa_now db), ot_used = None, ot_rotated = None,
                 ot_challenge = Some (ar_challenge rq), ot_redirect = Some (ar_redirect rq),
                 ot_resource = Some (case ar_resource rq of None \<Rightarrow> canonical_resource env | Some r \<Rightarrow> r)\<rparr> db3 of
           None \<Rightarrow> (None, db)
         | Some db4 \<Rightarrow>
             (Some (ar_redirect rq,
                [(''code'', code)] @ (if truthy (ar_state rq) then [(''state'', the (ar_state rq))] else []) @
                [(''iss'', public_base_url env)]),
              set_client (\<lambda>x. oc_id x = oc_id c) (oc_last_used_update (\<lambda>_. Some (oa_now db))) db4))"

definition deny_authorization :: "authorize_request \<Rightarrow> string \<times> (string \<times> string) list" where
  "deny_authorization rq =
     (ar_redirect rq,
      [(''error'', ''access_denied''), (''error_description'', ''the user declined this connection'')] @
      (if truthy (ar_state rq) then [(''state'', the (ar_state rq))] else []))"

datatype consent_answer =
    ConsentExpired | ConsentUnknownClient | ConsentBlocked | ConsentFailed
  | ConsentRedirect string "(string \<times> string) list"

text \<open>The consent handler behind the session check: \<open>web/src/app/oauth/consent/route.ts\<close>.\<close>

definition consent :: "oauth_env \<Rightarrow> ident \<Rightarrow> ident \<Rightarrow> bool \<Rightarrow> oauth_db \<Rightarrow> consent_answer \<times> oauth_db" where
  "consent env u i approve db =
     (case take_authorize_request i u db of
        (None, db1) \<Rightarrow> (ConsentExpired, db1)
      | (Some (cid, rq), db1) \<Rightarrow>
          if \<not> approve then (case deny_authorization rq of (r, ps) \<Rightarrow> (ConsentRedirect r ps, db1))
          else case find_client db1 cid of
            None \<Rightarrow> (ConsentUnknownClient, db1)
          | Some c \<Rightarrow>
              if oc_blocked c \<noteq> None then (ConsentBlocked, db1)
              else case approve_authorization env u c rq db1 of
                (None, db2) \<Rightarrow> (ConsentFailed, db2)
              | (Some (r, ps), db2) \<Rightarrow> (ConsentRedirect r ps, db2))"

end
