(* ===== verification/OAuthTokens.thy ===== *)
theory OAuthTokens
  imports OAuth
begin

text \<open>
  The token endpoint with its two grants, revocation, housekeeping, connections and bearer
  authentication. A handler of the token endpoint is two steps, as its statements are: a lookup with
  the checks, and the conditional consumption of the credential followed by the issue of a new pair.
  Another request may run between the two.
\<close>

section \<open>Issuing and revoking\<close>

record issued_tokens =
  is_access :: string
  is_expires_in :: int
  is_refresh :: string

text \<open>\<open>None\<close> is the exception of the unique index.\<close>

definition issue_tokens :: "oauth_env \<Rightarrow> ident \<Rightarrow> ident option \<Rightarrow> oauth_db \<Rightarrow> issued_tokens option \<times> oauth_db" where
  "issue_tokens env g rotated db =
     (let s = get_mcp_settings db;
          (access, db1) = new_opaque_token db; (refresh, db2) = new_opaque_token db1;
          access_exp = access_token_expiry (ms_access_minutes s) (oa_now db);
          refresh_exp = refresh_token_expiry (ms_refresh_days s) (oa_now db);
          (ia, db3) = oa_fresh db2; (ir, db4) = oa_fresh db3
      in case insert_token
                \<lparr>ot_id = ia, ot_grant = g, ot_kind = AccessToken, ot_hash = oe_hash env access, ot_expires = access_exp,
                 ot_used = None, ot_rotated = None, ot_challenge = None, ot_redirect = None, ot_resource = None\<rparr> db4 of
           None \<Rightarrow> (None, db4)
         | Some db5 \<Rightarrow>
             (case insert_token
                \<lparr>ot_id = ir, ot_grant = g, ot_kind = RefreshToken, ot_hash = oe_hash env refresh, ot_expires = refresh_exp,
                 ot_used = None, ot_rotated = rotated, ot_challenge = None, ot_redirect = None, ot_resource = None\<rparr> db5 of
                None \<Rightarrow> (None, db4)
              | Some db6 \<Rightarrow>
                  (Some \<lparr>is_access = access, is_expires_in = max 1 ((access_exp - oa_now db) div 1000),
                         is_refresh = refresh\<rparr>, db6)))"

definition expire_tokens :: "(ident \<Rightarrow> bool) \<Rightarrow> oauth_db \<Rightarrow> oauth_db" where
  "expire_tokens P db =
     set_token (\<lambda>t. P (ot_grant t) \<and> ot_expires t > oa_now db) (ot_expires_update (\<lambda>_. oa_now db)) db"

definition revoke_grant :: "ident \<Rightarrow> ident option \<Rightarrow> oauth_db \<Rightarrow> oauth_db" where
  "revoke_grant g by db =
     expire_tokens (\<lambda>x. x = g)
       (set_grant (\<lambda>x. og_id x = g \<and> og_revoked x = None)
          (\<lambda>x. x\<lparr>og_revoked := Some (oa_now db),
                 og_revoked_by := (case by of None \<Rightarrow> og_revoked_by x | Some b \<Rightarrow> Some b)\<rparr>) db)"

section \<open>The token endpoint\<close>

record token_request =
  tr_grant_type :: string
  tr_code :: string
  tr_verifier :: string
  tr_redirect_uri :: string
  tr_client_id :: string
  tr_resource :: "string option"
  tr_refresh_token :: string

datatype token_refusal =
    TokenDisabled | TokenGrantType | TokenIncomplete | TokenUnknownCode | TokenCodeReplayed | TokenCodeExpired
  | TokenGrantRevoked | TokenClientBlocked | TokenWrongClient | TokenWrongRedirect | TokenPkceFailed
  | TokenWrongResource | TokenUnknownRefresh | TokenRefreshReplayed | TokenRefreshExpired | TokenOwnerInactive
  | TokenLostRace | TokenServerError

text \<open>The status and the error code of the answer.\<close>

fun refusal_answer :: "token_refusal \<Rightarrow> nat \<times> string" where
  "refusal_answer TokenDisabled = (503, ''temporarily_unavailable'')"
| "refusal_answer TokenGrantType = (400, ''unsupported_grant_type'')"
| "refusal_answer TokenIncomplete = (400, ''invalid_request'')"
| "refusal_answer TokenClientBlocked = (400, ''invalid_client'')"
| "refusal_answer TokenWrongResource = (400, ''invalid_target'')"
| "refusal_answer TokenServerError = (500, ''server_error'')"
| "refusal_answer _ = (400, ''invalid_grant'')"

text \<open>The joined row of a code, and of a refresh or access token with its user.\<close>

definition join_grant :: "oauth_db \<Rightarrow> oauth_token \<Rightarrow> (oauth_grant \<times> oauth_client) option" where
  "join_grant db t =
     (case find_grant db (ot_grant t) of
        None \<Rightarrow> None
      | Some g \<Rightarrow> map_option (\<lambda>c. (g, c)) (find_client_row db (og_client g)))"

definition code_row :: "oauth_env \<Rightarrow> oauth_db \<Rightarrow> string \<Rightarrow> (oauth_token \<times> oauth_grant \<times> oauth_client) option" where
  "code_row env db code =
     (case find_token db CodeToken (oe_hash env code) of
        None \<Rightarrow> None
      | Some t \<Rightarrow> map_option (\<lambda>(g, c). (t, g, c)) (join_grant db t))"

definition user_token_row ::
  "oauth_env \<Rightarrow> oauth_db \<Rightarrow> token_kind \<Rightarrow> string \<Rightarrow> (oauth_token \<times> oauth_grant \<times> oauth_client \<times> bool) option" where
  "user_token_row env db kind raw =
     (case find_token db kind (oe_hash env raw) of
        None \<Rightarrow> None
      | Some t \<Rightarrow>
          (case join_grant db t of
             None \<Rightarrow> None
           | Some (g, c) \<Rightarrow> map_option (\<lambda>active. (t, g, c, active)) (user_status db (og_user g))))"

text \<open>What a passed check hands to the second step: the row id, its grant, and the lineage of the new
  refresh token.\<close>

record redemption =
  rd_token :: ident
  rd_grant :: ident
  rd_lineage :: "ident option"

definition check_code :: "oauth_env \<Rightarrow> token_request \<Rightarrow> oauth_db \<Rightarrow> (token_refusal + redemption) \<times> oauth_db" where
  "check_code env rq db =
     (if tr_code rq = [] \<or> tr_verifier rq = [] \<or> tr_client_id rq = [] then (Inl TokenIncomplete, db)
      else case code_row env db (tr_code rq) of
        None \<Rightarrow> (Inl TokenUnknownCode, db)
      | Some (t, g, c) \<Rightarrow>
          if ot_used t \<noteq> None
          then (Inl TokenCodeReplayed, log_mcp_event ''mcp_refresh_reuse_detected'' (revoke_grant (og_id g) None db))
          else if ot_expires t \<le> oa_now db then (Inl TokenCodeExpired, db)
          else if og_revoked g \<noteq> None then (Inl TokenGrantRevoked, db)
          else if oc_blocked c \<noteq> None then (Inl TokenClientBlocked, log_mcp_event ''mcp_client_blocked'' db)
          else if oc_client_id c \<noteq> tr_client_id rq then (Inl TokenWrongClient, db)
          else if (case ot_redirect t of None \<Rightarrow> [] | Some r \<Rightarrow> r) \<noteq> tr_redirect_uri rq then (Inl TokenWrongRedirect, db)
          else if \<not> truthy (ot_challenge t) \<or> \<not> verify_pkce (oe_s256 env) (tr_verifier rq) (the (ot_challenge t))
          then (Inl TokenPkceFailed, db)
          else if truthy (tr_resource rq) \<and> \<not> resource_matches (oe_parse env) (canonical_resource env) (tr_resource rq)
          then (Inl TokenWrongResource, db)
          else (Inr \<lparr>rd_token = ot_id t, rd_grant = og_id g, rd_lineage = None\<rparr>, db))"

definition check_refresh :: "oauth_env \<Rightarrow> token_request \<Rightarrow> oauth_db \<Rightarrow> (token_refusal + redemption) \<times> oauth_db" where
  "check_refresh env rq db =
     (if tr_refresh_token rq = [] then (Inl TokenIncomplete, db)
      else case user_token_row env db RefreshToken (tr_refresh_token rq) of
        None \<Rightarrow> (Inl TokenUnknownRefresh, db)
      | Some (t, g, c, active) \<Rightarrow>
          if ot_used t \<noteq> None
          then (Inl TokenRefreshReplayed, log_mcp_event ''mcp_refresh_reuse_detected'' (revoke_grant (og_id g) None db))
          else if ot_expires t \<le> oa_now db then (Inl TokenRefreshExpired, db)
          else if og_revoked g \<noteq> None then (Inl TokenGrantRevoked, db)
          else if \<not> active then (Inl TokenOwnerInactive, log_mcp_event ''mcp_owner_inactive'' db)
          else if oc_blocked c \<noteq> None then (Inl TokenClientBlocked, log_mcp_event ''mcp_client_blocked'' db)
          else if truthy (tr_resource rq) \<and> \<not> resource_matches (oe_parse env) (canonical_resource env) (tr_resource rq)
          then (Inl TokenWrongResource, db)
          else (Inr \<lparr>rd_token = ot_id t, rd_grant = og_id g, rd_lineage = Some (ot_id t)\<rparr>, db))"

definition check_token_request :: "oauth_env \<Rightarrow> token_request \<Rightarrow> oauth_db \<Rightarrow> (token_refusal + redemption) \<times> oauth_db" where
  "check_token_request env rq db =
     (if \<not> ms_enabled (get_mcp_settings db) then (Inl TokenDisabled, log_mcp_event ''mcp_disabled'' db)
      else if tr_grant_type rq = ''authorization_code'' then check_code env rq db
      else if tr_grant_type rq = ''refresh_token'' then check_refresh env rq db
      else (Inl TokenGrantType, db))"

text \<open>The second step. \<open>update ... where id = $1 and used_at is null\<close> consumes the credential.\<close>

definition redeem :: "oauth_env \<Rightarrow> redemption \<Rightarrow> oauth_db \<Rightarrow> (token_refusal + issued_tokens) \<times> oauth_db" where
  "redeem env r db =
     (if \<not> list_ex (\<lambda>t. ot_id t = rd_token r \<and> ot_used t = None) (oa_tokens db) then (Inl TokenLostRace, db)
      else case issue_tokens env (rd_grant r) (rd_lineage r)
                  (set_token (\<lambda>t. ot_id t = rd_token r \<and> ot_used t = None) (ot_used_update (\<lambda>_. Some (oa_now db))) db) of
             (None, db') \<Rightarrow> (Inl TokenServerError, db')
           | (Some toks, db') \<Rightarrow> (Inr toks, db'))"

definition token_endpoint :: "oauth_env \<Rightarrow> token_request \<Rightarrow> oauth_db \<Rightarrow> (token_refusal + issued_tokens) \<times> oauth_db" where
  "token_endpoint env rq db =
     (case check_token_request env rq db of
        (Inl e, db') \<Rightarrow> (Inl e, db')
      | (Inr r, db') \<Rightarrow> redeem env r db')"

definition revoke_endpoint :: "oauth_env \<Rightarrow> string \<Rightarrow> oauth_db \<Rightarrow> oauth_db" where
  "revoke_endpoint env raw db =
     (if raw = [] then db
      else case find (\<lambda>t. ot_hash t = oe_hash env raw \<and> ot_kind t \<in> {AccessToken, RefreshToken}) (oa_tokens db) of
        None \<Rightarrow> db
      | Some t \<Rightarrow> revoke_grant (ot_grant t) None db)"

section \<open>Housekeeping\<close>

definition token_dead :: "int \<Rightarrow> instant \<Rightarrow> oauth_token \<Rightarrow> bool" where
  "token_dead days now t =
     (case ot_kind t of
        CodeToken \<Rightarrow> ot_expires t < now - 3600000
      | AccessToken \<Rightarrow> ot_expires t < now - 86400000
      | RefreshToken \<Rightarrow> ot_expires t < now - days * 86400000)"

text \<open>A deleted token leaves a null lineage in its successors (\<open>on delete set null\<close>).\<close>

definition drop_tokens :: "(oauth_token \<Rightarrow> bool) \<Rightarrow> oauth_db \<Rightarrow> oauth_db" where
  "drop_tokens P db =
     (let kept = filter (\<lambda>t. \<not> P t) (oa_tokens db);
          gone = map ot_id (filter P (oa_tokens db))
      in db\<lparr>oa_tokens := map (\<lambda>t. case ot_rotated t of None \<Rightarrow> t
              | Some p \<Rightarrow> if p \<in> set gone then t\<lparr>ot_rotated := None\<rparr> else t) kept\<rparr>)"

definition client_unused :: "oauth_db \<Rightarrow> oauth_client \<Rightarrow> bool" where
  "client_unused db c =
     (oc_last_used c = None \<and> oc_created c < oa_now db - 7 * 86400000 \<and>
      \<not> list_ex (\<lambda>g. og_client g = oc_id c) (oa_grants db))"

definition mcp_housekeeping :: "oauth_db \<Rightarrow> oauth_db" where
  "mcp_housekeeping db =
     (let db1 = drop_tokens (token_dead (ms_refresh_days (get_mcp_settings db)) (oa_now db)) db;
          gone = filter (client_unused db1) (oa_clients db1);
          db2 = db1\<lparr>oa_clients := filter (\<lambda>c. \<not> client_unused db1 c) (oa_clients db1),
                    oa_pending := filter (\<lambda>p. \<not> list_ex (\<lambda>c. oc_id c = pa_client p) gone) (oa_pending db1)\<rparr>
      in db2\<lparr>oa_pending := filter (\<lambda>p. \<not> (pa_consumed p \<noteq> None \<or> pa_created p \<le> oa_now db - PENDING_TTL))
               (oa_pending db2)\<rparr>)"

section \<open>Connections and administration\<close>

definition list_connections :: "oauth_db \<Rightarrow> ident \<Rightarrow> (oauth_grant \<times> oauth_client) list" where
  "list_connections db u =
     rev (sort_key (\<lambda>(g, c). case og_last_used g of None \<Rightarrow> og_created g | Some l \<Rightarrow> l)
       (concat (map (\<lambda>g. map (\<lambda>c. (g, c)) (filter (\<lambda>c. oc_id c = og_client g) (oa_clients db)))
          (filter (\<lambda>g. og_user g = u \<and> og_revoked g = None) (oa_grants db)))))"

definition revoke_connection :: "ident \<Rightarrow> ident \<Rightarrow> ident \<Rightarrow> bool \<Rightarrow> oauth_db \<Rightarrow> bool \<times> oauth_db" where
  "revoke_connection u i actor as_admin db =
     (let sel = (\<lambda>g. og_id g = i \<and> og_revoked g = None \<and> (as_admin \<or> og_user g = u))
      in case find sel (oa_grants db) of
           None \<Rightarrow> (False, db)
         | Some g \<Rightarrow>
             (True,
              oa_append_audit
                \<lparr>au_actor = Some actor, au_action = ''mcp.grant_revoked'', au_type = ''oauth_grant'', au_target = Some i,
                 au_namespace = None, au_before = JNull,
                 au_after = JObj [(''client'', json_opt (map_option (\<lambda>c. dc_name (oc_registration c))
                                                 (find_client_row db (og_client g)))),
                                  (''owner'', JStr (og_user g)), (''byAdmin'', JBool as_admin)]\<rparr>
                (expire_tokens (\<lambda>x. x = i)
                  (set_grant sel (\<lambda>g. g\<lparr>og_revoked := Some (oa_now db), og_revoked_by := Some actor\<rparr>) db))))"

definition revoke_all_user_grants :: "ident \<Rightarrow> oauth_db \<Rightarrow> nat \<times> oauth_db" where
  "revoke_all_user_grants u db =
     (let live = filter (\<lambda>g. og_user g = u \<and> og_revoked g = None) (oa_grants db);
          db1 = set_grant (\<lambda>g. og_user g = u \<and> og_revoked g = None) (og_revoked_update (\<lambda>_. Some (oa_now db))) db
      in (length live, if live = [] then db1 else expire_tokens (\<lambda>i. i \<in> set (map og_id live)) db1))"

definition set_client_blocked :: "ident \<Rightarrow> bool \<Rightarrow> ident \<Rightarrow> oauth_db \<Rightarrow> bool \<times> oauth_db" where
  "set_client_blocked i blocked actor db =
     (case find_client_row db i of
        None \<Rightarrow> (False, db)
      | Some c \<Rightarrow>
          (True,
           oa_append_audit
             \<lparr>au_actor = Some actor,
              au_action = (if blocked then ''mcp.client_blocked'' else ''mcp.client_unblocked''),
              au_type = ''oauth_client'', au_target = Some i, au_namespace = None, au_before = JNull,
              au_after = JObj [(''client'', JStr (dc_name (oc_registration c)))]\<rparr>
             (set_client (\<lambda>x. oc_id x = i) (oc_blocked_update (\<lambda>_. if blocked then Some (oa_now db) else None)) db)))"

section \<open>Bearer authentication\<close>

datatype auth_failure =
    MissingToken | McpTokenInvalid | McpGrantRevoked | McpClientBlocked | McpOwnerInactive | McpTokenExpired

record mcp_caller =
  mc_user :: ident
  mc_access :: effective_access
  mc_grant :: ident
  mc_client_name :: string
  mc_client :: ident

definition bearer_space :: "char \<Rightarrow> bool" where
  "bearer_space c = (code_of c = 32 \<or> code_of c = 9)"

definition bearer_from_header :: "string option \<Rightarrow> string option" where
  "bearer_from_header header =
     (case header of
        None \<Rightarrow> None
      | Some raw \<Rightarrow>
          if raw = [] then None
          else let h = js_trim raw in
            if length h \<le> 6 then None
            else if js_lower (take 6 h) \<noteq> ''bearer'' then None
            else if \<not> bearer_space (h ! 6) then None
            else let tok = js_trim (dropWhile bearer_space (drop 6 h)) in if tok = [] then None else Some tok)"

definition resolve_access_for_user :: "oauth_env \<Rightarrow> oauth_db \<Rightarrow> ident \<Rightarrow> (effective_access \<times> ident) option" where
  "resolve_access_for_user env db u =
     (case access_from_rows (sql_user_groups_by_id (oa_access db) u) (sql_role_mappings (oa_access db)) (oe_bootstrap env) of
        (a, Some i) \<Rightarrow> if i = [] then None else Some (a, i)
      | (a, None) \<Rightarrow> None)"

definition authenticate :: "oauth_env \<Rightarrow> oauth_db \<Rightarrow> string option \<Rightarrow> auth_failure + mcp_caller" where
  "authenticate env db header =
     (case bearer_from_header header of
        None \<Rightarrow> Inl MissingToken
      | Some raw \<Rightarrow>
          (case user_token_row env db AccessToken raw of
             None \<Rightarrow> Inl McpTokenInvalid
           | Some (t, g, c, active) \<Rightarrow>
               if og_revoked g \<noteq> None then Inl McpGrantRevoked
               else if oc_blocked c \<noteq> None then Inl McpClientBlocked
               else if \<not> active then Inl McpOwnerInactive
               else if ot_expires t \<le> oa_now db then Inl McpTokenExpired
               else (case resolve_access_for_user env db (og_user g) of
                       None \<Rightarrow> Inl McpOwnerInactive
                     | Some (a, u) \<Rightarrow> Inr \<lparr>mc_user = u, mc_access = a, mc_grant = og_id g,
                                            mc_client_name = dc_name (oc_registration c), mc_client = oc_id c\<rparr>)))"

definition touch_caller :: "mcp_caller \<Rightarrow> oauth_db \<Rightarrow> oauth_db" where
  "touch_caller c db =
     set_client (\<lambda>x. oc_id x = mc_client c) (oc_last_used_update (\<lambda>_. Some (oa_now db)))
       (set_grant (\<lambda>g. og_id g = mc_grant c) (og_last_used_update (\<lambda>_. Some (oa_now db))) db)"

end
