(* ===== verification/OAuthFacts.thy ===== *)
theory OAuthFacts
  imports OAuthTokens
begin

text \<open>
  The authorization server as a transition system. Requests interleave: a request of the token
  endpoint is looked up in one step and redeems its credential in a later one, with anything in
  between. The facts: no credential is redeemed twice, a revoked or replayed connection is dead for
  ever, and what a bearer, a code and a consent need.
\<close>

section \<open>Interleaved requests\<close>

datatype oauth_op =
    OpRegister dcr_request "string option"
  | OpStash ident oauth_client authorize_request
  | OpConsent ident ident bool
  | OpRevokeEndpoint string
  | OpRevokeConnection ident ident ident bool
  | OpRevokeAll ident
  | OpBlock ident bool ident
  | OpHousekeeping
  | OpTouch mcp_caller
  | OpDirectory access_db
  | OpSettings "string \<Rightarrow> js_value"
  | OpClock instant

fun apply_op :: "oauth_env \<Rightarrow> oauth_op \<Rightarrow> oauth_db \<Rightarrow> oauth_db" where
  "apply_op env (OpRegister body ip) db = snd (register_client env body ip db)"
| "apply_op env (OpStash u c rq) db = snd (stash_authorize_request u c rq db)"
| "apply_op env (OpConsent u i approve) db = snd (consent env u i approve db)"
| "apply_op env (OpRevokeEndpoint raw) db = revoke_endpoint env raw db"
| "apply_op env (OpRevokeConnection u i actor adm) db = snd (revoke_connection u i actor adm db)"
| "apply_op env (OpRevokeAll u) db = snd (revoke_all_user_grants u db)"
| "apply_op env (OpBlock i b actor) db = snd (set_client_blocked i b actor db)"
| "apply_op env OpHousekeeping db = mcp_housekeeping db"
| "apply_op env (OpTouch c) db = touch_caller c db"
| "apply_op env (OpDirectory a) db = db\<lparr>oa_access := a\<rparr>"
| "apply_op env (OpSettings s) db = db\<lparr>oa_settings := s\<rparr>"
| "apply_op env (OpClock t) db = db\<lparr>oa_now := max t (oa_now db)\<rparr>"

text \<open>The tables, the token requests between their two steps, and the ids of the credentials
  redeemed so far.\<close>

record oauth_world =
  ow_db :: oauth_db
  ow_inflight :: "redemption list"
  ow_redeemed :: "ident list"

inductive oauth_step :: "oauth_env \<Rightarrow> oauth_world \<Rightarrow> oauth_world \<Rightarrow> bool" for env where
  step_op: "oauth_step env w (w\<lparr>ow_db := apply_op env op (ow_db w)\<rparr>)"
| step_check: "check_token_request env rq (ow_db w) = (Inr r, db') \<Longrightarrow>
    oauth_step env w (w\<lparr>ow_db := db', ow_inflight := r # ow_inflight w\<rparr>)"
| step_refuse: "check_token_request env rq (ow_db w) = (Inl e, db') \<Longrightarrow> oauth_step env w (w\<lparr>ow_db := db'\<rparr>)"
| step_redeem: "r \<in> set (ow_inflight w) \<Longrightarrow> redeem env r (ow_db w) = (Inr toks, db') \<Longrightarrow>
    oauth_step env w (w\<lparr>ow_db := db', ow_inflight := remove1 r (ow_inflight w), ow_redeemed := rd_token r # ow_redeemed w\<rparr>)"
| step_lose: "r \<in> set (ow_inflight w) \<Longrightarrow> redeem env r (ow_db w) = (Inl e, db') \<Longrightarrow>
    oauth_step env w (w\<lparr>ow_db := db', ow_inflight := remove1 r (ow_inflight w)\<rparr>)"

inductive oauth_steps :: "oauth_env \<Rightarrow> oauth_world \<Rightarrow> oauth_world \<Rightarrow> bool" for env where
  steps_refl: "oauth_steps env w w"
| steps_step: "oauth_steps env w v \<Longrightarrow> oauth_step env v x \<Longrightarrow> oauth_steps env w x"

text \<open>Ids come from a stream without repetitions and no row has an id that is still to come.\<close>

definition oauth_ids_ok :: "oauth_db \<Rightarrow> bool" where
  "oauth_ids_ok db =
     (inj (oa_uuid db) \<and> ot_id ` set (oa_tokens db) \<subseteq> oa_uuid db ` {..<oa_used db} \<and>
      og_id ` set (oa_grants db) \<subseteq> oa_uuid db ` {..<oa_used db})"

definition oauth_start :: "oauth_world \<Rightarrow> bool" where
  "oauth_start w = (oauth_ids_ok (ow_db w) \<and> ow_inflight w = [] \<and> ow_redeemed w = [])"

section \<open>What every step keeps\<close>

definition fresh_in :: "oauth_db \<Rightarrow> oauth_db \<Rightarrow> ident \<Rightarrow> bool" where
  "fresh_in db db' i = (\<exists>k. oa_used db \<le> k \<and> k < oa_used db' \<and> i = oa_uuid db k)"

definition token_from :: "oauth_token \<Rightarrow> oauth_token \<Rightarrow> bool" where
  "token_from t t' = (ot_id t = ot_id t' \<and> (ot_used t \<noteq> None \<longrightarrow> ot_used t' \<noteq> None))"

definition grant_from :: "oauth_grant \<Rightarrow> oauth_grant \<Rightarrow> bool" where
  "grant_from g g' = (og_id g = og_id g' \<and> (og_revoked g \<noteq> None \<longrightarrow> og_revoked g' \<noteq> None))"

definition oauth_frame :: "oauth_db \<Rightarrow> oauth_db \<Rightarrow> bool" where
  "oauth_frame db db' =
     (oa_uuid db' = oa_uuid db \<and> oa_used db \<le> oa_used db' \<and>
      (\<forall>t' \<in> set (oa_tokens db'). fresh_in db db' (ot_id t') \<or> (\<exists>t \<in> set (oa_tokens db). token_from t t')) \<and>
      (\<forall>g' \<in> set (oa_grants db'). fresh_in db db' (og_id g') \<or> (\<exists>g \<in> set (oa_grants db). grant_from g g')))"

lemma oauth_frame_refl [simp, intro]: "oauth_frame db db"
  by (auto simp: oauth_frame_def token_from_def grant_from_def)

lemma frame_uuid: "oauth_frame a b \<Longrightarrow> oa_uuid b = oa_uuid a \<and> oa_used a \<le> oa_used b"
  by (simp add: oauth_frame_def)

lemma frame_token:
  assumes "oauth_frame a b" "t' \<in> set (oa_tokens b)"
  obtains "fresh_in a b (ot_id t')" | t where "t \<in> set (oa_tokens a)" "token_from t t'"
  using assms unfolding oauth_frame_def by blast

lemma frame_grant:
  assumes "oauth_frame a b" "g' \<in> set (oa_grants b)"
  obtains "fresh_in a b (og_id g')" | g where "g \<in> set (oa_grants a)" "grant_from g g'"
  using assms unfolding oauth_frame_def by blast

lemma oauth_frameI:
  assumes "oa_uuid b = oa_uuid a" "oa_used a \<le> oa_used b"
    and "\<And>t'. t' \<in> set (oa_tokens b) \<Longrightarrow> fresh_in a b (ot_id t') \<or> (\<exists>t \<in> set (oa_tokens a). token_from t t')"
    and "\<And>g'. g' \<in> set (oa_grants b) \<Longrightarrow> fresh_in a b (og_id g') \<or> (\<exists>g \<in> set (oa_grants a). grant_from g g')"
  shows "oauth_frame a b"
  using assms by (simp add: oauth_frame_def)

lemma fresh_in_right: "fresh_in a b i \<Longrightarrow> oa_used b \<le> oa_used c \<Longrightarrow> fresh_in a c i"
  by (force simp: fresh_in_def)

lemma fresh_in_left: "fresh_in b c i \<Longrightarrow> oa_uuid b = oa_uuid a \<Longrightarrow> oa_used a \<le> oa_used b \<Longrightarrow> fresh_in a c i"
  unfolding fresh_in_def by (metis le_trans)

lemma oauth_frame_trans:
  assumes ab: "oauth_frame a b" and bc: "oauth_frame b c"
  shows "oauth_frame a c"
proof (rule oauth_frameI)
  have u: "oa_uuid b = oa_uuid a" "oa_used a \<le> oa_used b" "oa_uuid c = oa_uuid b" "oa_used b \<le> oa_used c"
    using frame_uuid [OF ab] frame_uuid [OF bc] by simp_all
  show "oa_uuid c = oa_uuid a" "oa_used a \<le> oa_used c" using u by simp_all
  show "fresh_in a c (ot_id t') \<or> (\<exists>t \<in> set (oa_tokens a). token_from t t')" if c: "t' \<in> set (oa_tokens c)" for t'
    using bc c
  proof (cases rule: frame_token)
    case 1
    then show ?thesis using fresh_in_left u(1,2) by blast
  next
    case (2 t)
    from ab 2(1) show ?thesis
    proof (cases rule: frame_token)
      case 1
      then show ?thesis using 2(2) fresh_in_right [OF _ u(4)] by (simp add: token_from_def)
    next
      case (2 s)
      then show ?thesis using \<open>token_from t t'\<close> by (auto simp: token_from_def)
    qed
  qed
  show "fresh_in a c (og_id g') \<or> (\<exists>g \<in> set (oa_grants a). grant_from g g')" if c: "g' \<in> set (oa_grants c)" for g'
    using bc c
  proof (cases rule: frame_grant)
    case 1
    then show ?thesis using fresh_in_left u(1,2) by blast
  next
    case (2 g)
    from ab 2(1) show ?thesis
    proof (cases rule: frame_grant)
      case 1
      then show ?thesis using 2(2) fresh_in_right [OF _ u(4)] by (simp add: grant_from_def)
    next
      case (2 h)
      then show ?thesis using \<open>grant_from g g'\<close> by (auto simp: grant_from_def)
    qed
  qed
qed

text \<open>The primitive effects, composed on the right.\<close>

lemma of_same:
  "oauth_frame db d \<Longrightarrow> oa_uuid d' = oa_uuid d \<Longrightarrow> oa_used d' = oa_used d \<Longrightarrow> oa_tokens d' = oa_tokens d \<Longrightarrow>
     oa_grants d' = oa_grants d \<Longrightarrow> oauth_frame db d'"
  by (simp add: oauth_frame_def fresh_in_def)

lemma of_grants:
  assumes "oauth_frame db d" and "\<And>g. og_id (f g) = og_id g \<and> (og_revoked g \<noteq> None \<longrightarrow> og_revoked (f g) \<noteq> None)"
  shows "oauth_frame db (set_grant P f d)"
proof (rule oauth_frame_trans [OF assms(1)])
  have "\<exists>g \<in> set (oa_grants d). grant_from g g'" if "g' \<in> set (oa_grants (set_grant P f d))" for g'
    using that assms(2) by (auto simp: set_grant_def grant_from_def)
  then show "oauth_frame d (set_grant P f d)"
    by (auto simp: oauth_frame_def set_grant_def token_from_def)
qed

lemma of_tokens:
  assumes "oauth_frame db d" and "\<And>t. ot_id (f t) = ot_id t \<and> (ot_used t \<noteq> None \<longrightarrow> ot_used (f t) \<noteq> None)"
  shows "oauth_frame db (set_token P f d)"
proof (rule oauth_frame_trans [OF assms(1)])
  have "\<exists>t \<in> set (oa_tokens d). token_from t t'" if "t' \<in> set (oa_tokens (set_token P f d))" for t'
    using that assms(2) by (auto simp: set_token_def token_from_def)
  then show "oauth_frame d (set_token P f d)"
    by (auto simp: oauth_frame_def set_token_def grant_from_def)
qed

lemma of_client: "oauth_frame db d \<Longrightarrow> oauth_frame db (set_client P f d)"
  by (erule of_same) (simp_all add: set_client_def)

lemma of_audit: "oauth_frame db d \<Longrightarrow> oauth_frame db (oa_append_audit e d)"
  by (erule of_same) (simp_all add: oa_append_audit_def)

lemma of_event: "oauth_frame db d \<Longrightarrow> oauth_frame db (log_mcp_event c d)"
  by (erule of_same) (simp_all add: log_mcp_event_def)

lemma of_expire: "oauth_frame db d \<Longrightarrow> oauth_frame db (expire_tokens P d)"
  unfolding expire_tokens_def by (erule of_tokens) simp

lemma of_revoke: "oauth_frame db d \<Longrightarrow> oauth_frame db (revoke_grant g by d)"
  unfolding revoke_grant_def by (rule of_expire, erule of_grants) simp

lemma of_random: "oauth_frame db d \<Longrightarrow> oauth_frame db (snd (new_opaque_token d))"
  by (erule of_same) (simp_all add: new_opaque_token_def)

lemma of_fresh: "oauth_frame db d \<Longrightarrow> oauth_frame db (snd (oa_fresh d))"
  by (erule oauth_frame_trans) (auto simp: oauth_frame_def oa_fresh_def token_from_def grant_from_def)

lemmas oauth_frames = of_client of_audit of_event of_expire of_revoke of_random of_fresh

text \<open>A row whose id was drawn since \<open>db\<close>.\<close>

lemma of_new_token:
  assumes "oauth_frame db d" "fresh_in db d (ot_id t)"
  shows "oauth_frame db (d\<lparr>oa_tokens := oa_tokens d @ [t]\<rparr>)"
proof -
  have "fresh_in db (d\<lparr>oa_tokens := ts\<rparr>) i = fresh_in db d i" for ts i by (simp add: fresh_in_def)
  then show ?thesis using assms by (simp add: oauth_frame_def)
qed

lemma of_insert:
  "oauth_frame db d \<Longrightarrow> insert_token t d = Some d' \<Longrightarrow> fresh_in db d (ot_id t) \<Longrightarrow> oauth_frame db d'"
  by (auto simp: insert_token_def of_new_token split: if_splits)

lemma of_new_grant:
  assumes "oauth_frame db d" "fresh_in db d (og_id g)"
  shows "oauth_frame db (d\<lparr>oa_grants := oa_grants d @ [g]\<rparr>)"
proof -
  have "fresh_in db (d\<lparr>oa_grants := gs\<rparr>) i = fresh_in db d i" for gs i by (simp add: fresh_in_def)
  then show ?thesis using assms by (simp add: oauth_frame_def)
qed

lemma of_drop: "oauth_frame db d \<Longrightarrow> oauth_frame db (drop_tokens P d)"
proof (erule oauth_frame_trans)
  have "\<exists>t \<in> set (oa_tokens d). token_from t t'" if "t' \<in> set (oa_tokens (drop_tokens P d))" for t'
    using that by (force simp: drop_tokens_def Let_def token_from_def split: option.splits if_splits)
  then show "oauth_frame d (drop_tokens P d)"
    by (auto simp: oauth_frame_def drop_tokens_def Let_def grant_from_def)
qed

section \<open>Every operation\<close>

lemma oauth_row_fields [simp]:
  "oa_uuid (snd (new_opaque_token d)) = oa_uuid d" "oa_used (snd (new_opaque_token d)) = oa_used d"
  "oa_tokens (snd (new_opaque_token d)) = oa_tokens d" "oa_grants (snd (new_opaque_token d)) = oa_grants d"
  "oa_now (snd (new_opaque_token d)) = oa_now d"
  "oa_uuid (snd (oa_fresh d)) = oa_uuid d" "oa_used (snd (oa_fresh d)) = Suc (oa_used d)"
  "fst (oa_fresh d) = oa_uuid d (oa_used d)" "oa_tokens (snd (oa_fresh d)) = oa_tokens d"
  "oa_grants (snd (oa_fresh d)) = oa_grants d" "oa_now (snd (oa_fresh d)) = oa_now d"
  by (simp_all add: new_opaque_token_def oa_fresh_def)

lemma ensure_grant_frame: "oauth_frame db (snd (ensure_grant u c db))"
proof (cases "live_grant db u (oc_id c)")
  case None
  have f: "oauth_frame db (snd (oa_fresh db))" by (intro of_fresh oauth_frame_refl)
  have "oauth_frame db (snd (oa_fresh db)\<lparr>oa_grants := oa_grants (snd (oa_fresh db)) @ [g]\<rparr>)"
    if "og_id g = oa_uuid db (oa_used db)" for g
    by (rule of_new_grant [OF f]) (auto simp: fresh_in_def that)
  then show ?thesis using None
    by (auto simp: ensure_grant_def case_prod_beta intro!: of_audit)
qed (simp add: ensure_grant_def)

lemma approve_frame: "oauth_frame db (snd (approve_authorization env u c rq db))"
proof -
  let ?d = "snd (oa_fresh (snd (new_opaque_token (snd (ensure_grant u c db)))))"
  have f: "oauth_frame db ?d" by (intro of_fresh of_random ensure_grant_frame)
  have "fresh_in db ?d (fst (oa_fresh (snd (new_opaque_token (snd (ensure_grant u c db))))))"
    using frame_uuid [OF ensure_grant_frame [of db u c]] by (auto simp: fresh_in_def)
  then show ?thesis
    by (auto simp: approve_authorization_def case_prod_beta Let_def split: option.split
        intro!: of_client of_insert [OF f])
qed

lemma take_frame: "oauth_frame db (snd (take_authorize_request i u db))"
  by (auto simp: take_authorize_request_def split: option.split intro: of_same [OF oauth_frame_refl])

lemma consent_frame: "oauth_frame db (snd (consent env u i approve db))"
proof -
  obtain o1 db1 where t: "take_authorize_request i u db = (o1, db1)" by force
  then have f: "oauth_frame db db1" using take_frame [of db i u] by simp
  have "oauth_frame db (snd (approve_authorization env u c rq db1))" for c rq
    by (rule oauth_frame_trans [OF f approve_frame])
  then have "approve_authorization env u c rq db1 = (res, db2) \<Longrightarrow> oauth_frame db db2" for c rq res db2
    by (metis snd_conv)
  then show ?thesis using t f
    by (auto simp: consent_def split: option.splits prod.splits)
qed

definition access_row :: "oauth_env \<Rightarrow> ident \<Rightarrow> oauth_db \<Rightarrow> oauth_token" where
  "access_row env g db =
     \<lparr>ot_id = oa_uuid db (oa_used db), ot_grant = g, ot_kind = AccessToken, ot_hash = oe_hash env (oa_random db (oa_drawn db)),
      ot_expires = access_token_expiry (ms_access_minutes (get_mcp_settings db)) (oa_now db),
      ot_used = None, ot_rotated = None, ot_challenge = None, ot_redirect = None, ot_resource = None\<rparr>"

definition refresh_row :: "oauth_env \<Rightarrow> ident \<Rightarrow> ident option \<Rightarrow> oauth_db \<Rightarrow> oauth_token" where
  "refresh_row env g rotated db =
     \<lparr>ot_id = oa_uuid db (Suc (oa_used db)), ot_grant = g, ot_kind = RefreshToken,
      ot_hash = oe_hash env (oa_random db (Suc (oa_drawn db))),
      ot_expires = refresh_token_expiry (ms_refresh_days (get_mcp_settings db)) (oa_now db),
      ot_used = None, ot_rotated = rotated, ot_challenge = None, ot_redirect = None, ot_resource = None\<rparr>"

definition drawn :: "oauth_db \<Rightarrow> oauth_db" where
  "drawn db = db\<lparr>oa_drawn := oa_drawn db + 2, oa_used := oa_used db + 2\<rparr>"

lemma issue_tokens_snd:
  "snd (issue_tokens env g rotated db) = drawn db \<or>
   snd (issue_tokens env g rotated db) =
     drawn db\<lparr>oa_tokens := oa_tokens db @ [access_row env g db, refresh_row env g rotated db]\<rparr>"
  by (simp add: issue_tokens_def new_opaque_token_def oa_fresh_def insert_token_def Let_def drawn_def access_row_def
      refresh_row_def split: option.split)

lemma issue_frame: "oauth_frame db d \<Longrightarrow> oauth_frame db (snd (issue_tokens env g rotated d))"
proof (erule oauth_frame_trans)
  let ?ts = "[access_row env g d, refresh_row env g rotated d]"
  have d: "oauth_frame d (drawn d)"
    by (rule oauth_frameI) (auto simp: drawn_def token_from_def grant_from_def)
  have "fresh_in d (drawn d\<lparr>oa_tokens := oa_tokens d @ ?ts\<rparr>) (ot_id t)" if "t \<in> set ?ts" for t
    using that by (auto simp: fresh_in_def drawn_def access_row_def refresh_row_def intro: exI [of _ "Suc (oa_used d)"])
  then have "oauth_frame d (drawn d\<lparr>oa_tokens := oa_tokens d @ ?ts\<rparr>)"
    by (intro oauth_frameI) (auto simp: drawn_def token_from_def grant_from_def)
  then show "oauth_frame d (snd (issue_tokens env g rotated d))"
    using d issue_tokens_snd [of env g rotated d] by metis
qed

lemma redeem_frame: "oauth_frame db (snd (redeem env r db))"
proof -
  let ?d = "set_token (\<lambda>t. ot_id t = rd_token r \<and> ot_used t = None) (ot_used_update (\<lambda>_. Some (oa_now db))) db"
  have "oauth_frame db (snd (issue_tokens env (rd_grant r) (rd_lineage r) ?d))"
    by (intro issue_frame of_tokens [OF oauth_frame_refl]) simp
  then show ?thesis by (auto simp: redeem_def split: option.split prod.split)
qed

text \<open>The state a check leaves is the one it found, plus an event, plus a revocation.\<close>

lemma check_state:
  assumes p: "P db" "\<And>c. P (log_mcp_event c db)" "\<And>c g. P (log_mcp_event c (revoke_grant g None db))"
  shows "P (snd (check_token_request env rq db))"
proof -
  have "P (snd (check_code env rq db))"
  proof (cases "code_row env db (tr_code rq)")
    case None
    then show ?thesis by (simp add: check_code_def p)
  next
    case (Some r)
    obtain t g c where "r = (t, g, c)" by (cases r)
    then show ?thesis using Some by (simp add: check_code_def p del: de_Morgan_disj)
  qed
  moreover have "P (snd (check_refresh env rq db))"
  proof (cases "user_token_row env db RefreshToken (tr_refresh_token rq)")
    case None
    then show ?thesis by (simp add: check_refresh_def p)
  next
    case (Some r)
    obtain t g c a where "r = (t, g, c, a)" by (cases r)
    then show ?thesis using Some by (simp add: check_refresh_def p del: de_Morgan_disj)
  qed
  ultimately show ?thesis by (simp add: check_token_request_def p)
qed

lemma check_frame: "oauth_frame db (snd (check_token_request env rq db))"
  by (rule check_state) (intro of_event of_revoke oauth_frame_refl)+

lemma apply_op_frame: "oauth_frame db (apply_op env op db)"
proof (cases op)
  case (OpRegister body ip)
  then show ?thesis
    by (auto simp: register_client_def insert_client_def case_prod_beta Let_def split: sum.split
        intro!: of_same [OF of_fresh [OF of_random [OF oauth_frame_refl]]])
next
  case (OpStash u c rq)
  then show ?thesis
    by (auto simp: stash_authorize_request_def case_prod_beta Let_def intro!: of_same [OF of_fresh [OF oauth_frame_refl]])
next
  case (OpConsent u i approve)
  then show ?thesis by (simp add: consent_frame)
next
  case (OpRevokeEndpoint raw)
  then show ?thesis by (auto simp: revoke_endpoint_def split: option.split intro: of_revoke)
next
  case (OpRevokeConnection u i actor adm)
  then show ?thesis
    by (auto simp: revoke_connection_def Let_def split: option.split intro!: of_audit of_expire of_grants)
next
  case (OpRevokeAll u)
  then show ?thesis by (auto simp: revoke_all_user_grants_def Let_def intro!: of_expire of_grants)
next
  case (OpBlock i b actor)
  then show ?thesis by (auto simp: set_client_blocked_def split: option.split intro!: of_audit of_client)
next
  case OpHousekeeping
  then show ?thesis
    by (auto simp: mcp_housekeeping_def Let_def intro!: of_same [OF of_drop [OF oauth_frame_refl]])
next
  case (OpTouch c)
  then show ?thesis by (auto simp: touch_caller_def intro!: of_client of_grants)
qed (auto intro: of_same [OF oauth_frame_refl])

lemma frame_of_result: "(\<And>x. oauth_frame db (snd (f x))) \<Longrightarrow> f x = (r, db') \<Longrightarrow> oauth_frame db db'"
  by (metis snd_conv)

lemma oauth_step_frame: "oauth_step env w v \<Longrightarrow> oauth_frame (ow_db w) (ow_db v)"
  by (induction rule: oauth_step.induct)
    (auto intro: apply_op_frame frame_of_result [of _ "\<lambda>rq. check_token_request env rq _", OF check_frame]
      frame_of_result [of _ "\<lambda>r. redeem env r _", OF redeem_frame])

section \<open>Invariants of a run\<close>

text \<open>\<open>spent\<close>: an id already drawn of which no row can be redeemed; \<open>dead\<close>: of which no grant is live.\<close>

definition drawn_id :: "oauth_db \<Rightarrow> ident \<Rightarrow> bool" where
  "drawn_id db i = (i \<in> oa_uuid db ` {..<oa_used db})"

definition spent :: "oauth_db \<Rightarrow> ident \<Rightarrow> bool" where
  "spent db i = (drawn_id db i \<and> (\<forall>t \<in> set (oa_tokens db). ot_id t = i \<longrightarrow> ot_used t \<noteq> None))"

definition dead :: "oauth_db \<Rightarrow> ident \<Rightarrow> bool" where
  "dead db i = (drawn_id db i \<and> (\<forall>g \<in> set (oa_grants db). og_id g = i \<longrightarrow> og_revoked g \<noteq> None))"

lemma drawn_not_fresh: "inj (oa_uuid db) \<Longrightarrow> drawn_id db i \<Longrightarrow> \<not> fresh_in db db' i"
  by (auto simp: drawn_id_def fresh_in_def dest: injD)

lemma drawn_frame: "oauth_frame db db' \<Longrightarrow> drawn_id db i \<Longrightarrow> drawn_id db' i"
  using frame_uuid [of db db'] by (auto simp: drawn_id_def)

lemma fresh_drawn: "oauth_frame db db' \<Longrightarrow> fresh_in db db' i \<Longrightarrow> drawn_id db' i"
  using frame_uuid [of db db'] by (auto simp: drawn_id_def fresh_in_def)

lemma spent_frame:
  assumes "inj (oa_uuid db)" "oauth_frame db db'" "spent db i"
  shows "spent db' i"
proof -
  have "ot_used t' \<noteq> None" if "t' \<in> set (oa_tokens db')" "ot_id t' = i" for t'
    using assms(2) that(1)
  proof (cases rule: frame_token)
    case 1
    then show ?thesis using drawn_not_fresh [OF assms(1)] assms(3) that(2) by (auto simp: spent_def)
  next
    case (2 t)
    then show ?thesis using assms(3) that(2) by (auto simp: spent_def token_from_def)
  qed
  then show ?thesis using drawn_frame assms(2,3) by (simp add: spent_def)
qed

lemma dead_frame:
  assumes "inj (oa_uuid db)" "oauth_frame db db'" "dead db i"
  shows "dead db' i"
proof -
  have "og_revoked g' \<noteq> None" if "g' \<in> set (oa_grants db')" "og_id g' = i" for g'
    using assms(2) that(1)
  proof (cases rule: frame_grant)
    case 1
    then show ?thesis using drawn_not_fresh [OF assms(1)] assms(3) that(2) by (auto simp: dead_def)
  next
    case (2 g)
    then show ?thesis using assms(3) that(2) by (auto simp: dead_def grant_from_def)
  qed
  then show ?thesis using drawn_frame assms(2,3) by (simp add: dead_def)
qed

lemma ids_ok_iff:
  "oauth_ids_ok db \<longleftrightarrow> inj (oa_uuid db) \<and> (\<forall>t \<in> set (oa_tokens db). drawn_id db (ot_id t)) \<and>
     (\<forall>g \<in> set (oa_grants db). drawn_id db (og_id g))"
  by (auto simp: oauth_ids_ok_def drawn_id_def)

lemma ids_ok_frame:
  assumes "oauth_ids_ok db" "oauth_frame db db'"
  shows "oauth_ids_ok db'"
proof -
  have "drawn_id db' (ot_id t')" if "t' \<in> set (oa_tokens db')" for t'
    using assms(2) that
  proof (cases rule: frame_token)
    case (2 t)
    then show ?thesis using assms drawn_frame [OF assms(2)] by (auto simp: ids_ok_iff token_from_def)
  qed (use fresh_drawn assms(2) in blast)
  moreover have "drawn_id db' (og_id g')" if "g' \<in> set (oa_grants db')" for g'
    using assms(2) that
  proof (cases rule: frame_grant)
    case (2 g)
    then show ?thesis using assms drawn_frame [OF assms(2)] by (auto simp: ids_ok_iff grant_from_def)
  qed (use fresh_drawn assms(2) in blast)
  ultimately show ?thesis using assms frame_uuid [OF assms(2)] by (simp add: ids_ok_iff)
qed

text \<open>A redemption that succeeds consumes a row that could still be redeemed.\<close>

lemma redeem_ok:
  assumes "redeem env r db = (Inr toks, db')" "oauth_ids_ok db"
  shows "\<not> spent db (rd_token r) \<and> spent db' (rd_token r)"
proof -
  let ?d = "set_token (\<lambda>t. ot_id t = rd_token r \<and> ot_used t = None) (ot_used_update (\<lambda>_. Some (oa_now db))) db"
  from assms(1) have ex: "\<exists>t \<in> set (oa_tokens db). ot_id t = rd_token r \<and> ot_used t = None"
    by (auto simp: redeem_def list_ex_iff split: if_splits option.splits prod.splits)
  then have d: "drawn_id db (rd_token r)" using assms(2) by (auto simp: ids_ok_iff)
  have inj: "inj (oa_uuid ?d)" using assms(2) by (simp add: ids_ok_iff set_token_def)
  have sp: "spent ?d (rd_token r)" using d by (auto simp: spent_def drawn_id_def set_token_def)
  have snd: "db' = snd (issue_tokens env (rd_grant r) (rd_lineage r) ?d)"
    using assms(1) by (auto simp: redeem_def split: if_splits option.splits prod.splits)
  have "spent db' (rd_token r)"
    unfolding snd by (rule spent_frame [OF inj issue_frame sp]) (rule oauth_frame_refl)
  then show ?thesis using ex by (auto simp: spent_def)
qed

lemma oauth_steps_frame: "oauth_steps env w v \<Longrightarrow> oauth_frame (ow_db w) (ow_db v)"
  by (induction rule: oauth_steps.induct) (auto intro: oauth_frame_trans oauth_step_frame)

definition oauth_inv :: "oauth_world \<Rightarrow> bool" where
  "oauth_inv w =
     (oauth_ids_ok (ow_db w) \<and> distinct (ow_redeemed w) \<and> (\<forall>i \<in> set (ow_redeemed w). spent (ow_db w) i))"

lemma oauth_inv_step: "oauth_step env w v \<Longrightarrow> oauth_inv w \<Longrightarrow> oauth_inv v"
proof -
  assume st: "oauth_step env w v" and inv: "oauth_inv w"
  have fr: "oauth_frame (ow_db w) (ow_db v)" by (rule oauth_step_frame [OF st])
  have ids: "oauth_ids_ok (ow_db v)" using ids_ok_frame [OF _ fr] inv by (simp add: oauth_inv_def)
  have old: "\<forall>i \<in> set (ow_redeemed w). spent (ow_db v) i"
    using spent_frame [OF _ fr] inv by (auto simp: oauth_inv_def ids_ok_iff)
  from st show ?thesis
  proof cases
    case (step_redeem r toks db')
    have "\<not> spent (ow_db w) (rd_token r) \<and> spent db' (rd_token r)"
      by (rule redeem_ok [OF step_redeem(3)]) (use inv in \<open>simp add: oauth_inv_def\<close>)
    then show ?thesis using ids old inv step_redeem(1) by (auto simp: oauth_inv_def)
  qed (use ids old inv in \<open>auto simp: oauth_inv_def\<close>)
qed

lemma oauth_inv_steps: "oauth_steps env w v \<Longrightarrow> oauth_inv w \<Longrightarrow> oauth_inv v"
  by (induction rule: oauth_steps.induct) (auto intro: oauth_inv_step)

lemma oauth_start_inv: "oauth_start w \<Longrightarrow> oauth_inv w"
  by (simp add: oauth_start_def oauth_inv_def)

section \<open>What a caller and a redemption need\<close>

lemma join_grant_in:
  "join_grant db t = Some (g, c) \<Longrightarrow>
     g \<in> set (oa_grants db) \<and> og_id g = ot_grant t \<and> c \<in> set (oa_clients db) \<and> oc_id c = og_client g"
  by (auto simp: join_grant_def find_grant_def find_client_row_def split: option.splits dest: find_in_set)

lemma find_token_in: "find_token db k h = Some t \<Longrightarrow> t \<in> set (oa_tokens db) \<and> ot_kind t = k \<and> ot_hash t = h"
  by (auto simp: find_token_def dest: find_in_set)

lemma user_token_row_in:
  "user_token_row env db k raw = Some (t, g, c, a) \<Longrightarrow>
     t \<in> set (oa_tokens db) \<and> ot_kind t = k \<and> ot_hash t = oe_hash env raw \<and> g \<in> set (oa_grants db) \<and>
     og_id g = ot_grant t \<and> c \<in> set (oa_clients db) \<and> oc_id c = og_client g \<and>
     (\<exists>u \<in> set (t_users (oa_access db)). ur_id u = og_user g \<and> ur_active u = a)"
  by (auto simp: user_token_row_def user_status_def split: option.splits prod.splits
      dest!: join_grant_in find_token_in find_in_set)

lemma code_row_in:
  "code_row env db code = Some (t, g, c) \<Longrightarrow>
     t \<in> set (oa_tokens db) \<and> ot_kind t = CodeToken \<and> ot_hash t = oe_hash env code \<and> g \<in> set (oa_grants db) \<and>
     og_id g = ot_grant t \<and> c \<in> set (oa_clients db) \<and> oc_id c = og_client g"
  by (auto simp: code_row_def split: option.splits dest!: join_grant_in find_token_in)

text \<open>What a code exchange that passed has checked.\<close>

lemma check_code_passed:
  assumes "check_code env rq db = (Inr r, db')"
  obtains t g c where "code_row env db (tr_code rq) = Some (t, g, c)" "db' = db"
    "r = \<lparr>rd_token = ot_id t, rd_grant = og_id g, rd_lineage = None\<rparr>" "ot_used t = None" "oa_now db < ot_expires t"
    "og_revoked g = None" "oc_blocked c = None" "oc_client_id c = tr_client_id rq"
    "(case ot_redirect t of None \<Rightarrow> [] | Some u \<Rightarrow> u) = tr_redirect_uri rq"
    "truthy (ot_challenge t)" "verify_pkce (oe_s256 env) (tr_verifier rq) (the (ot_challenge t))"
proof (cases "code_row env db (tr_code rq)")
  case None
  then show ?thesis using assms by (simp add: check_code_def split: if_splits)
next
  case (Some x)
  obtain t g c where x: "x = (t, g, c)" by (cases x)
  show ?thesis
    by (rule that [of t g c]) (use assms Some x in \<open>simp_all add: check_code_def split: if_splits\<close>)
qed

lemma check_refresh_passed:
  assumes "check_refresh env rq db = (Inr r, db')"
  obtains t g c where "user_token_row env db RefreshToken (tr_refresh_token rq) = Some (t, g, c, True)" "db' = db"
    "r = \<lparr>rd_token = ot_id t, rd_grant = og_id g, rd_lineage = Some (ot_id t)\<rparr>" "ot_used t = None"
    "oa_now db < ot_expires t" "og_revoked g = None" "oc_blocked c = None"
proof (cases "user_token_row env db RefreshToken (tr_refresh_token rq)")
  case None
  then show ?thesis using assms by (simp add: check_refresh_def split: if_splits)
next
  case (Some x)
  obtain t g c a where x: "x = (t, g, c, a)" by (cases x)
  show ?thesis
    by (rule that [of t g c]) (use assms Some x in \<open>simp_all add: check_refresh_def split: if_splits\<close>)
qed

lemma check_passed_live:
  assumes "check_token_request env rq db = (Inr r, db')"
  shows "db' = db \<and> \<not> dead db (rd_grant r)"
proof -
  have "check_code env rq db = (Inr r, db') \<or> check_refresh env rq db = (Inr r, db')"
    using assms by (simp add: check_token_request_def split: if_splits)
  then show ?thesis
  proof
    assume "check_code env rq db = (Inr r, db')"
    then show ?thesis by (rule check_code_passed) (drule code_row_in, auto simp: dead_def)
  next
    assume "check_refresh env rq db = (Inr r, db')"
    then show ?thesis by (rule check_refresh_passed) (drule user_token_row_in, auto simp: dead_def)
  qed
qed

text \<open>A bearer that is let in.\<close>

lemma authenticate_passed:
  assumes "authenticate env db header = Inr c"
  obtains raw t g cl u where "bearer_from_header header = Some raw"
    "user_token_row env db AccessToken raw = Some (t, g, cl, True)" "og_revoked g = None" "oc_blocked cl = None"
    "oa_now db < ot_expires t" "resolve_access_for_user env db (og_user g) = Some (mc_access c, u)"
    "c = \<lparr>mc_user = u, mc_access = mc_access c, mc_grant = og_id g, mc_client_name = dc_name (oc_registration cl),
          mc_client = oc_id cl\<rparr>"
proof -
  obtain raw where raw: "bearer_from_header header = Some raw"
    using assms by (cases "bearer_from_header header") (simp_all add: authenticate_def)
  obtain x where "user_token_row env db AccessToken raw = Some x"
    using assms raw by (cases "user_token_row env db AccessToken raw") (simp_all add: authenticate_def)
  moreover obtain t g cl a where "x = (t, g, cl, a)" by (cases x)
  ultimately have row: "user_token_row env db AccessToken raw = Some (t, g, cl, a)" by simp
  obtain y where "resolve_access_for_user env db (og_user g) = Some y"
    using assms raw row by (cases "resolve_access_for_user env db (og_user g)") (simp_all add: authenticate_def split: if_splits)
  moreover obtain ac u where "y = (ac, u)" by (cases y)
  ultimately have res: "resolve_access_for_user env db (og_user g) = Some (ac, u)" by simp
  have "a" using assms raw row by (simp add: authenticate_def split: if_splits)
  then show ?thesis
    by (intro that [of raw t g cl u]) (use assms raw row res in \<open>auto simp: authenticate_def split: if_splits\<close>)
qed

lemma authenticated_live: "authenticate env db h = Inr c \<Longrightarrow> \<not> dead db (mc_grant c)"
  by (erule authenticate_passed, drule user_token_row_in, drule arg_cong [where f = mc_grant]) (auto simp: dead_def)

end
