(* ===== verification/OAuthProps.thy ===== *)
theory OAuthProps
  imports OAuthFacts
begin

text \<open>
  The properties of the authorization server, over the runs of \<open>OAuthFacts\<close>.
\<close>

section \<open>Grant ids are unique\<close>

definition grant_ids :: "oauth_db \<Rightarrow> ident list" where
  "grant_ids db = map og_id (oa_grants db)"

definition grants_distinct :: "oauth_world \<Rightarrow> bool" where
  "grants_distinct w = distinct (grant_ids (ow_db w))"

lemma grant_ids_simps [simp]:
  "grant_ids (set_token P tf db) = grant_ids db" "grant_ids (set_client R cf db) = grant_ids db"
  "grant_ids (oa_append_audit e db) = grant_ids db" "grant_ids (log_mcp_event c db) = grant_ids db"
  "grant_ids (snd (new_opaque_token db)) = grant_ids db" "grant_ids (snd (oa_fresh db)) = grant_ids db"
  "grant_ids (expire_tokens Q db) = grant_ids db" "grant_ids (drop_tokens P db) = grant_ids db"
  by (simp_all add: grant_ids_def set_token_def set_client_def oa_append_audit_def log_mcp_event_def
      expire_tokens_def drop_tokens_def Let_def)

lemma grant_ids_set [simp]: "(\<And>g. og_id (f g) = og_id g) \<Longrightarrow> grant_ids (set_grant P f db) = grant_ids db"
  by (simp add: grant_ids_def set_grant_def o_def if_distrib [of og_id] cong: if_cong)

lemma grant_ids_revoke [simp]: "grant_ids (revoke_grant g by db) = grant_ids db"
  by (simp add: revoke_grant_def)

lemma grant_ids_issue [simp]: "grant_ids (snd (issue_tokens env g rot db)) = grant_ids db"
  using issue_tokens_snd [of env g rot db] by (auto simp: grant_ids_def drawn_def)

lemma redeem_snd:
  "snd (redeem env r db) = db \<or> snd (redeem env r db) =
     snd (issue_tokens env (rd_grant r) (rd_lineage r)
       (set_token (\<lambda>t. ot_id t = rd_token r \<and> ot_used t = None) (ot_used_update (\<lambda>_. Some (oa_now db))) db))"
  (is "_ \<or> _ = snd ?issue")
proof -
  obtain o1 d where "?issue = (o1, d)" by force
  then show ?thesis by (simp add: redeem_def split: option.split)
qed

lemma grant_ids_redeem [simp]: "grant_ids (snd (redeem env r db)) = grant_ids db"
  using redeem_snd [of env r db] by (elim disjE) simp_all

lemma grant_ids_check [simp]: "grant_ids (snd (check_token_request env rq db)) = grant_ids db"
  by (rule check_state) simp_all

lemma grant_ids_insert: "insert_token t db = Some d \<Longrightarrow> grant_ids d = grant_ids db"
  by (auto simp: insert_token_def grant_ids_def split: if_splits)

lemma grant_ids_ensure:
  "grant_ids (snd (ensure_grant u c db)) = grant_ids db \<or>
   grant_ids (snd (ensure_grant u c db)) = grant_ids db @ [oa_uuid db (oa_used db)]"
  by (cases "live_grant db u (oc_id c)")
    (auto simp: ensure_grant_def case_prod_beta oa_append_audit_def grant_ids_def)

lemma grant_ids_approve:
  "grant_ids (snd (approve_authorization env u c rq db)) = grant_ids db \<or>
   grant_ids (snd (approve_authorization env u c rq db)) = grant_ids db @ [oa_uuid db (oa_used db)]"
proof -
  have "grant_ids (snd (approve_authorization env u c rq db)) = grant_ids db \<or>
     grant_ids (snd (approve_authorization env u c rq db)) = grant_ids (snd (ensure_grant u c db))"
    by (auto simp: approve_authorization_def case_prod_beta Let_def split: option.split dest!: grant_ids_insert)
  then show ?thesis using grant_ids_ensure [of u c db] by metis
qed

lemma take_same:
  "oa_uuid (snd (take_authorize_request i u db)) = oa_uuid db" "oa_used (snd (take_authorize_request i u db)) = oa_used db"
  "grant_ids (snd (take_authorize_request i u db)) = grant_ids db"
  by (simp_all add: take_authorize_request_def grant_ids_def split: option.split)

lemma grant_ids_consent:
  "grant_ids (snd (consent env u i ok db)) = grant_ids db \<or>
   grant_ids (snd (consent env u i ok db)) = grant_ids db @ [oa_uuid db (oa_used db)]"
proof -
  obtain o1 d where t: "take_authorize_request i u db = (o1, d)" by force
  have d: "oa_uuid d = oa_uuid db" "oa_used d = oa_used db" "grant_ids d = grant_ids db"
    using take_same [of i u db] t by simp_all
  have ap: "approve_authorization env u c rq d = (res, d2) \<Longrightarrow>
      grant_ids d2 = grant_ids db \<or> grant_ids d2 = grant_ids db @ [oa_uuid db (oa_used db)]" for c rq res d2
    using grant_ids_approve [of env u c rq d] d by simp
  show ?thesis using t d(3) by (auto simp: consent_def split: option.splits prod.splits dest!: ap)
qed

lemma grant_ids_op:
  "grant_ids (apply_op env op db) = grant_ids db \<or>
   grant_ids (apply_op env op db) = grant_ids db @ [oa_uuid db (oa_used db)]"
proof (cases op)
  case (OpConsent u i approve)
  then show ?thesis by (simp add: grant_ids_consent)
next
  case (OpRegister body ip)
  then show ?thesis
    by (simp add: register_client_def insert_client_def case_prod_beta Let_def grant_ids_def split: sum.split)
next
  case (OpStash u c rq)
  then show ?thesis by (simp add: stash_authorize_request_def case_prod_beta Let_def grant_ids_def)
next
  case (OpRevokeEndpoint raw)
  then show ?thesis by (simp add: revoke_endpoint_def split: option.split)
next
  case (OpRevokeConnection u i actor adm)
  then show ?thesis by (simp add: revoke_connection_def Let_def split: option.split)
next
  case (OpRevokeAll u)
  then show ?thesis by (simp add: revoke_all_user_grants_def Let_def)
next
  case (OpBlock i b actor)
  then show ?thesis by (simp add: set_client_blocked_def split: option.split)
next
  case OpHousekeeping
  then show ?thesis by (simp add: mcp_housekeeping_def Let_def) (simp add: grant_ids_def drop_tokens_def Let_def)
next
  case (OpTouch c)
  then show ?thesis by (simp add: touch_caller_def)
qed (simp_all add: grant_ids_def)

lemma grants_distinct_step:
  assumes "oauth_step env w v" "oauth_inv w" "grants_distinct w"
  shows "grants_distinct v"
proof -
  have "drawn_id (ow_db w) i" if "i \<in> set (grant_ids (ow_db w))" for i
    using assms(2) that by (auto simp: oauth_inv_def ids_ok_iff grant_ids_def)
  moreover have "\<not> drawn_id (ow_db w) (oa_uuid (ow_db w) (oa_used (ow_db w)))"
    using assms(2) by (auto simp: oauth_inv_def ids_ok_iff drawn_id_def dest: injD)
  ultimately have new: "oa_uuid (ow_db w) (oa_used (ow_db w)) \<notin> set (grant_ids (ow_db w))" by blast
  have chk: "check_token_request env rq (ow_db w) = (res, d) \<Longrightarrow> grant_ids d = grant_ids (ow_db w)" for rq res d
    using grant_ids_check [of env rq "ow_db w"] by simp
  have red: "redeem env r (ow_db w) = (res, d) \<Longrightarrow> grant_ids d = grant_ids (ow_db w)" for r res d
    using grant_ids_redeem [of env r "ow_db w"] by simp
  from assms(1) show ?thesis
  proof cases
    case (step_op op)
    then show ?thesis using grant_ids_op [of env op "ow_db w"] new assms(3) by (auto simp: grants_distinct_def)
  qed (use assms(3) chk red in \<open>auto simp: grants_distinct_def\<close>)
qed

lemma run_invariants:
  assumes "oauth_steps env w0 w" "oauth_start w0" "grants_distinct w0"
  shows "oauth_inv w \<and> grants_distinct w"
  using assms
  by (induction rule: oauth_steps.induct) (auto simp: oauth_start_inv intro: oauth_inv_step grants_distinct_step)

lemma dead_for_ever:
  assumes "oauth_steps env w v" "oauth_inv w" "dead (ow_db w) i"
  shows "(authenticate env (ow_db v) h = Inr c \<longrightarrow> mc_grant c \<noteq> i) \<and>
    (check_token_request env rq (ow_db v) = (Inr r, db') \<longrightarrow> rd_grant r \<noteq> i)"
proof -
  have "dead (ow_db v) i"
    by (rule dead_frame [OF _ oauth_steps_frame [OF assms(1)] assms(3)]) (use assms(2) in \<open>simp add: oauth_inv_def ids_ok_iff\<close>)
  then show ?thesis using authenticated_live check_passed_live by blast
qed

section \<open>Redemption and revocation\<close>

text \<open>
  C6: However the requests interleave, no authorization code and no refresh token is redeemed twice.
\<close>

theorem credentials_redeemed_once:
  assumes "oauth_start w0" "oauth_steps env w0 w"
  shows "distinct (ow_redeemed w)"
  using oauth_inv_steps [OF assms(2) oauth_start_inv [OF assms(1)]] by (simp add: oauth_inv_def)

lemma dead_revoke_grant:
  "oauth_ids_ok db \<Longrightarrow> g \<in> set (oa_grants db) \<Longrightarrow> og_id g = i \<Longrightarrow> dead (log_mcp_event e (revoke_grant i by db)) i"
  by (auto simp: dead_def drawn_id_def oauth_ids_ok_def log_mcp_event_def revoke_grant_def expire_tokens_def
      set_token_def set_grant_def)

lemma replay_dead:
  assumes "check_token_request env rq db = (Inl e, db')" "e = TokenCodeReplayed \<or> e = TokenRefreshReplayed"
    and "oauth_ids_ok db"
  shows "\<exists>t \<in> set (oa_tokens db). ot_used t \<noteq> None \<and>
    ot_hash t = oe_hash env (if e = TokenCodeReplayed then tr_code rq else tr_refresh_token rq) \<and> dead db' (ot_grant t)"
proof -
  consider (code) "check_code env rq db = (Inl e, db')" | (refresh) "check_refresh env rq db = (Inl e, db')"
    using assms(1,2) by (auto simp: check_token_request_def split: if_splits)
  then show ?thesis
  proof cases
    case code
    obtain t g c where row: "code_row env db (tr_code rq) = Some (t, g, c)"
      using code assms(2) by (cases "code_row env db (tr_code rq)") (auto simp: check_code_def split: if_splits)
    then have "ot_used t \<noteq> None" "e = TokenCodeReplayed"
        "db' = log_mcp_event ''mcp_refresh_reuse_detected'' (revoke_grant (og_id g) None db)"
      using code assms(2) by (auto simp: check_code_def split: if_splits)
    then show ?thesis using code_row_in [OF row] dead_revoke_grant [OF assms(3)] by auto
  next
    case refresh
    obtain t g c a where row: "user_token_row env db RefreshToken (tr_refresh_token rq) = Some (t, g, c, a)"
      using refresh assms(2)
      by (cases "user_token_row env db RefreshToken (tr_refresh_token rq)") (auto simp: check_refresh_def split: if_splits)
    then have "ot_used t \<noteq> None" "e = TokenRefreshReplayed"
        "db' = log_mcp_event ''mcp_refresh_reuse_detected'' (revoke_grant (og_id g) None db)"
      using refresh assms(2) by (auto simp: check_refresh_def split: if_splits)
    then show ?thesis using user_token_row_in [OF row] dead_revoke_grant [OF assms(3)] by auto
  qed
qed



section \<open>Who is let in\<close>

lemma left_join_membership_user: "r \<in> set (left_join_membership db u gm) \<Longrightarrow> ug_user r = ur_id u"
  by (auto simp: left_join_membership_def split: list.splits)

lemma left_join_groups_user: "r \<in> set (left_join_groups db u) \<Longrightarrow> ug_user r = ur_id u"
  by (cases "filter (\<lambda>gm. gm_user gm = ur_id u) (t_memberships db)")
    (auto simp: left_join_groups_def dest: left_join_membership_user)

lemma resolved_access:
  assumes "resolve_access_for_user env db u = Some (a, i)"
  shows "a = user_access (oa_access db) u (oe_bootstrap env) \<and> i = u"
proof -
  let ?rows = "sql_user_groups_by_id (oa_access db) u"
  have "ug_user r = u" if "r \<in> set ?rows" for r
    using that by (auto simp: sql_user_groups_by_id_def dest: left_join_groups_user)
  moreover have "fst (user_groups_from_rows ?rows) = Some i" "a = user_access (oa_access db) u (oe_bootstrap env)"
    using assms by (auto simp: resolve_access_for_user_def user_access_def access_from_rows_def Let_def
        split: prod.splits option.splits if_splits)
  ultimately show ?thesis by (auto simp: user_groups_from_rows_def split: list.splits)
qed


section \<open>Exchanging a code\<close>

lemma issue_tokens_ok:
  assumes "issue_tokens env g rotated db = (Some toks, db')"
  shows "db' = drawn db\<lparr>oa_tokens := oa_tokens db @ [access_row env g db, refresh_row env g rotated db]\<rparr> \<and>
    oe_hash env (is_access toks) = ot_hash (access_row env g db) \<and>
    oe_hash env (is_refresh toks) = ot_hash (refresh_row env g rotated db)"
  using assms by (auto simp: issue_tokens_def new_opaque_token_def oa_fresh_def insert_token_def Let_def drawn_def
      access_row_def refresh_row_def split: option.splits if_splits)

lemma redeem_success:
  assumes "redeem env r db = (Inr toks, db')"
  shows "\<exists>d. d = set_token (\<lambda>t. ot_id t = rd_token r \<and> ot_used t = None) (ot_used_update (\<lambda>_. Some (oa_now db))) db \<and>
    issue_tokens env (rd_grant r) (rd_lineage r) d = (Some toks, db')"
  using assms by (auto simp: redeem_def split: if_splits option.splits prod.splits)

lemma issued_lifetimes:
  "ot_expires (access_row env g db) \<le> oa_now db + 1440 * 60000 \<and> ot_expires (refresh_row env g rot db) \<le> oa_now db + 365 * 86400000"
  using settings_within_bounds [of "oa_settings db ''mcp_access_token_ttl_minutes''"]
    settings_within_bounds [of "oa_settings db ''mcp_refresh_token_ttl_days''"]
  by (simp add: access_row_def refresh_row_def access_token_expiry_def refresh_token_expiry_def get_mcp_settings_def)

text \<open>
  C9: A code is exchanged only for its own request: the verifier hashes to the challenge the user consented
  to, the redirect URI and the client are the ones of the request, the code is unused and not expired,
  the grant live and the client not blocked. The code is consumed, and exactly one access and one
  refresh token of the same grant are stored, living at most a day and a year.
\<close>

theorem code_exchanged_for_its_request:
  assumes "token_endpoint env rq db = (Inr toks, db')" "tr_grant_type rq = ''authorization_code''"
  shows "\<exists>t g c a r. t \<in> set (oa_tokens db) \<and> ot_kind t = CodeToken \<and> ot_hash t = oe_hash env (tr_code rq) \<and>
    ot_used t = None \<and> oa_now db < ot_expires t \<and> g \<in> set (oa_grants db) \<and> og_id g = ot_grant t \<and> og_revoked g = None \<and>
    c \<in> set (oa_clients db) \<and> oc_id c = og_client g \<and> oc_blocked c = None \<and> oc_client_id c = tr_client_id rq \<and>
    ot_challenge t = Some (oe_s256 env (tr_verifier rq)) \<and> 43 \<le> length (tr_verifier rq) \<and>
    (ot_redirect t = Some (tr_redirect_uri rq) \<or> (ot_redirect t = None \<and> tr_redirect_uri rq = [])) \<and>
    oa_tokens db' = map (\<lambda>x. if ot_id x = ot_id t \<and> ot_used x = None then x\<lparr>ot_used := Some (oa_now db)\<rparr> else x) (oa_tokens db) @ [a, r] \<and>
    ot_kind a = AccessToken \<and> ot_hash a = oe_hash env (is_access toks) \<and> ot_grant a = og_id g \<and>
    ot_kind r = RefreshToken \<and> ot_hash r = oe_hash env (is_refresh toks) \<and> ot_grant r = og_id g \<and>
    ot_expires a \<le> oa_now db + 1440 * 60000 \<and> ot_expires r \<le> oa_now db + 365 * 86400000"
proof -
  obtain rd d where chk: "check_token_request env rq db = (Inr rd, d)" and red: "redeem env rd d = (Inr toks, db')"
    using assms(1) by (auto simp: token_endpoint_def split: prod.splits sum.splits)
  then have "check_code env rq db = (Inr rd, d)"
    using assms(2) by (simp add: check_token_request_def split: if_splits)
  then obtain t g c where row: "code_row env db (tr_code rq) = Some (t, g, c)" and d: "d = db"
    and rd: "rd = \<lparr>rd_token = ot_id t, rd_grant = og_id g, rd_lineage = None\<rparr>" and ok: "ot_used t = None"
      "oa_now db < ot_expires t" "og_revoked g = None" "oc_blocked c = None" "oc_client_id c = tr_client_id rq"
      "(case ot_redirect t of None \<Rightarrow> [] | Some u \<Rightarrow> u) = tr_redirect_uri rq" "truthy (ot_challenge t)"
      "verify_pkce (oe_s256 env) (tr_verifier rq) (the (ot_challenge t))"
    by (rule check_code_passed)
  let ?d = "set_token (\<lambda>x. ot_id x = ot_id t \<and> ot_used x = None) (ot_used_update (\<lambda>_. Some (oa_now db))) db"
  let ?a = "access_row env (og_id g) ?d" and ?r = "refresh_row env (og_id g) None ?d"
  have "issue_tokens env (og_id g) None ?d = (Some toks, db')"
    using redeem_success [OF red] by (simp add: rd d)
  then have new: "db' = drawn ?d\<lparr>oa_tokens := oa_tokens ?d @ [?a, ?r]\<rparr>"
      "ot_hash ?a = oe_hash env (is_access toks)" "ot_hash ?r = oe_hash env (is_refresh toks)"
    using issue_tokens_ok [of env "og_id g" None ?d toks db'] by simp_all
  have pkce: "ot_challenge t = Some (oe_s256 env (tr_verifier rq))" "43 \<le> length (tr_verifier rq)"
    using ok(7,8) by (auto simp: truthy_def verify_pkce_def pkce_challenge_def split: if_splits)
  have redir: "ot_redirect t = Some (tr_redirect_uri rq) \<or> (ot_redirect t = None \<and> tr_redirect_uri rq = [])"
    using ok(6) by (cases "ot_redirect t") auto
  have toks: "oa_tokens db' = map (\<lambda>x. if ot_id x = ot_id t \<and> ot_used x = None then x\<lparr>ot_used := Some (oa_now db)\<rparr> else x)
      (oa_tokens db) @ [?a, ?r]"
    using new(1) by (simp add: set_token_def)
  have kinds: "ot_kind ?a = AccessToken" "ot_grant ?a = og_id g" "ot_kind ?r = RefreshToken" "ot_grant ?r = og_id g"
    by (simp_all add: access_row_def refresh_row_def)
  have "oa_now ?d = oa_now db" by (simp add: set_token_def)
  then have life: "ot_expires ?a \<le> oa_now db + 1440 * 60000" "ot_expires ?r \<le> oa_now db + 365 * 86400000"
    using issued_lifetimes [of env "og_id g" ?d None] by simp_all
  have mem: "t \<in> set (oa_tokens db)" "ot_kind t = CodeToken" "ot_hash t = oe_hash env (tr_code rq)" "g \<in> set (oa_grants db)"
      "og_id g = ot_grant t" "c \<in> set (oa_clients db)" "oc_id c = og_client g"
    using code_row_in [OF row] by simp_all
  show ?thesis
    by (intro exI [of _ t] exI [of _ g] exI [of _ c] exI [of _ ?a] exI [of _ ?r] conjI)
      (fact mem ok(1-5) pkce redir toks kinds life new(2,3))+
qed

section \<open>Consent\<close>

lemma take_success:
  assumes "take_authorize_request i u db = (Some (cid, rq), d)"
  obtains p cl where "p \<in> set (oa_pending db)" "pending_live db i u p" "rq = pa_request p"
    "cl \<in> set (oa_clients db)" "oc_id cl = pa_client p" "oc_client_id cl = cid"
    "d = db\<lparr>oa_pending := map (\<lambda>q. if pending_live db i u q then q\<lparr>pa_consumed := Some (oa_now db)\<rparr> else q) (oa_pending db)\<rparr>"
proof -
  obtain p where p: "find (pending_live db i u) (oa_pending db) = Some p"
    using assms by (auto simp: take_authorize_request_def split: if_splits option.splits)
  obtain cl where cl: "find_client_row db (pa_client p) = Some cl"
    using assms p by (auto simp: take_authorize_request_def split: if_splits)
  have eqs: "cid = oc_client_id cl" "rq = pa_request p"
    "d = db\<lparr>oa_pending := map (\<lambda>q. if pending_live db i u q then q\<lparr>pa_consumed := Some (oa_now db)\<rparr> else q) (oa_pending db)\<rparr>"
    using assms p cl by (auto simp: take_authorize_request_def split: if_splits)
  have "p \<in> set (oa_pending db) \<and> pending_live db i u p" using find_in_set [OF p] .
  moreover have "cl \<in> set (oa_clients db) \<and> oc_id cl = pa_client p"
    using find_in_set [OF cl [unfolded find_client_row_def]] .
  ultimately show ?thesis using that eqs by blast
qed

lemma ensure_grant_live:
  "\<exists>g \<in> set (oa_grants (snd (ensure_grant u c db))). og_id g = fst (ensure_grant u c db) \<and> og_user g = u \<and>
     og_client g = oc_id c \<and> og_revoked g = None"
proof (cases "live_grant db u (oc_id c)")
  case None
  then show ?thesis by (simp add: ensure_grant_def case_prod_beta oa_append_audit_def)
next
  case (Some g)
  then have "g \<in> set (oa_grants db) \<and> og_user g = u \<and> og_client g = oc_id c \<and> og_revoked g = None"
    using find_in_set [OF Some [unfolded live_grant_def]] by simp
  then show ?thesis using Some by (auto simp: ensure_grant_def)
qed

lemma ensure_grant_rest [simp]:
  "oa_tokens (snd (ensure_grant u c db)) = oa_tokens db" "oa_pending (snd (ensure_grant u c db)) = oa_pending db"
  "oa_now (snd (ensure_grant u c db)) = oa_now db" "oa_clients (snd (ensure_grant u c db)) = oa_clients db"
  by (auto simp: ensure_grant_def case_prod_beta oa_append_audit_def oa_fresh_def split: option.split)

lemma find_client_row_iff: "find_client_row db j \<noteq> None \<longleftrightarrow> j \<in> set (map oc_id (oa_clients db))"
  by (auto simp: find_client_row_def find_None_iff)

lemma client_ids_set [simp]: "(\<And>c. oc_id (f c) = oc_id c) \<Longrightarrow> map oc_id (oa_clients (set_client P f db)) = map oc_id (oa_clients db)"
  by (simp add: set_client_def)

text \<open>An approval either is rolled back or adds one code under a live grant of the user.\<close>

lemma approve_cases:
  assumes "approve_authorization env u c rq db = (res, db')"
  obtains "res = None" "db' = db"
  | g t where "res \<noteq> None" "oa_tokens db' = oa_tokens db @ [t]" "oa_pending db' = oa_pending db" "oa_now db' = oa_now db"
    "map oc_id (oa_clients db') = map oc_id (oa_clients db)" "g \<in> set (oa_grants db')" "og_id g = ot_grant t" "og_user g = u" "og_client g = oc_id c" "og_revoked g = None"
    "ot_kind t = CodeToken" "ot_used t = None" "ot_challenge t = Some (ar_challenge rq)"
    "ot_redirect t = Some (ar_redirect rq)" "ot_expires t = auth_code_expiry (oa_now db)"
proof -
  let ?e = "ensure_grant u c db"
  let ?d = "snd (oa_fresh (snd (new_opaque_token (snd ?e))))"
  define t :: oauth_token where "t = \<lparr>ot_id = fst (oa_fresh (snd (new_opaque_token (snd ?e)))), ot_grant = fst ?e, ot_kind = CodeToken,
     ot_hash = oe_hash env (fst (new_opaque_token (snd ?e))), ot_expires = auth_code_expiry (oa_now db), ot_used = None,
     ot_rotated = None, ot_challenge = Some (ar_challenge rq), ot_redirect = Some (ar_redirect rq),
     ot_resource = Some (case ar_resource rq of None \<Rightarrow> canonical_resource env | Some r \<Rightarrow> r)\<rparr>"
  have pend: "oa_pending ?d = oa_pending db" "oa_clients ?d = oa_clients db" by (simp_all add: oa_fresh_def new_opaque_token_def)
  have ids: "map oc_id (oa_clients (set_client Q (oc_last_used_update h) x)) = map oc_id (oa_clients x)" for Q h x
    by simp
  show ?thesis
  proof (cases "insert_token t ?d")
    case None
    then show ?thesis using assms that(1) by (simp add: approve_authorization_def case_prod_beta Let_def t_def)
  next
    case (Some d4)
    then have d4: "d4 = ?d\<lparr>oa_tokens := oa_tokens ?d @ [t]\<rparr>" by (simp add: insert_token_def split: if_splits)
    have res: "res \<noteq> None" "db' = set_client (\<lambda>x. oc_id x = oc_id c) (oc_last_used_update (\<lambda>_. Some (oa_now db))) d4"
      using assms Some by (auto simp: approve_authorization_def case_prod_beta Let_def t_def)
    obtain g where "g \<in> set (oa_grants (snd ?e))" "og_id g = fst ?e" "og_user g = u" "og_client g = oc_id c" "og_revoked g = None"
      using ensure_grant_live by blast
    then show ?thesis
      by (intro that(2) [of t g]) (use res pend ids in \<open>simp_all add: d4 set_client_def t_def\<close>)
  qed
qed

text \<open>
  C25: The only request that stores a code is an approval of a pending consent of the same user, neither
  consumed nor older than ten minutes, of a client that is not blocked. The one code it stores carries
  the challenge and the redirect URI of that consent, belongs to a live grant of the user, lives for a
  minute, and the consent cannot be used again.
\<close>

theorem consent_mints_bound_code:
  assumes "consent env u i ok db = (ans, db')" "oa_tokens db' \<noteq> oa_tokens db"
  shows "ok \<and> (\<exists>p cl c g t. p \<in> set (oa_pending db) \<and> pending_live db i u p \<and>
    cl \<in> set (oa_clients db) \<and> oc_id cl = pa_client p \<and> c \<in> set (oa_clients db) \<and> oc_client_id c = oc_client_id cl \<and>
    oc_blocked c = None \<and> oa_tokens db' = oa_tokens db @ [t] \<and> ot_kind t = CodeToken \<and>
    ot_challenge t = Some (ar_challenge (pa_request p)) \<and> ot_redirect t = Some (ar_redirect (pa_request p)) \<and>
    ot_expires t = oa_now db + 60000 \<and> g \<in> set (oa_grants db') \<and> og_id g = ot_grant t \<and> og_user g = u \<and>
    og_client g = oc_id c \<and> og_revoked g = None) \<and> fst (take_authorize_request i u db') = None"
proof -
  obtain o1 d where take: "take_authorize_request i u db = (o1, d)" by force
  have toks: "oa_tokens d = oa_tokens db" "oa_clients d = oa_clients db" "oa_now d = oa_now db"
    using take by (auto simp: take_authorize_request_def split: if_splits option.splits)
  obtain cid rq where o1: "o1 = Some (cid, rq)"
    using assms take toks by (cases o1) (auto simp: consent_def)
  obtain p cl where p: "p \<in> set (oa_pending db)" "pending_live db i u p" "rq = pa_request p"
      "cl \<in> set (oa_clients db)" "oc_id cl = pa_client p" "oc_client_id cl = cid"
    and d: "d = db\<lparr>oa_pending := map (\<lambda>q. if pending_live db i u q then q\<lparr>pa_consumed := Some (oa_now db)\<rparr> else q) (oa_pending db)\<rparr>"
    using take_success [OF take [unfolded o1]] by blast
  have ok: ok using assms take o1 toks by (auto simp: consent_def split: prod.splits if_splits)
  obtain c where c: "find_client d cid = Some c"
    using assms take o1 toks ok by (cases "find_client d cid") (auto simp: consent_def)
  have live: "oc_blocked c = None" using assms take o1 toks ok c by (auto simp: consent_def split: if_splits)
  obtain res where ap: "approve_authorization env u c rq d = (res, db')"
    using assms(1) take o1 ok c live by (auto simp: consent_def split: option.splits prod.splits)
  have cin: "c \<in> set (oa_clients db)" "oc_client_id c = cid"
    using find_in_set [OF c [unfolded find_client_def]] toks by simp_all
  from ap show ?thesis
  proof (cases rule: approve_cases)
    case 1
    then show ?thesis using assms(2) toks by simp
  next
    case (2 g t)
    have cons: "\<not> pending_live db' i u q" if "q \<in> set (oa_pending db')" for q
    proof
      assume "pending_live db' i u q"
      moreover have "q \<in> set (oa_pending d)" using that 2(3) by simp
      then obtain q' where q': "q' \<in> set (oa_pending db)"
          "q = (if pending_live db i u q' then q'\<lparr>pa_consumed := Some (oa_now db)\<rparr> else q')"
        by (auto simp: d)
      moreover have "find_client_row db' j \<noteq> None \<Longrightarrow> find_client_row db j \<noteq> None" for j
        unfolding find_client_row_iff 2(5) by (simp add: toks(2))
      ultimately show False using 2(4) toks(3) by (auto simp: pending_live_def split: if_splits)
    qed
    then have "find (pending_live db' i u) (oa_pending db') = None" by (simp add: find_None_iff)
    then have "fst (take_authorize_request i u db') = None" by (simp add: take_authorize_request_def)
    moreover have "ot_expires t = oa_now db + 60000"
      using 2(15) toks(3) by (simp add: auth_code_expiry_def AUTH_CODE_TTL_SECONDS_def)
    moreover have "\<exists>p cl c g t. p \<in> set (oa_pending db) \<and> pending_live db i u p \<and>
        cl \<in> set (oa_clients db) \<and> oc_id cl = pa_client p \<and> c \<in> set (oa_clients db) \<and> oc_client_id c = oc_client_id cl \<and>
        oc_blocked c = None \<and> oa_tokens db' = oa_tokens db @ [t] \<and> ot_kind t = CodeToken \<and>
        ot_challenge t = Some (ar_challenge (pa_request p)) \<and> ot_redirect t = Some (ar_redirect (pa_request p)) \<and>
        ot_expires t = oa_now db + 60000 \<and> g \<in> set (oa_grants db') \<and> og_id g = ot_grant t \<and> og_user g = u \<and>
        og_client g = oc_id c \<and> og_revoked g = None"
      by (intro exI [of _ p] exI [of _ cl] exI [of _ c] exI [of _ g] exI [of _ t] conjI)
        (use p cin live 2 toks(1) calculation(2) in simp_all)
    ultimately show ?thesis
      using ok by simp
  qed
qed

end
