(* ===== verification/OAuthSamples.thy ===== *)
theory OAuthSamples
  imports OAuthProps
begin

text \<open>
  A small authorization server, one user with one connected client, and the runs on it that the
  properties of \<open>OAuthProps\<close> apply to. The hash is the identity and the challenge of a verifier the
  verifier itself: both are parameters of the model.
\<close>

definition sample_env :: oauth_env where
  "sample_env = \<lparr>oe_parse = (\<lambda>_. None), oe_hash = (\<lambda>s. s), oe_s256 = (\<lambda>s. s), oe_public_base = Some ''http://s'',
     oe_registry_url = None, oe_nextauth_url = None, oe_bootstrap = None\<rparr>"

definition sample_uuid :: "nat \<Rightarrow> ident" where
  "sample_uuid n = replicate (Suc n) (CHR ''u'')"

definition sample_random :: "nat \<Rightarrow> string" where
  "sample_random n = replicate (Suc n) (CHR ''r'')"

definition sample_verifier :: string where
  "sample_verifier = replicate 43 (CHR ''v'')"

definition sample_pending_id :: ident where
  "sample_pending_id = replicate 36 (CHR ''a'')"

definition sample_directory :: access_db where
  "sample_directory = \<lparr>t_users = [\<lparr>ur_id = ''ann'', ur_oid = ''oid'', ur_active = True\<rparr>], t_groups = [],
     t_memberships = [], t_mappings = [], t_grants = []\<rparr>"

definition sample_client :: oauth_client where
  "sample_client = \<lparr>oc_id = ''c'', oc_client_id = ''mcp_c'',
     oc_registration = \<lparr>dc_name = ''editor'', dc_uri = None, dc_logo = None, dc_redirects = [''http://127.0.0.1/cb''],
       dc_software = None, dc_software_version = None\<rparr>,
     oc_ip = None, oc_created = 0, oc_last_used = None, oc_blocked = None\<rparr>"

definition sample_grant :: oauth_grant where
  "sample_grant = \<lparr>og_id = ''u'', og_user = ''ann'', og_client = ''c'', og_created = 0, og_last_used = None,
     og_revoked = None, og_revoked_by = None\<rparr>"

definition sample_token :: "nat \<Rightarrow> token_kind \<Rightarrow> string \<Rightarrow> instant option \<Rightarrow> oauth_token" where
  "sample_token n k h used = \<lparr>ot_id = sample_uuid n, ot_grant = ''u'', ot_kind = k, ot_hash = h, ot_expires = 90000,
     ot_used = used, ot_rotated = None, ot_challenge = Some sample_verifier, ot_redirect = Some ''http://127.0.0.1/cb'',
     ot_resource = None\<rparr>"

definition sample_authorize :: authorize_request where
  "sample_authorize = \<lparr>ar_client = ''mcp_c'', ar_redirect = ''http://127.0.0.1/cb'', ar_state = None,
     ar_challenge = sample_verifier, ar_method = ''S256'', ar_resource = None, ar_scope = None\<rparr>"

text \<open>A code that is still to be exchanged, one that was, and an access token.\<close>

definition sample_oauth_db :: oauth_db where
  "sample_oauth_db = \<lparr>oa_access = sample_directory, oa_clients = [sample_client], oa_grants = [sample_grant],
     oa_tokens = [sample_token 1 CodeToken ''code'' None, sample_token 2 CodeToken ''spent'' (Some 1),
       sample_token 3 AccessToken ''access'' None],
     oa_pending = [\<lparr>pa_id = sample_pending_id, pa_user = ''ann'', pa_client = ''c'', pa_request = sample_authorize,
       pa_created = 2, pa_consumed = None\<rparr>],
     oa_audit = [], oa_events = [], oa_settings = (\<lambda>_. JsUndefined), oa_uuid = sample_uuid, oa_used = 4,
     oa_random = sample_random, oa_drawn = 0, oa_now = 5\<rparr>"

definition sample_token_request :: "string \<Rightarrow> token_request" where
  "sample_token_request code = \<lparr>tr_grant_type = ''authorization_code'', tr_code = code, tr_verifier = sample_verifier,
     tr_redirect_uri = ''http://127.0.0.1/cb'', tr_client_id = ''mcp_c'', tr_resource = None, tr_refresh_token = []\<rparr>"

definition sample_world :: oauth_world where
  "sample_world = \<lparr>ow_db = sample_oauth_db, ow_inflight = [], ow_redeemed = []\<rparr>"

lemmas sample_defs = sample_env_def sample_directory_def sample_client_def sample_grant_def sample_token_def
  sample_authorize_def sample_oauth_db_def sample_token_request_def sample_world_def

lemma sample_uuid_inj: "inj sample_uuid"
proof (rule injI)
  fix m n assume "sample_uuid m = sample_uuid n"
  then have "length (sample_uuid m) = length (sample_uuid n)" by simp
  then show "m = n" by (simp add: sample_uuid_def)
qed

lemma sample_ids [simp]:
  "sample_uuid 0 = ''u''" "sample_uuid 1 = ''uu''" "sample_uuid (Suc 0) = ''uu''" "sample_uuid 2 = ''uuu''"
  "sample_uuid 3 = ''uuuu''"
  by (simp_all add: sample_uuid_def numeral_eq_Suc)

lemma sample_start: "oauth_start sample_world" "grants_distinct sample_world"
proof -
  have "\<forall>i \<in> {''u'', ''uu'', ''uuu'', ''uuuu''}. i \<in> sample_uuid ` {..<4}"
    using image_eqI [of _ sample_uuid 0] image_eqI [of _ sample_uuid 1] image_eqI [of _ sample_uuid 2] image_eqI [of _ sample_uuid 3]
    by simp
  then show "oauth_start sample_world"
    by (simp add: oauth_start_def oauth_ids_ok_def sample_uuid_inj sample_defs)
  show "grants_distinct sample_world" by (simp add: grants_distinct_def grant_ids_def sample_defs)
qed

definition sample_redemption :: redemption where
  "sample_redemption = \<lparr>rd_token = ''uu'', rd_grant = ''u'', rd_lineage = None\<rparr>"

lemma sample_check:
  "check_token_request sample_env (sample_token_request ''code'') sample_oauth_db = (Inr sample_redemption, sample_oauth_db)"
proof -
  have "fst (check_token_request sample_env (sample_token_request ''code'') sample_oauth_db) = Inr sample_redemption"
    by code_simp
  then have "fst (check_code sample_env (sample_token_request ''code'') sample_oauth_db) = Inr sample_redemption"
    "check_token_request sample_env (sample_token_request ''code'') sample_oauth_db =
       check_code sample_env (sample_token_request ''code'') sample_oauth_db"
    by (auto simp: check_token_request_def sample_token_request_def split: if_splits)
  then show ?thesis
    by (cases "check_code sample_env (sample_token_request ''code'') sample_oauth_db")
      (auto elim!: check_code_passed)
qed

lemma sample_redeem:
  obtains toks db' where "redeem sample_env sample_redemption sample_oauth_db = (Inr toks, db')"
proof -
  have "\<not> isl (fst (redeem sample_env sample_redemption sample_oauth_db))" by code_simp
  then show ?thesis using that
    by (cases "redeem sample_env sample_redemption sample_oauth_db"; cases "fst (redeem sample_env sample_redemption sample_oauth_db)") auto
qed

section \<open>The properties on the sample\<close>

theorem credentials_redeemed_once_witness:
  "\<exists>w. oauth_steps sample_env sample_world w \<and> ow_redeemed w = [''uu''] \<and> distinct (ow_redeemed w)"
proof -
  obtain toks db' where red: "redeem sample_env sample_redemption sample_oauth_db = (Inr toks, db')"
    by (rule sample_redeem)
  define w where "w = sample_world\<lparr>ow_db := db', ow_inflight := [], ow_redeemed := [''uu'']\<rparr>"
  define v where "v = sample_world\<lparr>ow_inflight := [sample_redemption]\<rparr>"
  have "oauth_step sample_env sample_world v"
    using step_check [of sample_env "sample_token_request ''code''" sample_world sample_redemption sample_oauth_db] sample_check
    by (simp add: v_def sample_world_def)
  moreover have "oauth_step sample_env v w"
    using step_redeem [of sample_redemption v sample_env toks db'] red
    by (simp add: v_def w_def sample_world_def sample_redemption_def)
  ultimately have run: "oauth_steps sample_env sample_world w"
    by (blast intro: steps_refl steps_step)
  have "ow_redeemed w = [''uu'']" by (simp add: w_def)
  then show ?thesis using run credentials_redeemed_once [OF sample_start(1) run] by blast
qed




theorem code_exchanged_for_its_request_witness:
  "\<exists>toks db'. token_endpoint sample_env (sample_token_request ''code'') sample_oauth_db = (Inr toks, db') \<and>
     (\<exists>a r. drop 3 (oa_tokens db') = [a, r] \<and> ot_kind a = AccessToken \<and> ot_kind r = RefreshToken)"
proof -
  obtain toks db' where "redeem sample_env sample_redemption sample_oauth_db = (Inr toks, db')"
    by (rule sample_redeem)
  then have run: "token_endpoint sample_env (sample_token_request ''code'') sample_oauth_db = (Inr toks, db')"
    by (simp add: token_endpoint_def sample_check)
  have "length (oa_tokens sample_oauth_db) = 3" by (simp add: sample_oauth_db_def)
  moreover have "tr_grant_type (sample_token_request ''code'') = ''authorization_code''" by (simp add: sample_token_request_def)
  ultimately show ?thesis using run code_exchanged_for_its_request [OF run] by auto
qed

theorem consent_mints_bound_code_witness:
  "\<exists>ans db'. consent sample_env ''ann'' sample_pending_id True sample_oauth_db = (ans, db') \<and>
     fst (take_authorize_request sample_pending_id ''ann'' db') = None"
proof -
  obtain ans db' where run: "consent sample_env ''ann'' sample_pending_id True sample_oauth_db = (ans, db')" by force
  have "length (oa_tokens (snd (consent sample_env ''ann'' sample_pending_id True sample_oauth_db))) = 4" by code_simp
  then have "oa_tokens db' \<noteq> oa_tokens sample_oauth_db" using run by (auto simp: sample_oauth_db_def)
  then show ?thesis using run consent_mints_bound_code [OF run] by blast
qed

end
