(* ===== verification/ReviewAssign.thy ===== *)
theory ReviewAssign
  imports ProposalActions
begin

text \<open>
  Review assignments, \<open>packages/web/src/lib/reviewAssign.ts\<close>: who may be assigned, assigning and
  unassigning one proposal, assigning a whole import, clearing the assignments of an erased user, and
  what the proposal page shows of an assignment; with the user labels of \<open>userLabel.ts\<close>. The claim of
  a started review is \<open>claim_on_start_review\<close> of \<open>ProposalActions\<close>. The alphabetical order of the
  picker is a collation and is not modelled, nor are avatars.
\<close>

section \<open>User labels\<close>

definition guid_shaped :: "string \<Rightarrow> bool" where
  "guid_shaped s = (map length (split_on (CHR ''-'') s) = [8, 4, 4, 4, 12] \<and>
     list_all (list_all is_hex) (split_on (CHR ''-'') s))"

definition UNKNOWN :: string where "UNKNOWN = ''Unknown user''"

definition name_sql :: "string option \<Rightarrow> string option \<Rightarrow> string" where
  "name_sql name email =
     (case name of
        Some n \<Rightarrow> if n \<noteq> [] \<and> \<not> guid_shaped n then n
                  else (case email of Some e \<Rightarrow> if e \<noteq> [] then e else UNKNOWN | None \<Rightarrow> UNKNOWN)
      | None \<Rightarrow> (case email of Some e \<Rightarrow> if e \<noteq> [] then e else UNKNOWN | None \<Rightarrow> UNKNOWN))"

definition user_label :: "string option \<Rightarrow> string option \<Rightarrow> string" where
  "user_label name email =
     (let n = js_trim (case name of None \<Rightarrow> [] | Some x \<Rightarrow> x); e = js_trim (case email of None \<Rightarrow> [] | Some x \<Rightarrow> x)
      in if n \<noteq> [] \<and> \<not> guid_shaped n then n else if e \<noteq> [] then e else UNKNOWN)"

section \<open>Eligibility\<close>

definition is_open_state :: "proposal_state \<Rightarrow> bool" where
  "is_open_state s = (s = Proposed \<or> s = UnderReview \<or> s = ChangesRequested)"

definition is_eligible_assignee :: "app_env \<Rightarrow> app_db \<Rightarrow> ident \<Rightarrow> ident \<Rightarrow> ident \<Rightarrow> bool" where
  "is_eligible_assignee env db ns submitter u =
     (if u = submitter then False
      else u \<in> set (reviewer_ids AllReviewers (db_erased db) (db_access db) ns (env_boot env)))"

record assignable_reviewer =
  ab_id :: ident
  ab_name :: string
  ab_namespace_admin :: bool

text \<open>The namespace's admins first, each group in the order of the table.\<close>

definition list_assignable_reviewers :: "app_env \<Rightarrow> app_db \<Rightarrow> ident \<Rightarrow> ident \<Rightarrow> assignable_reviewer list" where
  "list_assignable_reviewers env db ns submitter =
     (let nsa = set (reviewer_ids NamespaceReviewers (db_erased db) (db_access db) ns (env_boot env));
          rows = map (\<lambda>u. \<lparr>ab_id = u, ab_name = name_sql (db_user_name db u) (db_user_email db u),
                           ab_namespace_admin = (u \<in> nsa)\<rparr>)
            (filter (\<lambda>u. u \<noteq> submitter)
               (reviewer_ids AllReviewers (db_erased db) (db_access db) ns (env_boot env)))
      in filter ab_namespace_admin rows @ filter (\<lambda>r. \<not> ab_namespace_admin r) rows)"

definition alert_reviewer_pool ::
  "app_env \<Rightarrow> ident \<Rightarrow> ident \<Rightarrow> ident \<Rightarrow> string option \<Rightarrow> string \<Rightarrow> app_db \<Rightarrow> app_db" where
  "alert_reviewer_pool env pid ns submitter slug semver db =
     notify (map (\<lambda>u. \<lparr>nt_user = u, nt_type = ''proposal.needs_review'',
               nt_payload = JObj [(''proposalId'', JStr pid), (''skillSlug'', json_opt slug), (''semver'', JStr semver)]\<rparr>)
       (filter (\<lambda>u. u \<noteq> submitter) (reviewer_ids AllReviewers (db_erased db) (db_access db) ns (env_boot env)))) db"

definition revision_slug :: "app_db \<Rightarrow> ident \<Rightarrow> string option" where
  "revision_slug db pid = (case latest_payload db pid of Inl _ \<Rightarrow> None | Inr pl \<Rightarrow> Some (pm_slug (rp_meta pl)))"

definition proposal_slug :: "app_db \<Rightarrow> proposal_row \<Rightarrow> string option" where
  "proposal_slug db p =
     (case (case pp_skill p of None \<Rightarrow> None | Some s \<Rightarrow> map_option cs_slug (find_skill db s)) of
        Some slug \<Rightarrow> Some slug | None \<Rightarrow> revision_slug db (pp_id p))"

definition display_name :: "app_db \<Rightarrow> ident \<Rightarrow> string" where
  "display_name db u =
     (case db_user_name db u of None \<Rightarrow> ''Someone'' | Some n \<Rightarrow> name_sql (Some n) (db_user_email db u))"

section \<open>Assigning\<close>

definition assign_row :: "ident option \<Rightarrow> ident option \<Rightarrow> instant \<Rightarrow> proposal_row \<Rightarrow> proposal_row" where
  "assign_row to by now p = p\<lparr>pp_assignee := to, pp_assigned_by := by, pp_assigned_at := Some now\<rparr>"

record assign_input =
  as_proposal :: ident
  as_assignee :: "ident option"
  as_access :: effective_access
  as_actor :: ident

datatype assign_result =
    AssignForbidden | AssignNotFound | AssignDecided | AssignIneligible
  | Assigned bool "(ident \<times> string) option"

definition assign_audit :: "assign_input \<Rightarrow> proposal_row \<Rightarrow> audit_entry" where
  "assign_audit inp p =
     \<lparr>au_actor = Some (as_actor inp),
      au_action = (if truthy (as_assignee inp) then ''proposal.assigned'' else ''proposal.unassigned''),
      au_type = ''proposal'', au_target = Some (pp_id p), au_namespace = Some (pp_namespace p),
      au_before = JObj [(''assigneeId'', json_opt (pp_assignee p))],
      au_after = (if truthy (as_assignee inp)
        then JObj [(''from'', json_opt (pp_assignee p)), (''to'', json_opt (as_assignee inp)), (''reason'', JStr ''manual'')]
        else JObj [(''from'', json_opt (pp_assignee p)), (''reason'', JStr ''manual'')])\<rparr>"

definition named :: "app_db \<Rightarrow> ident option \<Rightarrow> (ident \<times> string) option" where
  "named db u = (if truthy u then Some (the u, display_name db (the u)) else None)"

definition assign_proposal :: "app_env \<Rightarrow> assign_input \<Rightarrow> app_db \<Rightarrow> assign_result \<times> app_db" where
  "assign_proposal env inp db =
     (case load_proposal db (as_proposal inp) of
        None \<Rightarrow> (AssignNotFound, db)
      | Some p \<Rightarrow>
          if \<not> can_review_namespace (as_access inp) (pp_namespace p)
          then (if pp_by p = as_actor inp then AssignForbidden else AssignNotFound, db)
          else if \<not> is_open_state (pp_state p) then (AssignDecided, db)
          else if as_assignee inp = pp_assignee p then (Assigned False (named db (pp_assignee p)), db)
          else if truthy (as_assignee inp) \<and>
                  \<not> is_eligible_assignee env db (pp_namespace p) (pp_by p) (the (as_assignee inp))
          then (AssignIneligible, db)
          else
            (let db1 = append_audit (assign_audit inp p)
                   (set_proposal (pp_id p) (assign_row (as_assignee inp) (Some (as_actor inp)) (db_now db)) db);
                 db2 = (if truthy (as_assignee inp) \<and> as_assignee inp \<noteq> Some (as_actor inp)
                        then notify [\<lparr>nt_user = the (as_assignee inp), nt_type = ''proposal.assigned'',
                               nt_payload = JObj [(''proposalId'', JStr (pp_id p)), (''ns'', JStr (namespace_slug db (pp_namespace p))),
                                 (''slug'', json_opt (proposal_slug db p)), (''byName'', JStr (display_name db (as_actor inp)))]\<rparr>] db1
                        else db1)
             in (Assigned True (named db2 (as_assignee inp)), db2)))"

section \<open>A whole import\<close>

record import_row =
  im_id :: ident
  im_namespace :: ident
  im_by :: "ident option"
  im_url :: string

text \<open>\<open>repoLabel\<close> with \<open>trimSlashes\<close>.\<close>

fun index_of :: "string \<Rightarrow> string \<Rightarrow> nat option" where
  "index_of p [] = (if p = [] then Some 0 else None)"
| "index_of p (x # xs) = (if prefix p (x # xs) then Some 0 else map_option Suc (index_of p xs))"

definition trim_slashes :: "string \<Rightarrow> string" where
  "trim_slashes s = trim_with (\<lambda>c. c = CHR ''/'') s"

definition repo_label :: "string \<Rightarrow> string" where
  "repo_label url =
     (let raw = js_trim url in
      case index_of ''://'' raw of
        None \<Rightarrow> raw
      | Some i \<Rightarrow>
          if i = 0 \<or> \<not> list_all is_alpha (take i raw) then raw
          else let rest = drop (i + 3) raw in
            case index_of ''/'' rest of
              None \<Rightarrow> raw
            | Some k \<Rightarrow>
                if k = 0 then raw
                else let path = trim_slashes (drop (k + 1) rest);
                         path' = (if suffix ''.git'' (js_lower path) then take (length path - 4) path else path)
                     in if path' = [] then raw else path')"

record assign_import_input =
  ii_import :: ident
  ii_assignee :: ident
  ii_access :: effective_access
  ii_actor :: ident

datatype assign_import_result =
    ImportForbidden | ImportNotFound | ImportIneligible | ImportAssigned nat nat

definition import_assignable :: "assign_import_input \<Rightarrow> proposal_row \<Rightarrow> bool" where
  "import_assignable inp p =
     (pp_import p = Some (ii_import inp) \<and> is_open_state (pp_state p) \<and> pp_assignee p \<noteq> Some (ii_assignee inp) \<and>
      pp_by p \<noteq> ii_assignee inp)"

definition assign_import ::
  "app_env \<Rightarrow> import_row list \<Rightarrow> assign_import_input \<Rightarrow> app_db \<Rightarrow> assign_import_result \<times> app_db" where
  "assign_import env imports inp db =
     (case find (\<lambda>i. im_id i = ii_import inp) imports of
        None \<Rightarrow> (ImportNotFound, db)
      | Some i \<Rightarrow>
          if \<not> can_review_namespace (ii_access inp) (im_namespace i)
          then (if im_by i = Some (ii_actor inp) then ImportForbidden else ImportNotFound, db)
          else if \<not> is_eligible_assignee env db (im_namespace i) (case im_by i of None \<Rightarrow> [] | Some u \<Rightarrow> u) (ii_assignee inp)
          then (ImportIneligible, db)
          else
            (let changed = filter (import_assignable inp) (db_proposals db);
                 db1 = db\<lparr>db_proposals := map (\<lambda>p. if import_assignable inp p
                   then assign_row (Some (ii_assignee inp)) (Some (ii_actor inp)) (db_now db) p else p) (db_proposals db)\<rparr>;
                 db2 = fold (\<lambda>p. append_audit \<lparr>au_actor = Some (ii_actor inp), au_action = ''proposal.assigned'',
                   au_type = ''proposal'', au_target = Some (pp_id p), au_namespace = Some (im_namespace i),
                   au_before = JObj [(''assigneeId'', json_opt (pp_assignee p))],
                   au_after = JObj [(''from'', json_opt (pp_assignee p)), (''to'', JStr (ii_assignee inp)),
                     (''reason'', JStr ''import''), (''importId'', JStr (ii_import inp))]\<rparr>) changed db1;
                 db3 = (if changed \<noteq> [] \<and> ii_assignee inp \<noteq> ii_actor inp
                        then notify [\<lparr>nt_user = ii_assignee inp, nt_type = ''proposal.assigned'',
                          nt_payload = JObj [(''importId'', JStr (ii_import inp)), (''ns'', JStr (namespace_slug db (im_namespace i))),
                            (''repo'', JStr (repo_label (im_url i))), (''count'', JInt (int (length changed))),
                            (''byName'', JStr (display_name db2 (ii_actor inp)))]\<rparr>] db2
                        else db2)
             in (ImportAssigned (length changed) (length (filter (\<lambda>p. pp_assignee p \<noteq> None) changed)), db3)))"

section \<open>Erasure\<close>

definition unassign_audit :: "ident option \<Rightarrow> ident \<Rightarrow> proposal_row \<Rightarrow> audit_entry" where
  "unassign_audit actor u p =
     \<lparr>au_actor = actor, au_action = ''proposal.unassigned'', au_type = ''proposal'', au_target = Some (pp_id p),
      au_namespace = Some (pp_namespace p), au_before = JObj [(''assigneeId'', JStr u)],
      au_after = JObj [(''from'', JStr u), (''reason'', JStr ''ineligible'')]\<rparr>"

definition assigned_open :: "ident \<Rightarrow> proposal_row \<Rightarrow> bool" where
  "assigned_open u p = (pp_assignee p = Some u \<and> is_open_state (pp_state p))"

definition unassign_one :: "app_env \<Rightarrow> ident \<Rightarrow> ident \<Rightarrow> proposal_row \<Rightarrow> app_db \<Rightarrow> app_db" where
  "unassign_one env u actor p db =
     (let db1 = append_audit (unassign_audit (Some actor) u p) db
      in if review_turn_of (pp_state p) = Some ReviewersTurn
         then alert_reviewer_pool env (pp_id p) (pp_namespace p) (pp_by p) (revision_slug db (pp_id p)) (pp_semver p) db1
         else db1)"

definition unassign_erased_user :: "app_env \<Rightarrow> ident \<Rightarrow> ident \<Rightarrow> app_db \<Rightarrow> nat \<times> app_db" where
  "unassign_erased_user env u actor db =
     (let rows = filter (assigned_open u) (db_proposals db);
          db1 = db\<lparr>db_proposals := map (\<lambda>p. if assigned_open u p then assign_row None (Some actor) (db_now db) p else p)
                  (db_proposals db)\<rparr>
      in (length rows, fold (unassign_one env u actor) rows db1))"

section \<open>What the proposal page shows\<close>

record assignment_view =
  av_assignee :: "(ident \<times> string) option"
  av_at :: "instant option"
  av_can_assign :: bool
  av_can_self_assign :: bool
  av_viewer :: ident

definition proposal_assignment_view ::
  "app_env \<Rightarrow> app_db \<Rightarrow> ident \<Rightarrow> effective_access \<Rightarrow> ident \<Rightarrow> assignment_view option" where
  "proposal_assignment_view env db pid a actor =
     (case load_proposal db pid of
        None \<Rightarrow> None
      | Some p \<Rightarrow>
          (let reviewer = can_review_namespace a (pp_namespace p); opn = is_open_state (pp_state p)
           in Some \<lparr>av_assignee = (if truthy (pp_assignee p)
                      then Some (the (pp_assignee p), name_sql (db_user_name db (the (pp_assignee p))) (db_user_email db (the (pp_assignee p))))
                      else None),
                    av_at = (if truthy (pp_assignee p) then pp_assigned_at p else None),
                    av_can_assign = (reviewer \<and> opn),
                    av_can_self_assign = (reviewer \<and> opn \<and> pp_assignee p \<noteq> Some actor \<and>
                      is_eligible_assignee env db (pp_namespace p) (pp_by p) actor),
                    av_viewer = actor\<rparr>))"

section \<open>Properties\<close>

lemma assign_proposal_done:
  assumes "assign_proposal env inp db = (Assigned True who, db')"
  obtains p where "load_proposal db (as_proposal inp) = Some p" "can_review_namespace (as_access inp) (pp_namespace p)"
    "is_open_state (pp_state p)" "as_assignee inp \<noteq> pp_assignee p"
    "\<not> (truthy (as_assignee inp) \<and> \<not> is_eligible_assignee env db (pp_namespace p) (pp_by p) (the (as_assignee inp)))"
    "db' = (let db1 = append_audit (assign_audit inp p)
              (set_proposal (pp_id p) (assign_row (as_assignee inp) (Some (as_actor inp)) (db_now db)) db)
            in if truthy (as_assignee inp) \<and> as_assignee inp \<noteq> Some (as_actor inp)
               then notify [\<lparr>nt_user = the (as_assignee inp), nt_type = ''proposal.assigned'',
                      nt_payload = JObj [(''proposalId'', JStr (pp_id p)), (''ns'', JStr (namespace_slug db (pp_namespace p))),
                        (''slug'', json_opt (proposal_slug db p)), (''byName'', JStr (display_name db (as_actor inp)))]\<rparr>] db1
               else db1)"
  using assms unfolding assign_proposal_def Let_def
  by (cases "load_proposal db (as_proposal inp)") (auto split: if_splits)

text \<open>
  Assigning changes one open proposal of a namespace the actor reviews, and nothing else of it than
  the assignment; an assignee is an active reviewer of that namespace and not the submitter. The
  change is audited once, and only an assignee other than the actor is told.
\<close>

theorem assignment_sound:
  assumes "assign_proposal env inp db = (Assigned True who, db')"
  shows "\<exists>p. load_proposal db (as_proposal inp) = Some p \<and> can_review_namespace (as_access inp) (pp_namespace p) \<and>
    is_open_state (pp_state p) \<and> as_assignee inp \<noteq> pp_assignee p \<and>
    (truthy (as_assignee inp) \<longrightarrow> as_assignee inp \<noteq> Some (pp_by p) \<and>
       the (as_assignee inp) \<in> set (reviewer_ids AllReviewers (db_erased db) (db_access db) (pp_namespace p) (env_boot env))) \<and>
    db_proposals db' = map (\<lambda>q. if pp_id q = pp_id p
       then assign_row (as_assignee inp) (Some (as_actor inp)) (db_now db) q else q) (db_proposals db) \<and>
    db_audit db' = db_audit db @ [assign_audit inp p] \<and>
    (\<exists>ns. db_notifications db' = db_notifications db @ ns \<and> length ns \<le> 1 \<and>
       (\<forall>n \<in> set ns. Some (nt_user n) = as_assignee inp \<and> nt_user n \<noteq> as_actor inp)) \<and>
    db_skills db' = db_skills db \<and> db_versions db' = db_versions db \<and> db_access db' = db_access db"
proof -
  obtain p where p: "load_proposal db (as_proposal inp) = Some p" "can_review_namespace (as_access inp) (pp_namespace p)"
    "is_open_state (pp_state p)" "as_assignee inp \<noteq> pp_assignee p"
    "\<not> (truthy (as_assignee inp) \<and> \<not> is_eligible_assignee env db (pp_namespace p) (pp_by p) (the (as_assignee inp)))"
    and db': "db' = (let db1 = append_audit (assign_audit inp p)
              (set_proposal (pp_id p) (assign_row (as_assignee inp) (Some (as_actor inp)) (db_now db)) db)
            in if truthy (as_assignee inp) \<and> as_assignee inp \<noteq> Some (as_actor inp)
               then notify [\<lparr>nt_user = the (as_assignee inp), nt_type = ''proposal.assigned'',
                      nt_payload = JObj [(''proposalId'', JStr (pp_id p)), (''ns'', JStr (namespace_slug db (pp_namespace p))),
                        (''slug'', json_opt (proposal_slug db p)), (''byName'', JStr (display_name db (as_actor inp)))]\<rparr>] db1
               else db1)"
    by (rule assign_proposal_done [OF assms])
  have el: "truthy (as_assignee inp) \<longrightarrow> as_assignee inp \<noteq> Some (pp_by p) \<and>
      the (as_assignee inp) \<in> set (reviewer_ids AllReviewers (db_erased db) (db_access db) (pp_namespace p) (env_boot env))"
    using p(5) by (auto simp: is_eligible_assignee_def split: if_splits)
  have nots: "\<exists>ns. db_notifications db' = db_notifications db @ ns \<and> length ns \<le> 1 \<and>
      (\<forall>n \<in> set ns. Some (nt_user n) = as_assignee inp \<and> nt_user n \<noteq> as_actor inp)"
  proof (cases "truthy (as_assignee inp) \<and> as_assignee inp \<noteq> Some (as_actor inp)")
    case True
    then obtain a where "as_assignee inp = Some a" "a \<noteq> as_actor inp" by (auto simp: truthy_def)
    then show ?thesis using True by (simp add: db' Let_def store_simps set_proposal_def)
  next
    case False
    then show ?thesis by (intro exI [of _ "[]"]) (auto simp: db' Let_def store_simps set_proposal_def)
  qed
  show ?thesis
    by (rule exI [of _ p], intro conjI) (use p(1-4) el nots in \<open>simp_all add: db' Let_def store_simps set_proposal_def\<close>)
qed

end
