(* ===== verification/ReviewReminders.thy ===== *)
theory ReviewReminders
  imports ReviewAssign
begin

text \<open>
  The clock of a review turn and the reminder sweep: the trigger of migration 0106 that dates a turn,
  and the four steps of \<open>packages/worker/src/reviewReminders.ts\<close>. The reminder rows of the table of
  notifications are kept apart with the columns their folding needs. One pass of the sweep is one
  function; each of its transactions works on the state the one before it left.
\<close>

section \<open>The turn clock\<close>

record turn =
  tn_started :: instant
  tn_due :: "instant option"
  tn_escalate :: "instant option"
  tn_reminded :: "instant option"
  tn_escalated :: "instant option"

text \<open>\<open>skilly_add_business_days\<close>: the algorithm of \<open>addBusinessDays\<close> in SQL.\<close>

definition isodow :: "instant \<Rightarrow> int" where
  "isodow t = (if utc_dow t = 0 then 7 else utc_dow t)"

definition date_trunc_day :: "instant \<Rightarrow> instant" where
  "date_trunc_day t = t - t mod DAY_MS"

primrec sql_day_loop :: "nat \<Rightarrow> instant \<Rightarrow> instant" where
  "sql_day_loop 0 t = t"
| "sql_day_loop (Suc n) t =
     (let t1 = t + DAY_MS in sql_day_loop n (if isodow t1 = 6 then t1 + 2 * DAY_MS else t1))"

definition skilly_add_business_days :: "instant \<Rightarrow> int \<Rightarrow> instant" where
  "skilly_add_business_days start days =
     (let t0 = (if isodow start = 6 then date_trunc_day start + 2 * DAY_MS
                else if isodow start = 7 then date_trunc_day start + DAY_MS else start)
      in sql_day_loop (nat (days mod 5)) (t0 + (days div 5) * 7 * DAY_MS))"

text \<open>\<open>proposals_review_turn\<close>: a row of an open proposal whose turn changed starts a new one, the
  instants follow the target, a stamp whose instant is again in the future is cleared.\<close>

definition date_turn :: "review_turn \<Rightarrow> int option \<Rightarrow> instant \<Rightarrow> turn \<Rightarrow> turn" where
  "date_turn who target now t =
     (let t1 = (case target of
            None \<Rightarrow> t\<lparr>tn_due := None, tn_escalate := None\<rparr>
          | Some n \<Rightarrow> t\<lparr>tn_due := Some (skilly_add_business_days (tn_started t) n),
                        tn_escalate := (if who = ReviewersTurn then Some (skilly_add_business_days (tn_started t) (2 * n)) else None)\<rparr>);
          future = (\<lambda>i. case i of None \<Rightarrow> False | Some d \<Rightarrow> now < d)
      in t1\<lparr>tn_reminded := (if future (tn_due t1) then None else tn_reminded t1),
            tn_escalated := (if future (tn_escalate t1) then None else tn_escalated t1)\<rparr>)"

definition review_turn_trigger ::
  "proposal_state option \<Rightarrow> proposal_state \<Rightarrow> int option \<Rightarrow> instant \<Rightarrow> turn \<Rightarrow> turn" where
  "review_turn_trigger old new target now t =
     (let new_turn = review_turn_of new;
          t1 = (case old of
                  Some s \<Rightarrow> if new_turn \<noteq> None \<and> new_turn \<noteq> review_turn_of s
                            then t\<lparr>tn_started := now, tn_reminded := None, tn_escalated := None\<rparr> else t
                | None \<Rightarrow> t)
      in case new_turn of
           None \<Rightarrow> t1\<lparr>tn_due := None, tn_escalate := None\<rparr>
         | Some who \<Rightarrow> date_turn who target now t1)"

section \<open>The state of the sweep\<close>

record reminder_row =
  fr_user :: ident
  fr_type :: string
  fr_ns :: ident
  fr_ns_slug :: string
  fr_days :: "int option"
  fr_count :: nat
  fr_proposals :: "ident list"
  fr_slug :: "string option"
  fr_read :: bool

record reminder_db =
  rd_app :: app_db
  rd_turns :: "ident \<Rightarrow> turn"
  rd_targets :: "ident \<Rightarrow> int option"
  rd_rows :: "reminder_row list"

record due_row =
  du_id :: ident
  du_namespace :: ident
  du_slug :: string
  du_days :: "int option"
  du_by :: ident
  du_assignee :: "ident option"
  du_semver :: string
  du_state :: proposal_state
  du_skill :: "string option"

text \<open>\<open>DUE_SELECT\<close>, with the condition and the order of a step.\<close>

definition due_row_of :: "reminder_db \<Rightarrow> proposal_row \<Rightarrow> due_row" where
  "due_row_of db p =
     \<lparr>du_id = pp_id p, du_namespace = pp_namespace p, du_slug = namespace_slug (rd_app db) (pp_namespace p),
      du_days = rd_targets db (pp_namespace p), du_by = pp_by p, du_assignee = pp_assignee p, du_semver = pp_semver p,
      du_state = pp_state p, du_skill = proposal_slug (rd_app db) p\<rparr>"

definition has_namespace :: "app_db \<Rightarrow> proposal_row \<Rightarrow> bool" where
  "has_namespace app p = list_ex (\<lambda>n. nr_id n = pp_namespace p) (db_namespaces app)"

definition due_select :: "(proposal_row \<Rightarrow> bool) \<Rightarrow> reminder_db \<Rightarrow> due_row list" where
  "due_select P db =
     map (due_row_of db) (filter (\<lambda>p. has_namespace (rd_app db) p \<and> P p) (db_proposals (rd_app db)))"

definition namespace_admins :: "app_env \<Rightarrow> app_db \<Rightarrow> ident \<Rightarrow> ident list" where
  "namespace_admins env app ns = reviewer_ids NamespaceReviewers (db_erased app) (db_access app) ns (env_boot env)"

definition platform_admins :: "app_env \<Rightarrow> app_db \<Rightarrow> ident list" where
  "platform_admins env app = reviewer_ids PlatformReviewers (db_erased app) (db_access app) [] (env_boot env)"

section \<open>Clearing ineligible assignments\<close>

definition ineligible :: "app_env \<Rightarrow> app_db \<Rightarrow> proposal_row \<Rightarrow> bool" where
  "ineligible env app p =
     (case pp_assignee p of
        None \<Rightarrow> False
      | Some a \<Rightarrow> is_open_state (pp_state p) \<and>
          (a = pp_by p \<or> a \<notin> set (reviewer_ids AllReviewers (db_erased app) (db_access app) (pp_namespace p) (env_boot env))))"

definition clear_one :: "app_env \<Rightarrow> due_row \<Rightarrow> nat \<times> reminder_db \<Rightarrow> nat \<times> reminder_db" where
  "clear_one env r s =
     (case s of (n, db) \<Rightarrow>
        if list_ex (\<lambda>p. pp_id p = du_id r \<and> pp_assignee p = du_assignee r) (db_proposals (rd_app db))
        then let app1 = (rd_app db)\<lparr>db_proposals := map (\<lambda>p. if pp_id p = du_id r \<and> pp_assignee p = du_assignee r
                            then assign_row None None (db_now (rd_app db)) p else p) (db_proposals (rd_app db))\<rparr>;
                 app2 = append_audit \<lparr>au_actor = None, au_action = ''proposal.unassigned'', au_type = ''proposal'',
                          au_target = Some (du_id r), au_namespace = Some (du_namespace r),
                          au_before = JObj [(''assigneeId'', json_opt (du_assignee r))],
                          au_after = JObj [(''from'', json_opt (du_assignee r)), (''reason'', JStr ''ineligible'')]\<rparr> app1;
                 app3 = (if du_state r = Proposed \<or> du_state r = UnderReview
                         then alert_reviewer_pool env (du_id r) (du_namespace r) (du_by r) (du_skill r) (du_semver r) app2
                         else app2)
             in (Suc n, db\<lparr>rd_app := app3\<rparr>)
        else s)"

definition clear_ineligible :: "app_env \<Rightarrow> reminder_db \<Rightarrow> nat \<times> reminder_db" where
  "clear_ineligible env db = fold (clear_one env) (due_select (ineligible env (rd_app db)) db) (0, db)"

section \<open>Recipients\<close>

definition GLOBAL_SLUG :: string where "GLOBAL_SLUG = ''global''"

definition step_admins :: "app_env \<Rightarrow> app_db \<Rightarrow> due_row \<Rightarrow> ident list" where
  "step_admins env app r = (if du_slug r = GLOBAL_SLUG then [] else namespace_admins env app (du_namespace r))"

definition overdue_recipients :: "app_env \<Rightarrow> app_db \<Rightarrow> due_row \<Rightarrow> ident list" where
  "overdue_recipients env app r =
     (let to = (if truthy (du_assignee r) then [the (du_assignee r)]
                else let nsa = step_admins env app r in if nsa \<noteq> [] then nsa else platform_admins env app)
      in filter (\<lambda>u. u \<noteq> du_by r) to)"

definition escalation_recipients :: "app_env \<Rightarrow> app_db \<Rightarrow> due_row \<Rightarrow> ident list" where
  "escalation_recipients env app r =
     (let nsa = step_admins env app r;
          to = (if truthy (du_assignee r)
                then let others = filter (\<lambda>u. Some u \<noteq> du_assignee r) nsa
                     in if others \<noteq> [] then others else filter (\<lambda>u. Some u \<noteq> du_assignee r) (platform_admins env app)
                else if nsa \<noteq> [] then platform_admins env app else [])
      in filter (\<lambda>u. u \<noteq> du_by r) to)"

section \<open>Folding and the reminder steps\<close>

definition folds_into :: "ident \<Rightarrow> string \<Rightarrow> ident \<Rightarrow> reminder_row \<Rightarrow> bool" where
  "folds_into u type ns f = (fr_user f = u \<and> fr_type f = type \<and> fr_ns f = ns \<and> \<not> fr_read f)"

definition fold_in :: "due_row \<Rightarrow> reminder_row \<Rightarrow> reminder_row" where
  "fold_in r f =
     (if du_id r \<in> set (fr_proposals f) then f
      else f\<lparr>fr_proposals := fr_proposals f @ [du_id r], fr_count := length (fr_proposals f) + 1, fr_days := du_days r\<rparr>)"

definition fold_for :: "string \<Rightarrow> due_row \<Rightarrow> ident \<Rightarrow> reminder_row list \<Rightarrow> reminder_row list" where
  "fold_for type r u rows =
     (if list_ex (folds_into u type (du_namespace r)) rows
      then map (\<lambda>f. if folds_into u type (du_namespace r) f then fold_in r f else f) rows
      else rows @ [\<lparr>fr_user = u, fr_type = type, fr_ns = du_namespace r, fr_ns_slug = du_slug r, fr_days = du_days r,
                    fr_count = 1, fr_proposals = [du_id r], fr_slug = du_skill r, fr_read = False\<rparr>])"

definition fold_reminder :: "string \<Rightarrow> ident list \<Rightarrow> due_row \<Rightarrow> reminder_db \<Rightarrow> reminder_db" where
  "fold_reminder type recipients r db =
     (if recipients = [] then db
      else db\<lparr>rd_rows := fold (fold_for type r)
        (map ur_id (filter (\<lambda>u. ur_id u \<in> set recipients \<and> ur_active u \<and> db_erased (rd_app db) (ur_id u) = None)
           (t_users (db_access (rd_app db)))))
        (rd_rows db)\<rparr>)"

datatype stamp = RemindedAt | EscalatedAt

definition get_stamp :: "stamp \<Rightarrow> turn \<Rightarrow> instant option" where
  "get_stamp s t = (case s of RemindedAt \<Rightarrow> tn_reminded t | EscalatedAt \<Rightarrow> tn_escalated t)"

definition set_stamp :: "stamp \<Rightarrow> instant \<Rightarrow> turn \<Rightarrow> turn" where
  "set_stamp s now t =
     (case s of RemindedAt \<Rightarrow> t\<lparr>tn_reminded := Some now\<rparr> | EscalatedAt \<Rightarrow> t\<lparr>tn_escalated := Some now\<rparr>)"

definition due_at :: "stamp \<Rightarrow> turn \<Rightarrow> instant option" where
  "due_at s t = (case s of RemindedAt \<Rightarrow> tn_due t | EscalatedAt \<Rightarrow> tn_escalate t)"

text \<open>The condition of a step: the states of the turn, the instant passed, the stamp not set.\<close>

definition is_due :: "proposal_state list \<Rightarrow> stamp \<Rightarrow> reminder_db \<Rightarrow> proposal_row \<Rightarrow> bool" where
  "is_due states s db p =
     (pp_state p \<in> set states \<and>
      (case due_at s (rd_turns db (pp_id p)) of None \<Rightarrow> False | Some d \<Rightarrow> d \<le> db_now (rd_app db)) \<and>
      get_stamp s (rd_turns db (pp_id p)) = None)"

definition step_order :: "reminder_db \<Rightarrow> due_row \<Rightarrow> instant \<times> ident" where
  "step_order db r = (tn_started (rd_turns db (du_id r)), du_id r)"

definition remind_one ::
  "(app_db \<Rightarrow> due_row \<Rightarrow> ident list) \<Rightarrow> stamp \<Rightarrow> string \<Rightarrow> due_row \<Rightarrow> nat \<times> reminder_db \<Rightarrow> nat \<times> reminder_db" where
  "remind_one recipients s type r acc =
     (case acc of (n, db) \<Rightarrow>
        if get_stamp s (rd_turns db (du_id r)) = None
        then (Suc n, fold_reminder type (recipients (rd_app db) r) r
               (db\<lparr>rd_turns := (rd_turns db)(du_id r := set_stamp s (db_now (rd_app db)) (rd_turns db (du_id r)))\<rparr>))
        else acc)"

definition remind_step ::
  "proposal_state list \<Rightarrow> stamp \<Rightarrow> string \<Rightarrow> (app_db \<Rightarrow> due_row \<Rightarrow> ident list) \<Rightarrow> reminder_db \<Rightarrow> nat \<times> reminder_db" where
  "remind_step states s type recipients db =
     fold (remind_one recipients s type) (sort_key (step_order db) (due_select (is_due states s db) db)) (0, db)"

definition REVIEW_OVERDUE :: string where "REVIEW_OVERDUE = ''proposal.review_overdue''"
definition REVIEW_ESCALATED :: string where "REVIEW_ESCALATED = ''proposal.review_escalated''"
definition REVIEW_CHANGES_REMINDER :: string where "REVIEW_CHANGES_REMINDER = ''proposal.changes_reminder''"

record reminder_result =
  rs_unassigned :: nat
  rs_overdue :: nat
  rs_escalated :: nat
  rs_proposer :: nat

definition sweep_review_reminders :: "app_env \<Rightarrow> reminder_db \<Rightarrow> reminder_result \<times> reminder_db" where
  "sweep_review_reminders env db =
     (let (u, db1) = clear_ineligible env db;
          (o', db2) = remind_step [Proposed, UnderReview] RemindedAt REVIEW_OVERDUE (overdue_recipients env) db1;
          (e, db3) = remind_step [Proposed, UnderReview] EscalatedAt REVIEW_ESCALATED (escalation_recipients env) db2;
          (p, db4) = remind_step [ChangesRequested] RemindedAt REVIEW_CHANGES_REMINDER (\<lambda>_ r. [du_by r]) db3
      in (\<lparr>rs_unassigned = u, rs_overdue = o', rs_escalated = e, rs_proposer = p\<rparr>, db4))"

end
