(* ===== verification/ReminderFacts.thy ===== *)
theory ReminderFacts
  imports ReviewReminders
begin

text \<open>
  What a pass of the reminder sweep does: the SQL clock agrees with the TypeScript one, a pass leaves
  nothing due and nothing to unassign, reminders go to reviewers only, and the folded rows keep their
  unique keys and counts.
\<close>

section \<open>The two business clocks\<close>

lemma isodow_weekend: "isodow t = 6 \<longleftrightarrow> utc_dow t = 6" "isodow t = 7 \<longleftrightarrow> utc_dow t = 0"
  by (auto simp: isodow_def utc_dow_def)

lemma trunc_day: "date_trunc_day t = t div DAY_MS * DAY_MS"
  by (simp add: date_trunc_day_def minus_mod_eq_div_mult)

lemma sql_day_loop_power: "sql_day_loop n t = (next_business_day ^^ n) t"
proof (induction n arbitrary: t)
  case (Suc n)
  have "sql_day_loop (Suc n) t = sql_day_loop n (next_business_day t)"
    by (simp add: next_business_day_def isodow_weekend Let_def)
  then show ?case by (simp add: Suc funpow_Suc_right del: funpow.simps)
qed simp

text \<open>
  The SQL function that dates the turns computes the same instants as the function the pages use.
\<close>

theorem sql_business_days_agree:
  assumes "0 \<le> n"
  shows "skilly_add_business_days t n = add_business_days t n"
proof -
  have "(if isodow t = 6 then date_trunc_day t + 2 * DAY_MS else if isodow t = 7 then date_trunc_day t + DAY_MS else t) =
      roll_weekend t"
    by (simp add: isodow_weekend trunc_day roll_weekend_def is_weekend_def)
  then show ?thesis
    using assms by (simp add: skilly_add_business_days_def add_business_days_def sql_day_loop_power Let_def)
qed

theorem sql_business_days_agree_witness:
  "(0::int) \<le> 3 \<and> skilly_add_business_days 0 3 = add_business_days 0 3"
  using sql_business_days_agree [of 3 0] by simp

section \<open>Clearing\<close>

definition cleared :: "due_row list \<Rightarrow> instant \<Rightarrow> proposal_row \<Rightarrow> proposal_row" where
  "cleared rs now p = (if \<exists>r \<in> set rs. pp_id p = du_id r \<and> pp_assignee p = du_assignee r then assign_row None None now p else p)"

lemma assign_row_simps [simp]:
  "pp_id (assign_row a b n p) = pp_id p" "pp_state (assign_row a b n p) = pp_state p"
  "pp_namespace (assign_row a b n p) = pp_namespace p" "pp_by (assign_row a b n p) = pp_by p"
  "pp_assignee (assign_row a b n p) = a" "pp_skill (assign_row a b n p) = pp_skill p"
  by (simp_all add: assign_row_def)

text \<open>The parts of the application database that no step of the sweep touches.\<close>

definition same_people :: "app_db \<Rightarrow> app_db \<Rightarrow> bool" where
  "same_people a b = (db_access b = db_access a \<and> db_erased b = db_erased a \<and> db_namespaces b = db_namespaces a \<and>
     db_now b = db_now a)"

lemma same_people_refl [simp]: "same_people a a"
  by (simp add: same_people_def)

lemma alert_keeps [simp]:
  "db_proposals (alert_reviewer_pool env i ns s sl v db) = db_proposals db"
  "same_people db' (alert_reviewer_pool env i ns s sl v db) = same_people db' db"
  by (simp_all add: alert_reviewer_pool_def notify_def same_people_def)

lemma append_keeps [simp]: "same_people db' (append_audit e db) = same_people db' db"
  "same_people db' (db\<lparr>db_proposals := ps\<rparr>) = same_people db' db"
  by (simp_all add: append_audit_def same_people_def)

lemma clear_one_effect:
  assumes "clear_one env r (n, db) = (n', db')"
  shows "db_proposals (rd_app db') = map (cleared [r] (db_now (rd_app db))) (db_proposals (rd_app db)) \<and>
    same_people (rd_app db) (rd_app db') \<and> rd_turns db' = rd_turns db \<and> rd_targets db' = rd_targets db \<and> rd_rows db' = rd_rows db"
proof (cases "list_ex (\<lambda>p. pp_id p = du_id r \<and> pp_assignee p = du_assignee r) (db_proposals (rd_app db))")
  case True
  then show ?thesis
    using assms by (auto simp: clear_one_def cleared_def Let_def append_audit_simps)
next
  case False
  then have "map (cleared [r] (db_now (rd_app db))) (db_proposals (rd_app db)) = db_proposals (rd_app db)"
    by (intro map_idI) (auto simp: cleared_def list_ex_iff)
  then show ?thesis using assms False by (simp add: clear_one_def)
qed

lemma cleared_compose:
  assumes "\<forall>r \<in> set rs. du_assignee r \<noteq> None"
  shows "cleared rs now (cleared [r] now p) = cleared (r # rs) now p"
  using assms by (auto simp: cleared_def)

lemma clear_fold_effect:
  assumes "fold (clear_one env) rs (n, db) = (n', db')" "\<forall>r \<in> set rs. du_assignee r \<noteq> None"
  shows "db_proposals (rd_app db') = map (cleared rs (db_now (rd_app db))) (db_proposals (rd_app db)) \<and>
    same_people (rd_app db) (rd_app db') \<and> rd_turns db' = rd_turns db \<and> rd_targets db' = rd_targets db \<and> rd_rows db' = rd_rows db"
  using assms
proof (induction rs arbitrary: n db)
  case Nil
  then show ?case by (simp add: cleared_def)
next
  case (Cons r rs)
  obtain n1 db1 where one: "clear_one env r (n, db) = (n1, db1)" by force
  from clear_one_effect [OF one] have e:
    "db_proposals (rd_app db1) = map (cleared [r] (db_now (rd_app db))) (db_proposals (rd_app db))"
    "same_people (rd_app db) (rd_app db1)" "rd_turns db1 = rd_turns db" "rd_targets db1 = rd_targets db" "rd_rows db1 = rd_rows db"
    by blast+
  have ih: "db_proposals (rd_app db') = map (cleared rs (db_now (rd_app db1))) (db_proposals (rd_app db1))"
    "same_people (rd_app db1) (rd_app db')" "rd_turns db' = rd_turns db1" "rd_targets db' = rd_targets db1" "rd_rows db' = rd_rows db1"
    using Cons.IH [of n1 db1] Cons.prems one by simp_all
  have "db_now (rd_app db1) = db_now (rd_app db)" using e(2) by (simp add: same_people_def)
  then show ?case
    using ih e Cons.prems(2) by (simp add: cleared_compose same_people_def)
qed

definition eligible_all :: "app_env \<Rightarrow> app_db \<Rightarrow> bool" where
  "eligible_all env app = (\<forall>p \<in> set (db_proposals app). has_namespace app p \<longrightarrow> \<not> ineligible env app p)"

lemma has_namespace_same: "same_people a b \<Longrightarrow> has_namespace b p = has_namespace a p"
  by (simp add: has_namespace_def same_people_def)

lemma ineligible_same: "same_people a b \<Longrightarrow> ineligible env b p = ineligible env a p"
  by (cases "pp_assignee p") (simp_all add: ineligible_def same_people_def)

lemma clear_ineligible_effect:
  assumes "clear_ineligible env db = (n, db')"
  shows "eligible_all env (rd_app db') \<and> same_people (rd_app db) (rd_app db') \<and> rd_turns db' = rd_turns db \<and>
    rd_targets db' = rd_targets db \<and> rd_rows db' = rd_rows db \<and>
    map pp_id (db_proposals (rd_app db')) = map pp_id (db_proposals (rd_app db))"
proof -
  let ?rs = "due_select (ineligible env (rd_app db)) db"
  have some: "\<forall>r \<in> set ?rs. du_assignee r \<noteq> None"
    by (auto simp: due_select_def due_row_of_def ineligible_def split: option.splits)
  have e: "db_proposals (rd_app db') = map (cleared ?rs (db_now (rd_app db))) (db_proposals (rd_app db))"
      "same_people (rd_app db) (rd_app db')" "rd_turns db' = rd_turns db" "rd_targets db' = rd_targets db" "rd_rows db' = rd_rows db"
    using clear_fold_effect [OF assms [unfolded clear_ineligible_def] some] by blast+
  have "\<not> ineligible env (rd_app db') p" if p: "p \<in> set (db_proposals (rd_app db'))" "has_namespace (rd_app db') p" for p
  proof
    assume bad: "ineligible env (rd_app db') p"
    obtain q where q: "q \<in> set (db_proposals (rd_app db))" "p = cleared ?rs (db_now (rd_app db)) q" using p(1) e(1) by auto
    have pq: "p = q" using bad q(2) by (auto simp: cleared_def ineligible_def split: if_splits)
    then have "ineligible env (rd_app db) q" "has_namespace (rd_app db) q"
      using bad p(2) by (simp_all add: ineligible_same [OF e(2)] has_namespace_same [OF e(2)])
    then have "due_row_of db q \<in> set ?rs" using q(1) by (simp add: due_select_def)
    then have "p = assign_row None None (db_now (rd_app db)) q"
      using q(2) by (force simp: cleared_def due_row_of_def)
    then show False using bad by (simp add: ineligible_def)
  qed
  then show ?thesis
    using e by (auto simp: eligible_all_def cleared_def)
qed

lemma clear_nothing:
  assumes "eligible_all env (rd_app db)"
  shows "clear_ineligible env db = (0, db)"
proof -
  have "due_select (ineligible env (rd_app db)) db = []"
    using assms by (auto simp: due_select_def eligible_all_def filter_empty_conv)
  then show ?thesis by (simp add: clear_ineligible_def)
qed

section \<open>The reminder steps\<close>

definition stamped :: "stamp \<Rightarrow> instant \<Rightarrow> ident set \<Rightarrow> (ident \<Rightarrow> turn) \<Rightarrow> ident \<Rightarrow> turn" where
  "stamped s now I turns i = (if i \<in> I \<and> get_stamp s (turns i) = None then set_stamp s now (turns i) else turns i)"

lemma get_set_stamp [simp]: "get_stamp s (set_stamp s now t) = Some now"
  by (cases s) (simp_all add: get_stamp_def set_stamp_def)

lemma fold_reminder_frame [simp]:
  "rd_app (fold_reminder type us r db) = rd_app db" "rd_turns (fold_reminder type us r db) = rd_turns db"
  "rd_targets (fold_reminder type us r db) = rd_targets db"
  by (simp_all add: fold_reminder_def)

lemma remind_fold_frame:
  assumes "fold (remind_one rec s type) rs (n, db) = (n', db')"
  shows "rd_app db' = rd_app db \<and> rd_targets db' = rd_targets db \<and>
    rd_turns db' = stamped s (db_now (rd_app db)) (du_id ` set rs) (rd_turns db)"
  using assms
proof (induction rs arbitrary: n db)
  case Nil
  then show ?case by (simp add: stamped_def)
next
  case (Cons r rs)
  obtain n1 db1 where one: "remind_one rec s type r (n, db) = (n1, db1)" by force
  have e: "rd_app db1 = rd_app db" "rd_targets db1 = rd_targets db"
      "rd_turns db1 = stamped s (db_now (rd_app db)) {du_id r} (rd_turns db)"
    using one by (auto simp: remind_one_def stamped_def fun_eq_iff split: if_splits)
  show ?case
    using Cons.IH [of n1 db1] Cons.prems one e by (auto simp: stamped_def fun_eq_iff)
qed

definition nothing_due :: "reminder_db \<Rightarrow> bool" where
  "nothing_due db =
     (due_select (is_due [Proposed, UnderReview] RemindedAt db) db = [] \<and>
      due_select (is_due [Proposed, UnderReview] EscalatedAt db) db = [] \<and>
      due_select (is_due [ChangesRequested] RemindedAt db) db = [])"

lemma due_at_set [simp]: "due_at s (set_stamp s' now t) = due_at s t"
  by (cases s; cases s') (simp_all add: due_at_def set_stamp_def)

lemma stamp_keeps: "get_stamp s t \<noteq> None \<Longrightarrow> get_stamp s (set_stamp s' now t) \<noteq> None"
  by (cases s; cases s') (simp_all add: get_stamp_def set_stamp_def)

text \<open>A step empties its own list and never fills another one.\<close>

lemma remind_step_frame:
  assumes "remind_step states s type rec db = (n, db')"
  shows "rd_app db' = rd_app db" "rd_targets db' = rd_targets db"
    and "due_select (is_due states s db') db' = []"
    and "due_select (is_due states' s' db) db = [] \<Longrightarrow> due_select (is_due states' s' db') db' = []"
proof -
  let ?rs = "sort_key (step_order db) (due_select (is_due states s db) db)"
  note f = remind_fold_frame [OF assms [unfolded remind_step_def]]
  show "rd_app db' = rd_app db" "rd_targets db' = rd_targets db" using f by simp_all
  have turns: "rd_turns db' = stamped s (db_now (rd_app db)) (du_id ` set ?rs) (rd_turns db)" using f by simp
  have mono: "is_due states' s' db' p \<Longrightarrow> is_due states' s' db p" for states' s' p
    unfolding is_due_def turns f [THEN conjunct1]
    by (auto simp: stamped_def split: if_splits option.splits dest: stamp_keeps)
  have empty: "due_select P d = [] \<longleftrightarrow> (\<forall>p \<in> set (db_proposals (rd_app d)). has_namespace (rd_app d) p \<longrightarrow> \<not> P p)" for P d
    by (auto simp: due_select_def filter_empty_conv)
  have "\<not> is_due states s db' p" if "p \<in> set (db_proposals (rd_app db'))" "has_namespace (rd_app db') p" for p
  proof
    assume bad: "is_due states s db' p"
    then have "is_due states s db p" by (rule mono)
    then have "due_row_of db p \<in> set ?rs" using that f by (simp add: due_select_def)
    then have "pp_id p \<in> du_id ` set ?rs" by (force simp: due_row_of_def)
    then have "get_stamp s (rd_turns db' (pp_id p)) \<noteq> None" by (simp add: turns stamped_def)
    then show False using bad by (simp add: is_due_def)
  qed
  then show "due_select (is_due states s db') db' = []" by (simp add: empty)
  show "due_select (is_due states' s' db') db' = []" if "due_select (is_due states' s' db) db = []"
    using that mono f by (auto simp: empty)
qed

lemma remind_nothing: "due_select (is_due states s db) db = [] \<Longrightarrow> remind_step states s type rec db = (0, db)"
  by (simp add: remind_step_def)

lemma sweep_parts:
  assumes "sweep_review_reminders env db = (res, db')"
  obtains n1 n2 n3 n4 db1 db2 db3 where "clear_ineligible env db = (n1, db1)"
    "remind_step [Proposed, UnderReview] RemindedAt REVIEW_OVERDUE (overdue_recipients env) db1 = (n2, db2)"
    "remind_step [Proposed, UnderReview] EscalatedAt REVIEW_ESCALATED (escalation_recipients env) db2 = (n3, db3)"
    "remind_step [ChangesRequested] RemindedAt REVIEW_CHANGES_REMINDER (\<lambda>_ r. [du_by r]) db3 = (n4, db')"
    "res = \<lparr>rs_unassigned = n1, rs_overdue = n2, rs_escalated = n3, rs_proposer = n4\<rparr>"
  using assms unfolding sweep_review_reminders_def Let_def by (auto split: prod.splits)

text \<open>
  C38: A pass of the sweep reaches a state in which no open proposal is past an instant without its stamp
  and none is assigned to someone who cannot review it; another pass at the same instant sends and
  changes nothing.
\<close>

theorem sweep_settles:
  assumes "sweep_review_reminders env db = (res, db')"
  shows "nothing_due db' \<and> eligible_all env (rd_app db') \<and>
    sweep_review_reminders env db' = (\<lparr>rs_unassigned = 0, rs_overdue = 0, rs_escalated = 0, rs_proposer = 0\<rparr>, db')"
proof -
  obtain n1 n2 n3 n4 db1 db2 db3 where p: "clear_ineligible env db = (n1, db1)"
    "remind_step [Proposed, UnderReview] RemindedAt REVIEW_OVERDUE (overdue_recipients env) db1 = (n2, db2)"
    "remind_step [Proposed, UnderReview] EscalatedAt REVIEW_ESCALATED (escalation_recipients env) db2 = (n3, db3)"
    "remind_step [ChangesRequested] RemindedAt REVIEW_CHANGES_REMINDER (\<lambda>_ r. [du_by r]) db3 = (n4, db')"
    by (rule sweep_parts [OF assms])
  note f2 = remind_step_frame [OF p(2)] and f3 = remind_step_frame [OF p(3)] and f4 = remind_step_frame [OF p(4)]
  have due: "nothing_due db'"
    unfolding nothing_due_def using f2(3) f3(3,4) f4(3,4) by blast
  have ok: "eligible_all env (rd_app db')"
    using clear_ineligible_effect [OF p(1)] f2(1) f3(1) f4(1) by simp
  have "sweep_review_reminders env db' = (\<lparr>rs_unassigned = 0, rs_overdue = 0, rs_escalated = 0, rs_proposer = 0\<rparr>, db')"
    using due unfolding nothing_due_def sweep_review_reminders_def clear_nothing [OF ok] by (simp add: remind_nothing)
  then show ?thesis using due ok by blast
qed

section \<open>Who is reminded\<close>

definition live_user :: "app_db \<Rightarrow> ident \<Rightarrow> bool" where
  "live_user app u = ((\<exists>r \<in> set (t_users (db_access app)). ur_id r = u \<and> ur_active r) \<and> db_erased app u = None)"

definition new_rows :: "reminder_row list \<Rightarrow> reminder_row list \<Rightarrow> (string \<Rightarrow> ident \<Rightarrow> ident \<Rightarrow> bool) \<Rightarrow> bool" where
  "new_rows old rows Q = (\<forall>f \<in> set rows. f \<in> set old \<or> Q (fr_type f) (fr_user f) (fr_ns f))"

lemma new_rows_refl: "new_rows rows rows Q"
  by (simp add: new_rows_def)

lemma new_rows_trans: "new_rows a b Q \<Longrightarrow> new_rows b c Q \<Longrightarrow> new_rows a c Q"
  by (auto simp: new_rows_def)

lemma fold_for_new: "Q type u (du_namespace r) \<Longrightarrow> new_rows rows (fold_for type r u rows) Q"
  by (auto simp: new_rows_def fold_for_def fold_in_def folds_into_def)

lemma fold_fold_for_new: "(\<And>u. u \<in> set us \<Longrightarrow> Q type u (du_namespace r)) \<Longrightarrow> new_rows rows (fold (fold_for type r) us rows) Q"
proof (induction us arbitrary: rows)
  case (Cons u us)
  have "new_rows rows (fold_for type r u rows) Q" by (rule fold_for_new) (use Cons.prems in simp)
  moreover have "new_rows (fold_for type r u rows) (fold (fold_for type r) us (fold_for type r u rows)) Q"
    by (rule Cons.IH) (use Cons.prems in simp)
  ultimately show ?case using new_rows_trans by simp
qed (simp add: new_rows_refl)

lemma fold_reminder_new:
  assumes "\<And>u. u \<in> set us \<Longrightarrow> live_user (rd_app db) u \<Longrightarrow> Q type u (du_namespace r)"
  shows "new_rows (rd_rows db) (rd_rows (fold_reminder type us r db)) Q"
proof (cases "us = []")
  case False
  show ?thesis
    using False by (simp add: fold_reminder_def, intro fold_fold_for_new) (use assms in \<open>auto simp: live_user_def\<close>)
qed (simp add: fold_reminder_def new_rows_refl)

lemma remind_one_new:
  assumes "remind_one rec s type r (n, db) = (n', db')"
    and "\<And>u. u \<in> set (rec (rd_app db) r) \<Longrightarrow> live_user (rd_app db) u \<Longrightarrow> Q type u (du_namespace r)"
  shows "new_rows (rd_rows db) (rd_rows db') Q"
proof (cases "get_stamp s (rd_turns db (du_id r)) = None")
  case True
  let ?d = "db\<lparr>rd_turns := (rd_turns db)(du_id r := set_stamp s (db_now (rd_app db)) (rd_turns db (du_id r)))\<rparr>"
  have "new_rows (rd_rows ?d) (rd_rows (fold_reminder type (rec (rd_app db) r) r ?d)) Q"
    by (rule fold_reminder_new) (use assms(2) in simp)
  then show ?thesis using assms(1) True by (auto simp: remind_one_def)
next
  case False
  then have "remind_one rec s type r (n, db) = (n, db)" by (auto simp: remind_one_def)
  then show ?thesis using assms(1) by (simp add: new_rows_refl)
qed

lemma remind_fold_new:
  assumes "fold (remind_one rec s type) rs (n, db) = (n', db')"
    and "\<And>r u. r \<in> set rs \<Longrightarrow> u \<in> set (rec (rd_app db) r) \<Longrightarrow> live_user (rd_app db) u \<Longrightarrow> Q type u (du_namespace r)"
  shows "new_rows (rd_rows db) (rd_rows db') Q"
  using assms
proof (induction rs arbitrary: n db)
  case Nil
  then show ?case by (simp add: new_rows_refl)
next
  case (Cons r rs)
  obtain n1 db1 where one: "remind_one rec s type r (n, db) = (n1, db1)" by force
  have app: "rd_app db1 = rd_app db" using one by (auto simp: remind_one_def split: if_splits)
  have step: "new_rows (rd_rows db) (rd_rows db1) Q"
    by (rule remind_one_new [OF one]) (use Cons.prems(2) in simp)
  have "new_rows (rd_rows db1) (rd_rows db') Q"
    by (rule Cons.IH [of n1 db1]) (use Cons.prems one app in simp_all)
  then show ?case by (rule new_rows_trans [OF step])
qed

definition reviewers_of :: "app_env \<Rightarrow> app_db \<Rightarrow> ident \<Rightarrow> ident set" where
  "reviewers_of env app ns = set (reviewer_ids AllReviewers (db_erased app) (db_access app) ns (env_boot env))"

lemma admins_review:
  "set (namespace_admins env app ns) \<subseteq> reviewers_of env app ns" "set (platform_admins env app) \<subseteq> reviewers_of env app ns"
  by (auto simp: namespace_admins_def platform_admins_def reviewers_of_def reviewer_ids_def Let_def)

lemma step_admins_review: "set (step_admins env app r) \<subseteq> reviewers_of env app (du_namespace r)"
  using admins_review(1) by (simp add: step_admins_def)

text \<open>The reminders and escalations of a settled assignment go to reviewers.\<close>

lemma recipients_review:
  assumes "eligible_all env (rd_app db)" "r \<in> set (due_select (is_due [Proposed, UnderReview] s db) db)"
  shows "set (overdue_recipients env (rd_app db) r) \<subseteq> reviewers_of env (rd_app db) (du_namespace r)"
    and "set (escalation_recipients env (rd_app db) r) \<subseteq> reviewers_of env (rd_app db) (du_namespace r)"
proof -
  obtain p where p: "p \<in> set (db_proposals (rd_app db))" "has_namespace (rd_app db) p" "is_due [Proposed, UnderReview] s db p"
      "r = due_row_of db p"
    using assms(2) by (auto simp: due_select_def)
  then have "\<not> ineligible env (rd_app db) p" using assms(1) by (simp add: eligible_all_def)
  moreover have "is_open_state (pp_state p)" using p(3) by (auto simp: is_due_def is_open_state_def)
  ultimately have "a \<in> reviewers_of env (rd_app db) (du_namespace r)" if "du_assignee r = Some a" for a
    using that by (auto simp: p(4) due_row_of_def ineligible_def reviewers_of_def)
  then show "set (overdue_recipients env (rd_app db) r) \<subseteq> reviewers_of env (rd_app db) (du_namespace r)"
    using step_admins_review [of env "rd_app db" r] admins_review(2) [of env "rd_app db" "du_namespace r"]
    by (cases "du_assignee r") (auto simp: overdue_recipients_def Let_def truthy_def)
  show "set (escalation_recipients env (rd_app db) r) \<subseteq> reviewers_of env (rd_app db) (du_namespace r)"
    using step_admins_review [of env "rd_app db" r] admins_review(2) [of env "rd_app db" "du_namespace r"]
    by (auto simp: escalation_recipients_def Let_def split: if_splits)
qed

text \<open>The audience of a reminder row of a type in a namespace.\<close>

definition may_receive :: "app_env \<Rightarrow> app_db \<Rightarrow> string \<Rightarrow> ident \<Rightarrow> ident \<Rightarrow> bool" where
  "may_receive env app type u ns =
     (live_user app u \<and>
      (if type = REVIEW_CHANGES_REMINDER
       then list_ex (\<lambda>p. pp_by p = u \<and> pp_namespace p = ns \<and> pp_state p = ChangesRequested) (db_proposals app)
       else u \<in> reviewers_of env app ns))"

lemma reminder_types: "REVIEW_OVERDUE \<noteq> REVIEW_CHANGES_REMINDER" "REVIEW_ESCALATED \<noteq> REVIEW_CHANGES_REMINDER"
  by (simp_all add: REVIEW_OVERDUE_def REVIEW_ESCALATED_def REVIEW_CHANGES_REMINDER_def)

text \<open>
  A reminder row that a pass writes or changes belongs to an active, not erased user: for an overdue
  or escalated review to a current reviewer of the namespace, for requested changes to the submitter
  of a proposal that waits for them there.
\<close>

theorem reminders_reach_their_audience:
  assumes "sweep_review_reminders env db = (res, db')" "f \<in> set (rd_rows db')" "f \<notin> set (rd_rows db)"
  shows "may_receive env (rd_app db') (fr_type f) (fr_user f) (fr_ns f)"
proof -
  obtain n1 n2 n3 n4 db1 db2 db3 where p: "clear_ineligible env db = (n1, db1)"
    "remind_step [Proposed, UnderReview] RemindedAt REVIEW_OVERDUE (overdue_recipients env) db1 = (n2, db2)"
    "remind_step [Proposed, UnderReview] EscalatedAt REVIEW_ESCALATED (escalation_recipients env) db2 = (n3, db3)"
    "remind_step [ChangesRequested] RemindedAt REVIEW_CHANGES_REMINDER (\<lambda>_ r. [du_by r]) db3 = (n4, db')"
    by (rule sweep_parts [OF assms(1)])
  have app: "rd_app db2 = rd_app db1" "rd_app db3 = rd_app db1" "rd_app db' = rd_app db1"
    using remind_step_frame(1) [OF p(2)] remind_step_frame(1) [OF p(3)] remind_step_frame(1) [OF p(4)] by simp_all
  have ok: "eligible_all env (rd_app db1)" and rows: "rd_rows db1 = rd_rows db"
    using clear_ineligible_effect [OF p(1)] by simp_all
  let ?Q = "may_receive env (rd_app db1)"
  have "new_rows (rd_rows db1) (rd_rows db2) ?Q"
    by (rule remind_fold_new [OF p(2) [unfolded remind_step_def]])
      (use recipients_review(1) [OF ok] reminder_types in \<open>auto simp: may_receive_def\<close>)
  moreover have "new_rows (rd_rows db2) (rd_rows db3) ?Q"
    by (rule remind_fold_new [OF p(3) [unfolded remind_step_def]])
      (use recipients_review(2) [of env db2] ok app reminder_types in \<open>auto simp: may_receive_def\<close>)
  moreover have "new_rows (rd_rows db3) (rd_rows db') ?Q"
    by (rule remind_fold_new [OF p(4) [unfolded remind_step_def]])
      (auto simp: may_receive_def app due_select_def is_due_def due_row_of_def list_ex_iff)
  ultimately have "new_rows (rd_rows db) (rd_rows db') ?Q" using rows new_rows_trans by metis
  then show ?thesis using assms(2,3) app by (auto simp: new_rows_def)
qed

section \<open>Folded rows\<close>

definition row_key :: "reminder_row \<Rightarrow> ident \<times> string \<times> ident" where
  "row_key f = (fr_user f, fr_type f, fr_ns f)"

definition rows_ok :: "reminder_row list \<Rightarrow> bool" where
  "rows_ok rows = (distinct (map row_key (filter (\<lambda>f. \<not> fr_read f) rows)) \<and>
     list_all (\<lambda>f. distinct (fr_proposals f) \<and> fr_count f = length (fr_proposals f)) rows)"

lemma fold_in_simps [simp]:
  "row_key (fold_in r f) = row_key f" "fr_read (fold_in r f) = fr_read f"
  by (simp_all add: fold_in_def row_key_def)

lemma fold_in_ok:
  "distinct (fr_proposals f) \<and> fr_count f = length (fr_proposals f) \<Longrightarrow>
     distinct (fr_proposals (fold_in r f)) \<and> fr_count (fold_in r f) = length (fr_proposals (fold_in r f))"
  by (simp add: fold_in_def)

lemma fold_for_ok:
  assumes "rows_ok rows"
  shows "rows_ok (fold_for type r u rows)"
proof (cases "list_ex (folds_into u type (du_namespace r)) rows")
  case True
  let ?g = "\<lambda>f. if folds_into u type (du_namespace r) f then fold_in r f else f"
  have "map row_key (filter (\<lambda>f. \<not> fr_read f) (map ?g rows)) = map row_key (filter (\<lambda>f. \<not> fr_read f) rows)"
    by (induction rows) auto
  moreover have "list_all (\<lambda>f. distinct (fr_proposals f) \<and> fr_count f = length (fr_proposals f)) (map ?g rows)"
    using assms fold_in_ok [of _ r] by (auto simp: rows_ok_def list_all_iff)
  ultimately show ?thesis using assms True by (simp add: fold_for_def rows_ok_def)
next
  case False
  then have "(u, type, du_namespace r) \<notin> set (map row_key (filter (\<lambda>f. \<not> fr_read f) rows))"
    by (auto simp: list_ex_iff folds_into_def row_key_def)
  then show ?thesis using assms False by (simp add: fold_for_def rows_ok_def row_key_def)
qed

lemma fold_fold_for_ok: "rows_ok rows \<Longrightarrow> rows_ok (fold (fold_for type r) us rows)"
  by (induction us arbitrary: rows) (simp_all add: fold_for_ok)

lemma remind_fold_ok: "rows_ok (rd_rows (snd acc)) \<Longrightarrow> rows_ok (rd_rows (snd (fold (remind_one rec s type) rs acc)))"
proof (induction rs arbitrary: acc)
  case (Cons r rs)
  have "rows_ok (rd_rows (snd (remind_one rec s type r acc)))"
    using Cons.prems by (cases acc) (auto simp: remind_one_def fold_reminder_def fold_fold_for_ok)
  then show ?case using Cons.IH by simp
qed simp

text \<open>
  C40: The unread reminder rows keep one row per recipient, type and namespace, each naming every proposal
  once and counting them.
\<close>

theorem reminder_rows_kept:
  assumes "sweep_review_reminders env db = (res, db')" "rows_ok (rd_rows db)"
  shows "rows_ok (rd_rows db')"
proof -
  obtain n1 n2 n3 n4 db1 db2 db3 where p: "clear_ineligible env db = (n1, db1)"
    "remind_step [Proposed, UnderReview] RemindedAt REVIEW_OVERDUE (overdue_recipients env) db1 = (n2, db2)"
    "remind_step [Proposed, UnderReview] EscalatedAt REVIEW_ESCALATED (escalation_recipients env) db2 = (n3, db3)"
    "remind_step [ChangesRequested] RemindedAt REVIEW_CHANGES_REMINDER (\<lambda>_ r. [du_by r]) db3 = (n4, db')"
    by (rule sweep_parts [OF assms(1)])
  have step: "remind_step states s type rec d = (n, d') \<Longrightarrow> rows_ok (rd_rows d) \<Longrightarrow> rows_ok (rd_rows d')" for states s type rec d n d'
    using remind_fold_ok [of "(0, d)" rec s type] by (metis remind_step_def snd_conv)
  have "rows_ok (rd_rows db1)" using clear_ineligible_effect [OF p(1)] assms(2) by simp
  then show ?thesis using step p(2-4) by blast
qed

end
