(* ===== verification/ReviewSamples.thy ===== *)
theory ReviewSamples
  imports ReminderFacts ProposalFacts
begin

text \<open>
  A proposal past its review target, with one reviewer, and the properties of assignments and
  reminders on it.
\<close>

definition sample_reviewers :: access_db where
  "sample_reviewers = sample_db
     \<lparr>t_users := [\<lparr>ur_id = ''u'', ur_oid = ''ou'', ur_active = True\<rparr>, \<lparr>ur_id = ''r'', ur_oid = ''or'', ur_active = True\<rparr>],
      t_memberships := [\<lparr>gm_user = ''r'', gm_group = ''g''\<rparr>],
      t_mappings := [\<lparr>mr_id = ''m'', mr_namespace = Some ''n'', mr_role = NamespaceAdmin, mr_group = ''g''\<rparr>]\<rparr>"

definition sample_due_store :: reminder_db where
  "sample_due_store =
     \<lparr>rd_app = sample_review_store\<lparr>db_access := sample_reviewers, db_now := 100\<rparr>,
      rd_turns = (\<lambda>_. \<lparr>tn_started = 0, tn_due = Some 50, tn_escalate = None, tn_reminded = None, tn_escalated = None\<rparr>),
      rd_targets = (\<lambda>_. Some 1), rd_rows = []\<rparr>"

abbreviation sample_app_env :: app_env where
  "sample_app_env \<equiv> \<lparr>env_boot = None, env_av_required = False\<rparr>"

definition sample_assign :: assign_input where
  "sample_assign = \<lparr>as_proposal = ''p'', as_assignee = Some ''r'',
     as_access = \<lparr>is_platform_admin = True, namespace_roles = Map.empty\<rparr>, as_actor = ''a''\<rparr>"

lemma sample_sweep:
  obtains res db' where "sweep_review_reminders sample_app_env sample_due_store = (res, db')"
    "map fr_user (rd_rows db') = [''r'']"
proof -
  have "map fr_user (rd_rows (snd (sweep_review_reminders sample_app_env sample_due_store))) = [''r'']" by code_simp
  then show ?thesis using that by (cases "sweep_review_reminders sample_app_env sample_due_store") simp
qed

theorem sweep_settles_witness:
  "\<exists>res db'. sweep_review_reminders sample_app_env sample_due_store = (res, db') \<and> map fr_user (rd_rows db') = [''r''] \<and>
     nothing_due db'"
proof -
  obtain res db' where run: "sweep_review_reminders sample_app_env sample_due_store = (res, db')" "map fr_user (rd_rows db') = [''r'']"
    by (rule sample_sweep)
  then show ?thesis
    by (intro exI [of _ res] exI [of _ db'] conjI) (use run sweep_settles [OF run(1)] in simp_all)
qed

theorem reminders_reach_their_audience_witness:
  "\<exists>res db' f. sweep_review_reminders sample_app_env sample_due_store = (res, db') \<and> rd_rows db' = [f] \<and>
     may_receive sample_app_env (rd_app db') (fr_type f) ''r'' (fr_ns f)"
proof -
  obtain res db' where run: "sweep_review_reminders sample_app_env sample_due_store = (res, db')" "map fr_user (rd_rows db') = [''r'']"
    by (rule sample_sweep)
  then obtain f where f: "rd_rows db' = [f]" "fr_user f = ''r''" by (auto simp: map_eq_Cons_conv)
  have "f \<notin> set (rd_rows sample_due_store)" by (simp add: sample_due_store_def)
  then show ?thesis using reminders_reach_their_audience [OF run(1), of f] f run(1) by auto
qed

theorem reminder_rows_kept_witness:
  "\<exists>res db'. sweep_review_reminders sample_app_env sample_due_store = (res, db') \<and> rd_rows db' \<noteq> [] \<and> rows_ok (rd_rows db')"
proof -
  obtain res db' where run: "sweep_review_reminders sample_app_env sample_due_store = (res, db')" "map fr_user (rd_rows db') = [''r'']"
    by (rule sample_sweep)
  have "rows_ok (rd_rows sample_due_store)" by (simp add: sample_due_store_def rows_ok_def)
  then show ?thesis using reminder_rows_kept [OF run(1)] run by auto
qed

theorem assignment_sound_witness:
  "\<exists>who db'. assign_proposal sample_app_env sample_assign (rd_app sample_due_store) = (Assigned True who, db') \<and>
     length (db_audit db') = 1"
proof -
  have "fst (assign_proposal sample_app_env sample_assign (rd_app sample_due_store)) = Assigned True (Some (''r'', ''Someone''))"
    by code_simp
  then obtain who db' where run: "assign_proposal sample_app_env sample_assign (rd_app sample_due_store) = (Assigned True who, db')"
    by (cases "assign_proposal sample_app_env sample_assign (rd_app sample_due_store)") simp
  have "db_audit (rd_app sample_due_store) = []"
    by (simp add: sample_due_store_def sample_review_store_def sample_store_def)
  then show ?thesis using run assignment_sound [OF run] by auto
qed

end
