(* ===== verification/Directory.thy ===== *)
theory Directory
  imports OAuthTokens ProposalActions
begin

text \<open>
  The provisioned directory: users, groups and memberships, and the operations on them of
  \<open>packages/worker/src/scim/store.ts\<close>, the store behind the SCIM endpoints and the reconciliation.

  The state adds the provisioning tables to the two databases of the earlier components: \<open>sd_app\<close>
  (proposals, maintainers, notifications, the audit log, the stream of row ids) and \<open>sd_oauth\<close>
  (clients, grants and tokens of the MCP server). Their own copies of the directory are not used:
  \<open>directory\<close> computes the tables that access resolution reads, and the operations that need them
  put them in. The other tables with personal rows are a family \<open>sd_tables\<close> by name, as the code
  addresses them.
\<close>

section \<open>Tables\<close>

record directory_profile =
  dp_job :: "string option"
  dp_office :: "string option"
  dp_department :: "string option"

definition no_profile :: directory_profile where
  "no_profile = \<lparr>dp_job = None, dp_office = None, dp_department = None\<rparr>"

text \<open>The columns an erasure sets back to their defaults.\<close>

record person_prefs =
  pf_directory_hidden :: bool
  pf_achievements_hidden :: bool
  pf_time_zone :: "string option"
  pf_hero :: "instant option"
  pf_allow_follows :: bool
  pf_surveys :: bool
  pf_survey_shown :: "instant option"
  pf_survey_offer :: "json option"
  pf_survey_self :: "instant option"
  pf_idea_hidden :: bool
  pf_idea_notify :: bool
  pf_idea_votes_hidden :: bool
  pf_first_seen :: "instant option"

definition default_prefs :: person_prefs where
  "default_prefs = \<lparr>pf_directory_hidden = False, pf_achievements_hidden = False, pf_time_zone = None, pf_hero = None,
     pf_allow_follows = True, pf_surveys = True, pf_survey_shown = None, pf_survey_offer = None, pf_survey_self = None,
     pf_idea_hidden = False, pf_idea_notify = True, pf_idea_votes_hidden = False, pf_first_seen = None\<rparr>"

record digest_prefs =
  dg_mode :: "string option"
  dg_last_run :: "instant option"
  dg_failures :: nat

definition default_digest :: digest_prefs where
  "default_digest = \<lparr>dg_mode = None, dg_last_run = None, dg_failures = 0\<rparr>"

record person =
  pn_id :: ident
  pn_oid :: "ident option"
  pn_email :: string
  pn_name :: string
  pn_active :: bool
  pn_avatar :: "string option"
  pn_profile :: directory_profile
  pn_prefs :: person_prefs
  pn_digest :: digest_prefs
  pn_erased :: "instant option"

record synced_group =
  sg_id :: ident
  sg_oid :: ident
  sg_name :: string

record install_token =
  it_id :: ident
  it_user :: ident

text \<open>A row of a table of personal data: its person (under whatever name the column has), a second
  person where the row has one, and a status.\<close>

record personal_row =
  pr_id :: ident
  pr_user :: "ident option"
  pr_other :: "ident option"
  pr_status :: string

record credit_row =
  cr_log :: ident
  cr_user :: ident

record access_log_row =
  al_id :: ident
  al_actor :: "ident option"

record scim_db =
  sd_people :: "person list"
  sd_groups :: "synced_group list"
  sd_members :: "membership_row list"
  sd_mappings :: "mapping_row list"
  sd_tokens :: "install_token list"
  sd_credits :: "credit_row list"
  sd_access_log :: "access_log_row list"
  sd_tables :: "string \<Rightarrow> personal_row list"
  sd_app :: app_db
  sd_oauth :: oauth_db
  sd_now :: instant

text \<open>The directory as access resolution reads it. A detached row has no object id; it stands with
  the empty one, which no token of a session carries.\<close>

definition directory :: "scim_db \<Rightarrow> access_db" where
  "directory db =
     \<lparr>t_users = map (\<lambda>p. \<lparr>ur_id = pn_id p, ur_oid = (case pn_oid p of None \<Rightarrow> [] | Some o' \<Rightarrow> o'), ur_active = pn_active p\<rparr>) (sd_people db),
      t_groups = map (\<lambda>g. \<lparr>gr_id = sg_id g, gr_oid = sg_oid g\<rparr>) (sd_groups db),
      t_memberships = sd_members db, t_mappings = sd_mappings db, t_grants = t_grants (db_access (sd_app db))\<rparr>"

text \<open>The two databases with the directory in place, and the clock.\<close>

definition mcp_server :: "scim_db \<Rightarrow> oauth_db" where
  "mcp_server db = (sd_oauth db)\<lparr>oa_access := directory db, oa_now := sd_now db\<rparr>"

definition find_person :: "scim_db \<Rightarrow> ident \<Rightarrow> person option" where
  "find_person db i = find (\<lambda>p. pn_id p = i) (sd_people db)"

definition web_app :: "scim_db \<Rightarrow> app_db" where
  "web_app db = (sd_app db)\<lparr>db_access := directory db,
     db_erased := (\<lambda>i. case find_person db i of None \<Rightarrow> None | Some p \<Rightarrow> pn_erased p),
     db_user_name := (\<lambda>i. map_option pn_name (find_person db i)),
     db_user_email := (\<lambda>i. map_option pn_email (find_person db i)), db_now := sd_now db\<rparr>"

section \<open>Primitive effects\<close>

definition set_people :: "(person \<Rightarrow> bool) \<Rightarrow> (person \<Rightarrow> person) \<Rightarrow> scim_db \<Rightarrow> scim_db" where
  "set_people P f db = db\<lparr>sd_people := map (\<lambda>p. if P p then f p else p) (sd_people db)\<rparr>"

definition person_by_oid :: "scim_db \<Rightarrow> ident \<Rightarrow> person option" where
  "person_by_oid db ext = find (\<lambda>p. pn_oid p = Some ext) (sd_people db)"

definition group_by_oid :: "scim_db \<Rightarrow> ident \<Rightarrow> synced_group option" where
  "group_by_oid db ext = find (\<lambda>g. sg_oid g = ext) (sd_groups db)"

definition sd_fresh :: "scim_db \<Rightarrow> ident \<times> scim_db" where
  "sd_fresh db = (let (i, app) = fresh_id (sd_app db) in (i, db\<lparr>sd_app := app\<rparr>))"

definition sd_audit :: "audit_entry \<Rightarrow> scim_db \<Rightarrow> scim_db" where
  "sd_audit e db = db\<lparr>sd_app := append_audit e (sd_app db)\<rparr>"

text \<open>\<open>scimAudit\<close>: a row of the system actor.\<close>

definition scim_audit :: "string \<Rightarrow> string \<Rightarrow> ident \<Rightarrow> json \<Rightarrow> scim_db \<Rightarrow> scim_db" where
  "scim_audit action type target after db =
     sd_audit \<lparr>au_actor = None, au_action = action, au_type = type, au_target = Some target, au_namespace = None,
               au_before = JNull, au_after = after\<rparr> db"

section \<open>Users\<close>

record scim_user =
  sc_external :: ident
  sc_email :: string
  sc_name :: string
  sc_active :: bool
  sc_profile :: "directory_profile option"

definition status_text :: "bool \<Rightarrow> string" where
  "status_text active = (if active then ''active'' else ''inactive'')"

definition new_person :: "ident \<Rightarrow> scim_user \<Rightarrow> person" where
  "new_person i u = \<lparr>pn_id = i, pn_oid = Some (sc_external u), pn_email = sc_email u, pn_name = sc_name u,
     pn_active = sc_active u, pn_avatar = None,
     pn_profile = (case sc_profile u of None \<Rightarrow> no_profile | Some d \<Rightarrow> d),
     pn_prefs = default_prefs, pn_digest = default_digest, pn_erased = None\<rparr>"

text \<open>The update of a row that is there: blanks never replace a value, the status always does, and a
  directory profile is written only by a caller that carries one.\<close>

definition merge_person :: "scim_user \<Rightarrow> person \<Rightarrow> person" where
  "merge_person u p = p\<lparr>pn_email := (if sc_email u = [] then pn_email p else sc_email u),
     pn_name := (if sc_name u = [] then pn_name p else sc_name u), pn_active := sc_active u,
     pn_profile := (case sc_profile u of None \<Rightarrow> pn_profile p | Some d \<Rightarrow> d)\<rparr>"

definition upsert_user :: "scim_user \<Rightarrow> scim_db \<Rightarrow> ident \<times> scim_db" where
  "upsert_user u db =
     (case person_by_oid db (sc_external u) of
        None \<Rightarrow>
          (let (i, db1) = sd_fresh db
           in (i, scim_audit ''user.provisioned'' ''user'' i
                 (JObj [(''externalId'', JStr (sc_external u)), (''email'', JStr (sc_email u)),
                        (''status'', JStr (status_text (sc_active u)))])
                 (db1\<lparr>sd_people := sd_people db1 @ [new_person i u]\<rparr>)))
      | Some p \<Rightarrow>
          (let db1 = set_people (\<lambda>q. pn_oid q = Some (sc_external u)) (merge_person u) db
           in (pn_id p,
               if pn_active p \<noteq> sc_active u \<and> (\<not> sc_active u \<or> \<not> pn_active p)
               then scim_audit (if sc_active u then ''user.reactivated'' else ''user.deactivated'') ''user'' (pn_id p)
                      (JObj [(''externalId'', JStr (sc_external u)), (''via'', JStr ''upsert'')]) db1
               else db1)))"

text \<open>A leaver: the row becomes inactive, the install tokens are deleted, the live connections of the
  MCP server are revoked with their tokens.\<close>

definition cut_connections :: "ident \<Rightarrow> instant \<Rightarrow> oauth_db \<Rightarrow> oauth_db" where
  "cut_connections u now o' =
     (let live = map og_id (filter (\<lambda>g. og_user g = u \<and> og_revoked g = None) (oa_grants o'))
      in set_grant (\<lambda>g. og_user g = u \<and> og_revoked g = None) (og_revoked_update (\<lambda>_. Some now))
           (set_token (\<lambda>t. ot_expires t > now \<and> ot_grant t \<in> set live) (ot_expires_update (\<lambda>_. now)) o'))"

definition deprovision_user :: "ident \<Rightarrow> scim_db \<Rightarrow> scim_db" where
  "deprovision_user ext db =
     (case person_by_oid db ext of
        None \<Rightarrow> db
      | Some p \<Rightarrow>
          (let db1 = set_people (\<lambda>q. pn_id q = pn_id p) (pn_active_update (\<lambda>_. False)) db;
               db2 = (if pn_active p
                      then scim_audit ''user.deactivated'' ''user'' (pn_id p)
                             (JObj [(''externalId'', JStr ext), (''via'', JStr ''patch'')]) db1
                      else db1)
           in db2\<lparr>sd_tokens := filter (\<lambda>t. it_user t \<noteq> pn_id p) (sd_tokens db2),
                  sd_oauth := cut_connections (pn_id p) (sd_now db2) (sd_oauth db2)\<rparr>))"

section \<open>Erasure\<close>

text \<open>\<open>delete from tbl where user_id = u\<close> for the tables by name; deleting a grant deletes its tokens.\<close>

definition drop_table_rows :: "(personal_row \<Rightarrow> bool) \<Rightarrow> string \<Rightarrow> scim_db \<Rightarrow> scim_db" where
  "drop_table_rows P tbl db = db\<lparr>sd_tables := (sd_tables db)(tbl := filter (\<lambda>r. \<not> P r) (sd_tables db tbl))\<rparr>"

definition delete_rows_of :: "ident \<Rightarrow> string \<Rightarrow> scim_db \<Rightarrow> scim_db" where
  "delete_rows_of u tbl db =
     (if tbl = ''skill_maintainers''
      then db\<lparr>sd_app := (sd_app db)\<lparr>db_maintainers := filter (\<lambda>m. mt_user m \<noteq> u) (db_maintainers (sd_app db))\<rparr>\<rparr>
      else if tbl = ''notifications''
      then db\<lparr>sd_app := (sd_app db)\<lparr>db_notifications := filter (\<lambda>n. nt_user n \<noteq> u) (db_notifications (sd_app db))\<rparr>\<rparr>
      else if tbl = ''group_memberships'' then db\<lparr>sd_members := filter (\<lambda>m. gm_user m \<noteq> u) (sd_members db)\<rparr>
      else if tbl = ''install_credits'' then db\<lparr>sd_credits := filter (\<lambda>c. cr_user c \<noteq> u) (sd_credits db)\<rparr>
      else if tbl = ''tokens'' then db\<lparr>sd_tokens := filter (\<lambda>t. it_user t \<noteq> u) (sd_tokens db)\<rparr>
      else if tbl = ''oauth_grants''
      then (let o' = sd_oauth db; gone = map og_id (filter (\<lambda>g. og_user g = u) (oa_grants o'))
            in db\<lparr>sd_oauth := drop_tokens (\<lambda>t. ot_grant t \<in> set gone)
                   (o'\<lparr>oa_grants := filter (\<lambda>g. og_user g \<noteq> u) (oa_grants o')\<rparr>)\<rparr>)
      else drop_table_rows (\<lambda>r. pr_user r = Some u) tbl db)"

definition anonymise :: "ident \<Rightarrow> string \<Rightarrow> scim_db \<Rightarrow> scim_db" where
  "anonymise u tbl db = db\<lparr>sd_tables := (sd_tables db)(tbl :=
     map (\<lambda>r. if pr_user r = Some u then r\<lparr>pr_user := None\<rparr> else r) (sd_tables db tbl))\<rparr>"

definition deleted_label :: "string \<Rightarrow> string" where
  "deleted_label email = (if email \<noteq> [] \<and> js_trim email \<noteq> [] then js_trim email @ '' - Deleted'' else ''Deleted User'')"

definition scrub_person :: "string \<Rightarrow> instant \<Rightarrow> person \<Rightarrow> person" where
  "scrub_person label now p = p\<lparr>pn_name := label, pn_email := [], pn_avatar := None, pn_profile := no_profile,
     pn_prefs := default_prefs, pn_oid := None, pn_active := False, pn_erased := Some now\<rparr>"

definition scim_erased_tables :: "string list" where
  "scim_erased_tables = [''skill_maintainers'', ''install_credits'', ''group_memberships'', ''skill_ratings'',
     ''skill_hypes'', ''skill_watches'', ''notifications'', ''tokens'', ''user_achievements'']"

text \<open>The statements both erasures share after the loop over the tables of their own.\<close>

definition erase_common :: "ident \<Rightarrow> scim_db \<Rightarrow> scim_db" where
  "erase_common u db =
     drop_table_rows (\<lambda>r. pr_user r = Some u) ''user_visit_days''
    (drop_table_rows (\<lambda>r. pr_user r = Some u) ''feature_idea_votes''
    (drop_table_rows (\<lambda>r. pr_user r = Some u \<and> pr_status r \<noteq> ''published'') ''feature_ideas''
    (drop_table_rows (\<lambda>r. pr_user r = Some u) ''user_feature_uses''
    (drop_table_rows (\<lambda>r. pr_user r = Some u) ''skill_collections''
    (drop_table_rows (\<lambda>r. pr_user r = Some u \<or> pr_other r = Some u) ''user_follows''
    (anonymise u ''ai_prereviews'' (anonymise u ''ai_usage'' (anonymise u ''rum_samples'' db))))))))"

definition erase_user_by_external_id :: "ident \<Rightarrow> scim_db \<Rightarrow> scim_db" where
  "erase_user_by_external_id ext db =
     (case find (\<lambda>p. pn_oid p = Some ext \<and> pn_erased p = None) (sd_people db) of
        None \<Rightarrow> db
      | Some p \<Rightarrow>
          (let u = pn_id p;
               db1 = erase_common u (fold (delete_rows_of u) scim_erased_tables db);
               db2 = set_people (\<lambda>q. pn_id q = u) (scrub_person (deleted_label (pn_email p)) (sd_now db1)) db1
           in scim_audit ''user.erased'' ''user'' u
                (JObj [(''via'', JStr ''scim''), (''skillsTransferred'', JInt 0)]) db2))"

section \<open>Groups and memberships\<close>

definition upsert_group :: "ident \<Rightarrow> string \<Rightarrow> scim_db \<Rightarrow> ident \<times> scim_db" where
  "upsert_group ext name db =
     (case group_by_oid db ext of
        Some g \<Rightarrow>
          (sg_id g, db\<lparr>sd_groups := map (\<lambda>h. if sg_oid h = ext then h\<lparr>sg_name := name\<rparr> else h) (sd_groups db)\<rparr>)
      | None \<Rightarrow>
          (let (i, db1) = sd_fresh db
           in (i, scim_audit ''group.provisioned'' ''group'' i
                 (JObj [(''externalId'', JStr ext), (''displayName'', JStr name)])
                 (db1\<lparr>sd_groups := sd_groups db1 @ [\<lparr>sg_id = i, sg_oid = ext, sg_name = name\<rparr>]\<rparr>))))"

definition role_text :: "role \<Rightarrow> string" where
  "role_text r = (case r of PlatformAdmin \<Rightarrow> ''platform_admin'' | NamespaceAdmin \<Rightarrow> ''namespace_admin'' | NamespaceMember \<Rightarrow> ''namespace_member'')"

definition roles_of_group :: "scim_db \<Rightarrow> ident \<Rightarrow> json list" where
  "roles_of_group db g =
     map (\<lambda>m. JObj [(''namespaceId'', json_opt (mr_namespace m)), (''role'', JStr (role_text (mr_role m)))])
       (filter (\<lambda>m. mr_group m = g) (sd_mappings db))"

definition membership_audit :: "string \<Rightarrow> ident \<Rightarrow> ident \<Rightarrow> ident \<Rightarrow> scim_db \<Rightarrow> scim_db" where
  "membership_audit action g u group_oid db =
     scim_audit action ''user'' u
       (JObj [(''groupId'', JStr g), (''groupOid'', JStr group_oid),
              (''roleMapped'', JBool (roles_of_group db g \<noteq> [])), (''roles'', JArr (roles_of_group db g))]) db"

text \<open>The pairs of a group and a user the statements of both operations select.\<close>

definition pairs_of :: "scim_db \<Rightarrow> ident \<Rightarrow> ident \<Rightarrow> membership_row list" where
  "pairs_of db group_oid user_oid =
     concat (map (\<lambda>g. map (\<lambda>p. \<lparr>gm_user = pn_id p, gm_group = sg_id g\<rparr>)
                        (filter (\<lambda>p. pn_oid p = Some user_oid) (sd_people db)))
       (filter (\<lambda>g. sg_oid g = group_oid) (sd_groups db)))"

definition add_membership :: "ident \<Rightarrow> ident \<Rightarrow> scim_db \<Rightarrow> scim_db" where
  "add_membership group_oid user_oid db =
     (case filter (\<lambda>m. m \<notin> set (sd_members db)) (pairs_of db group_oid user_oid) of
        [] \<Rightarrow> db
      | m # ms \<Rightarrow> membership_audit ''group.membership_added'' (gm_group m) (gm_user m) group_oid
                    (db\<lparr>sd_members := sd_members db @ m # ms\<rparr>))"

definition remove_membership :: "ident \<Rightarrow> ident \<Rightarrow> scim_db \<Rightarrow> scim_db" where
  "remove_membership group_oid user_oid db =
     (case filter (\<lambda>m. m \<in> set (pairs_of db group_oid user_oid)) (sd_members db) of
        [] \<Rightarrow> db
      | m # ms \<Rightarrow> membership_audit ''group.membership_removed'' (gm_group m) (gm_user m) group_oid
                    (db\<lparr>sd_members := filter (\<lambda>m. m \<notin> set (pairs_of db group_oid user_oid)) (sd_members db)\<rparr>))"

end
