(* ===== verification/ScimRouter.thy ===== *)
theory ScimRouter
  imports Directory Marketplace Complex_Main
begin

text \<open>
  The SCIM endpoints of \<open>packages/worker/src/scim/router.ts\<close> with the filter and paging parsers of
  \<open>scim/filter.ts\<close> and the reads of \<open>scim/store.ts\<close>. A request is a value, an answer its status and
  contents; \<open>ScimFailed\<close> is the error handed to the framework. Bodies have the declared types of the
  handlers, with absent fields as \<open>None\<close>, except the operations of a PATCH, whose values are open.
\<close>

section \<open>Filters and paging\<close>

record scim_filter =
  sf_attr :: string
  sf_value :: string

definition MAX_FILTER_LENGTH :: nat where "MAX_FILTER_LENGTH = 200"

definition filter_attr_char :: "char \<Rightarrow> bool" where
  "filter_attr_char c = (is_alnum c \<or> c \<in> {CHR ''_'', CHR ''.'', CHR '':'', CHR ''-''})"

text \<open>The value part: a quoted run without quotes, or a run without white space.\<close>

definition filter_value :: "string \<Rightarrow> string option" where
  "filter_value rest =
     (if 2 \<le> length rest \<and> hd rest = CHR 0x22 \<and> last rest = CHR 0x22 \<and> CHR 0x22 \<notin> set (butlast (tl rest))
      then Some (butlast (tl rest))
      else if rest \<noteq> [] \<and> list_all (\<lambda>c. \<not> is_ws c) rest then Some rest
      else None)"

definition match_filter :: "string \<Rightarrow> scim_filter option" where
  "match_filter s =
     (let s1 = dropWhile is_ws s; attr = takeWhile filter_attr_char s1; s2 = dropWhile filter_attr_char s1;
          s3 = dropWhile is_ws s2; s4 = drop 2 s3
      in if attr = [] \<or> s3 = s2 \<or> js_lower (take 2 s3) \<noteq> ''eq'' \<or> dropWhile is_ws s4 = s4 then None
         else map_option (\<lambda>v. \<lparr>sf_attr = attr, sf_value = v\<rparr>) (filter_value (js_trim s4)))"

definition parse_scim_filter :: "string option \<Rightarrow> scim_filter option" where
  "parse_scim_filter f =
     (case f of
        None \<Rightarrow> None
      | Some s \<Rightarrow> if s = [] \<or> length s > MAX_FILTER_LENGTH then None else match_filter s)"

text \<open>\<open>Number(x) || d\<close> of a query value: \<open>None\<close> is not a number; infinities are left out.\<close>

definition number_or :: "rat option \<Rightarrow> rat \<Rightarrow> rat" where
  "number_or n d = (case n of None \<Rightarrow> d | Some q \<Rightarrow> if q = 0 then d else q)"

definition parse_paging :: "rat option \<Rightarrow> rat option \<Rightarrow> nat \<times> nat" where
  "parse_paging start cnt =
     (nat (max 1 (floor (number_or start 1))), nat (min 1000 (max 0 (floor (number_or cnt 100)))))"

section \<open>Reads of the store\<close>

datatype filter_column = ColEmail | ColOid | ColName

definition USER_FILTER_COLUMNS :: "(string \<times> filter_column) list" where
  "USER_FILTER_COLUMNS = [(''username'', ColEmail), (''externalid'', ColOid), (''displayname'', ColName), (''email'', ColEmail)]"

definition GROUP_FILTER_COLUMNS :: "(string \<times> filter_column) list" where
  "GROUP_FILTER_COLUMNS = [(''displayname'', ColName), (''externalid'', ColOid)]"

text \<open>\<open>map[attr.toLowerCase()] ?? null\<close> on an object literal: a name of \<open>Object.prototype\<close> finds a
  function or an object there, whose text then stands in the statement as its column.\<close>

datatype column_lookup = NoColumn | Column filter_column | ForeignText

definition filter_column_of :: "(string \<times> filter_column) list \<Rightarrow> string \<Rightarrow> column_lookup" where
  "filter_column_of cols attr =
     (if attr = [] then NoColumn
      else case map_of cols (js_lower attr) of
        Some c \<Rightarrow> Column c
      | None \<Rightarrow> if js_lower attr \<in> set object_prototype_names then ForeignText else NoColumn)"

definition person_column :: "filter_column \<Rightarrow> person \<Rightarrow> string option" where
  "person_column c p = (case c of ColEmail \<Rightarrow> Some (pn_email p) | ColOid \<Rightarrow> pn_oid p | ColName \<Rightarrow> Some (pn_name p))"

definition group_column :: "filter_column \<Rightarrow> synced_group \<Rightarrow> string option" where
  "group_column c g = (case c of ColName \<Rightarrow> Some (sg_name g) | _ \<Rightarrow> Some (sg_oid g))"

text \<open>A page of the rows a filter selects with their total: \<open>None\<close> is the error of the statement.\<close>

definition list_page ::
  "(string \<times> filter_column) list \<Rightarrow> (filter_column \<Rightarrow> 'a \<Rightarrow> string option) \<Rightarrow> scim_filter option \<Rightarrow> nat \<Rightarrow> nat \<Rightarrow> 'a list \<Rightarrow>
   (nat \<times> 'a list) option" where
  "list_page cols val f start cnt rows =
     (let page = (\<lambda>xs. Some (length xs, take cnt (drop (start - 1) xs))) in
      case f of
        None \<Rightarrow> page rows
      | Some q \<Rightarrow>
          (case filter_column_of cols (sf_attr q) of
             NoColumn \<Rightarrow> Some (0, [])
           | ForeignText \<Rightarrow> None
           | Column c \<Rightarrow> page (filter (\<lambda>r. val c r = Some (sf_value q)) rows)))"

definition list_users :: "scim_filter option \<Rightarrow> nat \<Rightarrow> nat \<Rightarrow> scim_db \<Rightarrow> (nat \<times> person list) option" where
  "list_users f start cnt db = list_page USER_FILTER_COLUMNS person_column f start cnt (sd_people db)"

definition list_groups :: "scim_filter option \<Rightarrow> nat \<Rightarrow> nat \<Rightarrow> scim_db \<Rightarrow> (nat \<times> synced_group list) option" where
  "list_groups f start cnt db = list_page GROUP_FILTER_COLUMNS group_column f start cnt (sd_groups db)"

section \<open>Requests and answers\<close>

definition constant_time_equal :: "string \<Rightarrow> string \<Rightarrow> bool" where
  "constant_time_equal a b = (if length a \<noteq> length b then False else a = b)"

definition require_scim_auth :: "string option \<Rightarrow> string option \<Rightarrow> bool" where
  "require_scim_auth expected token =
     (truthy expected \<and> truthy token \<and> constant_time_equal (the token) (''Bearer '' @ the expected))"

record scim_user_resource =
  ur_external_id :: "string option"
  ur_ident :: "string option"
  ur_user_name :: "string option"
  ur_display_name :: "string option"
  ur_is_active :: "bool option"
  ur_emails :: "(string \<times> bool) list option"

definition or_else :: "'a option \<Rightarrow> 'a option \<Rightarrow> 'a option" where
  "or_else a b = (case a of None \<Rightarrow> b | Some x \<Rightarrow> Some x)"

definition primary_email :: "scim_user_resource \<Rightarrow> string" where
  "primary_email body =
     (case or_else (or_else (case ur_emails body of None \<Rightarrow> None | Some es \<Rightarrow> map_option fst (find snd es))
                      (case ur_emails body of None \<Rightarrow> None | Some [] \<Rightarrow> None | Some (e # es) \<Rightarrow> Some (fst e)))
             (ur_user_name body) of
        None \<Rightarrow> [] | Some e \<Rightarrow> e)"

definition to_scim_user :: "scim_user_resource \<Rightarrow> scim_user" where
  "to_scim_user body =
     \<lparr>sc_external = (case or_else (ur_external_id body) (ur_ident body) of None \<Rightarrow> [] | Some i \<Rightarrow> i),
      sc_email = primary_email body,
      sc_name = (case or_else (ur_display_name body) (ur_user_name body) of None \<Rightarrow> primary_email body | Some n \<Rightarrow> n),
      sc_active = (case ur_is_active body of None \<Rightarrow> True | Some a \<Rightarrow> a),
      sc_profile = None\<rparr>"

text \<open>Values of a PATCH operation: nothing, scalars, an object's fields, the members of an array.\<close>

datatype patch_value =
    PvNone | PvBool bool | PvText string | PvNumber | PvObject "(string \<times> patch_value) list" | PvArray "ident option list"

record patch_op =
  po_op :: string
  po_path :: "string option"
  po_value :: patch_value

definition is_false :: "patch_value \<Rightarrow> bool" where
  "is_false v = (case v of PvBool b \<Rightarrow> \<not> b | PvText s \<Rightarrow> js_lower (js_trim s) = ''false'' | _ \<Rightarrow> False)"

definition op_path :: "patch_op \<Rightarrow> string" where
  "op_path o' = js_lower (case po_path o' of None \<Rightarrow> [] | Some p \<Rightarrow> p)"

definition op_deactivates :: "patch_op \<Rightarrow> bool" where
  "op_deactivates o' =
     (if op_path o' = ''active'' then is_false (po_value o')
      else if op_path o' = [] then
        (case po_value o' of
           PvObject fs \<Rightarrow> (case map_of fs ''active'' of None \<Rightarrow> False | Some v \<Rightarrow> is_false v)
         | _ \<Rightarrow> False)
      else False)"

datatype scim_request =
    PostUser scim_user_resource
  | PutUser ident scim_user_resource
  | PatchUser ident "patch_op list"
  | DeleteUser ident
  | PostGroup "string option" "string option" "string option"
  | PatchGroup ident "patch_op list"
  | DeleteGroup ident
  | GetUsers "string option" "rat option" "rat option"
  | GetUser ident
  | GetGroups "string option" "rat option" "rat option"
  | GetGroup ident

datatype scim_answer =
    ScimUnauthorized
  | ScimError nat string
  | ScimFailed
  | ScimDone
  | ScimUserBody nat ident scim_user
  | ScimGroupBody nat ident ident "string option"
  | ScimUserList nat nat "(ident \<times> scim_user) list"
  | ScimGroupList nat nat "(ident \<times> ident \<times> string) list"

text \<open>A stored row as its answer shows it.\<close>

definition user_record :: "person \<Rightarrow> ident \<times> scim_user" where
  "user_record p = (pn_id p, \<lparr>sc_external = (case pn_oid p of None \<Rightarrow> [] | Some o' \<Rightarrow> o'), sc_email = pn_email p,
     sc_name = pn_name p, sc_active = pn_active p, sc_profile = None\<rparr>)"

definition member_change :: "ident \<Rightarrow> string \<Rightarrow> ident option \<Rightarrow> scim_db \<Rightarrow> scim_db" where
  "member_change g op m db =
     (case m of
        None \<Rightarrow> db
      | Some u \<Rightarrow>
          if js_lower op = ''add'' then add_membership g u db
          else if js_lower op = ''remove'' then remove_membership g u db else db)"

text \<open>The loop of a group PATCH: \<open>False\<close> when it throws at a value that is not iterable, with the
  operations before it already applied.\<close>

fun patch_members :: "ident \<Rightarrow> patch_op list \<Rightarrow> scim_db \<Rightarrow> bool \<times> scim_db" where
  "patch_members g [] db = (True, db)"
| "patch_members g (o' # ops) db =
     (if op_path o' \<noteq> ''members'' then patch_members g ops db
      else case po_value o' of
        PvNone \<Rightarrow> patch_members g ops db
      | PvText s \<Rightarrow> patch_members g ops db
      | PvArray ms \<Rightarrow> patch_members g ops (fold (member_change g (po_op o')) ms db)
      | _ \<Rightarrow> (False, db))"

definition upsert_answer :: "nat \<Rightarrow> scim_user \<Rightarrow> scim_db \<Rightarrow> scim_answer \<times> scim_db" where
  "upsert_answer st u db = (let (i, db') = upsert_user u db in (ScimUserBody st i u, db'))"

fun handle_scim :: "scim_request \<Rightarrow> scim_db \<Rightarrow> scim_answer \<times> scim_db" where
  "handle_scim (PostUser body) db =
     (let u = to_scim_user body
      in if sc_external u = [] then (ScimError 400 ''externalId required'', db) else upsert_answer 201 u db)"
| "handle_scim (PutUser i body) db = upsert_answer 200 (to_scim_user (body\<lparr>ur_external_id := Some i\<rparr>)) db"
| "handle_scim (PatchUser i ops) db =
     (ScimDone, if list_ex op_deactivates ops then deprovision_user i db else db)"
| "handle_scim (DeleteUser i) db = (ScimDone, erase_user_by_external_id i db)"
| "handle_scim (PostGroup ext i name) db =
     (let oid = (case or_else ext i of None \<Rightarrow> [] | Some o' \<Rightarrow> o')
      in if oid = [] then (ScimError 400 ''externalId required'', db)
         else let (g, db') = upsert_group oid (case name of None \<Rightarrow> oid | Some n \<Rightarrow> n) db
              in (ScimGroupBody 201 g oid name, db'))"
| "handle_scim (PatchGroup i ops) db =
     (let (ok, db') = patch_members i ops db in (if ok then ScimDone else ScimFailed, db'))"
| "handle_scim (DeleteGroup i) db = (ScimDone, db)"
| "handle_scim (GetUsers f start cnt) db =
     (let (si, c) = parse_paging start cnt
      in (case list_users (parse_scim_filter f) si c db of
            None \<Rightarrow> ScimFailed
          | Some (tot, rows) \<Rightarrow> ScimUserList tot si (map user_record rows), db))"
| "handle_scim (GetUser i) db =
     (case person_by_oid db i of
        None \<Rightarrow> ScimError 404 ''user not found''
      | Some p \<Rightarrow> ScimUserBody 200 (pn_id p) (snd (user_record p)), db)"
| "handle_scim (GetGroups f start cnt) db =
     (let (si, c) = parse_paging start cnt
      in (case list_groups (parse_scim_filter f) si c db of
            None \<Rightarrow> ScimFailed
          | Some (tot, rows) \<Rightarrow> ScimGroupList tot si (map (\<lambda>g. (sg_id g, sg_oid g, sg_name g)) rows), db))"
| "handle_scim (GetGroup i) db =
     (case group_by_oid db i of
        None \<Rightarrow> ScimError 404 ''group not found''
      | Some g \<Rightarrow> ScimGroupBody 200 (sg_id g) (sg_oid g) (Some (sg_name g)), db)"

definition scim_router :: "string option \<Rightarrow> string option \<Rightarrow> scim_request \<Rightarrow> scim_db \<Rightarrow> scim_answer \<times> scim_db" where
  "scim_router expected token rq db =
     (if \<not> require_scim_auth expected token then (ScimUnauthorized, db) else handle_scim rq db)"

end
