(* ===== verification/EraseUser.thy ===== *)
theory EraseUser
  imports Directory ReviewAssign
begin

text \<open>
  The erasure an administrator starts, \<open>packages/web/src/lib/eraseUser.ts\<close>: the optional transfer of
  maintainerships and install credits, the deletion of personal data and the scrubbed row. The caches
  it invalidates are not modelled.
\<close>

datatype erase_result =
    EraseSelf | EraseSameReplacement | EraseNotFound | EraseAlready | EraseNoReplacement
  | Erased nat "(string \<times> string) list" nat nat

section \<open>Transfers\<close>

text \<open>One maintainership: eligible when the replacement can see the skill.\<close>

definition can_maintain :: "access_db \<Rightarrow> app_db \<Rightarrow> ident \<Rightarrow> ident \<Rightarrow> bool" where
  "can_maintain acc app u skill =
     list_ex (\<lambda>s. sk_id s = skill \<and> user_can_see_skill_sql u acc (base_row s)) (db_skills app)"

definition transfer_one ::
  "access_db \<Rightarrow> ident \<Rightarrow> ident \<Rightarrow> catalog_skill \<Rightarrow> nat \<times> (string \<times> string) list \<times> app_db \<Rightarrow> nat \<times> (string \<times> string) list \<times> app_db" where
  "transfer_one acc to actor s st =
     (case st of (n, skipped, app) \<Rightarrow>
        if \<not> can_maintain acc app to (sk_id s) then (n, skipped @ [(namespace_slug app (sk_namespace s), cs_slug s)], app)
        else if list_ex (\<lambda>m. mt_skill m = sk_id s \<and> mt_user m = to) (db_maintainers app) then st
        else (Suc n, skipped, app\<lparr>db_maintainers := db_maintainers app @ [\<lparr>mt_skill = sk_id s, mt_user = to, mt_by = actor\<rparr>]\<rparr>))"

text \<open>The skills the erased user maintains, with their namespaces.\<close>

definition maintained_skills :: "app_db \<Rightarrow> ident \<Rightarrow> catalog_skill list" where
  "maintained_skills app u =
     concat (map (\<lambda>m. filter (\<lambda>s. sk_id s = mt_skill m \<and> list_ex (\<lambda>n. nr_id n = sk_namespace s) (db_namespaces app)) (db_skills app))
       (filter (\<lambda>m. mt_user m = u) (db_maintainers app)))"

definition transfer_maintainers :: "ident \<Rightarrow> ident \<Rightarrow> ident \<Rightarrow> scim_db \<Rightarrow> nat \<times> (string \<times> string) list \<times> scim_db" where
  "transfer_maintainers target to actor db =
     (case fold (transfer_one (directory db) to actor) (maintained_skills (sd_app db) target) (0, [], sd_app db) of
        (n, skipped, app) \<Rightarrow> (n, skipped, db\<lparr>sd_app := app\<rparr>))"

definition credit_moves :: "ident \<Rightarrow> ident \<Rightarrow> scim_db \<Rightarrow> credit_row \<Rightarrow> bool" where
  "credit_moves target to db c =
     (cr_user c = target \<and>
      \<not> list_ex (\<lambda>a. al_id a = cr_log c \<and> al_actor a = Some to) (sd_access_log db) \<and>
      \<not> list_ex (\<lambda>d. cr_log d = cr_log c \<and> cr_user d = to) (sd_credits db))"

definition transfer_credits :: "ident \<Rightarrow> ident \<Rightarrow> scim_db \<Rightarrow> nat \<times> nat \<times> scim_db" where
  "transfer_credits target to db =
     (let db1 = db\<lparr>sd_credits := map (\<lambda>c. if credit_moves target to db c then c\<lparr>cr_user := to\<rparr> else c) (sd_credits db)\<rparr>
      in (length (filter (credit_moves target to db) (sd_credits db)),
          length (filter (\<lambda>c. cr_user c = target) (sd_credits db1)), db1))"

section \<open>The erasure\<close>

definition web_erased_tables :: "string list" where
  "web_erased_tables = [''skill_maintainers'', ''install_credits'', ''group_memberships'', ''skill_ratings'',
     ''skill_hypes'', ''skill_watches'', ''notifications'', ''tokens'', ''oauth_grants'', ''user_achievements'']"

definition unassign_step :: "app_env \<Rightarrow> ident \<Rightarrow> ident \<Rightarrow> scim_db \<Rightarrow> scim_db" where
  "unassign_step env target actor db = db\<lparr>sd_app := snd (unassign_erased_user env target actor (web_app db))\<rparr>"

definition web_scrub :: "string \<Rightarrow> instant \<Rightarrow> person \<Rightarrow> person" where
  "web_scrub label now p = (scrub_person label now p)\<lparr>pn_digest := default_digest\<rparr>"

definition erase_rows :: "app_env \<Rightarrow> ident \<Rightarrow> person \<Rightarrow> scim_db \<Rightarrow> scim_db" where
  "erase_rows env actor p db =
     (let u = pn_id p;
          db1 = erase_common u (unassign_step env u actor (fold (delete_rows_of u) web_erased_tables db))
      in set_people (\<lambda>q. pn_id q = u) (web_scrub (deleted_label (pn_email p)) (sd_now db1)) db1)"

definition erase_user :: "app_env \<Rightarrow> ident \<Rightarrow> ident \<Rightarrow> ident option \<Rightarrow> scim_db \<Rightarrow> erase_result \<times> scim_db" where
  "erase_user env actor target transfer db =
     (if target = actor then (EraseSelf, db)
      else if truthy transfer \<and> transfer = Some target then (EraseSameReplacement, db)
      else case find_person db target of
        None \<Rightarrow> (EraseNotFound, db)
      | Some p \<Rightarrow>
          if pn_erased p \<noteq> None then (EraseAlready, db)
          else if truthy transfer \<and> \<not> list_ex (\<lambda>q. Some (pn_id q) = transfer \<and> pn_erased q = None) (sd_people db)
          then (EraseNoReplacement, db)
          else
            (let (n, skipped, db1) = (if truthy transfer then transfer_maintainers target (the transfer) actor db else (0, [], db));
                 (moved, left, db2) = (if truthy transfer then transfer_credits target (the transfer) db1 else (0, 0, db1));
                 db3 = sd_audit \<lparr>au_actor = Some actor, au_action = ''user.erased'', au_type = ''user'', au_target = Some target,
                         au_namespace = None, au_before = JNull,
                         au_after = JObj [(''transferredTo'', json_opt transfer), (''skillsTransferred'', JInt (int n)),
                           (''skillsSkipped'', JInt (int (length skipped))), (''creditsTransferred'', JInt (int moved)),
                           (''creditsSkipped'', JInt (int left))]\<rparr> (erase_rows env actor p db2)
             in (Erased n skipped moved left, db3)))"

end
