(* ===== verification/Reconcile.thy ===== *)
theory Reconcile
  imports ScimRouter EraseUser
begin

text \<open>
  The reconciliation with the directory service, \<open>packages/worker/src/reconcile/reconcile.ts\<close>. Its
  port to Microsoft Graph is a parameter: the name of a group, its members (\<open>None\<close> when the call
  fails) and a user's photo. A failing call ends the run with the changes made so far.
\<close>

record graph_user =
  gu_oid :: ident
  gu_email :: string
  gu_name :: string
  gu_active :: bool
  gu_profile :: directory_profile

record graph_port =
  gp_group :: "ident \<Rightarrow> string option"
  gp_members :: "ident \<Rightarrow> graph_user list option"
  gp_photo :: "ident \<Rightarrow> string option"

record reconcile_stats =
  rc_groups :: nat
  rc_missing :: nat
  rc_users :: nat
  rc_added :: nat
  rc_removed :: nat
  rc_avatars :: nat

section \<open>The store's reads and avatars\<close>

text \<open>The groups role mappings refer to, and the bootstrap group; each once.\<close>

definition mapped_group_external_ids :: "ident option \<Rightarrow> scim_db \<Rightarrow> ident list" where
  "mapped_group_external_ids boot db =
     (let ids = js_unique (concat (map (\<lambda>m. map sg_oid (filter (\<lambda>g. sg_id g = mr_group m) (sd_groups db))) (sd_mappings db)));
          b = trim_or_null boot
      in case b of None \<Rightarrow> ids | Some b \<Rightarrow> if b \<in> set ids then ids else ids @ [b])"

definition group_member_external_ids :: "ident \<Rightarrow> scim_db \<Rightarrow> ident option list" where
  "group_member_external_ids oid db =
     concat (map (\<lambda>m. concat (map (\<lambda>g. map pn_oid (filter (\<lambda>p. pn_id p = gm_user m) (sd_people db)))
                        (filter (\<lambda>g. sg_id g = gm_group m \<and> sg_oid g = oid) (sd_groups db))))
       (sd_members db))"

definition external_ids_missing_avatar :: "ident list \<Rightarrow> scim_db \<Rightarrow> ident list" where
  "external_ids_missing_avatar oids db =
     map (\<lambda>p. the (pn_oid p)) (filter (\<lambda>p. pn_oid p \<noteq> None \<and> the (pn_oid p) \<in> set oids \<and> pn_avatar p = None \<and>
        pn_erased p = None \<and> pn_active p) (sd_people db))"

definition set_user_avatar_if_missing :: "ident \<Rightarrow> string \<Rightarrow> scim_db \<Rightarrow> scim_db" where
  "set_user_avatar_if_missing oid photo db =
     set_people (\<lambda>p. pn_oid p = Some oid \<and> pn_avatar p = None) (pn_avatar_update (\<lambda>_. Some photo)) db"

section \<open>The run\<close>

definition graph_scim_user :: "graph_user \<Rightarrow> scim_user" where
  "graph_scim_user m = \<lparr>sc_external = gu_oid m, sc_email = gu_email m, sc_name = gu_name m, sc_active = gu_active m,
     sc_profile = Some (gu_profile m)\<rparr>"

definition sync_member_list :: "ident \<Rightarrow> ident list \<Rightarrow> scim_db \<Rightarrow> nat \<times> nat \<times> scim_db" where
  "sync_member_list oid remote db =
     (let local_oids = js_unique (group_member_external_ids oid db);
          adds = filter (\<lambda>m. Some m \<notin> set local_oids) (js_unique remote);
          rems = filter (\<lambda>l. case l of None \<Rightarrow> True | Some m \<Rightarrow> m \<notin> set remote) local_oids;
          db1 = fold (add_membership oid) adds db;
          db2 = fold (\<lambda>l d. case l of None \<Rightarrow> d | Some m \<Rightarrow> remove_membership oid m d) rems db1
      in (length adds, length rems, db2))"

text \<open>The body of the loop over the groups, with the members seen so far; \<open>False\<close> when a call fails.\<close>

definition reconcile_group ::
  "graph_port \<Rightarrow> ident \<Rightarrow> reconcile_stats \<times> ident list \<times> scim_db \<Rightarrow> bool \<times> reconcile_stats \<times> ident list \<times> scim_db" where
  "reconcile_group graph oid acc =
     (case acc of (st, seen, db) \<Rightarrow>
        case gp_group graph oid of
          None \<Rightarrow> (True, st\<lparr>rc_missing := rc_missing st + 1\<rparr>, seen, db)
        | Some name \<Rightarrow>
            (let st1 = st\<lparr>rc_groups := rc_groups st + 1\<rparr>; db1 = snd (upsert_group oid name db)
             in case gp_members graph oid of
                  None \<Rightarrow> (False, st1, seen, db1)
                | Some ms \<Rightarrow>
                    (let db2 = fold (\<lambda>m d. snd (upsert_user (graph_scim_user m) d)) ms db1;
                         (a, r, db3) = sync_member_list oid (map gu_oid ms) db2
                     in (True, st1\<lparr>rc_users := rc_users st1 + length ms, rc_added := rc_added st1 + a, rc_removed := rc_removed st1 + r\<rparr>,
                         seen @ map gu_oid ms, db3))))"

fun reconcile_groups ::
  "graph_port \<Rightarrow> ident list \<Rightarrow> reconcile_stats \<times> ident list \<times> scim_db \<Rightarrow> bool \<times> reconcile_stats \<times> ident list \<times> scim_db" where
  "reconcile_groups graph [] acc = (True, acc)"
| "reconcile_groups graph (oid # oids) acc =
     (case reconcile_group graph oid acc of
        (False, acc') \<Rightarrow> (False, acc')
      | (True, acc') \<Rightarrow> reconcile_groups graph oids acc')"

definition fill_avatar :: "graph_port \<Rightarrow> ident \<Rightarrow> nat \<times> scim_db \<Rightarrow> nat \<times> scim_db" where
  "fill_avatar graph oid acc =
     (case acc of (n, db) \<Rightarrow>
        case gp_photo graph oid of
          None \<Rightarrow> acc
        | Some photo \<Rightarrow> if photo = [] then acc else (n + 1, set_user_avatar_if_missing oid photo db))"

definition no_stats :: reconcile_stats where
  "no_stats = \<lparr>rc_groups = 0, rc_missing = 0, rc_users = 0, rc_added = 0, rc_removed = 0, rc_avatars = 0\<rparr>"

definition reconcile :: "nat \<Rightarrow> ident option \<Rightarrow> graph_port \<Rightarrow> scim_db \<Rightarrow> reconcile_stats option \<times> scim_db" where
  "reconcile cap boot graph db =
     (case reconcile_groups graph (mapped_group_external_ids boot db) (no_stats, [], db) of
        (False, st, seen, db1) \<Rightarrow> (None, db1)
      | (True, st, seen, db1) \<Rightarrow>
          (let (n, db2) = fold (fill_avatar graph) (take cap (external_ids_missing_avatar (js_unique seen) db1)) (0, db1)
           in (Some (st\<lparr>rc_avatars := n\<rparr>), db2)))"

end
