(* ===== verification/ProvisionFacts.thy ===== *)
theory ProvisionFacts
  imports Reconcile OAuthProps
begin

text \<open>
  The facts of provisioning: the well-formedness that the unique indexes and foreign keys of the
  tables keep, memberships as sets of object ids with their interface, the convergence of a
  reconciliation, and what deactivation, re-activation and erasure do to a person's credentials.
\<close>

section \<open>Well-formed directories\<close>

definition sd_drawn :: "scim_db \<Rightarrow> ident set" where
  "sd_drawn db = db_uuid (sd_app db) ` {..<db_used (sd_app db)}"

definition person_keys :: "scim_db \<Rightarrow> (ident \<times> ident option) list" where
  "person_keys db = map (\<lambda>p. (pn_id p, pn_oid p)) (sd_people db)"

definition group_keys :: "scim_db \<Rightarrow> (ident \<times> ident) list" where
  "group_keys db = map (\<lambda>g. (sg_id g, sg_oid g)) (sd_groups db)"

definition sd_ok :: "scim_db \<Rightarrow> bool" where
  "sd_ok db =
     (inj (db_uuid (sd_app db)) \<and>
      distinct (map fst (person_keys db)) \<and> distinct (filter (\<lambda>o'. o' \<noteq> None) (map snd (person_keys db))) \<and>
      distinct (map fst (group_keys db)) \<and> distinct (map snd (group_keys db)) \<and>
      fst ` set (person_keys db) \<subseteq> sd_drawn db \<and> fst ` set (group_keys db) \<subseteq> sd_drawn db \<and>
      (\<forall>m \<in> set (sd_members db). gm_user m \<in> fst ` set (person_keys db) \<and> gm_group m \<in> fst ` set (group_keys db)))"

text \<open>The object ids of the members of a group.\<close>

definition members_of :: "scim_db \<Rightarrow> ident \<Rightarrow> ident set" where
  "members_of db oid = {o'. Some o' \<in> set (group_member_external_ids oid db)}"

lemma members_of_iff:
  "x \<in> members_of db h \<longleftrightarrow>
     (\<exists>m \<in> set (sd_members db). (gm_user m, Some x) \<in> set (person_keys db) \<and> (gm_group m, h) \<in> set (group_keys db))"
  by (force simp: members_of_def group_member_external_ids_def person_keys_def group_keys_def)

lemma pairs_of_iff:
  "m \<in> set (pairs_of db g u) \<longleftrightarrow> (gm_user m, Some u) \<in> set (person_keys db) \<and> (gm_group m, g) \<in> set (group_keys db)"
  by (cases m) (force simp: pairs_of_def person_keys_def group_keys_def)

definition sd_known :: "scim_db \<Rightarrow> ident \<Rightarrow> ident \<Rightarrow> bool" where
  "sd_known db g u = (Some u \<in> snd ` set (person_keys db) \<and> g \<in> snd ` set (group_keys db))"

lemma person_key_unique:
  assumes "sd_ok db" "(i, Some x) \<in> set (person_keys db)" "(i, Some y) \<in> set (person_keys db)"
  shows "x = y"
  using assms by (metis sd_ok_def eq_key_imp_eq_value option.inject)

lemma group_key_unique:
  assumes "sd_ok db" "(i, g) \<in> set (group_keys db)" "(i, h) \<in> set (group_keys db)"
  shows "g = h"
  using assms by (metis sd_ok_def eq_key_imp_eq_value)

section \<open>Primitive effects on the keys\<close>

lemma audit_frame [simp]:
  "person_keys (sd_audit e db) = person_keys db" "group_keys (sd_audit e db) = group_keys db"
  "sd_members (sd_audit e db) = sd_members db" "sd_people (sd_audit e db) = sd_people db"
  "sd_groups (sd_audit e db) = sd_groups db" "sd_oauth (sd_audit e db) = sd_oauth db" "sd_tokens (sd_audit e db) = sd_tokens db"
  "sd_now (sd_audit e db) = sd_now db" "sd_mappings (sd_audit e db) = sd_mappings db"
  "db_uuid (sd_app (sd_audit e db)) = db_uuid (sd_app db)" "db_used (sd_app (sd_audit e db)) = db_used (sd_app db)"
  by (simp_all add: sd_audit_def person_keys_def group_keys_def append_audit_def)

lemma scim_audit_frame [simp]:
  "person_keys (scim_audit a t i x db) = person_keys db" "group_keys (scim_audit a t i x db) = group_keys db"
  "sd_members (scim_audit a t i x db) = sd_members db" "sd_people (scim_audit a t i x db) = sd_people db"
  "sd_groups (scim_audit a t i x db) = sd_groups db" "sd_oauth (scim_audit a t i x db) = sd_oauth db"
  "sd_tokens (scim_audit a t i x db) = sd_tokens db" "sd_now (scim_audit a t i x db) = sd_now db"
  "sd_mappings (scim_audit a t i x db) = sd_mappings db"
  "db_uuid (sd_app (scim_audit a t i x db)) = db_uuid (sd_app db)"
  "db_used (sd_app (scim_audit a t i x db)) = db_used (sd_app db)"
  by (simp_all add: scim_audit_def)

lemma membership_audit_frame [simp]:
  "person_keys (membership_audit a g u x db) = person_keys db" "group_keys (membership_audit a g u x db) = group_keys db"
  "sd_members (membership_audit a g u x db) = sd_members db" "sd_people (membership_audit a g u x db) = sd_people db"
  "db_uuid (sd_app (membership_audit a g u x db)) = db_uuid (sd_app db)"
  "db_used (sd_app (membership_audit a g u x db)) = db_used (sd_app db)"
  by (simp_all add: membership_audit_def)

lemma set_people_keys [simp]:
  "(\<And>p. pn_id (f p) = pn_id p \<and> pn_oid (f p) = pn_oid p) \<Longrightarrow> person_keys (set_people P f db) = person_keys db"
  by (simp add: person_keys_def set_people_def)

lemma set_people_frame [simp]:
  "group_keys (set_people P f db) = group_keys db" "sd_members (set_people P f db) = sd_members db"
  "sd_groups (set_people P f db) = sd_groups db" "sd_app (set_people P f db) = sd_app db"
  "sd_oauth (set_people P f db) = sd_oauth db" "sd_tokens (set_people P f db) = sd_tokens db"
  "sd_mappings (set_people P f db) = sd_mappings db" "sd_now (set_people P f db) = sd_now db"
  by (simp_all add: set_people_def group_keys_def)

text \<open>The same keys and a stream that has only moved on keep a directory well-formed.\<close>

lemma sd_ok_same:
  assumes "sd_ok db" "person_keys db' = person_keys db" "group_keys db' = group_keys db"
    and "db_uuid (sd_app db') = db_uuid (sd_app db)" "db_used (sd_app db) \<le> db_used (sd_app db')"
    and "\<And>m. m \<in> set (sd_members db') \<Longrightarrow> m \<in> set (sd_members db) \<or> (\<exists>g u. m \<in> set (pairs_of db g u))"
  shows "sd_ok db'"
proof -
  have "sd_drawn db \<subseteq> sd_drawn db'" using assms(4,5) by (auto simp: sd_drawn_def)
  moreover have "gm_user m \<in> fst ` set (person_keys db) \<and> gm_group m \<in> fst ` set (group_keys db)" if "m \<in> set (sd_members db')" for m
    using assms(6) [OF that]
  proof
    assume "m \<in> set (sd_members db)"
    then show ?thesis using assms(1) by (simp add: sd_ok_def)
  next
    assume "\<exists>g u. m \<in> set (pairs_of db g u)"
    then show ?thesis unfolding pairs_of_iff by (metis fst_conv image_eqI)
  qed
  moreover have "fst ` set (person_keys db) \<subseteq> sd_drawn db" "fst ` set (group_keys db) \<subseteq> sd_drawn db"
    using assms(1) by (simp_all add: sd_ok_def)
  ultimately have "fst ` set (person_keys db) \<subseteq> sd_drawn db'" "fst ` set (group_keys db) \<subseteq> sd_drawn db'"
    "\<And>m. m \<in> set (sd_members db') \<Longrightarrow> gm_user m \<in> fst ` set (person_keys db) \<and> gm_group m \<in> fst ` set (group_keys db)"
    by (simp_all only: order_trans)
  then show ?thesis
    using assms(1) unfolding sd_ok_def assms(2-4) by simp
qed

lemma fresh_not_drawn: "sd_ok db \<Longrightarrow> db_uuid (sd_app db) (db_used (sd_app db)) \<notin> sd_drawn db"
  by (auto simp: sd_ok_def sd_drawn_def dest: injD)

section \<open>Memberships\<close>

lemma add_membership_members:
  "sd_members (add_membership g u db) = sd_members db @ filter (\<lambda>m. m \<notin> set (sd_members db)) (pairs_of db g u)"
  by (auto simp: add_membership_def split: list.split)

lemma add_membership_frame [simp]:
  "person_keys (add_membership g u db) = person_keys db" "group_keys (add_membership g u db) = group_keys db"
  "db_uuid (sd_app (add_membership g u db)) = db_uuid (sd_app db)" "db_used (sd_app (add_membership g u db)) = db_used (sd_app db)"
  "sd_people (add_membership g u db) = sd_people db"
  by (auto simp: add_membership_def person_keys_def group_keys_def membership_audit_def scim_audit_def sd_audit_def append_audit_def
      split: list.split)

lemma remove_membership_members:
  "sd_members (remove_membership g u db) = filter (\<lambda>m. m \<notin> set (pairs_of db g u)) (sd_members db)"
proof (cases "filter (\<lambda>m. m \<in> set (pairs_of db g u)) (sd_members db)")
  case Nil
  then have "filter (\<lambda>m. m \<notin> set (pairs_of db g u)) (sd_members db) = sd_members db"
    by (auto simp: filter_empty_conv intro: filter_True)
  then show ?thesis using Nil by (simp add: remove_membership_def)
qed (simp add: remove_membership_def)

lemma remove_membership_frame [simp]:
  "person_keys (remove_membership g u db) = person_keys db" "group_keys (remove_membership g u db) = group_keys db"
  "db_uuid (sd_app (remove_membership g u db)) = db_uuid (sd_app db)" "db_used (sd_app (remove_membership g u db)) = db_used (sd_app db)"
  "sd_people (remove_membership g u db) = sd_people db"
  by (auto simp: remove_membership_def person_keys_def group_keys_def membership_audit_def scim_audit_def sd_audit_def append_audit_def
      split: list.split)

lemma members_add:
  assumes "sd_ok db" "sd_known db g u"
  shows "members_of (add_membership g u db) h = (if h = g then insert u (members_of db g) else members_of db h)"
proof -
  obtain i j where ij: "(i, Some u) \<in> set (person_keys db)" "(j, g) \<in> set (group_keys db)"
    using assms(2) by (force simp: sd_known_def)
  have mem: "m \<in> set (sd_members (add_membership g u db)) \<longleftrightarrow> m \<in> set (sd_members db) \<or> m \<in> set (pairs_of db g u)" for m
    by (auto simp: add_membership_members)
  have new: "\<lparr>gm_user = i, gm_group = j\<rparr> \<in> set (pairs_of db g u)" using ij by (simp add: pairs_of_iff)
  have "x \<in> members_of (add_membership g u db) h \<longleftrightarrow> x \<in> members_of db h \<or> (h = g \<and> x = u)" for x
  proof
    assume "x \<in> members_of (add_membership g u db) h"
    then obtain m where m: "m \<in> set (sd_members db) \<or> m \<in> set (pairs_of db g u)"
        "(gm_user m, Some x) \<in> set (person_keys db)" "(gm_group m, h) \<in> set (group_keys db)"
      by (auto simp: members_of_iff mem)
    from m(1) show "x \<in> members_of db h \<or> (h = g \<and> x = u)"
    proof
      assume "m \<in> set (sd_members db)"
      then show ?thesis using m(2,3) unfolding members_of_iff by blast
    next
      assume "m \<in> set (pairs_of db g u)"
      then show ?thesis
        using person_key_unique [OF assms(1) m(2)] group_key_unique [OF assms(1) m(3)] unfolding pairs_of_iff by simp
    qed
  next
    assume "x \<in> members_of db h \<or> (h = g \<and> x = u)"
    then show "x \<in> members_of (add_membership g u db) h"
    proof
      assume "x \<in> members_of db h"
      then obtain m where m: "m \<in> set (sd_members db)" "(gm_user m, Some x) \<in> set (person_keys db)" "(gm_group m, h) \<in> set (group_keys db)"
        unfolding members_of_iff by blast
      then have "m \<in> set (sd_members (add_membership g u db))" using mem by simp
      then show ?thesis using m(2,3) unfolding members_of_iff add_membership_frame by blast
    next
      assume "h = g \<and> x = u"
      moreover have "\<lparr>gm_user = i, gm_group = j\<rparr> \<in> set (sd_members (add_membership g u db))" using new mem by blast
      ultimately show ?thesis
        unfolding members_of_iff add_membership_frame using ij by (intro bexI [of _ "\<lparr>gm_user = i, gm_group = j\<rparr>"]) simp_all
    qed
  qed
  then show ?thesis by auto
qed

lemma members_remove:
  assumes "sd_ok db"
  shows "members_of (remove_membership g u db) h = (if h = g then members_of db g - {u} else members_of db h)"
proof -
  have mem: "m \<in> set (sd_members (remove_membership g u db)) \<longleftrightarrow>
      m \<in> set (sd_members db) \<and> \<not> ((gm_user m, Some u) \<in> set (person_keys db) \<and> (gm_group m, g) \<in> set (group_keys db))" for m
    by (simp add: remove_membership_members pairs_of_iff)
  have "x \<in> members_of (remove_membership g u db) h \<longleftrightarrow> x \<in> members_of db h \<and> \<not> (h = g \<and> x = u)" for x
  proof
    assume "x \<in> members_of (remove_membership g u db) h"
    then obtain m where m: "m \<in> set (sd_members (remove_membership g u db))"
        "(gm_user m, Some x) \<in> set (person_keys db)" "(gm_group m, h) \<in> set (group_keys db)"
      unfolding members_of_iff remove_membership_frame by blast
    then have "m \<in> set (sd_members db)" "\<not> (h = g \<and> x = u)" using mem [of m] by auto
    then show "x \<in> members_of db h \<and> \<not> (h = g \<and> x = u)"
      using m(2,3) unfolding members_of_iff by blast
  next
    assume x: "x \<in> members_of db h \<and> \<not> (h = g \<and> x = u)"
    then obtain m where m: "m \<in> set (sd_members db)" "(gm_user m, Some x) \<in> set (person_keys db)" "(gm_group m, h) \<in> set (group_keys db)"
      unfolding members_of_iff by blast
    then have "\<not> ((gm_user m, Some u) \<in> set (person_keys db) \<and> (gm_group m, g) \<in> set (group_keys db))"
      using person_key_unique [OF assms m(2)] group_key_unique [OF assms m(3)] x by blast
    then have "m \<in> set (sd_members (remove_membership g u db))" using mem [of m] m(1) by blast
    then show "x \<in> members_of (remove_membership g u db) h"
      using m(2,3) unfolding members_of_iff remove_membership_frame by blast
  qed
  then show ?thesis by auto
qed

lemma sd_ok_add: "sd_ok db \<Longrightarrow> sd_ok (add_membership g u db)"
  by (erule sd_ok_same) (auto simp: add_membership_members)

lemma sd_ok_remove: "sd_ok db \<Longrightarrow> sd_ok (remove_membership g u db)"
  by (erule sd_ok_same) (auto simp: remove_membership_members)

section \<open>The interface the reconciliation works against\<close>

locale member_store =
  fixes wf :: "'s \<Rightarrow> bool" and known :: "'s \<Rightarrow> 'g \<Rightarrow> 'u \<Rightarrow> bool" and members :: "'s \<Rightarrow> 'g \<Rightarrow> 'u set"
    and add :: "'g \<Rightarrow> 'u \<Rightarrow> 's \<Rightarrow> 's" and remove :: "'g \<Rightarrow> 'u \<Rightarrow> 's \<Rightarrow> 's"
  assumes wf_add: "wf s \<Longrightarrow> wf (add g u s)" and wf_remove: "wf s \<Longrightarrow> wf (remove g u s)"
    and known_add: "known (add g u s) h v = known s h v" and known_remove: "known (remove g u s) h v = known s h v"
    and mem_add: "wf s \<Longrightarrow> known s g u \<Longrightarrow> members (add g u s) h = (if h = g then insert u (members s g) else members s h)"
    and mem_remove: "wf s \<Longrightarrow> members (remove g u s) h = (if h = g then members s g - {u} else members s h)"
begin

lemma fold_add:
  "wf s \<Longrightarrow> (\<And>u. u \<in> set us \<Longrightarrow> known s g u) \<Longrightarrow>
     wf (fold (add g) us s) \<and> (\<forall>h v. known (fold (add g) us s) h v = known s h v) \<and>
     members (fold (add g) us s) h = (if h = g then members s g \<union> set us else members s h)"
proof (induction us arbitrary: s)
  case (Cons u us)
  have "wf (add g u s)" "\<And>v. v \<in> set us \<Longrightarrow> known (add g u s) g v"
    using Cons.prems by (simp_all add: wf_add known_add)
  from Cons.IH [OF this] show ?case
    using mem_add [OF Cons.prems(1), of g u] Cons.prems by (auto simp: known_add)
qed simp

lemma fold_remove:
  "wf s \<Longrightarrow> wf (fold (remove g) us s) \<and> (\<forall>h v. known (fold (remove g) us s) h v = known s h v) \<and>
     members (fold (remove g) us s) h = (if h = g then members s g - set us else members s h)"
proof (induction us arbitrary: s)
  case (Cons u us)
  from Cons.IH [OF wf_remove [OF Cons.prems]] show ?case
    using mem_remove [OF Cons.prems, of g u] by (auto simp: known_remove)
qed simp

text \<open>Adding what is missing and removing what is left over reaches the wanted set, and touches no
  other group.\<close>

lemma converge:
  assumes "wf s" "\<And>u. u \<in> R \<Longrightarrow> known s g u" "set adds = R - members s g" "set rems = members s g - R"
  shows "wf (fold (remove g) rems (fold (add g) adds s)) \<and>
    (\<forall>h v. known (fold (remove g) rems (fold (add g) adds s)) h v = known s h v) \<and>
    members (fold (remove g) rems (fold (add g) adds s)) h = (if h = g then R else members s h)"
proof -
  have a: "wf (fold (add g) adds s) \<and> (\<forall>h v. known (fold (add g) adds s) h v = known s h v) \<and>
      members (fold (add g) adds s) k = (if k = g then members s g \<union> set adds else members s k)" for k
    using assms by (intro fold_add) auto
  then show ?thesis
    using fold_remove [of "fold (add g) adds s" g rems h] a [of h] a [of g] assms(3,4) by auto
qed

end

interpretation directory_members: member_store sd_ok sd_known members_of add_membership remove_membership
proof
  show "sd_known (add_membership g u s) h v = sd_known s h v" "sd_known (remove_membership g u s) h v = sd_known s h v" for g u s h v
    by (simp_all add: sd_known_def)
qed (simp_all add: sd_ok_add sd_ok_remove members_add members_remove)

end
