(* ===== verification/ProvisionProps.thy ===== *)
theory ProvisionProps
  imports ProvisionFacts
begin

text \<open>
  The properties of provisioning: a reconciliation converges to the directory service, what each way
  of deactivating a person does to their credentials, and that an erasure is final.
\<close>

section \<open>Upserts\<close>

text \<open>The keys grow, the memberships stay.\<close>

definition sd_grows :: "scim_db \<Rightarrow> scim_db \<Rightarrow> bool" where
  "sd_grows db db' =
     (sd_ok db \<longrightarrow> sd_ok db' \<and> (\<forall>h. members_of db' h = members_of db h) \<and> set (person_keys db) \<subseteq> set (person_keys db') \<and>
        set (group_keys db) \<subseteq> set (group_keys db'))"

lemma sd_grows_refl [simp]: "sd_grows db db"
  by (simp add: sd_grows_def)

lemma sd_grows_trans: "sd_grows a b \<Longrightarrow> sd_grows b c \<Longrightarrow> sd_grows a c"
  unfolding sd_grows_def by (metis subset_trans)

lemma sd_growsI:
  fixes db db' :: scim_db
  assumes "person_keys db' = person_keys db @ ps" "group_keys db' = group_keys db @ gs" "sd_members db' = sd_members db"
    and "db_uuid (sd_app db') = db_uuid (sd_app db)" "db_used (sd_app db) \<le> db_used (sd_app db')"
    and "sd_ok db \<Longrightarrow> distinct (map fst (person_keys db')) \<and> distinct (filter (\<lambda>o'. o' \<noteq> None) (map snd (person_keys db'))) \<and>
      distinct (map fst (group_keys db')) \<and> distinct (map snd (group_keys db')) \<and>
      fst ` set ps \<subseteq> sd_drawn db' - sd_drawn db \<and> fst ` set gs \<subseteq> sd_drawn db' - sd_drawn db"
  shows "sd_grows db db'"
  unfolding sd_grows_def
proof (intro impI conjI allI)
  assume ok: "sd_ok db"
  note new = assms(6) [OF ok]
  have drawn: "sd_drawn db \<subseteq> sd_drawn db'" using assms(4,5) by (auto simp: sd_drawn_def)
  have old: "fst ` set (person_keys db) \<subseteq> sd_drawn db" "fst ` set (group_keys db) \<subseteq> sd_drawn db"
    using ok by (simp_all add: sd_ok_def)
  have fk: "gm_user m \<in> fst ` set (person_keys db)" "gm_group m \<in> fst ` set (group_keys db)" if "m \<in> set (sd_members db)" for m
    using ok that by (simp_all add: sd_ok_def)
  have "fst ` set (person_keys db') \<subseteq> sd_drawn db'" "fst ` set (group_keys db') \<subseteq> sd_drawn db'"
    using new old drawn unfolding assms(1,2) by (auto simp: image_Un)
  moreover have "inj (db_uuid (sd_app db'))" using ok assms(4) by (simp add: sd_ok_def)
  moreover have "gm_user m \<in> fst ` set (person_keys db') \<and> gm_group m \<in> fst ` set (group_keys db')" if "m \<in> set (sd_members db')" for m
    using that fk unfolding assms(1-3) by (simp add: image_Un)
  ultimately show "sd_ok db'" using new unfolding sd_ok_def by (simp del: map_append)
  show "members_of db' h = members_of db h" for h
  proof (rule set_eqI)
    fix x
    have p: "(gm_user m, Some x) \<in> set (person_keys db') \<longleftrightarrow> (gm_user m, Some x) \<in> set (person_keys db)" if "m \<in> set (sd_members db)" for m
    proof -
      have "gm_user m \<notin> fst ` set ps" using fk(1) [OF that] new old(1) by blast
      then have "(gm_user m, Some x) \<notin> set ps" by force
      then show ?thesis unfolding assms(1) by simp
    qed
    have g: "(gm_group m, h) \<in> set (group_keys db') \<longleftrightarrow> (gm_group m, h) \<in> set (group_keys db)" if "m \<in> set (sd_members db)" for m
    proof -
      have "gm_group m \<notin> fst ` set gs" using fk(2) [OF that] new old(2) by blast
      then have "(gm_group m, h) \<notin> set gs" by force
      then show ?thesis unfolding assms(2) by simp
    qed
    show "x \<in> members_of db' h \<longleftrightarrow> x \<in> members_of db h"
      unfolding members_of_iff assms(3) by (rule bex_cong [OF refl]) (simp only: p g)
  qed
qed (use assms(1,2) in auto)

lemma sd_fresh_drawn:
  assumes "db_uuid (sd_app db') = db_uuid (sd_app db)" "db_used (sd_app db') = Suc (db_used (sd_app db))" "sd_ok db"
  shows "db_uuid (sd_app db) (db_used (sd_app db)) \<in> sd_drawn db' - sd_drawn db"
  using assms fresh_not_drawn by (auto simp: sd_drawn_def)

lemma fresh_not_key:
  assumes "sd_ok db"
  shows "db_uuid (sd_app db) (db_used (sd_app db)) \<notin> fst ` set (person_keys db)"
    "db_uuid (sd_app db) (db_used (sd_app db)) \<notin> fst ` set (group_keys db)"
  using fresh_not_drawn [OF assms] assms unfolding sd_ok_def by blast+

lemma oid_not_key: "person_by_oid db x = None \<Longrightarrow> Some x \<notin> snd ` set (person_keys db)"
  by (auto simp: person_by_oid_def find_None_iff person_keys_def)

lemma group_not_key: "group_by_oid db x = None \<Longrightarrow> x \<notin> snd ` set (group_keys db)"
  by (auto simp: group_by_oid_def find_None_iff group_keys_def)

lemma upsert_user_known:
  assumes "person_by_oid db (sc_external u) = Some p"
  shows "snd (upsert_user u db) = set_people (\<lambda>q. pn_oid q = Some (sc_external u)) (merge_person u) db \<or>
    (\<exists>e. snd (upsert_user u db) = sd_audit e (set_people (\<lambda>q. pn_oid q = Some (sc_external u)) (merge_person u) db))"
  using assms by (auto simp: upsert_user_def Let_def scim_audit_def)

lemma merge_keys [simp]: "pn_id (merge_person u p) = pn_id p" "pn_oid (merge_person u p) = pn_oid p"
  by (simp_all add: merge_person_def)

lemma upsert_user_new:
  assumes "person_by_oid db (sc_external u) = None"
  shows "\<exists>e. snd (upsert_user u db) = sd_audit e (db\<lparr>sd_app := snd (fresh_id (sd_app db)),
     sd_people := sd_people db @ [new_person (db_uuid (sd_app db) (db_used (sd_app db))) u]\<rparr>)"
  using assms by (simp add: upsert_user_def sd_fresh_def fresh_id_def scim_audit_def) blast

lemma upsert_user_grows: "sd_grows db (snd (upsert_user u db))"
proof (cases "person_by_oid db (sc_external u)")
  case None
  let ?i = "db_uuid (sd_app db) (db_used (sd_app db))"
  obtain e where e: "snd (upsert_user u db) = sd_audit e (db\<lparr>sd_app := snd (fresh_id (sd_app db)),
     sd_people := sd_people db @ [new_person ?i u]\<rparr>)"
    using upsert_user_new [OF None] by blast
  show ?thesis
    unfolding e
  proof (rule sd_growsI [where ps = "[(?i, Some (sc_external u))]" and gs = "[]"])
    let ?d = "sd_audit e (db\<lparr>sd_app := snd (fresh_id (sd_app db)), sd_people := sd_people db @ [new_person ?i u]\<rparr>)"
    show k: "person_keys ?d = person_keys db @ [(?i, Some (sc_external u))]" "group_keys ?d = group_keys db @ []"
      "sd_members ?d = sd_members db" "db_uuid (sd_app ?d) = db_uuid (sd_app db)" "db_used (sd_app db) \<le> db_used (sd_app ?d)"
      by (simp_all add: fresh_id_def) (simp_all add: person_keys_def group_keys_def new_person_def)
    assume ok: "sd_ok db"
    have "?i \<in> sd_drawn ?d - sd_drawn db" by (rule sd_fresh_drawn) (use ok in \<open>simp_all add: fresh_id_def\<close>)
    then show "distinct (map fst (person_keys ?d)) \<and> distinct (filter (\<lambda>o'. o' \<noteq> None) (map snd (person_keys ?d))) \<and>
        distinct (map fst (group_keys ?d)) \<and> distinct (map snd (group_keys ?d)) \<and>
        fst ` set [(?i, Some (sc_external u))] \<subseteq> sd_drawn ?d - sd_drawn db \<and> fst ` set [] \<subseteq> sd_drawn ?d - sd_drawn db"
      unfolding k(1,2) using ok fresh_not_key(1) [OF ok] oid_not_key [OF None] by (simp add: sd_ok_def)
  qed
next
  case (Some p)
  let ?d = "set_people (\<lambda>q. pn_oid q = Some (sc_external u)) (merge_person u) db"
  have "sd_grows db ?d" "sd_grows db (sd_audit e ?d)" for e
    by (rule sd_growsI [where ps = "[]" and gs = "[]"]; simp add: sd_ok_def)+
  then show ?thesis using upsert_user_known [OF Some] by metis
qed

lemma upsert_user_knows: "Some (sc_external u) \<in> snd ` set (person_keys (snd (upsert_user u db)))"
proof (cases "person_by_oid db (sc_external u)")
  case None
  then show ?thesis using upsert_user_new [OF None] by (auto simp: person_keys_def new_person_def)
next
  case (Some p)
  then have "p \<in> set (sd_people db)" "pn_oid p = Some (sc_external u)"
    using find_in_set [OF Some [unfolded person_by_oid_def]] by simp_all
  then have "Some (sc_external u) \<in> snd ` set (person_keys db)" by (force simp: person_keys_def)
  then show ?thesis using upsert_user_known [OF Some] by auto
qed

lemma upsert_group_new:
  assumes "group_by_oid db x = None"
  shows "\<exists>e. snd (upsert_group x name db) = sd_audit e (db\<lparr>sd_app := snd (fresh_id (sd_app db)),
     sd_groups := sd_groups db @ [\<lparr>sg_id = db_uuid (sd_app db) (db_used (sd_app db)), sg_oid = x, sg_name = name\<rparr>]\<rparr>)"
  using assms by (simp add: upsert_group_def sd_fresh_def fresh_id_def scim_audit_def) blast

lemma upsert_group_known:
  assumes "group_by_oid db x = Some g"
  shows "group_keys (snd (upsert_group x name db)) = group_keys db" "person_keys (snd (upsert_group x name db)) = person_keys db"
    "sd_members (snd (upsert_group x name db)) = sd_members db" "sd_app (snd (upsert_group x name db)) = sd_app db"
  using assms by (auto simp: upsert_group_def group_keys_def person_keys_def)

lemma upsert_group_grows: "sd_grows db (snd (upsert_group x name db))"
proof (cases "group_by_oid db x")
  case None
  let ?i = "db_uuid (sd_app db) (db_used (sd_app db))"
  obtain e where e: "snd (upsert_group x name db) = sd_audit e (db\<lparr>sd_app := snd (fresh_id (sd_app db)),
     sd_groups := sd_groups db @ [\<lparr>sg_id = ?i, sg_oid = x, sg_name = name\<rparr>]\<rparr>)"
    using upsert_group_new [OF None] by blast
  show ?thesis
    unfolding e
  proof (rule sd_growsI [where ps = "[]" and gs = "[(?i, x)]"])
    let ?d = "sd_audit e (db\<lparr>sd_app := snd (fresh_id (sd_app db)), sd_groups := sd_groups db @ [\<lparr>sg_id = ?i, sg_oid = x, sg_name = name\<rparr>]\<rparr>)"
    show k: "person_keys ?d = person_keys db @ []" "group_keys ?d = group_keys db @ [(?i, x)]"
      "sd_members ?d = sd_members db" "db_uuid (sd_app ?d) = db_uuid (sd_app db)" "db_used (sd_app db) \<le> db_used (sd_app ?d)"
      by (simp_all add: fresh_id_def) (simp_all add: person_keys_def group_keys_def)
    assume ok: "sd_ok db"
    have "?i \<in> sd_drawn ?d - sd_drawn db" by (rule sd_fresh_drawn) (use ok in \<open>simp_all add: fresh_id_def\<close>)
    then show "distinct (map fst (person_keys ?d)) \<and> distinct (filter (\<lambda>o'. o' \<noteq> None) (map snd (person_keys ?d))) \<and>
        distinct (map fst (group_keys ?d)) \<and> distinct (map snd (group_keys ?d)) \<and>
        fst ` set [] \<subseteq> sd_drawn ?d - sd_drawn db \<and> fst ` set [(?i, x)] \<subseteq> sd_drawn ?d - sd_drawn db"
      unfolding k(1,2) using ok fresh_not_key(2) [OF ok] group_not_key [OF None] by (simp add: sd_ok_def)
  qed
next
  case (Some g)
  show ?thesis
    by (rule sd_growsI [where ps = "[]" and gs = "[]"]; simp add: upsert_group_known [OF Some] sd_ok_def)
qed

lemma upsert_group_knows: "x \<in> snd ` set (group_keys (snd (upsert_group x name db)))"
proof (cases "group_by_oid db x")
  case None
  then show ?thesis using upsert_group_new [OF None, of name] by (auto simp: group_keys_def)
next
  case (Some g)
  then have "g \<in> set (sd_groups db)" "sg_oid g = x"
    using find_in_set [OF Some [unfolded group_by_oid_def]] by simp_all
  then have "x \<in> snd ` set (group_keys db)" by (force simp: group_keys_def)
  then show ?thesis by (simp only: upsert_group_known [OF Some])
qed

section \<open>A reconciliation converges\<close>

lemma fold_over_options:
  "fold (\<lambda>l d. case l of None \<Rightarrow> d | Some m \<Rightarrow> f m d) ls d = fold f (concat (map (\<lambda>l. case l of None \<Rightarrow> [] | Some m \<Rightarrow> [m]) ls)) d"
  by (induction ls arbitrary: d) (simp_all split: option.split)

lemma sync_members:
  assumes "sd_ok db" "\<And>u. u \<in> set remote \<Longrightarrow> sd_known db g u" "sync_member_list g remote db = (a, r, db')"
  shows "sd_ok db' \<and> members_of db' h = (if h = g then set remote else members_of db h)"
proof -
  let ?local = "js_unique (group_member_external_ids g db)"
  let ?adds = "filter (\<lambda>m. Some m \<notin> set ?local) (js_unique remote)"
  let ?rems = "filter (\<lambda>l. case l of None \<Rightarrow> True | Some m \<Rightarrow> m \<notin> set remote) ?local"
  let ?gone = "concat (map (\<lambda>l. case l of None \<Rightarrow> [] | Some m \<Rightarrow> [m]) ?rems)"
  have "db' = fold (remove_membership g) ?gone (fold (add_membership g) ?adds db)"
    using assms(3) by (simp add: sync_member_list_def Let_def fold_over_options)
  moreover have "set ?adds = set remote - members_of db g" by (auto simp: members_of_def)
  moreover have "set ?gone = members_of db g - set remote"
    by (auto simp: members_of_def split: option.splits)
  ultimately show ?thesis
    using directory_members.converge [where R = "set remote" and g = g and s = db and adds = ?adds and rems = ?gone and h = h] assms(1,2)
    by simp
qed

lemma upsert_users_grow: "sd_grows db (fold (\<lambda>m d. snd (upsert_user (f m) d)) ms db)"
proof (induction ms arbitrary: db)
  case (Cons m ms)
  show ?case using sd_grows_trans [OF upsert_user_grows Cons.IH] by simp
qed simp

lemma upsert_users_know:
  assumes "sd_ok db" "m \<in> set ms"
  shows "Some (sc_external (f m)) \<in> snd ` set (person_keys (fold (\<lambda>m d. snd (upsert_user (f m) d)) ms db))"
  using assms
proof (induction ms arbitrary: db)
  case (Cons n ms)
  let ?d = "snd (upsert_user (f n) db)"
  have ok: "sd_ok ?d" using upsert_user_grows [of db "f n"] Cons.prems(1) by (simp add: sd_grows_def)
  show ?case
  proof (cases "m = n")
    case True
    have "set (person_keys ?d) \<subseteq> set (person_keys (fold (\<lambda>m d. snd (upsert_user (f m) d)) ms ?d))"
      using upsert_users_grow [of ?d f ms] ok by (simp add: sd_grows_def)
    then show ?thesis using upsert_user_knows [of "f n" db] True by auto
  next
    case False
    then show ?thesis using Cons.IH [OF ok] Cons.prems(2) by simp
  qed
qed simp

text \<open>The members a successful run leaves a group with.\<close>

definition graph_members :: "graph_port \<Rightarrow> ident \<Rightarrow> ident set" where
  "graph_members graph g = gu_oid ` set (the (gp_members graph g))"

lemma reconcile_group_members:
  assumes "sd_ok db" "reconcile_group graph g (st, seen, db) = (True, st', seen', db')"
  shows "sd_ok db' \<and> members_of db' h = (if h = g \<and> gp_group graph g \<noteq> None then graph_members graph g else members_of db h)"
proof (cases "gp_group graph g")
  case None
  then show ?thesis using assms by (simp add: reconcile_group_def)
next
  case (Some name)
  define db1 where "db1 = snd (upsert_group g name db)"
  obtain ms where ms: "gp_members graph g = Some ms"
    using assms(2) Some by (cases "gp_members graph g") (auto simp: reconcile_group_def Let_def)
  define db2 where "db2 = fold (\<lambda>m d. snd (upsert_user (graph_scim_user m) d)) ms db1"
  obtain a r where sync: "sync_member_list g (map gu_oid ms) db2 = (a, r, db')"
    using assms(2) Some ms unfolding reconcile_group_def Let_def db1_def db2_def by (auto split: prod.splits)
  have d1: "sd_ok db1" "members_of db1 k = members_of db k" for k
    using upsert_group_grows [of db g name] assms(1) by (simp_all add: db1_def sd_grows_def)
  have d2: "sd_ok db2" "members_of db2 k = members_of db1 k" "set (group_keys db1) \<subseteq> set (group_keys db2)" for k
    using upsert_users_grow [of db1 graph_scim_user ms] d1(1) by (simp_all add: db2_def sd_grows_def)
  have "sd_known db2 g u" if u: "u \<in> set (map gu_oid ms)" for u
  proof -
    obtain m where "m \<in> set ms" "u = gu_oid m" using u by auto
    then have m: "m \<in> set ms" "u = sc_external (graph_scim_user m)" by (simp_all add: graph_scim_user_def)
    have "Some u \<in> snd ` set (person_keys db2)"
      using upsert_users_know [OF d1(1) m(1), of graph_scim_user] by (simp add: db2_def m(2))
    moreover have "g \<in> snd ` set (group_keys db2)"
      using upsert_group_knows [of g name db] d2(3) unfolding db1_def by blast
    ultimately show ?thesis by (simp add: sd_known_def)
  qed
  from sync_members [OF d2(1) this sync, of h] show ?thesis
    using Some by (simp add: d1 d2 graph_members_def ms)
qed

lemma reconcile_groups_members:
  "sd_ok db \<Longrightarrow> reconcile_groups graph gs (st, seen, db) = (True, st', seen', db') \<Longrightarrow>
     sd_ok db' \<and> members_of db' h = (if h \<in> set gs \<and> gp_group graph h \<noteq> None then graph_members graph h else members_of db h)"
proof (induction gs arbitrary: st seen db)
  case (Cons g gs)
  obtain ok st1 seen1 db1 where r: "reconcile_group graph g (st, seen, db) = (ok, st1, seen1, db1)"
    by (metis prod_cases4)
  then have ok: ok and rest: "reconcile_groups graph gs (st1, seen1, db1) = (True, st', seen', db')"
    using Cons.prems(2) by (simp_all split: bool.splits)
  have one: "sd_ok db1 \<and> members_of db1 h = (if h = g \<and> gp_group graph g \<noteq> None then graph_members graph g else members_of db h)"
    using reconcile_group_members [OF Cons.prems(1)] r ok by simp
  show ?case using Cons.IH [OF conjunct1 [OF one] rest] one by (cases "h = g") auto
qed simp

lemma avatars_keep_keys:
  "person_keys (snd (fold (fill_avatar graph) is (n, db))) = person_keys db \<and> group_keys (snd (fold (fill_avatar graph) is (n, db))) = group_keys db \<and>
   sd_members (snd (fold (fill_avatar graph) is (n, db))) = sd_members db \<and> sd_app (snd (fold (fill_avatar graph) is (n, db))) = sd_app db"
proof (induction "is" arbitrary: n db)
  case (Cons i "is")
  show ?case
  proof (cases "gp_photo graph i = None \<or> gp_photo graph i = Some []")
    case True
    then show ?thesis using Cons.IH [of n db] by (auto simp: fill_avatar_def)
  next
    case False
    then obtain x where "gp_photo graph i = Some x" "x \<noteq> []" by auto
    then show ?thesis using Cons.IH [of "n + 1" "set_user_avatar_if_missing i x db"]
      by (simp add: fill_avatar_def set_user_avatar_if_missing_def)
  qed
qed simp

text \<open>
  C18: A reconciliation that completes leaves every group it covers (the role-mapped ones and the
  bootstrap group, unless the directory service no longer has them) with exactly the members the service lists,
  whoever was there before, every other group as it was, and the directory well-formed.
\<close>

theorem reconcile_converges:
  assumes "sd_ok db" "reconcile cap boot graph db = (Some st, db')"
  shows "sd_ok db' \<and> (\<forall>h. members_of db' h =
    (if h \<in> set (mapped_group_external_ids boot db) \<and> gp_group graph h \<noteq> None then graph_members graph h else members_of db h))"
proof -
  let ?gs = "mapped_group_external_ids boot db"
  obtain ok st1 seen db1 where r: "reconcile_groups graph ?gs (no_stats, [], db) = (ok, st1, seen, db1)"
    by (metis prod_cases4)
  then have run: "reconcile_groups graph ?gs (no_stats, [], db) = (True, st1, seen, db1)"
    using assms(2) by (cases ok) (simp_all add: reconcile_def)
  have db': "db' = snd (fold (fill_avatar graph) (take cap (external_ids_missing_avatar (js_unique seen) db1)) (0, db1))"
    using assms(2) run by (simp add: reconcile_def split: prod.splits)
  note keys = avatars_keep_keys [of graph "take cap (external_ids_missing_avatar (js_unique seen) db1)" 0 db1, folded db']
  have groups: "sd_ok db1 \<and> members_of db1 h = (if h \<in> set ?gs \<and> gp_group graph h \<noteq> None then graph_members graph h else members_of db h)" for h
    by (rule reconcile_groups_members [OF assms(1) run])
  have "sd_ok db'" by (rule sd_ok_same [of db1]) (use groups keys in auto)
  moreover have "members_of db' h = members_of db1 h" for h
    unfolding members_of_iff set_eq_iff using keys by simp
  ultimately show ?thesis using groups by simp
qed

end
