(* ===== verification/LeaverProps.thy ===== *)
theory LeaverProps
  imports ProvisionProps
begin

text \<open>
  The properties of leaving: what deactivation, re-activation and erasure do to a person's
  credentials and rows, on the directory of \<open>Directory\<close>, the endpoints of \<open>ScimRouter\<close> and the
  authorization server of \<open>OAuthFacts\<close>.
\<close>

section \<open>Deactivation\<close>

lemma unique_by_value:
  "distinct (filter P (map f xs)) \<Longrightarrow> x \<in> set xs \<Longrightarrow> y \<in> set xs \<Longrightarrow> f x = f y \<Longrightarrow> P (f x) \<Longrightarrow> x = y"
  by (induction xs) (auto split: if_splits, metis imageI)

lemma person_oid_unique:
  assumes "sd_ok db" "p \<in> set (sd_people db)" "q \<in> set (sd_people db)" "pn_oid p = Some x" "pn_oid q = Some x"
  shows "p = q"
proof -
  have "distinct (filter (\<lambda>o'. o' \<noteq> None) (map pn_oid (sd_people db)))"
    using assms(1) by (simp add: sd_ok_def person_keys_def o_def)
  then show ?thesis by (rule unique_by_value) (use assms in simp_all)
qed

lemma person_id_unique:
  assumes "sd_ok db" "p \<in> set (sd_people db)" "q \<in> set (sd_people db)" "pn_id p = pn_id q"
  shows "p = q"
proof -
  have "distinct (map pn_id (sd_people db))" using assms(1) by (simp add: sd_ok_def person_keys_def o_def)
  then show ?thesis using assms(2-4) by (simp add: distinct_map inj_on_def)
qed

text \<open>What a deactivation does to the tables of the authorization server is its own operation
  \<open>revokeAllUserGrants\<close>, and a change of the directory.\<close>

lemma cut_is_revoke_all:
  "cut_connections u (oa_now o') o' = snd (revoke_all_user_grants u o')"
proof (cases "filter (\<lambda>g. og_user g = u \<and> og_revoked g = None) (oa_grants o')")
  case Nil
  have "set_token (\<lambda>t. ot_expires t > oa_now o' \<and> ot_grant t \<in> set []) f o' = o'" for f
    by (simp add: set_token_def)
  then show ?thesis by (simp add: cut_connections_def revoke_all_user_grants_def Let_def Nil)
next
  case (Cons g gs)
  then show ?thesis
    by (simp add: cut_connections_def revoke_all_user_grants_def Let_def expire_tokens_def set_grant_def set_token_def
        conj_commute)
qed

lemma cut_access: "cut_connections u t (o'\<lparr>oa_access := a, oa_now := n\<rparr>) = (cut_connections u t o')\<lparr>oa_access := a, oa_now := n\<rparr>"
  by (simp add: cut_connections_def Let_def set_grant_def set_token_def)

lemma deprovision_oauth:
  assumes "person_by_oid db ext = Some p"
  shows "mcp_server (deprovision_user ext db) =
    apply_op env (OpDirectory (directory (deprovision_user ext db))) (apply_op env (OpRevokeAll (pn_id p)) (mcp_server db))"
proof -
  have "sd_oauth (deprovision_user ext db) = cut_connections (pn_id p) (sd_now db) (sd_oauth db)"
    "sd_now (deprovision_user ext db) = sd_now db"
    using assms by (simp_all add: deprovision_user_def Let_def)
  moreover have "snd (revoke_all_user_grants (pn_id p) (mcp_server db)) = cut_connections (pn_id p) (sd_now db) (mcp_server db)"
    using cut_is_revoke_all [of "pn_id p" "mcp_server db"] by (simp add: mcp_server_def)
  ultimately show ?thesis by (simp add: mcp_server_def cut_access)
qed

lemma revoke_all_dead:
  assumes "oauth_ids_ok db" "g \<in> set (oa_grants db)" "og_user g = u" "distinct (grant_ids db)"
  shows "dead (snd (revoke_all_user_grants u db)) (og_id g)"
proof -
  have gs: "oa_grants (snd (revoke_all_user_grants u db)) =
      map (\<lambda>g. if og_user g = u \<and> og_revoked g = None then g\<lparr>og_revoked := Some (oa_now db)\<rparr> else g) (oa_grants db)"
    "oa_uuid (snd (revoke_all_user_grants u db)) = oa_uuid db" "oa_used (snd (revoke_all_user_grants u db)) = oa_used db"
    by (simp_all add: revoke_all_user_grants_def Let_def set_grant_def expire_tokens_def set_token_def)
  have only: "x = g" if "x \<in> set (oa_grants db)" "og_id x = og_id g" for x
    using assms(2,4) that by (simp add: grant_ids_def distinct_map inj_on_def)
  have "og_revoked y \<noteq> None" if y: "y \<in> set (oa_grants (snd (revoke_all_user_grants u db)))" "og_id y = og_id g" for y
  proof -
    obtain x where x: "x \<in> set (oa_grants db)"
        "y = (if og_user x = u \<and> og_revoked x = None then x\<lparr>og_revoked := Some (oa_now db)\<rparr> else x)"
      using y(1) unfolding gs by auto
    then have "og_id x = og_id g" using y(2) by (simp split: if_splits)
    then have "x = g" by (rule only [OF x(1)])
    then show ?thesis using x(2) assms(3) by simp
  qed
  moreover have "drawn_id (snd (revoke_all_user_grants u db)) (og_id g)"
    using assms(1,2) by (auto simp: drawn_id_def gs oauth_ids_ok_def)
  ultimately show ?thesis by (simp add: dead_def)
qed

text \<open>
  C20: Deactivating a leaver through a SCIM PATCH deletes their install tokens and ends every
  connection they have made for good: whatever happens afterwards at the authorization server, a
  re-activation included, no bearer is let in and no credential is accepted under one of them.
\<close>

theorem deprovisioned_connections_dead:
  assumes "oauth_start w0" "grants_distinct w0" "oauth_steps env w0 w" "ow_db w = mcp_server db"
    and "person_by_oid db ext = Some p" "g \<in> set (oa_grants (sd_oauth db))" "og_user g = pn_id p"
    and "oauth_steps env (w\<lparr>ow_db := mcp_server (deprovision_user ext db)\<rparr>) v"
  shows "(\<forall>t \<in> set (sd_tokens (deprovision_user ext db)). it_user t \<noteq> pn_id p) \<and>
    (\<forall>h c. authenticate env (ow_db v) h = Inr c \<longrightarrow> mc_grant c \<noteq> og_id g) \<and>
    (\<forall>rq r d. check_token_request env rq (ow_db v) = (Inr r, d) \<longrightarrow> rd_grant r \<noteq> og_id g)"
proof -
  define w1 where "w1 = w\<lparr>ow_db := apply_op env (OpRevokeAll (pn_id p)) (ow_db w)\<rparr>"
  have w1: "oauth_step env w w1" unfolding w1_def by (rule step_op)
  have w2: "oauth_step env w1 (w\<lparr>ow_db := mcp_server (deprovision_user ext db)\<rparr>)"
    using step_op [of env w1 "OpDirectory (directory (deprovision_user ext db))"]
    by (simp add: w1_def assms(4) deprovision_oauth [OF assms(5), of env])
  have inv: "oauth_inv w" "grants_distinct w" using run_invariants [OF assms(3,1,2)] by simp_all
  have inv1: "oauth_inv w1" by (rule oauth_inv_step [OF w1 inv(1)])
  have "g \<in> set (oa_grants (ow_db w))" using assms(4,6) by (simp add: mcp_server_def)
  then have "dead (ow_db w1) (og_id g)"
    using revoke_all_dead [of "ow_db w" g "pn_id p"] inv assms(7) by (simp add: w1_def oauth_inv_def grants_distinct_def)
  moreover have "oauth_steps env w1 (w\<lparr>ow_db := mcp_server (deprovision_user ext db)\<rparr>)"
    by (rule steps_step [OF steps_refl w2])
  ultimately have "dead (ow_db (w\<lparr>ow_db := mcp_server (deprovision_user ext db)\<rparr>)) (og_id g)"
    using dead_frame [OF _ oauth_step_frame [OF w2]] inv1 by (simp add: oauth_inv_def ids_ok_iff)
  then have "(authenticate env (ow_db v) h = Inr c \<longrightarrow> mc_grant c \<noteq> og_id g) \<and>
      (check_token_request env rq (ow_db v) = (Inr r, d) \<longrightarrow> rd_grant r \<noteq> og_id g)" for h c rq r d
    using dead_for_ever [OF assms(8) oauth_inv_step [OF w2 inv1]] by blast
  moreover have "\<forall>t \<in> set (sd_tokens (deprovision_user ext db)). it_user t \<noteq> pn_id p"
    using assms(5) by (simp add: deprovision_user_def Let_def)
  ultimately show ?thesis by blast
qed

text \<open>
  Deactivation by a write of the whole user (a SCIM PUT or a reconciliation) cuts nothing: once the
  same write sets the person active again, the install tokens, the connections, their tokens and the
  access they resolve to are those of before.
\<close>

theorem reactivation_revives_credentials:
  assumes "sd_ok db" "person_by_oid db (sc_external u) = Some p" "pn_active p"
  shows "let off = snd (upsert_user (u\<lparr>sc_active := False\<rparr>) db); on = snd (upsert_user (u\<lparr>sc_active := True\<rparr>) off)
    in \<not> list_ex (\<lambda>q. pn_oid q = Some (sc_external u) \<and> pn_active q) (sd_people off) \<and>
       mcp_server on = mcp_server db \<and> sd_tokens on = sd_tokens db"
proof -
  let ?u0 = "u\<lparr>sc_active := False\<rparr>" and ?u1 = "u\<lparr>sc_active := True\<rparr>"
  let ?Q = "\<lambda>q. pn_oid q = Some (sc_external u)"
  define off where "off = snd (upsert_user ?u0 db)"
  define on where "on = snd (upsert_user ?u1 off)"
  have p: "p \<in> set (sd_people db)" "pn_oid p = Some (sc_external u)"
    using find_in_set [OF assms(2) [unfolded person_by_oid_def]] by simp_all
  have off: "sd_people off = map (\<lambda>q. if ?Q q then merge_person ?u0 q else q) (sd_people db)"
    "sd_groups off = sd_groups db" "sd_members off = sd_members db" "sd_mappings off = sd_mappings db"
    "sd_tokens off = sd_tokens db" "sd_oauth off = sd_oauth db" "sd_now off = sd_now db"
    "t_grants (db_access (sd_app off)) = t_grants (db_access (sd_app db))"
    using assms(2) by (auto simp: off_def upsert_user_def Let_def set_people_def scim_audit_def sd_audit_def append_audit_def)
  have "person_by_oid off (sc_external u) \<noteq> None"
    using p by (auto simp: person_by_oid_def find_None_iff off(1))
  then obtain p' where p': "person_by_oid off (sc_external ?u1) = Some p'" by auto
  have on: "sd_people on = map (\<lambda>q. if ?Q q then merge_person ?u1 q else q) (sd_people off)"
    "sd_groups on = sd_groups off" "sd_members on = sd_members off" "sd_mappings on = sd_mappings off"
    "sd_tokens on = sd_tokens off" "sd_oauth on = sd_oauth off" "sd_now on = sd_now off"
    "t_grants (db_access (sd_app on)) = t_grants (db_access (sd_app off))"
    using p' by (auto simp: on_def upsert_user_def Let_def set_people_def scim_audit_def sd_audit_def append_audit_def)
  have active: "pn_active q" if "q \<in> set (sd_people db)" "?Q q" for q
    using person_oid_unique [OF assms(1) p(1) that(1) p(2) that(2)] assms(3) by simp
  have "directory on = directory db"
    using active by (auto simp: directory_def on off merge_person_def)
  then have "mcp_server on = mcp_server db" "sd_tokens on = sd_tokens db" by (simp_all add: mcp_server_def on off)
  moreover have "\<not> list_ex (\<lambda>q. ?Q q \<and> pn_active q) (sd_people off)"
    by (auto simp: off(1) list_ex_iff merge_person_def)
  ultimately show ?thesis unfolding Let_def off_def [symmetric] on_def [symmetric] by simp
qed

end
