(* ===== verification/ErasureProps.thy ===== *)
theory ErasureProps
  imports LeaverProps
begin

text \<open>
  The properties of erasure: the two implementations compared, and the run of a provisioned directory,
  in which an erased row is never written again.
\<close>

section \<open>Frames\<close>

lemma delete_rows_frame [simp]:
  "sd_people (delete_rows_of u tbl db) = sd_people db" "sd_groups (delete_rows_of u tbl db) = sd_groups db"
  "sd_now (delete_rows_of u tbl db) = sd_now db" "sd_mappings (delete_rows_of u tbl db) = sd_mappings db"
  "set (sd_members (delete_rows_of u tbl db)) \<subseteq> set (sd_members db)"
  "db_uuid (sd_app (delete_rows_of u tbl db)) = db_uuid (sd_app db)" "db_used (sd_app (delete_rows_of u tbl db)) = db_used (sd_app db)"
  by (auto simp: delete_rows_of_def drop_table_rows_def Let_def)

lemma delete_all_frame [simp]:
  "sd_people (fold (delete_rows_of u) ts db) = sd_people db" "sd_groups (fold (delete_rows_of u) ts db) = sd_groups db"
  "sd_now (fold (delete_rows_of u) ts db) = sd_now db" "sd_mappings (fold (delete_rows_of u) ts db) = sd_mappings db"
  "db_uuid (sd_app (fold (delete_rows_of u) ts db)) = db_uuid (sd_app db)"
  "db_used (sd_app (fold (delete_rows_of u) ts db)) = db_used (sd_app db)"
  by (induction ts arbitrary: db) simp_all

lemma delete_all_members: "set (sd_members (fold (delete_rows_of u) ts db)) \<subseteq> set (sd_members db)"
proof (induction ts arbitrary: db)
  case (Cons t ts)
  show ?case using subset_trans [OF Cons.IH [of "delete_rows_of u t db"] delete_rows_frame(5) [of u t db]] by simp
qed simp

lemma erase_common_frame [simp]:
  "sd_people (erase_common u db) = sd_people db" "sd_groups (erase_common u db) = sd_groups db"
  "sd_members (erase_common u db) = sd_members db" "sd_mappings (erase_common u db) = sd_mappings db"
  "sd_tokens (erase_common u db) = sd_tokens db" "sd_credits (erase_common u db) = sd_credits db"
  "sd_app (erase_common u db) = sd_app db" "sd_oauth (erase_common u db) = sd_oauth db"
  "sd_now (erase_common u db) = sd_now db"
  by (simp_all add: erase_common_def drop_table_rows_def anonymise_def)

lemma erase_common_tables:
  "sd_tables a = sd_tables b \<Longrightarrow> sd_tables (erase_common u a) = sd_tables (erase_common u b)"
  by (simp add: erase_common_def drop_table_rows_def anonymise_def)

text \<open>Clearing assignments writes proposals, the audit log and notifications only.\<close>

lemma unassign_one_frame:
  "db_uuid (unassign_one env u actor p app) = db_uuid app" "db_used (unassign_one env u actor p app) = db_used app"
  "db_maintainers (unassign_one env u actor p app) = db_maintainers app"
  by (simp_all add: unassign_one_def append_audit_def alert_reviewer_pool_def notify_def Let_def)

lemma unassign_all_frame:
  "db_uuid (fold (unassign_one env u actor) ps app) = db_uuid app \<and> db_used (fold (unassign_one env u actor) ps app) = db_used app \<and>
   db_maintainers (fold (unassign_one env u actor) ps app) = db_maintainers app"
  by (induction ps arbitrary: app) (simp_all add: unassign_one_frame)

lemma unassign_step_frame [simp]:
  "sd_people (unassign_step env u actor db) = sd_people db" "sd_groups (unassign_step env u actor db) = sd_groups db"
  "sd_members (unassign_step env u actor db) = sd_members db" "sd_mappings (unassign_step env u actor db) = sd_mappings db"
  "sd_tokens (unassign_step env u actor db) = sd_tokens db" "sd_credits (unassign_step env u actor db) = sd_credits db"
  "sd_tables (unassign_step env u actor db) = sd_tables db" "sd_oauth (unassign_step env u actor db) = sd_oauth db"
  "sd_now (unassign_step env u actor db) = sd_now db"
  by (simp_all add: unassign_step_def)

lemma unassign_step_app [simp]:
  "db_uuid (sd_app (unassign_step env u actor db)) = db_uuid (sd_app db)"
  "db_used (sd_app (unassign_step env u actor db)) = db_used (sd_app db)"
  "db_maintainers (sd_app (unassign_step env u actor db)) = db_maintainers (sd_app db)"
  by (simp_all add: unassign_step_def unassign_erased_user_def unassign_all_frame web_app_def Let_def)

section \<open>The two erasures\<close>

text \<open>The tables of the common list, one by one.\<close>

definition erased_rows :: "ident \<Rightarrow> scim_db \<Rightarrow> scim_db" where
  "erased_rows u db =
     db\<lparr>sd_members := filter (\<lambda>m. gm_user m \<noteq> u) (sd_members db), sd_credits := filter (\<lambda>c. cr_user c \<noteq> u) (sd_credits db),
        sd_tokens := filter (\<lambda>t. it_user t \<noteq> u) (sd_tokens db),
        sd_app := (sd_app db)\<lparr>db_maintainers := filter (\<lambda>m. mt_user m \<noteq> u) (db_maintainers (sd_app db)),
                              db_notifications := filter (\<lambda>n. nt_user n \<noteq> u) (db_notifications (sd_app db))\<rparr>,
        sd_tables := sd_tables (fold (drop_table_rows (\<lambda>r. pr_user r = Some u))
          [''skill_ratings'', ''skill_hypes'', ''skill_watches'', ''user_achievements''] db)\<rparr>"

lemma scim_rows: "fold (delete_rows_of u) scim_erased_tables db = erased_rows u db"
  by (simp add: scim_erased_tables_def delete_rows_of_def erased_rows_def drop_table_rows_def)

lemma web_rows: "fold (delete_rows_of u) web_erased_tables db =
  (erased_rows u db)\<lparr>sd_oauth := sd_oauth (delete_rows_of u ''oauth_grants'' db)\<rparr>"
  by (simp add: web_erased_tables_def delete_rows_of_def erased_rows_def drop_table_rows_def Let_def)

lemma oauth_rows_gone: "g \<in> set (oa_grants (sd_oauth (delete_rows_of u ''oauth_grants'' db))) \<Longrightarrow> og_user g \<noteq> u"
  by (auto simp: delete_rows_of_def Let_def drop_tokens_def)

text \<open>A row without what only one of the two resets.\<close>

definition without_digest :: "person \<Rightarrow> person" where
  "without_digest p = p\<lparr>pn_digest := default_digest\<rparr>"


section \<open>Runs of a directory\<close>

text \<open>Requests of the directory service, reconciliations, erasures by administrators and the clock, in any
  order.\<close>

inductive prov_step :: "app_env \<Rightarrow> scim_db \<Rightarrow> scim_db \<Rightarrow> bool" for env where
  prov_scim: "prov_step env db (snd (handle_scim rq db))"
| prov_reconcile: "prov_step env db (snd (reconcile cap boot graph db))"
| prov_erase: "prov_step env db (snd (erase_user env actor target transfer db))"
| prov_clock: "prov_step env db (db\<lparr>sd_now := t\<rparr>)"

inductive prov_run :: "app_env \<Rightarrow> scim_db \<Rightarrow> scim_db \<Rightarrow> bool" for env where
  prov_refl: "prov_run env db db"
| prov_more: "prov_run env a b \<Longrightarrow> prov_step env b c \<Longrightarrow> prov_run env a c"

text \<open>Erased rows are detached and inactive, and stay as they are.\<close>

definition prov_inv :: "scim_db \<Rightarrow> bool" where
  "prov_inv db = (sd_ok db \<and> (\<forall>p \<in> set (sd_people db). pn_erased p \<noteq> None \<longrightarrow> pn_oid p = None \<and> \<not> pn_active p))"

definition prov_keeps :: "scim_db \<Rightarrow> scim_db \<Rightarrow> bool" where
  "prov_keeps db db' =
     (prov_inv db \<longrightarrow> prov_inv db' \<and> (\<forall>p \<in> set (sd_people db). pn_erased p \<noteq> None \<longrightarrow> p \<in> set (sd_people db')))"

lemma keeps_refl [simp]: "prov_keeps db db"
  by (simp add: prov_keeps_def)

lemma keeps_trans: "prov_keeps a b \<Longrightarrow> prov_keeps b c \<Longrightarrow> prov_keeps a c"
  unfolding prov_keeps_def by blast

lemma keeps_fold: "(\<And>x d. prov_keeps d (f x d)) \<Longrightarrow> prov_keeps db (fold f xs db)"
proof (induction xs arbitrary: db)
  case (Cons x xs)
  show ?case using keeps_trans [OF Cons.prems Cons.IH [OF Cons.prems]] by simp
qed simp

text \<open>An update of rows: of rows with an object id, or none the erased ones are among.\<close>

lemma keeps_people:
  assumes "sd_people db' = map (\<lambda>p. if P p then f p else p) (sd_people db)"
    and "prov_inv db \<Longrightarrow> sd_ok db'"
    and "\<And>p. prov_inv db \<Longrightarrow> p \<in> set (sd_people db) \<Longrightarrow> P p \<Longrightarrow> pn_erased p = None"
    and "\<And>p. P p \<Longrightarrow> pn_erased p = None \<Longrightarrow> pn_erased (f p) = None \<or> pn_oid (f p) = None \<and> \<not> pn_active (f p)"
  shows "prov_keeps db db'"
  unfolding prov_keeps_def
proof (intro impI conjI ballI)
  assume inv: "prov_inv db"
  have "pn_oid p' = None \<and> \<not> pn_active p'" if p': "p' \<in> set (sd_people db')" "pn_erased p' \<noteq> None" for p'
  proof -
    obtain p where p: "p \<in> set (sd_people db)" "p' = (if P p then f p else p)" using p'(1) unfolding assms(1) set_map by (elim imageE)
    show ?thesis
    proof (cases "P p")
      case True
      then show ?thesis using assms(4) [OF True assms(3) [OF inv p(1) True]] p(2) p'(2) by auto
    next
      case False
      then show ?thesis using inv p p'(2) by (simp add: prov_inv_def)
    qed
  qed
  then show "prov_inv db'" using assms(2) [OF inv] by (simp add: prov_inv_def)
  show "p \<in> set (sd_people db')" if "p \<in> set (sd_people db)" "pn_erased p \<noteq> None" for p
  proof -
    have "\<not> P p" using assms(3) [OF inv that(1)] that(2) by blast
    then show ?thesis unfolding assms(1) set_map by (intro rev_image_eqI [OF that(1)]) simp
  qed
qed

lemma keeps_same:
  assumes "sd_people db' = sd_people db" "sd_groups db' = sd_groups db"
    and "db_uuid (sd_app db') = db_uuid (sd_app db)" "db_used (sd_app db) \<le> db_used (sd_app db')"
    and "\<And>m. m \<in> set (sd_members db') \<Longrightarrow> m \<in> set (sd_members db) \<or> (\<exists>g u. m \<in> set (pairs_of db g u))"
  shows "prov_keeps db db'"
proof (rule keeps_people [where P = "\<lambda>_. False" and f = id])
  show "sd_ok db'" if "prov_inv db"
    by (rule sd_ok_same [of db]) (use that assms in \<open>simp_all add: prov_inv_def person_keys_def group_keys_def\<close>)
qed (simp_all add: assms(1))

section \<open>The operations keep erased rows\<close>

lemma keeps_audit [simp]: "prov_keeps a (sd_audit e db) = prov_keeps a db"
  by (simp add: prov_keeps_def prov_inv_def sd_ok_def sd_drawn_def)

lemma keeps_upsert_user: "prov_keeps db (snd (upsert_user u db))"
proof (cases "person_by_oid db (sc_external u)")
  case None
  let ?i = "db_uuid (sd_app db) (db_used (sd_app db))"
  obtain e where e: "snd (upsert_user u db) = sd_audit e (db\<lparr>sd_app := snd (fresh_id (sd_app db)),
     sd_people := sd_people db @ [new_person ?i u]\<rparr>)"
    using upsert_user_new [OF None] by blast
  have "sd_ok (snd (upsert_user u db))" if "prov_inv db"
    using upsert_user_grows [of db u] that by (simp add: sd_grows_def prov_inv_def)
  moreover have "sd_people (snd (upsert_user u db)) = sd_people db @ [new_person ?i u]" by (simp add: e)
  ultimately show ?thesis by (auto simp: prov_keeps_def prov_inv_def new_person_def)
next
  case (Some p)
  have "prov_keeps db (set_people (\<lambda>q. pn_oid q = Some (sc_external u)) (merge_person u) db)"
  proof (rule keeps_people [where P = "\<lambda>q. pn_oid q = Some (sc_external u)" and f = "merge_person u"])
    show "sd_ok (set_people (\<lambda>q. pn_oid q = Some (sc_external u)) (merge_person u) db)" if "prov_inv db"
      by (rule sd_ok_same [of db]) (use that in \<open>simp_all add: prov_inv_def\<close>)
    show "pn_erased q = None" if "prov_inv db" "q \<in> set (sd_people db)" "pn_oid q = Some (sc_external u)" for q
      using that by (cases "pn_erased q") (auto simp: prov_inv_def)
  qed (simp_all add: set_people_def merge_person_def)
  then show ?thesis using upsert_user_known [OF Some] by auto
qed

lemma keeps_upsert_group: "prov_keeps db (snd (upsert_group x name db))"
proof (rule keeps_people [where P = "\<lambda>_. False" and f = id])
  show "sd_people (snd (upsert_group x name db)) = map (\<lambda>p. if False then id p else p) (sd_people db)"
    by (auto simp: upsert_group_def sd_fresh_def fresh_id_def split: option.split)
  show "sd_ok (snd (upsert_group x name db))" if "prov_inv db"
    using upsert_group_grows [of db x name] that by (simp add: sd_grows_def prov_inv_def)
qed simp_all

lemma membership_groups [simp]:
  "sd_groups (add_membership g u db) = sd_groups db" "sd_groups (remove_membership g u db) = sd_groups db"
  by (auto simp: add_membership_def remove_membership_def membership_audit_def split: list.split)

lemma keeps_membership: "prov_keeps db (add_membership g u db)" "prov_keeps db (remove_membership g u db)"
  by (rule keeps_same; auto simp: add_membership_members remove_membership_members)+

lemma keeps_deprovision: "prov_keeps db (deprovision_user ext db)"
proof (cases "person_by_oid db ext")
  case None
  then show ?thesis by (simp add: deprovision_user_def)
next
  case (Some p)
  have p: "p \<in> set (sd_people db)" "pn_oid p = Some ext"
    using find_in_set [OF Some [unfolded person_by_oid_def]] by simp_all
  show ?thesis
  proof (rule keeps_people [where P = "\<lambda>q. pn_id q = pn_id p" and f = "pn_active_update (\<lambda>_. False)"])
    show "sd_people (deprovision_user ext db) = map (\<lambda>q. if pn_id q = pn_id p then q\<lparr>pn_active := False\<rparr> else q) (sd_people db)"
      using Some by (simp add: deprovision_user_def Let_def set_people_def)
    show "sd_ok (deprovision_user ext db)" if "prov_inv db"
    proof (rule sd_ok_same [of db])
      show "person_keys (deprovision_user ext db) = person_keys db"
        using Some by (simp add: deprovision_user_def Let_def person_keys_def set_people_def)
      show "group_keys (deprovision_user ext db) = group_keys db"
        using Some by (simp add: deprovision_user_def Let_def group_keys_def set_people_def scim_audit_def)
    qed (use Some that in \<open>simp_all add: deprovision_user_def Let_def prov_inv_def split: if_splits\<close>)
    show "pn_erased q = None" if "prov_inv db" "q \<in> set (sd_people db)" "pn_id q = pn_id p" for q
      using person_id_unique [OF _ that(2) p(1) that(3)] that(1) p by (auto simp: prov_inv_def)
  qed simp_all
qed

text \<open>The keys after a row was detached.\<close>

lemma distinct_detached:
  "distinct (filter (\<lambda>o'. o' \<noteq> None) (map snd ks)) \<Longrightarrow>
     distinct (filter (\<lambda>o'. o' \<noteq> None) (map (\<lambda>k. if fst k = u then None else snd k) ks))"
proof (induction ks)
  case (Cons k ks)
  have "Some y \<in> snd ` set ks" if "(i, Some y) \<in> set ks" for i y using that by force
  then show ?case using Cons by (auto split: if_splits)
qed simp

lemma sd_ok_erased:
  assumes "sd_ok db" "group_keys db' = group_keys db" "db_uuid (sd_app db') = db_uuid (sd_app db)"
    and "db_used (sd_app db) \<le> db_used (sd_app db')" "set (sd_members db') \<subseteq> set (sd_members db)"
    and "sd_people db' = map (\<lambda>q. if pn_id q = u then f q else q) (sd_people db)"
    and "\<And>q. pn_id (f q) = pn_id q \<and> pn_oid (f q) = None"
  shows "sd_ok db'"
proof -
  have keys: "map fst (person_keys db') = map fst (person_keys db)"
    "map snd (person_keys db') = map (\<lambda>k. if fst k = u then None else snd k) (person_keys db)"
    using assms(7) by (simp_all add: person_keys_def assms(6))
  have ids: "fst ` set (person_keys db') = fst ` set (person_keys db)"
    using arg_cong [OF keys(1), of set] by simp
  have drawn: "sd_drawn db \<subseteq> sd_drawn db'" using assms(3,4) by (auto simp: sd_drawn_def)
  have "distinct (filter (\<lambda>o'. o' \<noteq> None) (map snd (person_keys db')))"
    unfolding keys(2) by (rule distinct_detached) (use assms(1) in \<open>simp add: sd_ok_def\<close>)
  moreover have "fst ` set (person_keys db) \<subseteq> sd_drawn db'" "fst ` set (group_keys db) \<subseteq> sd_drawn db'"
    using assms(1) subset_trans [OF _ drawn] unfolding sd_ok_def by blast+
  moreover have "gm_user m \<in> fst ` set (person_keys db) \<and> gm_group m \<in> fst ` set (group_keys db)" if "m \<in> set (sd_members db')" for m
    using assms(1) subsetD [OF assms(5) that] by (simp add: sd_ok_def)
  ultimately show ?thesis
    using assms(1) unfolding sd_ok_def assms(2,3) ids keys(1) by simp
qed

lemma keeps_erased:
  assumes "sd_groups db' = sd_groups db" "db_uuid (sd_app db') = db_uuid (sd_app db)"
    and "db_used (sd_app db) \<le> db_used (sd_app db')" "set (sd_members db') \<subseteq> set (sd_members db)"
    and "sd_people db' = map (\<lambda>q. if pn_id q = u then f q else q) (sd_people db)"
    and "\<And>q. pn_id (f q) = pn_id q \<and> pn_oid (f q) = None \<and> \<not> pn_active (f q)"
    and "p \<in> set (sd_people db)" "pn_id p = u" "pn_erased p = None"
  shows "prov_keeps db db'"
proof (rule keeps_people [OF assms(5)])
  show "sd_ok db'" if "prov_inv db"
    by (rule sd_ok_erased [of db _ u f]) (use that assms in \<open>simp_all add: prov_inv_def group_keys_def\<close>)
  show "pn_erased q = None" if "prov_inv db" "q \<in> set (sd_people db)" "pn_id q = u" for q
    using person_id_unique [OF _ that(2) assms(7)] that assms(8,9) by (simp add: prov_inv_def)
  show "pn_erased (f q) = None \<or> pn_oid (f q) = None \<and> \<not> pn_active (f q)" for q
    using assms(6) by blast
qed

lemma keeps_scim_erase: "prov_keeps db (erase_user_by_external_id ext db)"
proof (cases "find (\<lambda>p. pn_oid p = Some ext \<and> pn_erased p = None) (sd_people db)")
  case None
  then show ?thesis by (simp add: erase_user_by_external_id_def)
next
  case (Some p)
  let ?db1 = "erase_common (pn_id p) (fold (delete_rows_of (pn_id p)) scim_erased_tables db)"
  let ?f = "scrub_person (deleted_label (pn_email p)) (sd_now ?db1)"
  have p: "p \<in> set (sd_people db)" "pn_erased p = None" using find_in_set [OF Some] by simp_all
  have "prov_keeps db (set_people (\<lambda>q. pn_id q = pn_id p) ?f ?db1)"
    by (rule keeps_erased [where u = "pn_id p" and f = ?f and p = p])
      (use p delete_all_members in \<open>simp_all add: set_people_def scrub_person_def\<close>)
  then show ?thesis using Some by (simp add: erase_user_by_external_id_def Let_def scim_audit_def)
qed

lemma transfer_one_frame:
  "transfer_one acc to actor s (n, sk, app) = (n', sk', app') \<Longrightarrow> db_uuid app' = db_uuid app \<and> db_used app' = db_used app"
  by (auto simp: transfer_one_def split: if_splits)

lemma transfer_all_frame:
  "fold (transfer_one acc to actor) ss (n, sk, app) = (n', sk', app') \<Longrightarrow> db_uuid app' = db_uuid app \<and> db_used app' = db_used app"
proof (induction ss arbitrary: n sk app)
  case (Cons s ss)
  obtain n1 sk1 app1 where "transfer_one acc to actor s (n, sk, app) = (n1, sk1, app1)" by (metis prod_cases3)
  then show ?case using Cons transfer_one_frame by fastforce
qed simp

lemma transfer_maintainers_frame:
  assumes "transfer_maintainers u to actor db = (n, sk, db')"
  shows "sd_people db' = sd_people db \<and> sd_groups db' = sd_groups db \<and> sd_members db' = sd_members db \<and>
    db_uuid (sd_app db') = db_uuid (sd_app db) \<and> db_used (sd_app db') = db_used (sd_app db)"
proof -
  obtain n1 sk1 app where f: "fold (transfer_one (directory db) to actor) (maintained_skills (sd_app db) u) (0, [], sd_app db) = (n1, sk1, app)"
    by (metis prod_cases3)
  then have "db' = db\<lparr>sd_app := app\<rparr>" using assms by (simp add: transfer_maintainers_def)
  then show ?thesis using transfer_all_frame [OF f] by simp
qed

lemma transfer_credits_frame:
  "transfer_credits u to db = (a, b, db') \<Longrightarrow> sd_people db' = sd_people db \<and> sd_groups db' = sd_groups db \<and> sd_members db' = sd_members db \<and>
    sd_app db' = sd_app db"
  by (auto simp: transfer_credits_def Let_def)

lemma keeps_erase_rows:
  assumes "p \<in> set (sd_people db)" "pn_erased p = None"
  shows "prov_keeps db (erase_rows env actor p db)"
proof -
  let ?db1 = "erase_common (pn_id p) (unassign_step env (pn_id p) actor (fold (delete_rows_of (pn_id p)) web_erased_tables db))"
  let ?f = "web_scrub (deleted_label (pn_email p)) (sd_now ?db1)"
  have "prov_keeps db (set_people (\<lambda>q. pn_id q = pn_id p) ?f ?db1)"
    by (rule keeps_erased [where u = "pn_id p" and f = ?f and p = p])
      (use assms delete_all_members in \<open>simp_all add: set_people_def web_scrub_def scrub_person_def\<close>)
  then show ?thesis by (simp add: erase_rows_def Let_def)
qed

lemma keeps_web_erase: "prov_keeps db (snd (erase_user env actor u tr db))"
proof (cases "fst (erase_user env actor u tr db)")
  case (Erased n0 sk0 mv lf)
  then obtain p where p: "find_person db u = Some p" "pn_erased p = None"
    by (auto simp: erase_user_def split: if_splits option.splits)
  then have pin: "p \<in> set (sd_people db)" using find_in_set [OF p(1) [unfolded find_person_def]] by simp
  obtain n sk db1 where t: "(if truthy tr then transfer_maintainers u (the tr) actor db else (0, [], db)) = (n, sk, db1)"
    by (metis prod_cases3)
  obtain a b db2 where c: "(if truthy tr then transfer_credits u (the tr) db1 else (0, 0, db1)) = (a, b, db2)"
    by (metis prod_cases3)
  have f1: "sd_people db1 = sd_people db \<and> sd_groups db1 = sd_groups db \<and> sd_members db1 = sd_members db \<and>
      db_uuid (sd_app db1) = db_uuid (sd_app db) \<and> db_used (sd_app db1) = db_used (sd_app db)"
    using t transfer_maintainers_frame by (auto split: if_splits)
  have f2: "sd_people db2 = sd_people db1 \<and> sd_groups db2 = sd_groups db1 \<and> sd_members db2 = sd_members db1 \<and> sd_app db2 = sd_app db1"
    using c transfer_credits_frame by (auto split: if_splits)
  have "prov_keeps db db2" by (rule keeps_same) (use f1 f2 in simp_all)
  moreover have "prov_keeps db2 (erase_rows env actor p db2)" by (rule keeps_erase_rows) (use f1 f2 pin p in simp_all)
  moreover obtain e where "snd (erase_user env actor u tr db) = sd_audit e (erase_rows env actor p db2)"
    using Erased p t c by (auto simp: erase_user_def Let_def split: if_splits)
  ultimately show ?thesis using keeps_trans by simp
qed (auto simp: erase_user_def Let_def split: if_splits option.splits prod.splits)

lemma keeps_patch_members: "prov_keeps db (snd (patch_members g ops db))"
proof (induction g ops db rule: patch_members.induct)
  case (2 g o' ops db)
  have "prov_keeps d (member_change g op m d)" for op m d
    by (simp add: member_change_def keeps_membership split: option.split)
  then have "prov_keeps db (fold (member_change g (po_op o')) ms db)" for ms by (rule keeps_fold)
  then show ?case using 2 by (auto split: patch_value.split intro: keeps_trans)
qed simp

lemma keeps_scim: "prov_keeps db (snd (handle_scim rq db))"
proof (cases rq)
  case (PostUser body)
  then show ?thesis using keeps_upsert_user [of db "to_scim_user body"]
    by (simp add: Let_def upsert_answer_def case_prod_beta)
next
  case (PutUser i body)
  then show ?thesis using keeps_upsert_user [of db "to_scim_user (body\<lparr>ur_external_id := Some i\<rparr>)"]
    by (simp add: Let_def upsert_answer_def case_prod_beta)
next
  case (PostGroup ext i name)
  then show ?thesis by (simp add: Let_def case_prod_beta keeps_upsert_group)
next
  case (PatchGroup i ops)
  then show ?thesis using keeps_patch_members [of db i ops] by (simp add: case_prod_beta)
qed (simp_all add: keeps_deprovision keeps_scim_erase Let_def case_prod_beta)

lemma keeps_sync:
  assumes "sync_member_list g remote db = (a, r, db')"
  shows "prov_keeps db db'"
proof -
  have "prov_keeps d (case l of None \<Rightarrow> d | Some m \<Rightarrow> remove_membership g m d)" for l d
    by (simp add: keeps_membership split: option.split)
  then have "prov_keeps d (fold (\<lambda>l d. case l of None \<Rightarrow> d | Some m \<Rightarrow> remove_membership g m d) ls d)" for ls d by (rule keeps_fold)
  moreover have "prov_keeps d (fold (add_membership g) ms d)" for ms d
    by (rule keeps_fold) (rule keeps_membership)
  ultimately show ?thesis using assms keeps_trans unfolding sync_member_list_def Let_def by blast
qed

lemma keeps_reconcile_group:
  assumes "reconcile_group graph g (st, seen, db) = (ok, st', seen', db')"
  shows "prov_keeps db db'"
proof (cases "gp_group graph g")
  case None
  then show ?thesis using assms by (simp add: reconcile_group_def)
next
  case (Some name)
  define db1 where "db1 = snd (upsert_group g name db)"
  have d1: "prov_keeps db db1" unfolding db1_def by (rule keeps_upsert_group)
  show ?thesis
  proof (cases "gp_members graph g")
    case None
    then show ?thesis using assms Some d1 by (simp add: reconcile_group_def Let_def db1_def)
  next
    case (Some ms)
    define db2 where "db2 = fold (\<lambda>m d. snd (upsert_user (graph_scim_user m) d)) ms db1"
    have d2: "prov_keeps db1 db2" unfolding db2_def by (rule keeps_fold) (rule keeps_upsert_user)
    obtain a r db3 where sync: "sync_member_list g (map gu_oid ms) db2 = (a, r, db3)" by (metis prod_cases3)
    then have "db' = db3"
      using assms \<open>gp_group graph g = Some name\<close> Some by (simp add: reconcile_group_def Let_def db1_def [symmetric] db2_def [symmetric])
    then show ?thesis using keeps_trans [OF keeps_trans [OF d1 d2] keeps_sync [OF sync]] by simp
  qed
qed

lemma keeps_reconcile_groups:
  "reconcile_groups graph gs (st, seen, db) = (ok, st', seen', db') \<Longrightarrow> prov_keeps db db'"
proof (induction gs arbitrary: st seen db)
  case (Cons g gs)
  obtain ok1 st1 seen1 db1 where r: "reconcile_group graph g (st, seen, db) = (ok1, st1, seen1, db1)" by (metis prod_cases4)
  show ?case
  proof (cases ok1)
    case True
    then have "prov_keeps db1 db'" using Cons r by simp
    then show ?thesis using keeps_reconcile_group [OF r] keeps_trans by blast
  next
    case False
    then show ?thesis using Cons.prems r keeps_reconcile_group [OF r] by simp
  qed
qed simp

lemma keeps_avatar: "prov_keeps db (set_user_avatar_if_missing i x db)"
  unfolding set_user_avatar_if_missing_def
proof (rule keeps_people [where P = "\<lambda>p. pn_oid p = Some i \<and> pn_avatar p = None" and f = "pn_avatar_update (\<lambda>_. Some x)"])
  let ?d = "set_people (\<lambda>p. pn_oid p = Some i \<and> pn_avatar p = None) (pn_avatar_update (\<lambda>_. Some x)) db"
  show "sd_ok ?d" if "prov_inv db" by (rule sd_ok_same [of db]) (use that in \<open>simp_all add: prov_inv_def\<close>)
  show "pn_erased q = None" if "prov_inv db" "q \<in> set (sd_people db)" "pn_oid q = Some i \<and> pn_avatar q = None" for q
    using that by (cases "pn_erased q") (auto simp: prov_inv_def)
qed (simp_all add: set_people_def)

lemma keeps_avatars: "prov_keeps db (snd (fold (fill_avatar graph) is (n, db)))"
proof (induction "is" arbitrary: n db)
  case (Cons i "is")
  obtain n1 db1 where f: "fill_avatar graph i (n, db) = (n1, db1)" by force
  then have "prov_keeps db db1" using keeps_avatar by (auto simp: fill_avatar_def split: option.splits if_splits)
  then show ?case using keeps_trans [OF _ Cons.IH [where n = n1 and db = db1]] f by simp
qed simp

lemma keeps_reconcile: "prov_keeps db (snd (reconcile cap boot graph db))"
proof -
  obtain ok st seen db1 where r: "reconcile_groups graph (mapped_group_external_ids boot db) (no_stats, [], db) = (ok, st, seen, db1)"
    by (metis prod_cases4)
  note groups = keeps_reconcile_groups [OF r]
  have "prov_keeps db (snd (fold (fill_avatar graph) is (0, db1)))" for "is" by (rule keeps_trans [OF groups keeps_avatars])
  then show ?thesis using r groups by (cases ok) (simp_all add: reconcile_def case_prod_beta)
qed

lemma keeps_step: "prov_step env db db' \<Longrightarrow> prov_keeps db db'"
proof (induction rule: prov_step.induct)
  case (prov_clock db t)
  show ?case by (rule keeps_same) simp_all
qed (simp_all add: keeps_scim keeps_reconcile keeps_web_erase)

lemma keeps_run: "prov_run env db db' \<Longrightarrow> prov_keeps db db'"
  by (induction rule: prov_run.induct) (auto intro: keeps_trans keeps_step)

text \<open>
  C21: An erasure is final. Along any run of SCIM requests, reconciliations and erasures, an erased row
  stays exactly as the erasure left it, detached and inactive; a person who comes back with the
  same object id gets another row.
\<close>

theorem erased_for_good:
  assumes "prov_inv db" "p \<in> set (sd_people db)" "pn_erased p \<noteq> None" "prov_run env db db'"
  shows "p \<in> set (sd_people db') \<and> pn_oid p = None \<and> \<not> pn_active p \<and>
    (\<forall>u. fst (upsert_user u db') \<noteq> pn_id p)"
proof -
  have inv: "prov_inv db'" and p: "p \<in> set (sd_people db')"
    using keeps_run [OF assms(4)] assms(1-3) by (simp_all add: prov_keeps_def)
  have det: "pn_oid p = None" "\<not> pn_active p" using inv p assms(3) by (simp_all add: prov_inv_def)
  have "fst (upsert_user u db') \<noteq> pn_id p" for u
  proof (cases "person_by_oid db' (sc_external u)")
    case None
    have "fst (upsert_user u db') = db_uuid (sd_app db') (db_used (sd_app db'))"
      using None by (simp add: upsert_user_def sd_fresh_def fresh_id_def)
    moreover have "pn_id p \<in> fst ` set (person_keys db')" using p by (force simp: person_keys_def)
    ultimately show ?thesis using fresh_not_key(1) [OF conjunct1 [OF inv [unfolded prov_inv_def]]] by metis
  next
    case (Some q)
    then have q: "q \<in> set (sd_people db')" "pn_oid q = Some (sc_external u)"
      using find_in_set [OF Some [unfolded person_by_oid_def]] by simp_all
    have "fst (upsert_user u db') = pn_id q" using Some by (simp add: upsert_user_def Let_def)
    then show ?thesis using person_id_unique [OF _ q(1) p] inv q(2) det(1) by (auto simp: prov_inv_def)
  qed
  then show ?thesis using p det by blast
qed

section \<open>Filters\<close>

lemma lower_prototype_name:
  assumes "js_lower l = l"
  shows "l \<in> set object_prototype_names \<longleftrightarrow> l \<in> {''constructor'', ''__proto__''}"
proof
  assume l: "l \<in> set object_prototype_names"
  have "list_all (\<lambda>n. js_lower n = n \<longrightarrow> n \<in> {''constructor'', ''__proto__''}) object_prototype_names"
    by code_simp
  then show "l \<in> {''constructor'', ''__proto__''}" using l assms by (simp add: list_all_iff)
qed (auto simp: object_prototype_names_def)

text \<open>
  Listing users answers a filter on an attribute it does not know with an empty list, except for
  \<open>constructor\<close> and \<open>__proto__\<close>, for which the request fails.
\<close>

theorem unknown_filter_answers:
  assumes "parse_scim_filter f = Some q" "js_lower (sf_attr q) \<notin> fst ` set USER_FILTER_COLUMNS"
  shows "handle_scim (GetUsers f start cnt) db =
    (if js_lower (sf_attr q) \<in> {''constructor'', ''__proto__''} then ScimFailed
     else ScimUserList 0 (fst (parse_paging start cnt)) [], db)"
proof -
  have none: "map_of USER_FILTER_COLUMNS (js_lower (sf_attr q)) = None" using assms(2) by (simp add: map_of_eq_None_iff)
  have "js_lower (sf_attr q) \<in> set object_prototype_names \<longleftrightarrow> js_lower (sf_attr q) \<in> {''constructor'', ''__proto__''}"
    by (rule lower_prototype_name) (simp add: js_lower_def o_def)
  then have "filter_column_of USER_FILTER_COLUMNS (sf_attr q) =
      (if js_lower (sf_attr q) \<in> {''constructor'', ''__proto__''} then ForeignText else NoColumn)"
    unfolding filter_column_of_def none by (cases "sf_attr q = []") (simp_all add: js_lower_def)
  then have "list_users (Some q) si c db = (if js_lower (sf_attr q) \<in> {''constructor'', ''__proto__''} then None else Some (0, []))" for si c
    unfolding list_users_def list_page_def by simp
  then show ?thesis using assms(1) by (simp add: case_prod_beta)
qed

end
