(* ===== verification/ProvisionSamples.thy ===== *)
theory ProvisionSamples
  imports ErasureProps OAuthSamples ReviewSamples
begin

text \<open>
  A small provisioned directory, one person with a connected client and one erased row, and the
  properties of provisioning on it.
\<close>

definition sample_row_id :: "nat \<Rightarrow> ident" where
  "sample_row_id n = CHR ''a'' # replicate n (CHR ''n'')"

lemma sample_row_inj: "inj sample_row_id"
proof (rule injI)
  fix m n assume "sample_row_id m = sample_row_id n"
  then have "length (sample_row_id m) = length (sample_row_id n)" by simp
  then show "m = n" by (simp add: sample_row_id_def)
qed

definition sample_person :: person where
  "sample_person = \<lparr>pn_id = ''ann'', pn_oid = Some ''oid'', pn_email = ''a@b'', pn_name = ''Ann'', pn_active = True,
     pn_avatar = None, pn_profile = no_profile, pn_prefs = default_prefs, pn_digest = default_digest, pn_erased = None\<rparr>"

definition sample_tombstone :: person where
  "sample_tombstone = scrub_person ''Deleted User'' 3 (sample_person\<lparr>pn_id := ''an''\<rparr>)"

definition sample_scim_db :: scim_db where
  "sample_scim_db = \<lparr>sd_people = [sample_person, sample_tombstone], sd_groups = [\<lparr>sg_id = ''a'', sg_oid = ''team'', sg_name = ''Team''\<rparr>],
     sd_members = [\<lparr>gm_user = ''ann'', gm_group = ''a''\<rparr>], sd_mappings = [], sd_tokens = [\<lparr>it_id = ''t'', it_user = ''ann''\<rparr>],
     sd_credits = [], sd_access_log = [], sd_tables = (\<lambda>_. []),
     sd_app = sample_review_store\<lparr>db_uuid := sample_row_id, db_used := 3\<rparr>, sd_oauth = sample_oauth_db, sd_now = 5\<rparr>"

lemma sample_row_ids [simp]:
  "sample_row_id 0 = ''a''" "sample_row_id (Suc 0) = ''an''" "sample_row_id 2 = ''ann''"
  by (simp_all add: sample_row_id_def numeral_2_eq_2)

lemma sample_scim_ok: "prov_inv sample_scim_db"
proof -
  have "{''a'', ''an'', ''ann''} \<subseteq> sample_row_id ` {..<3}"
    using image_eqI [of _ sample_row_id 0] image_eqI [of _ sample_row_id 1] image_eqI [of _ sample_row_id 2] by simp
  then show ?thesis
    by (simp add: prov_inv_def sd_ok_def sd_drawn_def sample_row_inj sample_scim_db_def person_keys_def group_keys_def
        sample_person_def sample_tombstone_def scrub_person_def)
qed

definition sample_graph :: graph_port where
  "sample_graph = \<lparr>gp_group = (\<lambda>g. if g = ''team'' then Some ''Team'' else None),
     gp_members = (\<lambda>_. Some [\<lparr>gu_oid = ''new'', gu_email = [], gu_name = ''New'', gu_active = True, gu_profile = no_profile\<rparr>]),
     gp_photo = (\<lambda>_. None)\<rparr>"

definition sample_update :: scim_user where
  "sample_update = \<lparr>sc_external = ''oid'', sc_email = [], sc_name = [], sc_active = True, sc_profile = None\<rparr>"

theorem reconcile_converges_witness:
  "\<exists>st db'. reconcile 5 (Some ''team'') sample_graph sample_scim_db = (Some st, db') \<and>
     members_of db' ''team'' = {''new''} \<and> members_of sample_scim_db ''team'' = {''oid''}"
proof -
  have "fst (reconcile 5 (Some ''team'') sample_graph sample_scim_db) \<noteq> None" by code_simp
  then obtain st db' where run: "reconcile 5 (Some ''team'') sample_graph sample_scim_db = (Some st, db')"
    by (cases "reconcile 5 (Some ''team'') sample_graph sample_scim_db") auto
  have "''team'' \<in> set (mapped_group_external_ids (Some ''team'') sample_scim_db)" by code_simp
  then have "members_of db' ''team'' = {''new''}"
    using reconcile_converges [OF _ run] sample_scim_ok by (simp add: prov_inv_def graph_members_def sample_graph_def)
  moreover have "group_member_external_ids ''team'' sample_scim_db = [Some ''oid'']" by code_simp
  ultimately show ?thesis using run by (auto simp: members_of_def)
qed

theorem deprovisioned_connections_dead_witness:
  "sd_tokens sample_scim_db \<noteq> [] \<and> \<not> list_ex (\<lambda>t. it_user t = ''ann'') (sd_tokens (deprovision_user ''oid'' sample_scim_db))"
proof -
  define w where "w = sample_world\<lparr>ow_db := mcp_server sample_scim_db\<rparr>"
  have "oauth_start w \<and> grants_distinct w"
    using sample_start by (simp add: oauth_start_def oauth_ids_ok_def grants_distinct_def grant_ids_def w_def sample_world_def
        mcp_server_def sample_scim_db_def)
  moreover have "person_by_oid sample_scim_db ''oid'' = Some sample_person" by code_simp
  moreover have "sample_grant \<in> set (oa_grants (sd_oauth sample_scim_db))" "og_user sample_grant = pn_id sample_person"
    by (simp_all add: sample_scim_db_def sample_oauth_db_def sample_grant_def sample_person_def)
  ultimately have "\<forall>t \<in> set (sd_tokens (deprovision_user ''oid'' sample_scim_db)). it_user t \<noteq> pn_id sample_person"
    using deprovisioned_connections_dead [where env = sample_env and ?w0.0 = w and w = w and db = sample_scim_db and ext = "''oid''"
        and p = sample_person and g = sample_grant and v = "w\<lparr>ow_db := mcp_server (deprovision_user ''oid'' sample_scim_db)\<rparr>"]
    by (simp add: steps_refl w_def)
  then show ?thesis by (simp add: list_ex_iff sample_scim_db_def sample_person_def)
qed

theorem reactivation_revives_credentials_witness:
  "let off = snd (upsert_user (sample_update\<lparr>sc_active := False\<rparr>) sample_scim_db);
       on = snd (upsert_user (sample_update\<lparr>sc_active := True\<rparr>) off)
   in map pn_active (sd_people off) = [False, False] \<and> mcp_server on = mcp_server sample_scim_db \<and>
      sd_tokens on = sd_tokens sample_scim_db"
proof -
  have "sd_ok sample_scim_db" using sample_scim_ok by (simp add: prov_inv_def)
  moreover have "person_by_oid sample_scim_db (sc_external sample_update) = Some sample_person" by code_simp
  moreover have "pn_active sample_person" by (simp add: sample_person_def)
  moreover have "map pn_active (sd_people (snd (upsert_user (sample_update\<lparr>sc_active := False\<rparr>) sample_scim_db))) = [False, False]"
    by code_simp
  ultimately show ?thesis using reactivation_revives_credentials [of sample_scim_db sample_update sample_person]
    by (simp add: Let_def)
qed


theorem erased_for_good_witness:
  "sample_tombstone \<in> set (sd_people (snd (handle_scim (DeleteUser ''oid'') sample_scim_db))) \<and> pn_oid sample_tombstone = None"
proof -
  have "sample_tombstone \<in> set (sd_people sample_scim_db)" by (simp add: sample_scim_db_def)
  moreover have "pn_erased sample_tombstone \<noteq> None" by (simp add: sample_tombstone_def scrub_person_def)
  moreover have "prov_run sample_app_env sample_scim_db (snd (handle_scim (DeleteUser ''oid'') sample_scim_db))"
    by (rule prov_more [OF prov_refl prov_scim])
  ultimately show ?thesis using erased_for_good [OF sample_scim_ok] by blast
qed

theorem unknown_filter_answers_witness:
  "fst (handle_scim (GetUsers (Some ''Constructor eq x'') None None) sample_scim_db) = ScimFailed \<and>
   fst (handle_scim (GetUsers (Some ''nickname eq x'') None None) sample_scim_db) = ScimUserList 0 1 []"
proof -
  have "parse_scim_filter (Some ''Constructor eq x'') = Some \<lparr>sf_attr = ''Constructor'', sf_value = ''x''\<rparr>"
    "parse_scim_filter (Some ''nickname eq x'') = Some \<lparr>sf_attr = ''nickname'', sf_value = ''x''\<rparr>"
    "js_lower ''Constructor'' = ''constructor''" "js_lower ''nickname'' = ''nickname''" "fst (parse_paging None None) = 1"
    by code_simp+
  then show ?thesis
    using unknown_filter_answers [of "Some ''Constructor eq x''"] unknown_filter_answers [of "Some ''nickname eq x''"]
    by (simp add: USER_FILTER_COLUMNS_def)
qed

end
