(* ===== verification/DigestClock.thy ===== *)
theory DigestClock
  imports ReviewTarget OAuthPolicy
begin

text \<open>
  Email digests, the part both tiers share: the types a digest may carry, the settings with their
  validation, the effective mode of a user and the clock of the send slots, all of
  \<open>packages/shared/src/email-digest.ts\<close> except the renderer.

  A time zone is its offset from UTC as a function of the instant; the database of zones is a
  parameter.
\<close>

section \<open>Types\<close>

definition DIGEST_DEFAULT_TYPES :: "string list" where
  "DIGEST_DEFAULT_TYPES =
     [''skill.new_version'', ''skill.discussion'', ''skill.shared'', ''skill.shared_new_version'', ''skill.marked_official'',
      ''skill.quality_low'', ''skill.hyped'', ''follow.new_skill'', ''follow.new_version'', ''follow.achievement'',
      ''follow.request_created'', ''follow.request_fulfilled'', ''follow.collection_created'', ''idea.submitted'',
      ''search_gaps.ready'', ''skill.search_gap_hidden_match'', ''skill.upstream_release'']"

definition DIGEST_OPTIONAL_TYPES :: "string list" where
  "DIGEST_OPTIONAL_TYPES =
     [''proposal.submitted'', ''proposal.import_submitted'', ''proposal.start_review'', ''proposal.request_changes'',
      ''proposal.changes_reminder'', ''proposal.accept'', ''proposal.reject'', ''proposal.policy_violation'', ''skill.drift'',
      ''skill.content_risk'', ''skill.policy_flag'', ''skill.ai_prereview_flagged'', ''skill.deprecated'', ''request.fulfilled'',
      ''idea.published'', ''idea.rejected'', ''idea.closed'', ''idea.shipped'']"

definition DIGEST_FLOOR_TYPES :: "string list" where
  "DIGEST_FLOOR_TYPES =
     [''message.new'', ''message.mention'', ''proposal.needs_review'', ''proposal.import_needs_review'', ''proposal.revise'',
      ''proposal.resubmit'', ''proposal.assigned'', ''proposal.review_overdue'', ''proposal.review_escalated'']"

definition DIGEST_CANDIDATE_TYPES :: "string list" where
  "DIGEST_CANDIDATE_TYPES = DIGEST_DEFAULT_TYPES @ DIGEST_OPTIONAL_TYPES"

definition is_digest_candidate :: "string \<Rightarrow> bool" where
  "is_digest_candidate t = (t \<in> set DIGEST_CANDIDATE_TYPES)"

section \<open>Modes and settings\<close>

datatype digest_mode = DigestImmediate | DigestDaily | DigestWeekly

definition mode_of :: "string \<Rightarrow> digest_mode option" where
  "mode_of s = (if s = ''immediate'' then Some DigestImmediate else if s = ''daily'' then Some DigestDaily
     else if s = ''weekly'' then Some DigestWeekly else None)"

definition mode_text :: "digest_mode \<Rightarrow> string" where
  "mode_text m = (case m of DigestImmediate \<Rightarrow> ''immediate'' | DigestDaily \<Rightarrow> ''daily'' | DigestWeekly \<Rightarrow> ''weekly'')"

definition parse_digest_mode :: "js_value \<Rightarrow> digest_mode option" where
  "parse_digest_mode v = (case v of JsText s \<Rightarrow> mode_of s | _ \<Rightarrow> None)"

record digest_settings =
  ds_enabled :: bool
  ds_mode :: digest_mode
  ds_hour :: int
  ds_weekday :: int
  ds_types :: "string list"

definition DEFAULT_DIGEST_SETTINGS :: digest_settings where
  "DEFAULT_DIGEST_SETTINGS = \<lparr>ds_enabled = True, ds_mode = DigestImmediate, ds_hour = 8, ds_weekday = 1,
     ds_types = DIGEST_DEFAULT_TYPES\<rparr>"

definition int_between :: "int \<Rightarrow> int \<Rightarrow> js_value \<Rightarrow> int option" where
  "int_between lo hi v = (case v of JsInteger n \<Rightarrow> if lo \<le> n \<and> n \<le> hi then Some n else None | _ \<Rightarrow> None)"

definition parse_digest_hour :: "js_value \<Rightarrow> int option" where
  "parse_digest_hour = int_between 0 23"

definition parse_digest_weekday :: "js_value \<Rightarrow> int option" where
  "parse_digest_weekday = int_between 1 7"

text \<open>The candidates a list has, in their own order.\<close>

definition candidates_in :: "js_value list \<Rightarrow> string list" where
  "candidates_in vs = filter (\<lambda>t. JsText t \<in> set vs) DIGEST_CANDIDATE_TYPES"

definition parse_digest_types :: "js_value \<Rightarrow> string list option" where
  "parse_digest_types v =
     (case v of
        JsArray vs \<Rightarrow>
          if list_all (\<lambda>x. case x of JsText t \<Rightarrow> is_digest_candidate t | _ \<Rightarrow> False) vs then Some (candidates_in vs) else None
      | _ \<Rightarrow> None)"

definition default_to :: "'a \<Rightarrow> 'a option \<Rightarrow> 'a" where
  "default_to d v = (case v of None \<Rightarrow> d | Some x \<Rightarrow> x)"

definition KEY_ENABLED :: string where "KEY_ENABLED = ''email_digests_enabled''"
definition KEY_MODE :: string where "KEY_MODE = ''email_digest_default_mode''"
definition KEY_HOUR :: string where "KEY_HOUR = ''email_digest_hour''"
definition KEY_WEEKDAY :: string where "KEY_WEEKDAY = ''email_digest_weekday''"
definition KEY_TYPES :: string where "KEY_TYPES = ''email_digest_types''"

definition coerce_digest_settings :: "(string \<Rightarrow> js_value) \<Rightarrow> digest_settings" where
  "coerce_digest_settings get =
     (let d = DEFAULT_DIGEST_SETTINGS in
      \<lparr>ds_enabled = (get KEY_ENABLED \<noteq> JsBool False),
       ds_mode = default_to (ds_mode d) (parse_digest_mode (get KEY_MODE)),
       ds_hour = default_to (ds_hour d) (parse_digest_hour (get KEY_HOUR)),
       ds_weekday = default_to (ds_weekday d) (parse_digest_weekday (get KEY_WEEKDAY)),
       ds_types = (case get KEY_TYPES of JsArray vs \<Rightarrow> candidates_in vs | _ \<Rightarrow> ds_types d)\<rparr>)"

section \<open>The effective mode\<close>

record digest_user =
  eu_email_on :: bool
  eu_choice :: "string option"
  eu_status :: "string option"
  eu_address :: "string option"

text \<open>\<open>None\<close> is off. An absent status or address is not checked.\<close>

definition effective_digest_mode :: "digest_user \<Rightarrow> digest_settings \<Rightarrow> digest_mode option" where
  "effective_digest_mode u s =
     (if \<not> eu_email_on u then None
      else if eu_status u \<noteq> None \<and> eu_status u \<noteq> Some ''active'' then None
      else if eu_address u \<noteq> None \<and> js_trim (the (eu_address u)) = [] then None
      else if \<not> ds_enabled s then Some DigestImmediate
      else Some (default_to (ds_mode s) (case eu_choice u of None \<Rightarrow> None | Some c \<Rightarrow> mode_of c)))"

definition is_digest_deferred :: "string \<Rightarrow> digest_mode option \<Rightarrow> digest_settings \<Rightarrow> bool" where
  "is_digest_deferred type mode s =
     ((mode = Some DigestDaily \<or> mode = Some DigestWeekly) \<and> type \<in> set (ds_types s))"

section \<open>Send slots\<close>

definition HOUR_MS :: int where
  "HOUR_MS = 3600000"

type_synonym zone = "instant \<Rightarrow> int"

definition zone_or_utc :: "(string \<Rightarrow> zone option) \<Rightarrow> string option \<Rightarrow> zone" where
  "zone_or_utc zones tz = (if truthy tz then default_to (\<lambda>_. 0) (zones (the tz)) else (\<lambda>_. 0))"

text \<open>The wall clock, whole seconds only.\<close>

definition wall_clock_ms :: "zone \<Rightarrow> instant \<Rightarrow> int" where
  "wall_clock_ms tz t = (t + tz t) - (t + tz t) mod 1000"

definition instant_for_wall_clock :: "zone \<Rightarrow> int \<Rightarrow> instant" where
  "instant_for_wall_clock tz wall =
     (let before = wall - 14 * HOUR_MS; later = wall + 14 * HOUR_MS;
          candidates = [wall - (wall_clock_ms tz before - before), wall - (wall_clock_ms tz later - later)];
          exact = filter (\<lambda>c. wall_clock_ms tz c = wall) candidates;
          after = filter (\<lambda>c. wall_clock_ms tz c > wall) candidates
      in if exact \<noteq> [] then Min (set exact) else if after \<noteq> [] then Min (set after) else Max (set candidates))"

text \<open>The loop of \<open>digestSlot\<close> with its guard. \<open>day\<close> is the local midnight of now as a wall clock.\<close>

definition slot_step :: "bool \<Rightarrow> int" where
  "slot_step weekly = (if weekly then 7 else 1)"

definition slot_at :: "zone \<Rightarrow> int \<Rightarrow> int \<Rightarrow> int \<Rightarrow> instant" where
  "slot_at tz day hour bk = instant_for_wall_clock tz (day - bk * DAY_MS + hour * HOUR_MS)"

function slot_loop :: "zone \<Rightarrow> instant \<Rightarrow> int \<Rightarrow> int \<Rightarrow> bool \<Rightarrow> int \<Rightarrow> instant" where
  "slot_loop tz now day hour weekly bk =
     (if slot_at tz day hour bk \<le> now then slot_at tz day hour bk
      else let bk' = bk + slot_step weekly
           in if bk' > 15 then now - slot_step weekly * DAY_MS else slot_loop tz now day hour weekly bk')"
  by pat_completeness auto
termination
  by (relation "measure (\<lambda>(tz, now, day, hour, weekly, bk). nat (16 - bk))") (auto simp: slot_step_def split: if_splits)

declare slot_loop.simps [simp del]

definition local_midnight :: "zone \<Rightarrow> instant \<Rightarrow> int" where
  "local_midnight tz now = wall_clock_ms tz now div DAY_MS * DAY_MS"

definition first_back :: "zone \<Rightarrow> instant \<Rightarrow> bool \<Rightarrow> int \<Rightarrow> int" where
  "first_back tz now weekly weekday =
     (let dow = utc_dow (wall_clock_ms tz now); iso = (if dow = 0 then 7 else dow)
      in if weekly then (iso - weekday + 7) mod 7 else 0)"

definition digest_slot :: "zone \<Rightarrow> instant \<Rightarrow> bool \<Rightarrow> int \<Rightarrow> int \<Rightarrow> instant" where
  "digest_slot tz now weekly hour weekday =
     slot_loop tz now (local_midnight tz now) hour weekly (first_back tz now weekly weekday)"

datatype digest_due_state = FirstSight | DigestIsDue | DigestNotDue

definition digest_due :: "instant option \<Rightarrow> instant \<Rightarrow> digest_due_state" where
  "digest_due stamped slot = (case stamped of None \<Rightarrow> FirstSight | Some t \<Rightarrow> if t < slot then DigestIsDue else DigestNotDue)"

end
