(* ===== verification/MailSweeps.thy ===== *)
theory MailSweeps
  imports DigestClock Store
begin

text \<open>
  The two mail sweeps of the worker over the table of notifications: the delivery sweep,
  \<open>deliverPendingNotifications\<close> of \<open>packages/worker/src/notify/deliver.ts\<close>, and the digest sweep of
  \<open>notify/digest.ts\<close>. Of a row the columns and payload fields the sweeps read are modelled; the wording of a
  message is not. A transport is a parameter that says how a send ends, and what left the system is
  a log.
\<close>

section \<open>State\<close>

datatype digest_state = NoDigestState | DigestPending | DigestSent | DigestDropped

record mail_row =
  mw_id :: ident
  mw_user :: ident
  mw_type :: string
  mw_skill_id :: "string option"
  mw_ns_slug :: "string option"
  mw_skill_slug :: "string option"
  mw_request_id :: "string option"
  mw_actor_id :: "string option"
  mw_actor_name :: "string option"
  mw_created :: instant
  mw_read :: bool
  mw_delivered :: "instant option"
  mw_attempts :: nat
  mw_error :: bool
  mw_digest :: digest_state

record mail_account =
  ma_id :: ident
  ma_email :: "string option"
  ma_active :: bool
  ma_notify :: bool
  ma_choice :: "string option"
  ma_zone :: "string option"
  ma_last :: "instant option"
  ma_failures :: nat

datatype mail_event = MailOf ident ident | DigestMail ident digest_mode "mail_row list" | WebhookOf ident

record mail_db =
  md_app :: app_db
  md_accounts :: "mail_account list"
  md_rows :: "mail_row list"
  md_log :: "mail_event list"

datatype send_outcome = SendOk | SendThrottled "nat option" | SendFailed

text \<open>The transports of a sweep, its clock, settings and limits.\<close>

record mail_env =
  me_email :: "(mail_account \<Rightarrow> mail_row list \<Rightarrow> send_outcome) option"
  me_webhook :: "(mail_row \<Rightarrow> bool) option"
  me_settings :: digest_settings
  me_zones :: "string \<Rightarrow> zone option"
  me_now :: instant
  me_max :: nat
  me_batch :: nat

definition set_row :: "ident \<Rightarrow> (mail_row \<Rightarrow> mail_row) \<Rightarrow> mail_db \<Rightarrow> mail_db" where
  "set_row i f db = db\<lparr>md_rows := map (\<lambda>r. if mw_id r = i then f r else r) (md_rows db)\<rparr>"

definition log_mail :: "mail_event \<Rightarrow> mail_db \<Rightarrow> mail_db" where
  "log_mail e db = db\<lparr>md_log := md_log db @ [e]\<rparr>"

definition account_of :: "mail_db \<Rightarrow> ident \<Rightarrow> mail_account option" where
  "account_of db u = find (\<lambda>a. ma_id a = u) (md_accounts db)"

definition status_of :: "mail_account \<Rightarrow> string" where
  "status_of a = (if ma_active a then ''active'' else ''inactive'')"

section \<open>The delivery sweep\<close>

definition FOLLOW_TYPES :: "string list" where
  "FOLLOW_TYPES = [''follow.new_skill'', ''follow.new_version'', ''follow.achievement'', ''follow.request_created'',
     ''follow.request_fulfilled'', ''follow.collection_created'']"

definition in_app_only :: "string \<Rightarrow> bool" where
  "in_app_only type = (type = ''achievement.earned'' \<or> type \<in> set FOLLOW_TYPES)"

text \<open>The recipient as the rule of the digests sees it: the address as stored, the status checked.\<close>

definition digest_view :: "mail_account \<Rightarrow> digest_user" where
  "digest_view a = \<lparr>eu_email_on = ma_notify a, eu_choice = ma_choice a, eu_status = Some (status_of a),
     eu_address = Some (case ma_email a of None \<Rightarrow> [] | Some e \<Rightarrow> e)\<rparr>"

definition deferred_for :: "mail_env \<Rightarrow> mail_account \<Rightarrow> mail_row \<Rightarrow> bool" where
  "deferred_for env a r = is_digest_deferred (mw_type r) (effective_digest_mode (digest_view a) (me_settings env)) (me_settings env)"

definition mark_delivered :: "mail_env \<Rightarrow> bool \<Rightarrow> mail_row \<Rightarrow> mail_row" where
  "mark_delivered env deferred r =
     (if deferred then r\<lparr>mw_delivered := Some (me_now env), mw_digest := DigestPending\<rparr>
      else r\<lparr>mw_delivered := Some (me_now env)\<rparr>)"

definition email_goes :: "mail_env \<Rightarrow> mail_account \<Rightarrow> mail_row \<Rightarrow> bool" where
  "email_goes env a r = (\<not> deferred_for env a r \<and> me_email env \<noteq> None \<and> truthy (ma_email a) \<and> ma_notify a)"

text \<open>The e-mail of a row, then its webhook: the database with what went out, and how it ended.\<close>

definition send_row :: "mail_env \<Rightarrow> mail_account \<Rightarrow> mail_row \<Rightarrow> mail_db \<Rightarrow> send_outcome \<times> mail_db" where
  "send_row env a r db =
     (let (o1, db1) = (if email_goes env a r
            then (case (the (me_email env)) a [r] of
                    SendOk \<Rightarrow> (SendOk, log_mail (MailOf (ma_id a) (mw_id r)) db)
                  | e \<Rightarrow> (e, db))
            else (SendOk, db))
      in if o1 \<noteq> SendOk then (o1, db1)
         else case me_webhook env of
           None \<Rightarrow> (SendOk, db1)
         | Some hook \<Rightarrow> if hook r then (SendOk, log_mail (WebhookOf (mw_id r)) db1) else (SendFailed, db1))"

record delivery_result =
  dr_delivered :: nat
  dr_failed :: nat
  dr_retry :: "nat option"

text \<open>One row of the batch; \<open>True\<close> stops the batch.\<close>

definition deliver_row ::
  "mail_env \<Rightarrow> mail_account \<Rightarrow> mail_row \<Rightarrow> delivery_result \<times> mail_db \<Rightarrow> bool \<times> delivery_result \<times> mail_db" where
  "deliver_row env a r acc =
     (case acc of (res, db) \<Rightarrow>
        let deferred = deferred_for env a r;
            done = (\<lambda>d. (False, res\<lparr>dr_delivered := dr_delivered res + 1\<rparr>, set_row (mw_id r) (mark_delivered env deferred) d))
        in if (me_email env = None \<and> me_webhook env = None) \<or> in_app_only (mw_type r) then done db
           else case send_row env a r db of
             (SendOk, db1) \<Rightarrow> done db1
           | (SendThrottled after, db1) \<Rightarrow>
               (True, res\<lparr>dr_failed := dr_failed res + 1, dr_retry := Some (default_to 30 after)\<rparr>,
                set_row (mw_id r) (mw_error_update (\<lambda>_. True)) db1)
           | (SendFailed, db1) \<Rightarrow>
               (False, res\<lparr>dr_failed := dr_failed res + 1\<rparr>,
                set_row (mw_id r) (\<lambda>x. x\<lparr>mw_attempts := mw_attempts x + 1, mw_error := True\<rparr>) db1))"

fun deliver_rows ::
  "mail_env \<Rightarrow> (mail_account \<times> mail_row) list \<Rightarrow> delivery_result \<times> mail_db \<Rightarrow> delivery_result \<times> mail_db" where
  "deliver_rows env [] acc = acc"
| "deliver_rows env ((a, r) # rest) acc =
     (case deliver_row env a r acc of (stop, acc') \<Rightarrow> if stop then acc' else deliver_rows env rest acc')"

definition undelivered :: "mail_env \<Rightarrow> mail_row \<Rightarrow> bool" where
  "undelivered env r = (mw_delivered r = None \<and> mw_attempts r < me_max env)"

definition delivery_batch :: "mail_env \<Rightarrow> mail_db \<Rightarrow> (mail_account \<times> mail_row) list" where
  "delivery_batch env db =
     take (me_batch env)
       (concat (map (\<lambda>r. case account_of db (mw_user r) of None \<Rightarrow> [] | Some a \<Rightarrow> [(a, r)])
          (sort_key mw_created (filter (undelivered env) (md_rows db)))))"

definition deliver_pending_notifications :: "mail_env \<Rightarrow> mail_db \<Rightarrow> delivery_result \<times> mail_db" where
  "deliver_pending_notifications env db =
     deliver_rows env (delivery_batch env db) (\<lparr>dr_delivered = 0, dr_failed = 0, dr_retry = None\<rparr>, db)"

section \<open>The digest sweep\<close>

definition in_digest_mode :: "digest_settings \<Rightarrow> mail_account \<Rightarrow> bool" where
  "in_digest_mode s a =
     (ds_enabled s \<and> ma_active a \<and> ma_notify a \<and> truthy (ma_email a) \<and>
      (case ma_choice a of None \<Rightarrow> mode_text (ds_mode s) | Some c \<Rightarrow> c) \<in> {''daily'', ''weekly''})"

definition settle :: "ident list \<Rightarrow> digest_state \<Rightarrow> mail_db \<Rightarrow> mail_db" where
  "settle is st db = db\<lparr>md_rows := map (\<lambda>r. if mw_id r \<in> set is \<and> mw_digest r = DigestPending then r\<lparr>mw_digest := st\<rparr> else r) (md_rows db)\<rparr>"

text \<open>Closing a slot: nothing when the choice is no longer the one that was read.\<close>

definition stamp_account :: "mail_account \<Rightarrow> instant \<Rightarrow> mail_db \<Rightarrow> mail_db" where
  "stamp_account a slot db = db\<lparr>md_accounts := map (\<lambda>x. if ma_id x = ma_id a \<and> ma_choice x = ma_choice a
     then x\<lparr>ma_last := Some slot, ma_failures := 0\<rparr> else x) (md_accounts db)\<rparr>"

text \<open>The re-checks of a row.\<close>

definition names_skill :: "mail_row \<Rightarrow> bool" where
  "names_skill r = (take 9 (mw_type r) \<noteq> ''proposal.'' \<and> (truthy (mw_skill_id r) \<or> truthy (mw_skill_slug r)))"

definition skill_named :: "app_db \<Rightarrow> mail_row \<Rightarrow> catalog_skill \<Rightarrow> bool" where
  "skill_named app r s =
     list_ex (\<lambda>n. nr_id n = sk_namespace s \<and>
        (if truthy (mw_skill_id r) then mw_skill_id r = Some (sk_id s)
         else mw_ns_slug r = Some (nr_slug n) \<and> mw_skill_slug r = Some (cs_slug s))) (db_namespaces app)"

definition skill_ok :: "app_db \<Rightarrow> ident \<Rightarrow> mail_row \<Rightarrow> bool" where
  "skill_ok app u r =
     (if names_skill r
      then list_ex (\<lambda>s. skill_named app r s \<and> cs_active s \<and> user_can_see_skill_sql u (db_access app) (base_row s)) (db_skills app)
      else True)"

definition request_ok :: "app_db \<Rightarrow> mail_row \<Rightarrow> bool" where
  "request_ok app r =
     (if truthy (mw_request_id r) then list_ex (\<lambda>q. Some (rq_id q) = mw_request_id r) (db_requests app) else True)"

definition still_wanted :: "app_db \<Rightarrow> ident \<Rightarrow> mail_row \<Rightarrow> bool" where
  "still_wanted app u r = (\<not> mw_read r \<and> skill_ok app u r \<and> request_ok app r)"

definition load_pending :: "mail_db \<Rightarrow> ident \<Rightarrow> mail_row list" where
  "load_pending db u = sort_key mw_created (filter (\<lambda>r. mw_user r = u \<and> mw_digest r = DigestPending) (md_rows db))"

definition shown_row :: "app_db \<Rightarrow> mail_row \<Rightarrow> mail_row" where
  "shown_row app r =
     (if truthy (mw_actor_id r) \<and> db_erased app (the (mw_actor_id r)) \<noteq> None
      then r\<lparr>mw_actor_name := Some ''Deleted User''\<rparr> else r)"

record digest_result =
  dg_sent :: nat
  dg_empty :: nat
  dg_dropped :: nat
  dg_failed :: nat
  dg_retry :: "nat option"

definition weekly_mode :: "mail_env \<Rightarrow> mail_account \<Rightarrow> digest_mode option" where
  "weekly_mode env a = effective_digest_mode
     \<lparr>eu_email_on = True, eu_choice = ma_choice a, eu_status = None, eu_address = None\<rparr> (me_settings env)"

definition slot_of :: "mail_env \<Rightarrow> mail_account \<Rightarrow> digest_mode \<Rightarrow> instant" where
  "slot_of env a m = digest_slot (zone_or_utc (me_zones env) (ma_zone a)) (me_now env) (m = DigestWeekly)
     (ds_hour (me_settings env)) (ds_weekday (me_settings env))"

text \<open>The send of a due user and what follows from its end; \<open>True\<close> stops the sweep.\<close>

definition send_digest ::
  "mail_env \<Rightarrow> mail_account \<Rightarrow> digest_mode \<Rightarrow> instant \<Rightarrow> mail_row list \<Rightarrow> digest_result \<times> mail_db \<Rightarrow> bool \<times> digest_result \<times> mail_db" where
  "send_digest env a m slot keep acc =
     (case acc of (res, db) \<Rightarrow>
        let rows = map (shown_row (md_app db)) keep; ids = map mw_id keep in
        case (the (me_email env)) a rows of
          SendOk \<Rightarrow>
            (False, res\<lparr>dg_sent := dg_sent res + 1\<rparr>,
             stamp_account a slot (settle ids DigestSent (log_mail (DigestMail (ma_id a) m rows) db)))
        | SendThrottled after \<Rightarrow>
            (True, res\<lparr>dg_failed := dg_failed res + 1, dg_retry := Some (default_to 30 after)\<rparr>, db)
        | SendFailed \<Rightarrow>
            (if ma_failures a + 1 \<ge> me_max env
             then (False, res\<lparr>dg_failed := dg_failed res + 1, dg_dropped := dg_dropped res + length keep\<rparr>,
                   stamp_account a slot (settle ids DigestDropped db))
             else (False, res\<lparr>dg_failed := dg_failed res + 1\<rparr>,
                   db\<lparr>md_accounts := map (\<lambda>x. if ma_id x = ma_id a then x\<lparr>ma_failures := ma_failures x + 1\<rparr> else x) (md_accounts db)\<rparr>)))"

definition sweep_due ::
  "mail_env \<Rightarrow> mail_account \<Rightarrow> digest_mode \<Rightarrow> instant \<Rightarrow> digest_result \<times> mail_db \<Rightarrow> bool \<times> digest_result \<times> mail_db" where
  "sweep_due env a m slot acc =
     (case acc of (res, db) \<Rightarrow>
        let pending = load_pending db (ma_id a);
            keep = filter (still_wanted (md_app db) (ma_id a)) pending;
            drop = (if me_email env \<noteq> None then filter (\<lambda>r. \<not> still_wanted (md_app db) (ma_id a) r) pending else pending);
            res1 = res\<lparr>dg_dropped := dg_dropped res + length drop\<rparr>;
            db1 = settle (map mw_id drop) DigestDropped db
        in if me_email env = None \<or> keep = []
           then (False, if me_email env \<noteq> None then res1\<lparr>dg_empty := dg_empty res1 + 1\<rparr> else res1, stamp_account a slot db1)
           else send_digest env a m slot keep (res1, db1))"

definition sweep_account ::
  "mail_env \<Rightarrow> mail_account \<Rightarrow> digest_result \<times> mail_db \<Rightarrow> bool \<times> digest_result \<times> mail_db" where
  "sweep_account env a acc =
     (case weekly_mode env a of
        Some m \<Rightarrow>
          if m = DigestImmediate then (False, acc)
          else (let slot = slot_of env a m in
                case digest_due (ma_last a) slot of
                  DigestNotDue \<Rightarrow> (False, acc)
                | FirstSight \<Rightarrow> (False, fst acc, stamp_account a slot (snd acc))
                | DigestIsDue \<Rightarrow> sweep_due env a m slot acc)
      | None \<Rightarrow> (False, acc))"

fun sweep_accounts :: "mail_env \<Rightarrow> mail_account list \<Rightarrow> digest_result \<times> mail_db \<Rightarrow> digest_result \<times> mail_db" where
  "sweep_accounts env [] acc = acc"
| "sweep_accounts env (a # as) acc =
     (case sweep_account env a acc of (stop, acc') \<Rightarrow> if stop then acc' else sweep_accounts env as acc')"

definition left_digest :: "mail_env \<Rightarrow> mail_db \<Rightarrow> mail_row \<Rightarrow> bool" where
  "left_digest env db r =
     (mw_digest r = DigestPending \<and>
      (case account_of db (mw_user r) of None \<Rightarrow> False | Some a \<Rightarrow> \<not> in_digest_mode (me_settings env) a))"

text \<open>Users stamped within the last 22 hours are skipped.\<close>

definition maybe_due :: "mail_env \<Rightarrow> mail_account \<Rightarrow> bool" where
  "maybe_due env a =
     (in_digest_mode (me_settings env) a \<and>
      (case ma_last a of None \<Rightarrow> True | Some t \<Rightarrow> t < me_now env - 22 * HOUR_MS))"

definition run_digest_sweep :: "mail_env \<Rightarrow> mail_db \<Rightarrow> digest_result \<times> mail_db" where
  "run_digest_sweep env db =
     (let gone = filter (left_digest env db) (md_rows db);
          db1 = settle (map mw_id gone) DigestDropped db;
          res = \<lparr>dg_sent = 0, dg_empty = 0, dg_dropped = length gone, dg_failed = 0, dg_retry = None\<rparr>
      in if \<not> ds_enabled (me_settings env) then (res, db1)
         else sweep_accounts env (filter (maybe_due env) (md_accounts db1)) (res, db1))"

end
