(* ===== verification/DigestFacts.thy ===== *)
theory DigestFacts
  imports DigestClock
begin

text \<open>
  The facts of the slot clock: the loop finds a slot before its guard in every zone, what a wall
  clock time means around a transition, and the slots of a zone without transitions.
\<close>

section \<open>The loop ends at a slot\<close>

definition offsets_within :: "int \<Rightarrow> zone \<Rightarrow> bool" where
  "offsets_within k tz = (\<forall>t. \<bar>tz t\<bar> \<le> k)"

lemma wall_bounds:
  assumes "offsets_within (14 * HOUR_MS) tz"
  shows "t - 14 * HOUR_MS - 1000 < wall_clock_ms tz t" "wall_clock_ms tz t \<le> t + 14 * HOUR_MS"
proof -
  have "\<bar>tz t\<bar> \<le> 14 * HOUR_MS" using assms by (simp add: offsets_within_def)
  moreover have "0 \<le> (t + tz t) mod 1000" "(t + tz t) mod 1000 < 1000" by simp_all
  ultimately show "t - 14 * HOUR_MS - 1000 < wall_clock_ms tz t" "wall_clock_ms tz t \<le> t + 14 * HOUR_MS"
    unfolding wall_clock_ms_def by linarith+
qed

lemma instant_is_candidate:
  "instant_for_wall_clock tz wall \<in>
     {wall - (wall_clock_ms tz (wall - 14 * HOUR_MS) - (wall - 14 * HOUR_MS)),
      wall - (wall_clock_ms tz (wall + 14 * HOUR_MS) - (wall + 14 * HOUR_MS))}"
proof -
  define cs where "cs = [wall - (wall_clock_ms tz (wall - 14 * HOUR_MS) - (wall - 14 * HOUR_MS)),
      wall - (wall_clock_ms tz (wall + 14 * HOUR_MS) - (wall + 14 * HOUR_MS))]"
  have pick: "Min (set (filter P cs)) \<in> set cs" if "filter P cs \<noteq> []" for P
    using Min_in [of "set (filter P cs)"] that set_filter [of P cs] by (metis List.finite_set filter_is_subset set_empty subsetD)
  have "instant_for_wall_clock tz wall \<in> set cs"
    unfolding instant_for_wall_clock_def Let_def cs_def [symmetric]
    using pick Max_in [of "set cs"] by (auto simp: cs_def simp del: filter.simps)
  then show ?thesis by (simp add: cs_def)
qed

lemma instant_bounds:
  assumes "offsets_within (14 * HOUR_MS) tz"
  shows "instant_for_wall_clock tz wall < wall + 14 * HOUR_MS + 1000"
  using instant_is_candidate [of tz wall] wall_bounds(1) [OF assms, of "wall - 14 * HOUR_MS"]
    wall_bounds(1) [OF assms, of "wall + 14 * HOUR_MS"] by auto

lemma slot_at_past:
  assumes "offsets_within (14 * HOUR_MS) tz" "hour \<le> 23" "3 \<le> bk"
  shows "slot_at tz (local_midnight tz now) hour bk \<le> now"
proof -
  have "local_midnight tz now \<le> wall_clock_ms tz now"
    unfolding local_midnight_def DAY_MS_def by (simp add: minus_mod_eq_div_mult [symmetric])
  then show ?thesis
    using instant_bounds [OF assms(1), of "local_midnight tz now - bk * DAY_MS + hour * HOUR_MS"]
      wall_bounds(2) [OF assms(1), of now] assms(2,3)
    by (simp add: slot_at_def HOUR_MS_def DAY_MS_def)
qed

lemma slot_loop_finds:
  assumes "\<And>b. 3 \<le> b \<Longrightarrow> slot_at tz day hour b \<le> now"
  shows "\<exists>k. slot_loop tz now day hour weekly bk = slot_at tz day hour (bk + int k * slot_step weekly) \<and>
    slot_at tz day hour (bk + int k * slot_step weekly) \<le> now \<and>
    (\<forall>j < k. now < slot_at tz day hour (bk + int j * slot_step weekly))"
  using assms
proof (induction tz now day hour weekly bk rule: slot_loop.induct)
  case (1 tz now day hour weekly bk)
  show ?case
  proof (cases "slot_at tz day hour bk \<le> now")
    case True
    then show ?thesis by (intro exI [of _ 0]) (simp add: slot_loop.simps)
  next
    case False
    then have "bk < 3" using 1(2) [of bk] by (cases "3 \<le> bk") auto
    then have small: "\<not> bk + slot_step weekly > 15" by (simp add: slot_step_def)
    obtain k where k: "slot_loop tz now day hour weekly (bk + slot_step weekly) =
          slot_at tz day hour (bk + slot_step weekly + int k * slot_step weekly)"
        "slot_at tz day hour (bk + slot_step weekly + int k * slot_step weekly) \<le> now"
        "\<forall>j < k. now < slot_at tz day hour (bk + slot_step weekly + int j * slot_step weekly)"
      using 1(1) [OF False refl small 1(2)] by blast
    have shift: "bk + int (Suc j) * slot_step weekly = bk + slot_step weekly + int j * slot_step weekly" for j
      by (simp add: algebra_simps)
    have "now < slot_at tz day hour (bk + int j * slot_step weekly)" if "j < Suc k" for j
      using that False k(3) by (cases j) (simp_all add: algebra_simps)
    then show ?thesis
      using k(1,2) False small by (intro exI [of _ "Suc k"]) (simp only: shift slot_loop.simps [of tz now day hour weekly bk] Let_def if_False, simp)
  qed
qed

text \<open>
  C32: The loop of \<open>digestSlot\<close> ends before its guard in every time zone whose offset stays within
  fourteen hours: the answer is the slot of one of the days tried, not in the future, and every day tried
  before has its slot in the future.
\<close>

theorem digest_slot_found:
  assumes "offsets_within (14 * HOUR_MS) tz" "hour \<le> 23"
  shows "\<exists>k. let slot_of = (\<lambda>j. slot_at tz (local_midnight tz now) hour (first_back tz now weekly weekday + int j * slot_step weekly))
    in digest_slot tz now weekly hour weekday = slot_of k \<and> slot_of k \<le> now \<and> list_all (\<lambda>j. now < slot_of j) [0..<k] \<and>
       first_back tz now weekly weekday + int k * slot_step weekly \<le> 13"
proof -
  let ?s = "\<lambda>j. slot_at tz (local_midnight tz now) hour (first_back tz now weekly weekday + int j * slot_step weekly)"
  have past: "3 \<le> b \<Longrightarrow> slot_at tz (local_midnight tz now) hour b \<le> now" for b
    by (rule slot_at_past [OF assms])
  obtain k where k: "digest_slot tz now weekly hour weekday = ?s k" "?s k \<le> now" "\<forall>j < k. now < ?s j"
    using slot_loop_finds [where tz = tz and now = now and day = "local_midnight tz now" and hour = hour and weekly = weekly
        and bk = "first_back tz now weekly weekday"] past
    unfolding digest_slot_def by blast
  have "x mod 7 \<le> 6" for x :: int using pos_mod_bound [of 7 x] by linarith
  then have f: "0 \<le> first_back tz now weekly weekday" "first_back tz now weekly weekday \<le> 6"
    by (simp_all add: first_back_def Let_def)
  have "first_back tz now weekly weekday + int k * slot_step weekly \<le> 13"
  proof (cases k)
    case (Suc j)
    then have "now < ?s j" using k(3) by simp
    then have "first_back tz now weekly weekday + int j * slot_step weekly < 3"
      using past [of "first_back tz now weekly weekday + int j * slot_step weekly"] by linarith
    then show ?thesis using f Suc by (cases weekly) (simp_all add: slot_step_def algebra_simps)
  qed (use f in simp)
  then show ?thesis using k by (intro exI [of _ k]) (simp add: Let_def list_all_iff)
qed

section \<open>Around a transition\<close>

definition one_transition :: "instant \<Rightarrow> int \<Rightarrow> int \<Rightarrow> zone" where
  "one_transition T a b = (\<lambda>t. if t < T then a else b)"

lemma wall_whole: "(t + tz t) mod 1000 = 0 \<Longrightarrow> wall_clock_ms tz t = t + tz t"
  by (simp add: wall_clock_ms_def)

lemma wall_whole_transition:
  assumes "1000 dvd t" "1000 dvd a" "1000 dvd b"
  shows "wall_clock_ms (one_transition T a b) t = t + (if t < T then a else b)"
  using assms by (auto simp: wall_clock_ms_def one_transition_def dvd_add mod_0_imp_dvd dvd_imp_mod_0)

lemma wall_at_most: "wall_clock_ms tz t \<le> t + tz t"
  by (simp add: wall_clock_ms_def)

lemma instant_around_transition:
  assumes "1000 dvd w" "1000 dvd a" "1000 dvd b" "\<bar>a\<bar> \<le> 14 * HOUR_MS" "\<bar>b\<bar> \<le> 14 * HOUR_MS"
  shows "instant_for_wall_clock (one_transition T a b) w = (if w < T + a \<or> w < T + b then w - a else w - b)"
proof -
  have h: "1000 dvd 14 * HOUR_MS" by (simp add: HOUR_MS_def)
  have d: "1000 dvd w - 14 * HOUR_MS" "1000 dvd w + 14 * HOUR_MS" "1000 dvd w - a" "1000 dvd w - b"
    using assms(1-3) h by (simp_all add: dvd_add dvd_diff)
  note wall = d [THEN wall_whole_transition, OF assms(2,3), of T]
  have ab: "- (14 * HOUR_MS) \<le> a" "a \<le> 14 * HOUR_MS" "- (14 * HOUR_MS) \<le> b" "b \<le> 14 * HOUR_MS" using assms(4,5) by auto
  consider (after) "T \<le> w - 14 * HOUR_MS" | (before) "w + 14 * HOUR_MS < T"
    | (mixed) "w - 14 * HOUR_MS < T" "T \<le> w + 14 * HOUR_MS" by linarith
  then show ?thesis
  proof cases
    case after
    then have "wall_clock_ms (one_transition T a b) (w - b) = w" "\<not> w - 14 * HOUR_MS < T" "\<not> w + 14 * HOUR_MS < T" "w \<ge> T + a" "w \<ge> T + b"
      using wall(4) ab by auto
    then show ?thesis using wall(1,2) by (simp add: instant_for_wall_clock_def Let_def)
  next
    case before
    then have "wall_clock_ms (one_transition T a b) (w - a) = w" "w - 14 * HOUR_MS < T" "w < T + a"
      using wall(3) ab by auto
    then show ?thesis using wall(1,2) before by (simp add: instant_for_wall_clock_def Let_def)
  next
    case mixed
    then show ?thesis using wall by (auto simp: instant_for_wall_clock_def Let_def min_def)
  qed
qed

text \<open>
  In a zone with one transition, a wall clock time that occurs resolves to its first occurrence. A time
  the transition skips resolves to the time as far after the transition as it lies in the gap: to
  the next instant that exists only where the gap begins.
\<close>

theorem wall_clock_resolved:
  assumes "1000 dvd w" "1000 dvd a" "1000 dvd b" "\<bar>a\<bar> \<le> 14 * HOUR_MS" "\<bar>b\<bar> \<le> 14 * HOUR_MS" "1000 dvd T"
  shows "let tz = one_transition T a b; r = instant_for_wall_clock tz w
    in if T + a \<le> w \<and> w < T + b then wall_clock_ms tz t \<noteq> w \<and> r = T + (w - (T + a))
       else wall_clock_ms tz r = w \<and> (if wall_clock_ms tz t = w then r \<le> t else True)"
proof -
  let ?tz = "one_transition T a b"
  have r: "instant_for_wall_clock ?tz w = (if w < T + a \<or> w < T + b then w - a else w - b)"
    by (rule instant_around_transition [OF assms(1-5)])
  have d: "1000 dvd w - a" "1000 dvd w - b" using assms(1-3) by (simp_all add: dvd_diff)
  note wall = d [THEN wall_whole_transition, OF assms(2,3), of T]
  have t: "w \<le> t + (if t < T then a else b)" if "wall_clock_ms ?tz t = w"
    using wall_at_most [of ?tz t] that by (simp add: one_transition_def)
  show ?thesis
  proof (cases "T + a \<le> w \<and> w < T + b")
    case True
    have "wall_clock_ms ?tz t \<noteq> w"
    proof (cases "t < T")
      case False
      have "T + b \<le> wall_clock_ms ?tz t"
      proof -
        have "(T + b) div 1000 * 1000 = T + b" using assms(3,6) by (simp add: dvd_add)
        moreover have "(T + b) div 1000 \<le> (t + b) div 1000" using False by (intro zdiv_mono1) auto
        moreover have "wall_clock_ms ?tz t = (t + b) div 1000 * 1000"
          using False by (simp add: wall_clock_ms_def one_transition_def minus_mod_eq_div_mult)
        ultimately show ?thesis by linarith
      qed
      then show ?thesis using True by simp
    qed (use t True in auto)
    then show ?thesis using r True by (simp add: Let_def)
  next
    case False
    then have "wall_clock_ms ?tz (instant_for_wall_clock ?tz w) = w" using r wall by auto
    moreover have "instant_for_wall_clock ?tz w \<le> t" if "wall_clock_ms ?tz t = w"
      using t [OF that] r False by (auto split: if_splits)
    ultimately show ?thesis using False by (auto simp: Let_def)
  qed
qed

section \<open>A zone without transitions\<close>

lemma fixed_instant:
  assumes "1000 dvd w" "1000 dvd off" "\<bar>off\<bar> \<le> 14 * HOUR_MS"
  shows "instant_for_wall_clock (\<lambda>_. off) w = w - off"
  using instant_around_transition [where T = 0, OF assms(1,2,2,3,3)] by (simp add: one_transition_def)

text \<open>The slot is the one point of its grid in the period that ends now.\<close>

lemma fixed_slot:
  assumes off: "1000 dvd off" "\<bar>off\<bar> \<le> 14 * HOUR_MS" and hour: "0 \<le> hour" "hour \<le> 23"
  shows "\<exists>d. digest_slot (\<lambda>_. off) now weekly hour weekday = d * DAY_MS + hour * HOUR_MS - off \<and>
    d * DAY_MS + hour * HOUR_MS - off \<le> now \<and> now < (d + slot_step weekly) * DAY_MS + hour * HOUR_MS - off \<and>
    d mod slot_step weekly = (if weekly then (weekday - 4) mod 7 else 0)"
proof -
  let ?tz = "\<lambda>_ :: instant. off"
  define D where "D = (now + off) div DAY_MS"
  define f where "f = first_back ?tz now weekly weekday"
  have whole: "1000 dvd DAY_MS" "1000 dvd HOUR_MS" by (simp_all add: DAY_MS_def HOUR_MS_def)
  have wall: "wall_clock_ms ?tz now div DAY_MS = D"
  proof -
    have "((now + off) div 1000 * 1000) div (86400 * 1000) = (now + off) div 1000 div 86400"
      by (metis div_mult_mult2 zero_neq_numeral)
    also have "\<dots> = (now + off) div (1000 * 86400)" by (simp add: zdiv_zmult2_eq [symmetric])
    finally show ?thesis by (simp add: wall_clock_ms_def D_def DAY_MS_def minus_mod_eq_div_mult)
  qed
  have at: "slot_at ?tz (local_midnight ?tz now) hour b = (D - b) * DAY_MS + hour * HOUR_MS - off" for b
  proof -
    have "slot_at ?tz (local_midnight ?tz now) hour b = (D * DAY_MS - b * DAY_MS + hour * HOUR_MS) - off"
      unfolding slot_at_def local_midnight_def wall by (rule fixed_instant) (use off whole in \<open>simp_all add: dvd_add dvd_diff\<close>)
    then show ?thesis by (simp add: algebra_simps)
  qed
  have within: "offsets_within (14 * HOUR_MS) ?tz" using off(2) by (simp add: offsets_within_def)
  have past: "slot_at ?tz (local_midnight ?tz now) hour b \<le> now" if "3 \<le> b" for b
    by (rule slot_at_past [OF within hour(2) that])
  obtain k where k: "digest_slot ?tz now weekly hour weekday = (D - (f + int k * slot_step weekly)) * DAY_MS + hour * HOUR_MS - off"
    "(D - (f + int k * slot_step weekly)) * DAY_MS + hour * HOUR_MS - off \<le> now"
    "\<forall>j < k. now < (D - (f + int j * slot_step weekly)) * DAY_MS + hour * HOUR_MS - off"
    using slot_loop_finds [where tz = ?tz and now = now and day = "local_midnight ?tz now" and hour = hour and weekly = weekly and bk = f] past
    unfolding digest_slot_def f_def [symmetric] at by blast
  have iso: "((if x mod 7 = 0 then 7 else x mod 7) - weekday + 7) mod 7 = (x - weekday) mod 7" for x :: int
  proof -
    have "((if x mod 7 = 0 then 7 else x mod 7) - weekday + 7) mod 7 = ((if x mod 7 = 0 then 7 else x mod 7) - weekday) mod 7"
      by (rule mod_add_self2)
    also have "\<dots> = ((if x mod 7 = 0 then 7 else x mod 7) mod 7 - weekday) mod 7" by (rule mod_diff_left_eq [symmetric])
    also have "(if x mod 7 = 0 then 7 else x mod 7) mod 7 = x mod 7" by simp
    finally show ?thesis by (simp only: mod_diff_left_eq)
  qed
  have fd: "f = (if weekly then (D + 4 - weekday) mod 7 else 0)"
    unfolding f_def first_back_def Let_def utc_dow_def wall iso by simp
  have "(D - (D + 4 - weekday) mod 7) mod 7 = (weekday - 4) mod 7" by (simp add: mod_diff_right_eq algebra_simps)
  then have f: "0 \<le> f" "f < slot_step weekly" "(D - f) mod slot_step weekly = (if weekly then (weekday - 4) mod 7 else 0)"
    unfolding fd by (simp_all add: slot_step_def)
  have "now < (D - (f + int k * slot_step weekly) + slot_step weekly) * DAY_MS + hour * HOUR_MS - off"
  proof (cases k)
    case 0
    have "now + off < (D + 1) * DAY_MS" by (simp add: D_def DAY_MS_def algebra_simps)
    moreover have "(D + 1) * DAY_MS \<le> (D - f + slot_step weekly) * DAY_MS" using f(2) by (intro mult_right_mono) (simp_all add: DAY_MS_def)
    moreover have "0 \<le> hour * HOUR_MS" using hour(1) by (simp add: HOUR_MS_def)
    ultimately show ?thesis using 0 by simp
  next
    case (Suc j)
    then show ?thesis using k(3) by (simp add: algebra_simps)
  qed
  moreover have "(D - (f + int k * slot_step weekly)) mod slot_step weekly = (D - f) mod slot_step weekly"
    using mod_mult_self2 [of "D - f" "slot_step weekly" "- int k"] by (simp add: algebra_simps)
  ultimately show ?thesis using k(1,2) f(3) by (intro exI [of _ "D - (f + int k * slot_step weekly)"]) simp
qed

text \<open>A slot within the last 22 hours is the current one, as long as the hour stays.\<close>

lemma recent_slot_current:
  assumes off: "1000 dvd off" "\<bar>off\<bar> \<le> 14 * HOUR_MS" and hour: "0 \<le> hour" "hour \<le> 23"
    and recent: "now - 22 * HOUR_MS \<le> digest_slot (\<lambda>_. off) t0 weekly hour weekday"
  shows "digest_slot (\<lambda>_. off) now weekly hour weekday \<le> digest_slot (\<lambda>_. off) t0 weekly hour weekday"
proof -
  obtain d0 where d0: "digest_slot (\<lambda>_. off) t0 weekly hour weekday = d0 * DAY_MS + hour * HOUR_MS - off"
    "d0 mod slot_step weekly = (if weekly then (weekday - 4) mod 7 else 0)"
    using fixed_slot [OF off hour, of t0 weekly weekday] by blast
  obtain d1 where d1: "digest_slot (\<lambda>_. off) now weekly hour weekday = d1 * DAY_MS + hour * HOUR_MS - off"
    "d1 * DAY_MS + hour * HOUR_MS - off \<le> now" "d1 mod slot_step weekly = (if weekly then (weekday - 4) mod 7 else 0)"
    using fixed_slot [OF off hour, of now weekly weekday] by blast
  have "d1 \<le> d0"
  proof (rule ccontr)
    assume "\<not> d1 \<le> d0"
    moreover have "d1 mod slot_step weekly = d0 mod slot_step weekly" using d0(2) d1(3) by simp
    then have "slot_step weekly dvd d1 - d0" by (simp only: mod_eq_dvd_iff)
    ultimately have "slot_step weekly \<le> d1 - d0" by (intro zdvd_imp_le) simp_all
    then have "(d0 + 1) * DAY_MS \<le> d1 * DAY_MS" by (intro mult_right_mono) (simp_all add: DAY_MS_def slot_step_def split: if_splits)
    then show False using recent d0(1) d1(2) by (simp add: algebra_simps DAY_MS_def HOUR_MS_def)
  qed
  then have "d1 * DAY_MS \<le> d0 * DAY_MS" by (intro mult_right_mono) (simp_all add: DAY_MS_def)
  then show ?thesis using d0(1) d1(1) by simp
qed

text \<open>A later hour, once it has passed, is a slot of its own.\<close>

lemma moved_slot_later:
  assumes off: "1000 dvd off" "\<bar>off\<bar> \<le> 14 * HOUR_MS" and hour: "0 \<le> hour" "hour < h'" "h' \<le> 23"
    and passed: "digest_slot (\<lambda>_. off) t0 False hour weekday + (h' - hour) * HOUR_MS \<le> now"
  shows "digest_slot (\<lambda>_. off) t0 False hour weekday < digest_slot (\<lambda>_. off) now False h' weekday"
proof -
  have h: "hour \<le> 23" "0 \<le> h'" using hour by linarith+
  obtain d0 where d0: "digest_slot (\<lambda>_. off) t0 False hour weekday = d0 * DAY_MS + hour * HOUR_MS - off"
    using fixed_slot [OF off hour(1) h(1), of t0 False weekday] by blast
  obtain d2 where d2: "digest_slot (\<lambda>_. off) now False h' weekday = d2 * DAY_MS + h' * HOUR_MS - off"
    "now < (d2 + 1) * DAY_MS + h' * HOUR_MS - off"
    using fixed_slot [OF off h(2) hour(3), of now False weekday] by (auto simp: slot_step_def)
  have "d0 * DAY_MS + h' * HOUR_MS - off < (d2 + 1) * DAY_MS + h' * HOUR_MS - off"
    using passed d0 d2(2) by (simp add: algebra_simps)
  then have "d0 * DAY_MS < (d2 + 1) * DAY_MS" by simp
  then have "d0 \<le> d2" by (simp add: DAY_MS_def)
  then have "d0 * DAY_MS \<le> d2 * DAY_MS" by (intro mult_right_mono) (simp_all add: DAY_MS_def)
  moreover have "hour * HOUR_MS < h' * HOUR_MS" using hour(2) by (simp add: HOUR_MS_def)
  ultimately show ?thesis using d0 d2(1) by simp
qed

end
