(* ===== verification/MailFacts.thy ===== *)
theory MailFacts
  imports MailSweeps DigestFacts
begin

text \<open>
  The facts of the mail sweeps: how often a notification leaves the system over any run, whom the
  digest sweep writes to and about what, and what deactivation and a change of the hour do.
\<close>

section \<open>Counting\<close>

definition mails_of :: "mail_event list \<Rightarrow> ident \<Rightarrow> nat" where
  "mails_of log i = length (filter (\<lambda>e. case e of MailOf u j \<Rightarrow> j = i | _ \<Rightarrow> False) log)"

definition digests_of :: "mail_event list \<Rightarrow> ident \<Rightarrow> nat" where
  "digests_of log i = length (filter (\<lambda>e. case e of DigestMail u m rs \<Rightarrow> i \<in> mw_id ` set rs | _ \<Rightarrow> False) log)"

lemma counts_simps [simp]:
  "mails_of [] i = 0" "mails_of (xs @ ys) i = mails_of xs i + mails_of ys i"
  "mails_of (MailOf u j # es) i = (if j = i then 1 else 0) + mails_of es i" "mails_of (WebhookOf k # es) i = mails_of es i"
  "mails_of (DigestMail v m rs # es) i = mails_of es i"
  "digests_of [] i = 0" "digests_of (xs @ ys) i = digests_of xs i + digests_of ys i"
  "digests_of (MailOf u j # es) i = digests_of es i" "digests_of (WebhookOf k # es) i = digests_of es i"
  "digests_of (DigestMail v m rs # es) i = (if i \<in> mw_id ` set rs then 1 else 0) + digests_of es i"
  by (simp_all add: mails_of_def digests_of_def)

definition taken :: "mail_row \<Rightarrow> nat" where
  "taken r = mw_attempts r + (if mw_delivered r = None then 0 else 1)"

definition row_ok :: "nat \<Rightarrow> mail_event list \<Rightarrow> mail_row \<Rightarrow> bool" where
  "row_ok m log r =
     (mails_of log (mw_id r) \<le> taken r \<and> taken r \<le> m \<and>
      digests_of log (mw_id r) \<le> (if mw_digest r = DigestSent then 1 else 0) \<and>
      (mw_digest r \<noteq> NoDigestState \<longrightarrow> mw_delivered r \<noteq> None))"

definition mail_inv :: "nat \<Rightarrow> mail_db \<Rightarrow> bool" where
  "mail_inv m db =
     (distinct (map mw_id (md_rows db)) \<and> (\<forall>r \<in> set (md_rows db). row_ok m (md_log db) r) \<and>
      (\<forall>i. mails_of (md_log db) i \<le> m \<and> digests_of (md_log db) i \<le> 1))"

lemma same_row:
  assumes "distinct (map mw_id (md_rows db))" "r \<in> set (md_rows db)" "x \<in> set (md_rows db)" "mw_id x = mw_id r"
  shows "x = r"
  using assms by (simp add: distinct_map inj_on_def)

text \<open>An update of one row with the events about it.\<close>

lemma mail_inv_row:
  assumes inv: "mail_inv m db" and r: "r \<in> set (md_rows db)"
    and rows: "md_rows db' = map (\<lambda>x. if mw_id x = mw_id r then f x else x) (md_rows db)"
    and log: "md_log db' = md_log db @ es"
    and f: "mw_id (f r) = mw_id r" "row_ok m (md_log db') (f r)"
    and other: "\<And>i. i \<noteq> mw_id r \<Longrightarrow> mails_of es i = 0 \<and> digests_of es i = 0"
  shows "mail_inv m db'"
proof -
  have dist: "distinct (map mw_id (md_rows db))" using inv by (simp add: mail_inv_def)
  have ids: "map mw_id (md_rows db') = map mw_id (md_rows db)"
    unfolding rows using same_row [OF dist r] f(1) by (auto simp: o_def)
  have ok: "row_ok m (md_log db') x'" if x': "x' \<in> set (md_rows db')" for x'
  proof -
    obtain x where x: "x \<in> set (md_rows db)" "x' = (if mw_id x = mw_id r then f x else x)"
      using x' unfolding rows by auto
    show ?thesis
    proof (cases "mw_id x = mw_id r")
      case True
      then show ?thesis using x same_row [OF dist r x(1)] f(2) by simp
    next
      case False
      moreover have "row_ok m (md_log db) x" using inv x(1) by (simp add: mail_inv_def)
      ultimately show ?thesis using x(2) other [of "mw_id x"] by (simp add: row_ok_def log)
    qed
  qed
  have "mails_of (md_log db') i \<le> m \<and> digests_of (md_log db') i \<le> 1" for i
  proof (cases "i = mw_id r")
    case True
    have "mails_of (md_log db') (mw_id r) \<le> taken (f r)" "taken (f r) \<le> m"
      "digests_of (md_log db') (mw_id r) \<le> (if mw_digest (f r) = DigestSent then 1 else 0)"
      using f by (simp_all add: row_ok_def)
    moreover have "(if mw_digest (f r) = DigestSent then 1 else 0) \<le> (1 :: nat)" by simp
    ultimately show ?thesis unfolding True by (intro conjI) (erule (1) le_trans)+
  next
    case False
    then show ?thesis using inv other [of i] by (simp add: mail_inv_def log)
  qed
  then show ?thesis using ids ok dist unfolding mail_inv_def by simp
qed

section \<open>The delivery sweep\<close>

text \<open>What one row does: it is delivered, has failed, or was throttled with nothing sent.\<close>

lemma send_row_cases:
  assumes "send_row env a r db = (o', db')"
  obtains es where "md_rows db' = md_rows db" "md_accounts db' = md_accounts db" "md_app db' = md_app db"
    "md_log db' = md_log db @ es" "mails_of es (mw_id r) \<le> 1" "\<And>i. digests_of es i = 0" "\<And>i. i \<noteq> mw_id r \<Longrightarrow> mails_of es i = 0"
    "\<And>k. o' = SendThrottled k \<Longrightarrow> es = []"
proof -
  have "\<exists>es. db' = db\<lparr>md_log := md_log db @ es\<rparr> \<and> es \<in> {[], [MailOf (ma_id a) (mw_id r)], [WebhookOf (mw_id r)],
      [MailOf (ma_id a) (mw_id r), WebhookOf (mw_id r)]} \<and> (\<forall>k. o' = SendThrottled k \<longrightarrow> es = [])"
  proof (cases "email_goes env a r")
    case True
    show ?thesis
    proof (cases "(the (me_email env)) a [r]")
      case SendOk
      then show ?thesis using assms True
        by (cases "me_webhook env") (simp_all add: send_row_def log_mail_def split: if_splits, safe, auto)
    next
      case (SendThrottled k)
      then show ?thesis using assms True by (intro exI [of _ "[]"]) (simp add: send_row_def)
    next
      case SendFailed
      then show ?thesis using assms True by (intro exI [of _ "[]"]) (simp add: send_row_def)
    qed
  next
    case False
    then show ?thesis using assms
      by (cases "me_webhook env")
        (auto simp: send_row_def log_mail_def split: if_splits intro: exI [of _ "[]"] exI [of _ "[WebhookOf (mw_id r)]"])
  qed
  then show ?thesis using that by (elim exE conjE) auto
qed

lemma deliver_row_cases:
  assumes "deliver_row env a r (res, db) = (stop, res', db')"
  obtains f es where "md_rows db' = map (\<lambda>x. if mw_id x = mw_id r then f x else x) (md_rows db)"
    "md_log db' = md_log db @ es" "md_accounts db' = md_accounts db"
    "mails_of es (mw_id r) \<le> 1" "\<And>i. digests_of es i = 0" "\<And>i. i \<noteq> mw_id r \<Longrightarrow> mails_of es i = 0"
    "f = mark_delivered env (deferred_for env a r) \<or> f = (\<lambda>x. x\<lparr>mw_attempts := mw_attempts x + 1, mw_error := True\<rparr>) \<or>
     f = mw_error_update (\<lambda>_. True) \<and> es = []"
proof (cases "(me_email env = None \<and> me_webhook env = None) \<or> in_app_only (mw_type r)")
  case True
  then show ?thesis using assms
    by (intro that [of "mark_delivered env (deferred_for env a r)" "[]"]) (auto simp: deliver_row_def Let_def set_row_def)
next
  case False
  obtain o' d where s: "send_row env a r db = (o', d)" by force
  show ?thesis
  proof (rule send_row_cases [OF s])
    fix es
    assume es: "md_rows d = md_rows db" "md_accounts d = md_accounts db" "md_app d = md_app db"
      "md_log d = md_log db @ es" "mails_of es (mw_id r) \<le> 1" "\<And>i. digests_of es i = 0" "\<And>i. i \<noteq> mw_id r \<Longrightarrow> mails_of es i = 0"
      "\<And>k. o' = SendThrottled k \<Longrightarrow> es = []"
    define f where "f = (case o' of SendOk \<Rightarrow> mark_delivered env (deferred_for env a r)
      | SendThrottled k \<Rightarrow> mw_error_update (\<lambda>_. True) | SendFailed \<Rightarrow> (\<lambda>x. x\<lparr>mw_attempts := mw_attempts x + 1, mw_error := True\<rparr>))"
    have "db' = set_row (mw_id r) f d"
      using assms False s by (cases o') (auto simp: deliver_row_def Let_def f_def)
    then show ?thesis using es
      by (intro that [of f es]) (auto simp: set_row_def f_def split: send_outcome.split)
  qed
qed

lemma deliver_row_inv:
  assumes "deliver_row env a r (res, db) = (stop, res', db')" "mail_inv (me_max env) db" "r \<in> set (md_rows db)" "undelivered env r"
  shows "mail_inv (me_max env) db'"
proof (rule deliver_row_cases [OF assms(1)])
  fix f es
  assume d: "md_rows db' = map (\<lambda>x. if mw_id x = mw_id r then f x else x) (md_rows db)"
    "md_log db' = md_log db @ es" "md_accounts db' = md_accounts db"
    "mails_of es (mw_id r) \<le> 1" "\<And>i. digests_of es i = 0" "\<And>i. i \<noteq> mw_id r \<Longrightarrow> mails_of es i = 0"
    "f = mark_delivered env (deferred_for env a r) \<or> f = (\<lambda>x. x\<lparr>mw_attempts := mw_attempts x + 1, mw_error := True\<rparr>) \<or>
     f = mw_error_update (\<lambda>_. True) \<and> es = []"
  have ok: "row_ok (me_max env) (md_log db) r" using assms(2,3) by (simp add: mail_inv_def)
  have new: "mw_delivered r = None" "mw_attempts r < me_max env" using assms(4) by (simp_all add: undelivered_def)
  have "mw_id (f r) = mw_id r" using d(7) by (auto simp: mark_delivered_def)
  moreover have "row_ok (me_max env) (md_log db') (f r)"
    using ok new d(2,4,5,7) by (auto simp: row_ok_def taken_def mark_delivered_def split: if_splits)
  ultimately show ?thesis using d(5,6) by (intro mail_inv_row [OF assms(2,3) d(1,2)]) simp_all
qed

lemma deliver_row_keeps:
  assumes "deliver_row env a r (res, db) = (stop, res', db')" "s \<in> set (md_rows db)" "mw_id s \<noteq> mw_id r"
  shows "s \<in> set (md_rows db')"
proof (rule deliver_row_cases [OF assms(1)])
  fix f es
  assume "md_rows db' = map (\<lambda>x. if mw_id x = mw_id r then f x else x) (md_rows db)"
  then show ?thesis using assms(2,3) by (simp add: image_iff)
qed

lemma deliver_rows_inv:
  "mail_inv (me_max env) db \<Longrightarrow> distinct (map (mw_id \<circ> snd) batch) \<Longrightarrow>
     (\<And>a r. (a, r) \<in> set batch \<Longrightarrow> r \<in> set (md_rows db) \<and> undelivered env r) \<Longrightarrow>
     mail_inv (me_max env) (snd (deliver_rows env batch (res, db)))"
proof (induction batch arbitrary: res db)
  case (Cons x batch)
  obtain a r where x: "x = (a, r)" by force
  obtain stop res' db' where step: "deliver_row env a r (res, db) = (stop, res', db')" by (metis prod_cases3)
  have inv: "mail_inv (me_max env) db'"
    by (rule deliver_row_inv [OF step Cons.prems(1)]) (use Cons.prems(3) [of a r] x in simp_all)
  have "s \<in> set (md_rows db') \<and> undelivered env s" if s: "(b, s) \<in> set batch" for b s
  proof -
    have "mw_id s \<noteq> mw_id r" using Cons.prems(2) s x by force
    moreover have "s \<in> set (md_rows db)" "undelivered env s" using Cons.prems(3) [of b s] s by simp_all
    ultimately show ?thesis using deliver_row_keeps [OF step] by blast
  qed
  then have "mail_inv (me_max env) (snd (deliver_rows env batch (res', db')))"
    using Cons.prems(2) by (intro Cons.IH [OF inv]) simp_all
  then show ?case using x step inv by simp
qed simp

lemma batch_rows:
  assumes "(a, r) \<in> set (delivery_batch env db)"
  shows "r \<in> set (md_rows db) \<and> undelivered env r"
  using in_set_takeD [OF assms [unfolded delivery_batch_def]] by (auto split: option.splits)

lemma distinct_batch:
  assumes "distinct (map mw_id (md_rows db))"
  shows "distinct (map (mw_id \<circ> snd) (delivery_batch env db))"
proof -
  define rs where "rs = sort_key mw_created (filter (undelivered env) (md_rows db))"
  have "distinct rs" "inj_on mw_id (set rs)"
    using assms unfolding rs_def by (auto simp: distinct_map intro: inj_on_subset)
  then have "distinct (map mw_id rs)" by (simp add: distinct_map)
  moreover have "map (mw_id \<circ> snd) (concat (map (\<lambda>r. case account_of db (mw_user r) of None \<Rightarrow> [] | Some a \<Rightarrow> [(a, r)]) xs)) =
      map mw_id (filter (\<lambda>r. account_of db (mw_user r) \<noteq> None) xs)" for xs
    by (induction xs) (auto split: option.split)
  note this [of rs]
  ultimately have "distinct (map (mw_id \<circ> snd) (concat (map (\<lambda>r. case account_of db (mw_user r) of None \<Rightarrow> [] | Some a \<Rightarrow> [(a, r)]) rs)))"
    by (simp only: distinct_map_filter)
  moreover have "distinct (map f (take n xs))" if "distinct (map f xs)" for f :: "mail_account \<times> mail_row \<Rightarrow> ident" and n xs
    using that by (metis distinct_take take_map)
  ultimately show ?thesis unfolding delivery_batch_def rs_def [symmetric] by blast
qed

lemma delivery_inv:
  "mail_inv (me_max env) db \<Longrightarrow> mail_inv (me_max env) (snd (deliver_pending_notifications env db))"
  unfolding deliver_pending_notifications_def
  by (rule deliver_rows_inv) (auto simp: mail_inv_def dest: batch_rows intro: distinct_batch)

section \<open>The digest sweep\<close>

lemma settle_simps [simp]:
  "md_log (settle is st db) = md_log db" "md_accounts (settle is st db) = md_accounts db" "md_app (settle is st db) = md_app db"
  "md_rows (stamp_account a t db) = md_rows db" "md_log (stamp_account a t db) = md_log db" "md_app (stamp_account a t db) = md_app db"
  "md_rows (log_mail e db) = md_rows db" "md_log (log_mail e db) = md_log db @ [e]" "md_app (log_mail e db) = md_app db"
  by (simp_all add: settle_def stamp_account_def log_mail_def)

lemma settled_ids: "map mw_id (md_rows (settle is st db)) = map mw_id (md_rows db)"
  by (simp add: settle_def)

lemma settled_row:
  "x \<in> set (md_rows (settle is st db)) \<longleftrightarrow>
     (\<exists>r \<in> set (md_rows db). x = (if mw_id r \<in> set is \<and> mw_digest r = DigestPending then r\<lparr>mw_digest := st\<rparr> else r))"
proof -
  have "md_rows (settle is st db) = map (\<lambda>r. if mw_id r \<in> set is \<and> mw_digest r = DigestPending then r\<lparr>mw_digest := st\<rparr> else r) (md_rows db)"
    by (simp add: settle_def)
  then show ?thesis by (simp only: set_map image_iff)
qed

lemma mail_inv_cong:
  "md_rows db' = md_rows db \<Longrightarrow> md_log db' = md_log db \<Longrightarrow> mail_inv m db' = mail_inv m db"
  by (simp add: mail_inv_def)

lemma settle_dropped_inv:
  assumes "mail_inv m db" shows "mail_inv m (settle is DigestDropped db)"
proof -
  have "row_ok m (md_log db) x" if x: "x \<in> set (md_rows (settle is DigestDropped db))" for x
  proof -
    obtain r where r: "r \<in> set (md_rows db)"
      "x = (if mw_id r \<in> set is \<and> mw_digest r = DigestPending then r\<lparr>mw_digest := DigestDropped\<rparr> else r)"
      using x unfolding settled_row by blast
    moreover have "row_ok m (md_log db) r" using assms r(1) by (simp add: mail_inv_def)
    ultimately show ?thesis by (auto simp: row_ok_def taken_def split: if_splits)
  qed
  then show ?thesis using assms by (simp add: mail_inv_def settled_ids)
qed

lemma settle_sent_inv:
  assumes inv: "mail_inv m db" and ks: "\<And>k. k \<in> set ks \<Longrightarrow> k \<in> set (md_rows db) \<and> mw_digest k = DigestPending"
    and rows: "mw_id ` set rows = mw_id ` set ks"
  shows "mail_inv m (settle (map mw_id ks) DigestSent (log_mail (DigestMail u md rows) db))" (is "mail_inv m ?db")
proof -
  have dist: "distinct (map mw_id (md_rows db))" using inv by (simp add: mail_inv_def)
  have ok: "row_ok m (md_log db) r" if "r \<in> set (md_rows db)" for r using inv that by (simp add: mail_inv_def)
  have waits: "mw_digest r = DigestPending" if r: "r \<in> set (md_rows db)" "mw_id r \<in> mw_id ` set ks" for r
  proof -
    obtain k where k: "k \<in> set ks" "mw_id k = mw_id r" using r(2) by auto
    have "k = r" by (rule same_row [OF dist r(1) _ k(2)]) (use ks [OF k(1)] in simp)
    then show ?thesis using ks [OF k(1)] by simp
  qed
  have none: "digests_of (md_log db) i = 0" if i: "i \<in> mw_id ` set ks" for i
  proof -
    obtain k where k: "k \<in> set ks" "i = mw_id k" using i by blast
    show ?thesis using ok [of k] ks [OF k(1)] k(2) by (simp add: row_ok_def)
  qed
  have log: "mails_of (md_log ?db) i = mails_of (md_log db) i"
    "digests_of (md_log ?db) i = digests_of (md_log db) i + (if i \<in> mw_id ` set ks then 1 else 0)" for i
    using rows by simp_all
  have "row_ok m (md_log ?db) x" if x: "x \<in> set (md_rows ?db)" for x
  proof -
    obtain r where r: "r \<in> set (md_rows db)"
      "x = (if mw_id r \<in> mw_id ` set ks \<and> mw_digest r = DigestPending then r\<lparr>mw_digest := DigestSent\<rparr> else r)"
      using x unfolding settled_row set_map by auto
    show ?thesis
    proof (cases "mw_id r \<in> mw_id ` set ks")
      case True
      then have "x = r\<lparr>mw_digest := DigestSent\<rparr>" using r(2) waits [OF r(1) True] by simp
      then show ?thesis using ok [OF r(1)] none [OF True] waits [OF r(1) True] True log [of "mw_id r"]
        by (simp add: row_ok_def taken_def)
    next
      case False
      then show ?thesis using ok [OF r(1)] log [of "mw_id r"] r(2) by (simp add: row_ok_def)
    qed
  qed
  moreover have "mails_of (md_log ?db) i \<le> m \<and> digests_of (md_log ?db) i \<le> 1" for i
    using inv none [of i] log [of i] by (simp add: mail_inv_def)
  ultimately show ?thesis using dist by (simp add: mail_inv_def settled_ids)
qed

text \<open>
  What holds while the sweep runs, of the database it began with: the pending rows are rows of that
  database, and every digest that went out is justified by it.
\<close>

definition justified :: "mail_env \<Rightarrow> mail_db \<Rightarrow> mail_event \<Rightarrow> bool" where
  "justified env db e =
     (\<exists>a m t ks. e = DigestMail (ma_id a) m (map (shown_row (md_app db)) ks) \<and> a \<in> set (md_accounts db) \<and>
        in_digest_mode (me_settings env) a \<and> m \<in> {DigestDaily, DigestWeekly} \<and>
        ma_last a = Some t \<and> t < slot_of env a m \<and> ks \<noteq> [] \<and>
        set ks \<subseteq> {r \<in> set (md_rows db). mw_user r = ma_id a \<and> mw_digest r = DigestPending \<and> still_wanted (md_app db) (ma_id a) r})"

definition sweep_ok :: "mail_env \<Rightarrow> mail_db \<Rightarrow> mail_db \<Rightarrow> bool" where
  "sweep_ok env db d =
     (mail_inv (me_max env) d \<and> md_app d = md_app db \<and>
      {r \<in> set (md_rows d). mw_digest r = DigestPending} \<subseteq> set (md_rows db) \<and>
      (\<exists>es. md_log d = md_log db @ es \<and> list_all (justified env db) es))"

lemma settle_pending:
  "st \<noteq> DigestPending \<Longrightarrow> {r \<in> set (md_rows (settle is st d)). mw_digest r = DigestPending} \<subseteq> {r \<in> set (md_rows d). mw_digest r = DigestPending}"
  by (auto simp: settled_row split: if_splits)

lemma sweep_ok_settle:
  assumes "sweep_ok env db d" shows "sweep_ok env db (settle is DigestDropped d)"
  using assms settle_pending [of DigestDropped "is" d] unfolding sweep_ok_def
  by (simp add: settle_dropped_inv) blast

lemma sweep_ok_cong:
  "sweep_ok env db d \<Longrightarrow> md_rows d' = md_rows d \<Longrightarrow> md_log d' = md_log d \<Longrightarrow> md_app d' = md_app d \<Longrightarrow> sweep_ok env db d'"
  using mail_inv_cong [of d' d "me_max env"] by (simp add: sweep_ok_def)

lemma sweep_ok_stamp: "sweep_ok env db d \<Longrightarrow> sweep_ok env db (stamp_account a t d)"
  by (erule sweep_ok_cong) simp_all

text \<open>The rows kept of a due user are still pending once the stale ones are dropped.\<close>

lemma keep_pending:
  assumes dist: "distinct (map mw_id (md_rows d))" and k: "k \<in> set (filter (still_wanted app u) (load_pending d u))"
    and gone: "set gone \<subseteq> {r \<in> set (md_rows d). \<not> still_wanted app u r}"
  shows "k \<in> set (md_rows (settle (map mw_id gone) DigestDropped d)) \<and> mw_digest k = DigestPending \<and> k \<in> set (md_rows d) \<and>
    mw_user k = u \<and> still_wanted app u k"
proof -
  have k': "k \<in> set (md_rows d)" "mw_digest k = DigestPending" "still_wanted app u k" "mw_user k = u"
    using k by (simp_all add: load_pending_def)
  have "mw_id k \<notin> mw_id ` set gone"
  proof
    assume "mw_id k \<in> mw_id ` set gone"
    then obtain x where x: "x \<in> set gone" "mw_id x = mw_id k" by force
    then have "x = k" using same_row [OF dist k'(1), of x] gone by blast
    then show False using x(1) gone k'(3) by blast
  qed
  then have "k \<in> set (md_rows (settle (map mw_id gone) DigestDropped d))"
    using k'(1) unfolding settled_row by (intro bexI [of _ k]) simp_all
  then show ?thesis using k' by simp
qed

lemma shown_id [simp]: "mw_id (shown_row app r) = mw_id r"
  by (simp add: shown_row_def)

lemma send_digest_ok:
  assumes step: "send_digest env a m slot keep (res, d) = (stop, res', d')" and d: "sweep_ok env db d"
    and keep: "\<And>k. k \<in> set keep \<Longrightarrow> k \<in> set (md_rows d) \<and> mw_digest k = DigestPending"
    and just: "justified env db (DigestMail (ma_id a) m (map (shown_row (md_app d)) keep))"
  shows "sweep_ok env db d'"
proof (cases "(the (me_email env)) a (map (shown_row (md_app d)) keep)")
  case SendOk
  define e where "e = DigestMail (ma_id a) m (map (shown_row (md_app d)) keep)"
  define d2 where "d2 = settle (map mw_id keep) DigestSent (log_mail e d)"
  obtain es where es: "md_log d = md_log db @ es" "list_all (justified env db) es" using d by (auto simp: sweep_ok_def)
  have "mail_inv (me_max env) d2" unfolding d2_def e_def
    by (rule settle_sent_inv) (use d keep in \<open>simp_all add: sweep_ok_def image_image\<close>)
  moreover have "md_app d2 = md_app db" using d by (simp add: d2_def sweep_ok_def)
  moreover have "{r \<in> set (md_rows d2). mw_digest r = DigestPending} \<subseteq> {r \<in> set (md_rows d). mw_digest r = DigestPending}"
    using settle_pending [of DigestSent "map mw_id keep" "log_mail e d"] by (simp add: d2_def)
  then have "{r \<in> set (md_rows d2). mw_digest r = DigestPending} \<subseteq> set (md_rows db)"
    by (rule order_trans) (use d in \<open>simp add: sweep_ok_def\<close>)
  moreover have "md_log d2 = md_log db @ (es @ [e])" "list_all (justified env db) (es @ [e])"
    using es just by (simp_all add: d2_def e_def)
  ultimately have "sweep_ok env db d2" unfolding sweep_ok_def by blast
  then show ?thesis using step SendOk by (auto simp: send_digest_def d2_def e_def intro: sweep_ok_stamp)
next
  case (SendThrottled k)
  then show ?thesis using step d by (simp add: send_digest_def)
next
  case SendFailed
  then show ?thesis using step d
    by (auto simp: send_digest_def intro: sweep_ok_stamp sweep_ok_settle sweep_ok_cong [OF d] split: if_splits)
qed

lemma sweep_due_ok:
  assumes step: "sweep_due env a m slot (res, d) = (stop, res', d')" and d: "sweep_ok env db d"
    and due: "a \<in> set (md_accounts db)" "in_digest_mode (me_settings env) a" "m \<in> {DigestDaily, DigestWeekly}"
      "ma_last a = Some t" "t < slot_of env a m"
  shows "sweep_ok env db d'"
proof -
  define keep where "keep = filter (still_wanted (md_app d) (ma_id a)) (load_pending d (ma_id a))"
  define gone where "gone = (if me_email env \<noteq> None then filter (\<lambda>r. \<not> still_wanted (md_app d) (ma_id a) r) (load_pending d (ma_id a)) else load_pending d (ma_id a))"
  define res1 where "res1 = res\<lparr>dg_dropped := dg_dropped res + length gone\<rparr>"
  define d1 where "d1 = settle (map mw_id gone) DigestDropped d"
  have d1: "sweep_ok env db d1" unfolding d1_def by (rule sweep_ok_settle [OF d])
  show ?thesis
  proof (cases "me_email env = None \<or> keep = []")
    case True
    then have "d' = stamp_account a slot d1"
      using step unfolding sweep_due_def Let_def prod.case keep_def [symmetric] gone_def [symmetric] d1_def [symmetric] by simp
    then show ?thesis using sweep_ok_stamp [OF d1] by simp
  next
    case False
    then have send: "send_digest env a m slot keep (res1, d1) = (stop, res', d')"
      using step unfolding sweep_due_def Let_def prod.case keep_def [symmetric] gone_def [symmetric] d1_def [symmetric] res1_def [symmetric]
      by (simp split: if_splits)
    have dist: "distinct (map mw_id (md_rows d))" using d by (simp add: sweep_ok_def mail_inv_def)
    have "set gone \<subseteq> {r \<in> set (md_rows d). \<not> still_wanted (md_app d) (ma_id a) r}"
      using False by (auto simp: gone_def load_pending_def)
    note kept = keep_pending [OF dist _ this, folded d1_def keep_def]
    have app: "md_app d1 = md_app db" "md_app d = md_app db" using d d1 by (simp_all add: sweep_ok_def)
    have "justified env db (DigestMail (ma_id a) m (map (shown_row (md_app d1)) keep))"
      unfolding justified_def
      using due False d kept app
      by (intro exI [of _ a] exI [of _ m] exI [of _ t] exI [of _ keep]) (auto simp: sweep_ok_def)
    then show ?thesis using send_digest_ok [OF send d1] kept by blast
  qed
qed

lemma sweep_account_ok:
  assumes step: "sweep_account env a (res, d) = (stop, res', d')" and d: "sweep_ok env db d"
    and a: "a \<in> set (md_accounts db)" "in_digest_mode (me_settings env) a"
  shows "sweep_ok env db d'"
proof (cases "weekly_mode env a")
  case None
  then show ?thesis using step d by (simp add: sweep_account_def)
next
  case (Some m)
  show ?thesis
  proof (cases "m = DigestImmediate")
    case True
    then show ?thesis using step d Some by (simp add: sweep_account_def)
  next
    case False
    then have m: "m \<in> {DigestDaily, DigestWeekly}" by (cases m) simp_all
    show ?thesis
    proof (cases "digest_due (ma_last a) (slot_of env a m)")
      case FirstSight
      then show ?thesis using step d Some False by (auto simp: sweep_account_def intro: sweep_ok_stamp)
    next
      case DigestNotDue
      then show ?thesis using step d Some False by (simp add: sweep_account_def)
    next
      case DigestIsDue
      then obtain t where t: "ma_last a = Some t" "t < slot_of env a m" by (auto simp: digest_due_def split: option.splits if_splits)
      have "sweep_due env a m (slot_of env a m) (res, d) = (stop, res', d')"
        using step Some False DigestIsDue by (simp add: sweep_account_def)
      then show ?thesis by (rule sweep_due_ok [OF _ d a m t])
    qed
  qed
qed

lemma sweep_accounts_ok:
  "sweep_ok env db d \<Longrightarrow> (\<And>a. a \<in> set as \<Longrightarrow> a \<in> set (md_accounts db) \<and> in_digest_mode (me_settings env) a) \<Longrightarrow>
     sweep_ok env db (snd (sweep_accounts env as (res, d)))"
proof (induction as arbitrary: res d)
  case (Cons a as)
  obtain stop res' d' where step: "sweep_account env a (res, d) = (stop, res', d')" by (metis prod_cases3)
  have d': "sweep_ok env db d'" by (rule sweep_account_ok [OF step Cons.prems(1)]) (use Cons.prems(2) in simp_all)
  have "sweep_ok env db (snd (sweep_accounts env as (res', d')))" by (rule Cons.IH [OF d']) (use Cons.prems(2) in simp)
  then show ?case using step d' by simp
qed simp

lemma run_digest_sweep_ok:
  assumes "mail_inv (me_max env) db"
  shows "sweep_ok env db (snd (run_digest_sweep env db))"
proof -
  have "sweep_ok env db (settle (map mw_id (filter (left_digest env db) (md_rows db))) DigestDropped db)" (is "sweep_ok env db ?d")
    by (rule sweep_ok_settle) (use assms in \<open>auto simp: sweep_ok_def\<close>)
  then show ?thesis
    unfolding run_digest_sweep_def Let_def
    by (auto intro!: sweep_accounts_ok simp: maybe_due_def)
qed

end
