(* ===== verification/MailProps.thy ===== *)
theory MailProps
  imports MailFacts
begin

text \<open>
  What the mail sweeps guarantee over a run, and where they depart from their comments.
\<close>

section \<open>Runs\<close>

text \<open>
  A run of the worker beside the web tier: sweeps with the limit of attempts \<open>m\<close>, new rows, rows read or
  removed, and any change of the accounts and of the application.
\<close>

inductive mail_step :: "nat \<Rightarrow> mail_db \<Rightarrow> mail_db \<Rightarrow> bool" for m where
  delivery: "me_max env = m \<Longrightarrow> mail_step m db (snd (deliver_pending_notifications env db))"
| digests: "me_max env = m \<Longrightarrow> mail_step m db (snd (run_digest_sweep env db))"
| arrives: "mw_id r \<notin> mw_id ` set (md_rows db) \<Longrightarrow> mails_of (md_log db) (mw_id r) = 0 \<Longrightarrow> digests_of (md_log db) (mw_id r) = 0 \<Longrightarrow>
    mw_attempts r = 0 \<Longrightarrow> mw_delivered r = None \<Longrightarrow> mw_digest r = NoDigestState \<Longrightarrow>
    mail_step m db (db\<lparr>md_rows := md_rows db @ [r]\<rparr>)"
| seen: "mail_step m db (set_row i (mw_read_update (\<lambda>_. True)) db)"
| removed: "mail_step m db (db\<lparr>md_rows := filter P (md_rows db)\<rparr>)"
| elsewhere: "mail_step m db (db\<lparr>md_app := app, md_accounts := accounts\<rparr>)"

lemma set_read_inv:
  assumes "mail_inv m db" shows "mail_inv m (set_row i (mw_read_update (\<lambda>_. True)) db)"
proof -
  define g :: "mail_row \<Rightarrow> mail_row" where "g = (\<lambda>r. if mw_id r = i then mw_read_update (\<lambda>_. True) r else r)"
  define db' where "db' = set_row i (mw_read_update (\<lambda>_. True)) db"
  have g: "row_ok m l (g r) = row_ok m l r" "mw_id (g r) = mw_id r" for l r
    by (simp_all add: g_def row_ok_def taken_def)
  have rows: "md_rows db' = map g (md_rows db)" "md_log db' = md_log db"
    by (simp_all add: db'_def set_row_def g_def)
  have "distinct (map mw_id (md_rows db'))" using assms g(2) by (simp add: mail_inv_def rows o_def)
  moreover have "\<forall>r \<in> set (md_rows db'). row_ok m (md_log db') r" using assms g(1) by (simp add: mail_inv_def rows)
  ultimately show ?thesis using assms rows(2) unfolding mail_inv_def db'_def [symmetric] by simp
qed

lemma mail_step_inv: "mail_step m db db' \<Longrightarrow> mail_inv m db \<Longrightarrow> mail_inv m db'"
proof (induction rule: mail_step.induct)
  case (delivery env db)
  then show ?case using delivery_inv [of env db] by simp
next
  case (digests env db)
  then show ?case using run_digest_sweep_ok [of env db] by (simp add: sweep_ok_def)
next
  case (arrives r db)
  then show ?case by (simp add: mail_inv_def row_ok_def taken_def)
next
  case (seen db i)
  then show ?case by (intro set_read_inv)
next
  case (removed db P)
  then show ?case by (simp add: mail_inv_def distinct_map_filter)
next
  case (elsewhere db app accounts)
  then show ?case by (simp add: mail_inv_def)
qed

lemma mail_run_inv: "(mail_step m)\<^sup>*\<^sup>* db db' \<Longrightarrow> mail_inv m db \<Longrightarrow> mail_inv m db'"
  by (induction rule: rtranclp_induct) (auto intro: mail_step_inv)

text \<open>
  C22: Over any run of the sweeps, a notification is sent by e-mail at most \<open>NOTIFY_MAX_ATTEMPTS\<close> times by the
  delivery and stands in at most one digest, whatever the transports answer, and however the accounts,
  the settings and the catalog change in between.
\<close>

theorem mail_bounded:
  assumes "(mail_step m)\<^sup>*\<^sup>* db db'" "md_rows db = []" "md_log db = []"
  shows "mails_of (md_log db') i \<le> m \<and> digests_of (md_log db') i \<le> 1"
  using mail_run_inv [OF assms(1)] assms(2,3) by (simp_all add: mail_inv_def)

section \<open>What a digest contains\<close>


section \<open>A failing webhook\<close>

definition failing_hook :: "mail_env \<Rightarrow> mail_env" where
  "failing_hook env = env\<lparr>me_email := Some (\<lambda>_ _. SendOk), me_webhook := Some (\<lambda>_. False)\<rparr>"

fun sweeps :: "mail_env \<Rightarrow> nat \<Rightarrow> mail_db \<Rightarrow> mail_db" where
  "sweeps env 0 db = db"
| "sweeps env (Suc n) db = snd (deliver_pending_notifications env (sweeps env n db))"


section \<open>A recipient who left\<close>

text \<open>
  The delivery sends the e-mail of a notification to a deactivated recipient like to an active one: only the
  opt-out and a missing address stop it.
\<close>

theorem inactive_recipient_mailed:
  assumes "\<not> ma_active a" "ma_notify a" "truthy (ma_email a)" "me_email env = Some send" "send a [r] = SendOk"
  shows "effective_digest_mode (digest_view a) (me_settings env) = None \<and>
    (\<exists>es. md_log (snd (send_row env a r db)) = md_log db @ MailOf (ma_id a) (mw_id r) # es)"
proof -
  have off: "effective_digest_mode (digest_view a) (me_settings env) = None"
    using assms(1,2) by (simp add: effective_digest_mode_def digest_view_def status_of_def)
  then have "email_goes env a r"
    using assms(2-4) by (simp add: email_goes_def deferred_for_def is_digest_deferred_def)
  then show ?thesis
    using off assms(4,5) by (auto simp: send_row_def log_mail_def split: option.splits)
qed

section \<open>The users a sweep skips\<close>

text \<open>
  In a zone without transitions, a user the sweep skips for a stamp within 22 hours is not due, as long as
  the settings are those of the stamp. Once the hour of the daily digest has been moved later and that
  hour has passed, the user is due and is still skipped.
\<close>

theorem skipped_users_not_due:
  assumes zone: "zone_or_utc (me_zones env) (ma_zone a) = (\<lambda>_. off)" "1000 dvd off" "\<bar>off\<bar> \<le> 14 * HOUR_MS"
    and hour: "0 \<le> ds_hour (me_settings env)" "ds_hour (me_settings env) \<le> 23"
    and stamp: "ma_last a = Some (slot_of (env\<lparr>me_now := t0\<rparr>) a m)"
    and skipped: "in_digest_mode (me_settings env) a" "\<not> maybe_due env a"
    and moved: "env' = env\<lparr>me_settings := (me_settings env)\<lparr>ds_hour := h'\<rparr>\<rparr>"
  shows "digest_due (ma_last a) (slot_of env a m) = DigestNotDue \<and>
    (if m = DigestDaily \<and> ds_hour (me_settings env) < h' \<and> h' \<le> 23 \<and>
        the (ma_last a) + (h' - ds_hour (me_settings env)) * HOUR_MS \<le> me_now env
     then digest_due (ma_last a) (slot_of env' a m) = DigestIsDue \<and> \<not> maybe_due env' a else True)"
proof -
  let ?slot = "\<lambda>now h. digest_slot (\<lambda>_. off) now (m = DigestWeekly) h (ds_weekday (me_settings env))"
  have last: "ma_last a = Some (?slot t0 (ds_hour (me_settings env)))" using stamp by (simp add: slot_of_def zone(1))
  have "me_now env - 22 * HOUR_MS \<le> ?slot t0 (ds_hour (me_settings env))" using skipped last by (simp add: maybe_due_def)
  then have "digest_due (ma_last a) (slot_of env a m) = DigestNotDue"
    using recent_slot_current [OF zone(2,3) hour] last by (simp add: slot_of_def zone(1) digest_due_def not_less)
  moreover have "digest_due (ma_last a) (slot_of env' a m) = DigestIsDue \<and> \<not> maybe_due env' a"
    if c: "m = DigestDaily" "ds_hour (me_settings env) < h'" "h' \<le> 23"
      "the (ma_last a) + (h' - ds_hour (me_settings env)) * HOUR_MS \<le> me_now env"
  proof -
    have "?slot t0 (ds_hour (me_settings env)) < ?slot (me_now env) h'"
      using moved_slot_later [OF zone(2,3) hour(1) c(2,3)] c(1,4) last by simp
    then have due: "digest_due (ma_last a) (slot_of env' a m) = DigestIsDue"
      using last by (simp add: digest_due_def slot_of_def zone(1) moved)
    have "in_digest_mode (me_settings env') a = in_digest_mode (me_settings env) a"
      by (simp add: in_digest_mode_def moved split: option.split)
    moreover have "me_now env' = me_now env" by (simp add: moved)
    ultimately have "maybe_due env' a = maybe_due env a" by (simp only: maybe_due_def)
    then show ?thesis using due skipped(2) by simp
  qed
  ultimately show ?thesis by simp
qed

end
