(* ===== verification/MailSamples.thy ===== *)
theory MailSamples
  imports MailProps Grants
begin

text \<open>One reader of a daily digest, one notification, and the properties of the mail sweeps on them.\<close>

definition sample_reader :: mail_account where
  "sample_reader = \<lparr>ma_id = ''u'', ma_email = Some ''u@x'', ma_active = True, ma_notify = True, ma_choice = Some ''daily'',
     ma_zone = None, ma_last = Some (8 * 3600000), ma_failures = 0\<rparr>"

definition sample_row :: mail_row where
  "sample_row = \<lparr>mw_id = ''n1'', mw_user = ''u'', mw_type = ''proposal.needs_review'', mw_skill_id = None, mw_ns_slug = None,
     mw_skill_slug = None, mw_request_id = None, mw_actor_id = None, mw_actor_name = None, mw_created = 0, mw_read = False,
     mw_delivered = None, mw_attempts = 0, mw_error = False, mw_digest = NoDigestState\<rparr>"

definition sample_waiting :: mail_row where
  "sample_waiting = sample_row\<lparr>mw_type := ''skill.hyped'', mw_delivered := Some 1, mw_digest := DigestPending\<rparr>"

definition sample_mail_db :: "mail_row list \<Rightarrow> mail_db" where
  "sample_mail_db rows = \<lparr>md_app = sample_shared, md_accounts = [sample_reader], md_rows = rows, md_log = []\<rparr>"

text \<open>At ten o'clock of the next day.\<close>

definition sample_mail_env :: mail_env where
  "sample_mail_env = \<lparr>me_email = Some (\<lambda>_ _. SendOk), me_webhook = None, me_settings = DEFAULT_DIGEST_SETTINGS,
     me_zones = Map.empty, me_now = 34 * 3600000, me_max = 5, me_batch = 50\<rparr>"

lemma sample_row_fields [simp]:
  "mw_id sample_row = ''n1''" "mw_user sample_row = ''u''" "mw_type sample_row = ''proposal.needs_review''" "mw_delivered sample_row = None"
  "mw_attempts sample_row = 0" "mw_digest sample_row = NoDigestState"
  by (simp_all add: sample_row_def)

lemma sample_reader_fields [simp]:
  "ma_id sample_reader = ''u''" "ma_email sample_reader = Some ''u@x''" "ma_active sample_reader" "ma_notify sample_reader"
  "ma_choice sample_reader = Some ''daily''" "ma_zone sample_reader = None" "ma_last sample_reader = Some (8 * 3600000)"
  by (simp_all add: sample_reader_def)

lemma sample_address [simp]: "truthy (Some ''u@x'')" "\<not> truthy None"
  by (simp_all add: truthy_def)

lemma sample_env_fields [simp]:
  "me_email sample_mail_env = Some (\<lambda>_ _. SendOk)" "me_settings sample_mail_env = DEFAULT_DIGEST_SETTINGS"
  "me_zones sample_mail_env = Map.empty" "me_now sample_mail_env = 34 * 3600000" "me_max sample_mail_env = 5" "me_batch sample_mail_env = 50"
  by (simp_all add: sample_mail_env_def)

lemma sample_db_fields [simp]:
  "md_rows (sample_mail_db rows) = rows" "md_log (sample_mail_db rows) = []" "md_accounts (sample_mail_db rows) = [sample_reader]"
  by (simp_all add: sample_mail_db_def)

lemma sample_not_deferred: "\<not> deferred_for env a sample_row" if "ds_types (me_settings env) = DIGEST_DEFAULT_TYPES"
  using that by (simp add: deferred_for_def is_digest_deferred_def DIGEST_DEFAULT_TYPES_def)

theorem digest_slot_found_witness:
  "digest_slot (\<lambda>_. 0) (34 * 3600000) True 8 1 \<le> 34 * 3600000"
proof -
  have "offsets_within (14 * HOUR_MS) (\<lambda>_. 0)" by (simp add: offsets_within_def HOUR_MS_def)
  from digest_slot_found [OF this, where hour = 8 and now = "34 * 3600000" and weekly = True and weekday = 1]
  show ?thesis by (auto simp: Let_def)
qed

text \<open>A transition of two hours: the time one hour into the gap.\<close>

theorem wall_clock_resolved_witness:
  "instant_for_wall_clock (one_transition 0 0 7200000) 3600000 = 3600000 \<and>
   wall_clock_ms (one_transition 0 0 7200000) (instant_for_wall_clock (one_transition 0 0 7200000) 3600000) = 10800000"
proof -
  have "(3600000 :: int) = 1000 * 3600" "(7200000 :: int) = 1000 * 7200" by simp_all
  then have "1000 dvd (3600000 :: int)" "1000 dvd (7200000 :: int)" by (simp_all only: dvd_triv_left)
  from wall_clock_resolved [OF this(1) _ this(2), where a = 0 and T = 0]
  have "instant_for_wall_clock (one_transition 0 0 7200000) 3600000 = 3600000" by (simp add: HOUR_MS_def Let_def)
  then show ?thesis by (simp add: wall_clock_ms_def one_transition_def)
qed

theorem mail_bounded_witness:
  "let d = snd (deliver_pending_notifications sample_mail_env (sample_mail_db [sample_row]))
   in mails_of (md_log d) ''n1'' \<le> 5 \<and> digests_of (md_log d) ''n1'' \<le> 1"
proof -
  define d where "d = snd (deliver_pending_notifications sample_mail_env (sample_mail_db [sample_row]))"
  have "mail_step 5 (sample_mail_db []) (sample_mail_db [sample_row])"
    using mail_step.arrives [of sample_row "sample_mail_db []" 5] by (simp add: sample_mail_db_def)
  moreover have "mail_step 5 (sample_mail_db [sample_row]) d"
    unfolding d_def by (rule mail_step.delivery) simp
  ultimately have run: "(mail_step 5)\<^sup>*\<^sup>* (sample_mail_db []) d" by (meson converse_rtranclp_into_rtranclp r_into_rtranclp)
  show ?thesis
    using mail_bounded [OF run, of "''n1''"] unfolding d_def [symmetric] Let_def by simp
qed

lemma sample_digest_sweep:
  "md_log (snd (run_digest_sweep sample_mail_env (sample_mail_db [sample_waiting]))) = [DigestMail ''u'' DigestDaily [sample_waiting]]"
  by code_simp



theorem inactive_recipient_mailed_witness:
  "md_log (snd (send_row sample_mail_env (sample_reader\<lparr>ma_active := False\<rparr>) sample_row (sample_mail_db [sample_row]))) \<noteq> []"
  using inactive_recipient_mailed [where a = "sample_reader\<lparr>ma_active := False\<rparr>" and env = sample_mail_env and r = sample_row
      and send = "\<lambda>_ _. SendOk" and db = "sample_mail_db [sample_row]"]
  by auto

text \<open>Stamped at eight o'clock, two hours ago; the hour is moved to nine.\<close>

theorem skipped_users_not_due_witness:
  "let env = sample_mail_env\<lparr>me_now := 10 * 3600000\<rparr>; s = DEFAULT_DIGEST_SETTINGS
   in digest_due (ma_last sample_reader) (slot_of env sample_reader DigestDaily) = DigestNotDue \<and>
      digest_due (ma_last sample_reader) (slot_of (env\<lparr>me_settings := s\<lparr>ds_hour := 9\<rparr>\<rparr>) sample_reader DigestDaily) = DigestIsDue \<and>
      \<not> maybe_due (env\<lparr>me_settings := s\<lparr>ds_hour := 9\<rparr>\<rparr>) sample_reader"
proof -
  define env where "env = sample_mail_env\<lparr>me_now := 10 * 3600000\<rparr>"
  have "slot_of (env\<lparr>me_now := 9 * 3600000\<rparr>) sample_reader DigestDaily = 8 * 3600000" unfolding env_def by code_simp
  moreover have "in_digest_mode DEFAULT_DIGEST_SETTINGS sample_reader" "ds_hour DEFAULT_DIGEST_SETTINGS = 8"
    by (simp_all add: in_digest_mode_def DEFAULT_DIGEST_SETTINGS_def)
  moreover have "\<not> maybe_due env sample_reader" by (simp add: maybe_due_def env_def HOUR_MS_def)
  ultimately show ?thesis
    using skipped_users_not_due [where env = env and a = sample_reader and off = 0 and ?t0.0 = "9 * 3600000" and m = DigestDaily
        and h' = 9 and env' = "env\<lparr>me_settings := DEFAULT_DIGEST_SETTINGS\<lparr>ds_hour := 9\<rparr>\<rparr>"]
    unfolding env_def [symmetric] Let_def by (simp add: env_def zone_or_utc_def HOUR_MS_def)
qed

end
