(* ===== verification/Lifecycle.thy ===== *)
theory Lifecycle
  imports Store OAuthPolicy
begin

text \<open>
  The life of a published skill: \<open>packages/web/src/lib/manage.ts\<close> (yank and restore of a version, archive,
  the Official and Featured marks, permanent deletion, release of a quarantined version) with the
  eviction from collections of \<open>packages/shared/src/collections.ts\<close>.

  The state has the columns of a skill these operations read and write; the tables that only
  lose their rows with the skill are a family indexed by name. The recomputation of quality columns is
  a separate module, its calls are recorded.
\<close>

section \<open>State\<close>

datatype version_status = VersionActive | VersionYanked | VersionQuarantined

record life_skill = skill_row +
  lk_slug :: string
  lk_title :: string
  lk_archived :: bool
  lk_official_at :: "instant option"
  lk_official_by :: "ident option"
  lk_featured_at :: "instant option"
  lk_featured_by :: "ident option"
  lk_deprecated_at :: "instant option"
  lk_deprecated_by :: "ident option"
  lk_successor :: "ident option"
  lk_note :: "string option"
  lk_promoted_from :: "ident option"

record life_version =
  lv_id :: ident
  lv_skill :: ident
  lv_semver :: string
  lv_prerelease :: bool
  lv_status :: version_status
  lv_git :: bool
  lv_key :: "string option"

record collection_row =
  co_id :: ident
  co_owner :: ident
  co_name :: string
  co_description :: "string option"
  co_created :: instant
  co_updated :: instant

record collection_item =
  ci_collection :: ident
  ci_skill :: ident

record token_row =
  tr_skill :: ident
  tr_user :: "ident option"
  tr_system :: bool
  tr_created_by :: "ident option"
  tr_used :: bool
  tr_expires :: "instant option"

record life_proposal =
  lp_id :: ident
  lp_skill :: "ident option"
  lp_version :: "ident option"

record watch_row =
  wt_user :: ident
  wt_skill :: ident

record life_db =
  lf_access :: access_db
  lf_namespaces :: "namespace_row list"
  lf_skills :: "life_skill list"
  lf_versions :: "life_version list"
  lf_collections :: "collection_row list"
  lf_items :: "collection_item list"
  lf_maintainers :: "maintainer_row list"
  lf_watches :: "watch_row list"
  lf_tokens :: "token_row list"
  lf_proposals :: "life_proposal list"
  lf_conversations :: "conversation_row list"
  lf_scans :: "scan_report_row list"
  lf_access_log :: "ident option list"
  lf_children :: "string \<Rightarrow> ident list"
  lf_notifications :: "notification_row list"
  lf_audit :: "audit_entry list"
  lf_refreshed :: "ident list"
  lf_calls :: "module_call list"
  lf_uuid :: "nat \<Rightarrow> ident"
  lf_used :: nat
  lf_now :: instant

section \<open>Rows and effects\<close>

definition life_base :: "life_skill \<Rightarrow> skill_row" where
  "life_base s = \<lparr>sk_id = sk_id s, sk_namespace = sk_namespace s, sk_visibility = sk_visibility s\<rparr>"

definition life_visible :: "effective_access \<Rightarrow> life_db \<Rightarrow> life_skill \<Rightarrow> bool" where
  "life_visible a db s = is_skill_visible a (subject_of_row (lf_access db) (life_base s))"

text \<open>\<open>findSkill\<close> of \<open>catalog.ts\<close>: the row with both slugs.\<close>

definition life_by_slugs :: "life_db \<Rightarrow> string \<Rightarrow> string \<Rightarrow> life_skill option" where
  "life_by_slugs db ns slug =
     find (\<lambda>s. lk_slug s = slug \<and> list_ex (\<lambda>n. nr_id n = sk_namespace s \<and> nr_slug n = ns) (lf_namespaces db)) (lf_skills db)"

definition set_life :: "ident \<Rightarrow> (life_skill \<Rightarrow> life_skill) \<Rightarrow> life_db \<Rightarrow> life_db" where
  "set_life i f db = db\<lparr>lf_skills := map (\<lambda>s. if sk_id s = i then f s else s) (lf_skills db)\<rparr>"

definition set_versions :: "(life_version \<Rightarrow> bool) \<Rightarrow> version_status \<Rightarrow> life_db \<Rightarrow> life_db" where
  "set_versions P st db = db\<lparr>lf_versions := map (\<lambda>v. if P v then v\<lparr>lv_status := st\<rparr> else v) (lf_versions db)\<rparr>"

definition life_audit :: "ident \<Rightarrow> string \<Rightarrow> string \<Rightarrow> string \<Rightarrow> ident option \<Rightarrow> json \<Rightarrow> json \<Rightarrow> life_db \<Rightarrow> life_db" where
  "life_audit actor action type target ns bef aft db =
     db\<lparr>lf_audit := lf_audit db @ [\<lparr>au_actor = Some actor, au_action = action, au_type = type, au_target = Some target,
        au_namespace = ns, au_before = bef, au_after = aft\<rparr>]\<rparr>"

definition life_notify :: "notification_row list \<Rightarrow> life_db \<Rightarrow> life_db" where
  "life_notify ns db = db\<lparr>lf_notifications := lf_notifications db @ ns\<rparr>"

definition refresh_quality :: "ident \<Rightarrow> life_db \<Rightarrow> life_db" where
  "refresh_quality i db = db\<lparr>lf_refreshed := lf_refreshed db @ [i]\<rparr>"

section \<open>Eligibility for collections\<close>

definition installable_version :: "ident \<Rightarrow> life_version \<Rightarrow> bool" where
  "installable_version i v = (lv_skill v = i \<and> lv_status v = VersionActive \<and> lv_git v)"

definition collection_eligible :: "life_db \<Rightarrow> life_skill \<Rightarrow> bool" where
  "collection_eligible db s =
     (sk_visibility s = OrgVisible \<and> \<not> lk_archived s \<and> list_ex (installable_version (sk_id s)) (lf_versions db))"

definition evict_from_collections :: "ident \<Rightarrow> life_db \<Rightarrow> life_db" where
  "evict_from_collections i db = db\<lparr>lf_items := filter (\<lambda>it. ci_skill it \<noteq> i \<or>
     list_ex (\<lambda>s. sk_id s = i \<and> collection_eligible db s) (lf_skills db)) (lf_items db)\<rparr>"

section \<open>The operations\<close>

datatype refusal =
    SkillNotFound | VersionNotFound | NotAuthorized | PlatformAdminsOnly | SkillArchived | SkillDeprecated
  | NothingInstallable | FeaturedCap nat | NotArchived | ReasonRequired | NotQuarantined

definition refusal_status :: "refusal \<Rightarrow> int" where
  "refusal_status r =
     (case r of SkillNotFound \<Rightarrow> 404 | VersionNotFound \<Rightarrow> 404 | NotAuthorized \<Rightarrow> 403 | PlatformAdminsOnly \<Rightarrow> 403
      | ReasonRequired \<Rightarrow> 422 | _ \<Rightarrow> 409)"

type_synonym life_result = "refusal option"

text \<open>The skill an operation is about, when the caller can see it.\<close>

definition managed_skill :: "effective_access \<Rightarrow> string \<Rightarrow> string \<Rightarrow> life_db \<Rightarrow> life_skill option" where
  "managed_skill a ns slug db =
     (case life_by_slugs db ns slug of None \<Rightarrow> None | Some s \<Rightarrow> if life_visible a db s then Some s else None)"

definition version_target :: "life_skill \<Rightarrow> string \<Rightarrow> ident" where
  "version_target s semver = sk_id s @ ''@'' @ semver"

definition unfeature :: "ident \<Rightarrow> life_skill \<Rightarrow> string \<Rightarrow> life_db \<Rightarrow> life_db" where
  "unfeature actor s reason db =
     life_audit actor ''skill.unfeatured'' ''skill'' (sk_id s) (Some (sk_namespace s)) JNull
       (JObj [(''featured'', JBool False), (''reason'', JStr reason)]) db"

definition clear_featured :: "life_skill \<Rightarrow> life_skill" where
  "clear_featured s = s\<lparr>lk_featured_at := None, lk_featured_by := None\<rparr>"

text \<open>What a yank takes away with the last version: the places in collections, then the spotlight.\<close>

definition after_yank :: "ident \<Rightarrow> life_skill \<Rightarrow> life_db \<Rightarrow> life_db" where
  "after_yank actor s db =
     (let db1 = evict_from_collections (sk_id s) db
      in if list_ex (\<lambda>v. lv_skill v = sk_id s \<and> lv_status v = VersionActive) (lf_versions db1) then db1
         else if list_ex (\<lambda>x. sk_id x = sk_id s \<and> lk_featured_at x \<noteq> None) (lf_skills db1)
         then unfeature actor s ''all-versions-yanked'' (set_life (sk_id s) clear_featured db1)
         else db1)"

definition set_version_yanked ::
  "effective_access \<Rightarrow> ident \<Rightarrow> string \<Rightarrow> string \<Rightarrow> string \<Rightarrow> bool \<Rightarrow> life_db \<Rightarrow> life_result \<times> life_db" where
  "set_version_yanked a actor ns slug semver yanked db =
     (case managed_skill a ns slug db of
        None \<Rightarrow> (Some SkillNotFound, db)
      | Some s \<Rightarrow>
          if \<not> can_yank_or_archive a (sk_namespace s) then (Some NotAuthorized, db)
          else if \<not> list_ex (\<lambda>v. lv_skill v = sk_id s \<and> lv_semver v = semver) (lf_versions db) then (Some VersionNotFound, db)
          else
            let st = (if yanked then VersionYanked else VersionActive);
                db1 = refresh_quality (sk_id s) (set_versions (\<lambda>v. lv_skill v = sk_id s \<and> lv_semver v = semver) st db);
                db2 = life_audit actor (if yanked then ''version.yanked'' else ''version.restored'') ''skill_version''
                  (version_target s semver) (Some (sk_namespace s)) JNull
                  (JObj [(''semver'', JStr semver), (''status'', JStr (if yanked then ''yanked'' else ''active''))]) db1
            in (None, if yanked then after_yank actor s db2 else db2))"

definition set_skill_archived ::
  "effective_access \<Rightarrow> ident \<Rightarrow> string \<Rightarrow> string \<Rightarrow> bool \<Rightarrow> life_db \<Rightarrow> life_result \<times> life_db" where
  "set_skill_archived a actor ns slug archived db =
     (case managed_skill a ns slug db of
        None \<Rightarrow> (Some SkillNotFound, db)
      | Some s \<Rightarrow>
          if \<not> can_yank_or_archive a (sk_namespace s) then (Some NotAuthorized, db)
          else
            let db1 = (if archived
                  then evict_from_collections (sk_id s) (set_life (sk_id s) (\<lambda>x. clear_featured (x\<lparr>lk_archived := True\<rparr>)) db)
                  else set_life (sk_id s) (\<lambda>x. x\<lparr>lk_archived := False\<rparr>) db);
                db2 = life_audit actor (if archived then ''skill.archived'' else ''skill.restored'') ''skill'' (sk_id s)
                  (Some (sk_namespace s)) JNull (JObj [(''status'', JStr (if archived then ''archived'' else ''active''))])
                  (refresh_quality (sk_id s) db1)
            in (None, if archived \<and> lk_featured_at s \<noteq> None then unfeature actor s ''archived'' db2 else db2))"

definition set_skill_official ::
  "effective_access \<Rightarrow> ident \<Rightarrow> string \<Rightarrow> string \<Rightarrow> bool \<Rightarrow> life_db \<Rightarrow> life_result \<times> life_db" where
  "set_skill_official a actor ns slug official db =
     (case managed_skill a ns slug db of
        None \<Rightarrow> (Some SkillNotFound, db)
      | Some s \<Rightarrow>
          if \<not> is_platform_admin a then (Some PlatformAdminsOnly, db)
          else
            let db1 = (if official
                  then set_life (sk_id s) (\<lambda>x. x\<lparr>lk_official_at :=
                    (case lk_official_at x of None \<Rightarrow> Some (lf_now db) | t \<Rightarrow> t), lk_official_by := Some actor\<rparr>) db
                  else set_life (sk_id s) (\<lambda>x. x\<lparr>lk_official_at := None, lk_official_by := None\<rparr>) db);
                told = (if official \<and> lk_official_at s = None
                  then map (\<lambda>m. \<lparr>nt_user = mt_user m, nt_type = ''skill.marked_official'',
                         nt_payload = JObj [(''namespaceSlug'', JStr ns), (''skillSlug'', JStr slug)]\<rparr>)
                    (filter (\<lambda>m. mt_skill m = sk_id s \<and> mt_user m \<noteq> actor) (lf_maintainers db1))
                  else [])
            in (None, life_audit actor (if official then ''skill.marked_official'' else ''skill.unmarked_official'') ''skill''
                  (sk_id s) (Some (sk_namespace s)) JNull (JObj [(''official'', JBool official)]) (life_notify told db1)))"

text \<open>The gates of a genuine transition to Featured.\<close>

definition featured_gate :: "nat \<Rightarrow> life_skill \<Rightarrow> life_db \<Rightarrow> refusal option" where
  "featured_gate cap s db =
     (if lk_featured_at s \<noteq> None then None
      else if lk_archived s then Some SkillArchived
      else if lk_deprecated_at s \<noteq> None then Some SkillDeprecated
      else if \<not> list_ex (installable_version (sk_id s)) (lf_versions db) then Some NothingInstallable
      else if cap \<le> length (filter (\<lambda>x. lk_featured_at x \<noteq> None) (lf_skills db)) then Some (FeaturedCap cap)
      else None)"

definition set_skill_featured ::
  "nat \<Rightarrow> effective_access \<Rightarrow> ident \<Rightarrow> string \<Rightarrow> string \<Rightarrow> bool \<Rightarrow> life_db \<Rightarrow> life_result \<times> life_db" where
  "set_skill_featured cap a actor ns slug featured db =
     (case managed_skill a ns slug db of
        None \<Rightarrow> (Some SkillNotFound, db)
      | Some s \<Rightarrow>
          if \<not> is_platform_admin a then (Some PlatformAdminsOnly, db)
          else if featured \<and> featured_gate cap s db \<noteq> None then (featured_gate cap s db, db)
          else
            let db1 = (if featured
                  then set_life (sk_id s) (\<lambda>x. x\<lparr>lk_featured_at :=
                    (case lk_featured_at x of None \<Rightarrow> Some (lf_now db) | t \<Rightarrow> t), lk_featured_by := Some actor\<rparr>) db
                  else set_life (sk_id s) clear_featured db)
            in (None, life_audit actor (if featured then ''skill.featured'' else ''skill.unfeatured'') ''skill''
                  (sk_id s) (Some (sk_namespace s)) JNull (JObj [(''featured'', JBool featured)]) db1))"

definition artifact_findings :: "life_db \<Rightarrow> string option \<Rightarrow> scan_finding list" where
  "artifact_findings db key =
     (case find_last (\<lambda>r. sr_type r = ''artifact'' \<and> Some (sr_subject r) = key) (lf_scans db) of
        None \<Rightarrow> [] | Some r \<Rightarrow> sr_findings r)"

text \<open>The rules of the findings stand for the findings in the audit row.\<close>

definition release_quarantined_version ::
  "effective_access \<Rightarrow> ident \<Rightarrow> string \<Rightarrow> string \<Rightarrow> string \<Rightarrow> string \<Rightarrow> life_db \<Rightarrow> life_result \<times> life_db" where
  "release_quarantined_version a actor ns slug semver reason db =
     (case managed_skill a ns slug db of
        None \<Rightarrow> (Some SkillNotFound, db)
      | Some s \<Rightarrow>
          if \<not> can_yank_or_archive a (sk_namespace s) then (Some NotAuthorized, db)
          else if js_trim reason = [] then (Some ReasonRequired, db)
          else case find (\<lambda>v. lv_skill v = sk_id s \<and> lv_semver v = semver) (lf_versions db) of
            None \<Rightarrow> (Some VersionNotFound, db)
          | Some v \<Rightarrow>
              if lv_status v \<noteq> VersionQuarantined then (Some NotQuarantined, db)
              else (None, life_audit actor ''skill.version_released'' ''skill_version'' (version_target s semver)
                     (Some (sk_namespace s)) (JObj [(''status'', JStr ''quarantined'')])
                     (JObj [(''status'', JStr ''active''), (''semver'', JStr semver), (''reason'', JStr (take 2000 (js_trim reason))),
                            (''findings'', JArr (map (\<lambda>f. JStr (fd_rule f)) (artifact_findings db (lv_key v))))])
                     (refresh_quality (sk_id s) (set_versions (\<lambda>x. lv_id x = lv_id v) VersionActive db))))"

section \<open>Permanent deletion\<close>

text \<open>\<open>payload->>'conversationId'\<close>\<close>

definition conversation_of :: "json \<Rightarrow> string option" where
  "conversation_of p =
     (case p of JObj fs \<Rightarrow> (case find (\<lambda>f. fst f = ''conversationId'') fs of Some (_, JStr c) \<Rightarrow> Some c | _ \<Rightarrow> None)
      | _ \<Rightarrow> None)"

definition drop_alerts :: "string list \<Rightarrow> ident list \<Rightarrow> life_db \<Rightarrow> life_db" where
  "drop_alerts types convs db =
     db\<lparr>lf_notifications := filter (\<lambda>n. \<not> (nt_type n \<in> set types \<and>
        (case conversation_of (nt_payload n) of None \<Rightarrow> False | Some c \<Rightarrow> c \<in> set convs))) (lf_notifications db)\<rparr>"

definition conversation_ids :: "(conversation_row \<Rightarrow> bool) \<Rightarrow> life_db \<Rightarrow> ident list" where
  "conversation_ids P db = map cv_id (filter P (lf_conversations db))"

definition drop_conversations :: "(conversation_row \<Rightarrow> bool) \<Rightarrow> string list \<Rightarrow> life_db \<Rightarrow> life_db" where
  "drop_conversations P types db =
     drop_alerts types (conversation_ids P db) (db\<lparr>lf_conversations := filter (\<lambda>c. \<not> P c) (lf_conversations db)\<rparr>)"

definition version_ids :: "life_db \<Rightarrow> ident \<Rightarrow> ident list" where
  "version_ids db i = map lv_id (filter (\<lambda>v. lv_skill v = i) (lf_versions db))"

definition doomed_proposal :: "life_db \<Rightarrow> ident \<Rightarrow> life_proposal \<Rightarrow> bool" where
  "doomed_proposal db i p =
     (lp_skill p = Some i \<or> (case lp_version p of None \<Rightarrow> False | Some v \<Rightarrow> v \<in> set (version_ids db i)))"

definition nulled :: "ident list \<Rightarrow> ident option \<Rightarrow> ident option" where
  "nulled vs o' = (case o' of Some v \<Rightarrow> if v \<in> set vs then None else o' | None \<Rightarrow> None)"

text \<open>The references that do not cascade.\<close>

definition detach_skill :: "ident \<Rightarrow> life_db \<Rightarrow> life_db" where
  "detach_skill i db =
     (let vs = version_ids db i;
          db1 = db\<lparr>lf_skills := map (\<lambda>s. s\<lparr>lk_promoted_from := nulled vs (lk_promoted_from s)\<rparr>) (lf_skills db),
                   lf_access_log := map (nulled vs) (lf_access_log db)\<rparr>;
          ps = map lp_id (filter (doomed_proposal db1 i) (lf_proposals db1));
          db2 = drop_conversations (\<lambda>c. cv_type c = ''proposal'' \<and> cv_subject c \<in> set ps) [''message.new'', ''message.mention''] db1;
          db3 = drop_conversations (\<lambda>c. cv_type c = ''skill'' \<and> cv_subject c = i)
                  [''skill.discussion'', ''skill.discussion_reply'', ''message.mention''] db2
      in db3\<lparr>lf_proposals := filter (\<lambda>p. \<not> doomed_proposal db3 i p) (lf_proposals db3),
             lf_scans := filter (\<lambda>r. \<not> (sr_type r = ''skill_version'' \<and> sr_subject r \<in> set vs)) (lf_scans db3),
             lf_tokens := filter (\<lambda>t. tr_skill t \<noteq> i) (lf_tokens db3)\<rparr>)"

text \<open>\<open>delete from skills\<close> with the cascades of the foreign keys; a successor pointer is set to null.\<close>

definition cascade_skill :: "ident \<Rightarrow> life_db \<Rightarrow> life_db" where
  "cascade_skill i db =
     db\<lparr>lf_skills := map (\<lambda>s. if lk_successor s = Some i then s\<lparr>lk_successor := None\<rparr> else s) (filter (\<lambda>s. sk_id s \<noteq> i) (lf_skills db)),
        lf_versions := filter (\<lambda>v. lv_skill v \<noteq> i) (lf_versions db),
        lf_items := filter (\<lambda>it. ci_skill it \<noteq> i) (lf_items db),
        lf_maintainers := filter (\<lambda>m. mt_skill m \<noteq> i) (lf_maintainers db),
        lf_watches := filter (\<lambda>w. wt_skill w \<noteq> i) (lf_watches db),
        lf_tokens := filter (\<lambda>t. tr_skill t \<noteq> i) (lf_tokens db),
        lf_access := (lf_access db)\<lparr>t_grants := filter (\<lambda>g. sng_skill g \<noteq> i) (t_grants (lf_access db))\<rparr>,
        lf_children := (\<lambda>t. filter (\<lambda>x. x \<noteq> i) (lf_children db t))\<rparr>"

definition visibility_text :: "visibility \<Rightarrow> string" where
  "visibility_text v = (case v of OrgVisible \<Rightarrow> ''org'' | NamespaceVisible \<Rightarrow> ''namespace'')"

definition delete_skill :: "effective_access \<Rightarrow> ident \<Rightarrow> string \<Rightarrow> string \<Rightarrow> life_db \<Rightarrow> life_result \<times> life_db" where
  "delete_skill a actor ns slug db =
     (case managed_skill a ns slug db of
        None \<Rightarrow> (Some SkillNotFound, db)
      | Some s \<Rightarrow>
          if \<not> is_platform_admin a then (Some PlatformAdminsOnly, db)
          else if \<not> lk_archived s then (Some NotArchived, db)
          else (None, life_audit actor ''skill.deleted'' ''skill'' (sk_id s) (Some (sk_namespace s))
                 (JObj [(''namespaceSlug'', JStr ns), (''skillSlug'', JStr slug), (''visibility'', JStr (visibility_text (sk_visibility s)))])
                 JNull (cascade_skill (sk_id s) (detach_skill (sk_id s) db))))"

end
