(* ===== verification/Deprecation.thy ===== *)
theory Deprecation
  imports Lifecycle
begin

text \<open>
  Deprecation of a skill with a successor: the audience rule and the read side of
  \<open>packages/shared/src/deprecation.ts\<close>, the write path and the fan-out of \<open>packages/web/src/lib/deprecation.ts\<close>.
  The hint written into SKILL.md and the ranking of the successor picker are not modelled.
\<close>

section \<open>The audience rule\<close>

definition DEPRECATION_NOTE_MAX :: nat where
  "DEPRECATION_NOTE_MAX = 1000"

datatype ineligible_reason = CandidateNotFound | CandidateSelf | CandidateArchived | CandidateDeprecated | CandidateAudience

record audience_subject =
  as_id :: ident
  as_visibility :: visibility
  as_namespace :: ident
  as_shared :: "ident list option"

record successor_candidate = audience_subject +
  sx_active :: bool
  sx_deprecated :: "instant option"

definition shared_or_none :: "ident list option \<Rightarrow> ident list" where
  "shared_or_none v = (case v of None \<Rightarrow> [] | Some xs \<Rightarrow> xs)"

definition successor_eligibility :: "audience_subject \<Rightarrow> successor_candidate option \<Rightarrow> ineligible_reason option" where
  "successor_eligibility skill successor =
     (case successor of
        None \<Rightarrow> None
      | Some x \<Rightarrow>
          if as_id x = as_id skill then Some CandidateSelf
          else if \<not> sx_active x then Some CandidateArchived
          else if sx_deprecated x \<noteq> None then Some CandidateDeprecated
          else if as_visibility x = OrgVisible then None
          else if as_visibility skill \<noteq> NamespaceVisible then Some CandidateAudience
          else
            let covered = set (as_namespace x # shared_or_none (as_shared x));
                needed = as_namespace skill # shared_or_none (as_shared skill)
            in if list_all (\<lambda>i. i \<in> covered) needed then None else Some CandidateAudience)"

text \<open>The note: unified newlines, trimmed, bounded; blank becomes null.\<close>

datatype note_result = NoteOk "string option" | NoteNotText | NoteTooLong

definition normalize_deprecation_note :: "js_value \<Rightarrow> note_result" where
  "normalize_deprecation_note raw =
     (case raw of
        JsUndefined \<Rightarrow> NoteOk None | JsNull \<Rightarrow> NoteOk None
      | JsText t \<Rightarrow>
          (let note = js_trim (unify_newlines t) in
           if note = [] then NoteOk None
           else if length note > DEPRECATION_NOTE_MAX then NoteTooLong
           else NoteOk (Some note))
      | _ \<Rightarrow> NoteNotText)"

section \<open>The successor of a row\<close>

record successor_json = successor_candidate +
  sj_ns_slug :: string
  sj_slug :: string
  sj_title :: string
  sj_installable :: bool

definition successor_row :: "life_db \<Rightarrow> ident option \<Rightarrow> successor_json option" where
  "successor_row db i =
     (case find (\<lambda>x. Some (sk_id x) = i) (lf_skills db) of
        None \<Rightarrow> None
      | Some x \<Rightarrow> (case find (\<lambda>n. nr_id n = sk_namespace x) (lf_namespaces db) of
           None \<Rightarrow> None
         | Some n \<Rightarrow> Some \<lparr>as_id = sk_id x, as_visibility = sk_visibility x, as_namespace = sk_namespace x,
             as_shared = Some (shared_namespace_ids_sql (lf_access db) (life_base x)),
             sx_active = (\<not> lk_archived x), sx_deprecated = lk_deprecated_at x,
             sj_ns_slug = nr_slug n, sj_slug = lk_slug x, sj_title = lk_title x,
             sj_installable = list_ex (\<lambda>v. installable_version (sk_id x) v \<and> \<not> lv_prerelease v) (lf_versions db)\<rparr>))"

definition visible_successor :: "effective_access \<Rightarrow> successor_json option \<Rightarrow> successor_json option" where
  "visible_successor a succ =
     (case succ of None \<Rightarrow> None
      | Some x \<Rightarrow> if \<not> sx_active x then None
          else if is_skill_visible a \<lparr>vs_namespace = as_namespace x, vs_visibility = as_visibility x, vs_shared = as_shared x\<rparr>
          then succ else None)"

datatype successor_state = SuccessorOk | SuccessorHidden | SuccessorArchived | SuccessorDeprecated | SuccessorNone

record deprecation_detail =
  de_at :: instant
  de_by :: "ident option"
  de_note :: "string option"
  de_successor :: "successor_json option"
  de_state :: successor_state

definition deprecation_detail_of :: "effective_access \<Rightarrow> life_db \<Rightarrow> life_skill \<Rightarrow> bool \<Rightarrow> deprecation_detail option" where
  "deprecation_detail_of a db s can =
     (case lk_deprecated_at s of None \<Rightarrow> None
      | Some t \<Rightarrow>
          let raw = successor_row db (lk_successor s); vis = visible_successor a raw;
              st = (case raw of None \<Rightarrow> SuccessorNone
                | Some x \<Rightarrow> if vis \<noteq> None then SuccessorOk else if \<not> can then SuccessorHidden
                    else if \<not> sx_active x then SuccessorArchived else SuccessorHidden);
              st' = (if vis \<noteq> None \<and> (case raw of None \<Rightarrow> False | Some x \<Rightarrow> sx_deprecated x \<noteq> None) \<and> can
                then SuccessorDeprecated else st)
          in Some \<lparr>de_at = t, de_by = lk_deprecated_by s, de_note = lk_note s, de_successor = vis, de_state = st'\<rparr>)"

text \<open>The skills a skill replaces, as a viewer sees them.\<close>

definition sees_life :: "effective_access \<Rightarrow> life_db \<Rightarrow> life_skill \<Rightarrow> bool" where
  "sees_life a db s = (case skill_visibility_where a of None \<Rightarrow> True | Some p \<Rightarrow> p (lf_access db) (life_base s))"

definition list_replaces :: "effective_access \<Rightarrow> ident \<Rightarrow> life_db \<Rightarrow> life_skill list" where
  "list_replaces a i db =
     sort_key lk_title (filter (\<lambda>s. lk_successor s = Some i \<and> \<not> lk_archived s \<and> lk_deprecated_at s \<noteq> None \<and> sees_life a db s)
       (lf_skills db))"

definition load_candidate :: "effective_access \<Rightarrow> string \<Rightarrow> life_db \<Rightarrow> successor_json option" where
  "load_candidate a ref db =
     (case split_on (CHR 0x2F) ref of
        ns # slug # _ \<Rightarrow>
          if ns = [] \<or> slug = [] then None
          else (case find (\<lambda>s. lk_slug s = slug \<and> list_ex (\<lambda>n. nr_id n = sk_namespace s \<and> nr_slug n = ns) (lf_namespaces db)
                  \<and> sees_life a db s) (lf_skills db) of
                None \<Rightarrow> None | Some s \<Rightarrow> successor_row db (Some (sk_id s)))
      | _ \<Rightarrow> None)"

section \<open>The fan-out\<close>

definition live_token :: "life_db \<Rightarrow> ident \<Rightarrow> token_row \<Rightarrow> bool" where
  "live_token db i t =
     (tr_skill t = i \<and> tr_used t \<and> (case tr_expires t of None \<Rightarrow> True | Some e \<Rightarrow> e > lf_now db))"

definition notice_candidate :: "life_db \<Rightarrow> life_skill \<Rightarrow> ident \<Rightarrow> bool" where
  "notice_candidate db s u =
     (list_ex (\<lambda>w. wt_skill w = sk_id s \<and> wt_user w = u) (lf_watches db) \<or>
      list_ex (\<lambda>m. mt_skill m = sk_id s \<and> mt_user m = u) (lf_maintainers db) \<or>
      list_ex (\<lambda>rm. mr_namespace rm = Some (sk_namespace s) \<and> mr_role rm = NamespaceAdmin \<and>
         list_ex (\<lambda>gm. gm_group gm = mr_group rm \<and> gm_user gm = u) (t_memberships (lf_access db))) (t_mappings (lf_access db)) \<or>
      list_ex (\<lambda>t. live_token db (sk_id s) t \<and> tr_user t = Some u) (lf_tokens db) \<or>
      list_ex (\<lambda>t. live_token db (sk_id s) t \<and> tr_system t \<and> tr_created_by t = Some u) (lf_tokens db))"

definition named_or_null :: "bool \<Rightarrow> string \<Rightarrow> json" where
  "named_or_null shown v = (if shown then JStr v else JNull)"

definition deprecation_notice :: "life_db \<Rightarrow> life_skill \<Rightarrow> namespace_row \<Rightarrow> ident \<Rightarrow> notification_row" where
  "deprecation_notice db s n u =
     (let x = (case find (\<lambda>y. Some (sk_id y) = lk_successor s \<and> \<not> lk_archived y) (lf_skills db) of
                 None \<Rightarrow> None
               | Some y \<Rightarrow> (case find (\<lambda>m. nr_id m = sk_namespace y) (lf_namespaces db) of None \<Rightarrow> None | Some m \<Rightarrow> Some (y, m)));
          name = (\<lambda>f. case x of None \<Rightarrow> JNull
                 | Some (y, m) \<Rightarrow> named_or_null (user_can_see_skill_sql u (lf_access db) (life_base y)) (f y m))
      in \<lparr>nt_user = u, nt_type = ''skill.deprecated'',
          nt_payload = JObj [(''namespaceSlug'', JStr (nr_slug n)), (''skillSlug'', JStr (lk_slug s)), (''skillTitle'', JStr (lk_title s)),
            (''note'', json_opt (lk_note s)), (''successorNamespaceSlug'', name (\<lambda>y m. nr_slug m)),
            (''successorSlug'', name (\<lambda>y m. lk_slug y)), (''successorTitle'', name (\<lambda>y m. lk_title y))]\<rparr>)"

definition notify_deprecated :: "ident \<Rightarrow> ident \<Rightarrow> life_db \<Rightarrow> life_db" where
  "notify_deprecated i actor db =
     (case find (\<lambda>s. sk_id s = i) (lf_skills db) of
        None \<Rightarrow> db
      | Some s \<Rightarrow> (case find (\<lambda>n. nr_id n = sk_namespace s) (lf_namespaces db) of
           None \<Rightarrow> db
         | Some n \<Rightarrow> life_notify (map (deprecation_notice db s n)
             (filter (\<lambda>u. notice_candidate db s u \<and> u \<noteq> actor \<and> user_can_see_skill_sql u (lf_access db) (life_base s))
                (map ur_id (filter ur_active (t_users (lf_access db)))))) db))"

section \<open>The write path\<close>

datatype deprecation_refusal =
    DeprecationNotFound | DeprecationForbidden | DeprecationArchived | DeprecationNote note_result
  | DeprecationSuccessor ineligible_reason

datatype deprecation_result = DeprecationSet "deprecation_detail option" bool | DeprecationRefused deprecation_refusal

text \<open>\<open>findSkill\<close> with the visibility check of these two operations, which only guards an active skill.\<close>

definition deprecation_skill :: "effective_access \<Rightarrow> string \<Rightarrow> string \<Rightarrow> life_db \<Rightarrow> life_skill option" where
  "deprecation_skill a ns slug db =
     (case life_by_slugs db ns slug of None \<Rightarrow> None
      | Some s \<Rightarrow> if \<not> lk_archived s \<and> \<not> life_visible a db s then None else Some s)"

definition audience_of :: "life_db \<Rightarrow> life_skill \<Rightarrow> audience_subject" where
  "audience_of db s = \<lparr>as_id = sk_id s, as_visibility = sk_visibility s, as_namespace = sk_namespace s,
     as_shared = Some (shared_namespace_ids_sql (lf_access db) (life_base s))\<rparr>"

definition candidate_of :: "successor_json \<Rightarrow> successor_candidate" where
  "candidate_of x = \<lparr>as_id = as_id x, as_visibility = as_visibility x, as_namespace = as_namespace x, as_shared = as_shared x,
     sx_active = sx_active x, sx_deprecated = sx_deprecated x\<rparr>"

text \<open>The successor asked for: refused, none, or a row.\<close>

definition resolve_successor ::
  "effective_access \<Rightarrow> life_skill \<Rightarrow> string option \<Rightarrow> life_db \<Rightarrow> ineligible_reason + successor_json option" where
  "resolve_successor a s wanted db =
     (if \<not> truthy wanted then Inr None
      else case load_candidate a (js_trim (the wanted)) db of
        None \<Rightarrow> Inl CandidateNotFound
      | Some x \<Rightarrow> (case successor_eligibility (audience_of db s) (Some (candidate_of x)) of
           Some reason \<Rightarrow> Inl reason | None \<Rightarrow> Inr (Some x)))"

definition write_deprecation :: "ident \<Rightarrow> ident option \<Rightarrow> string option \<Rightarrow> instant \<Rightarrow> life_skill \<Rightarrow> life_skill" where
  "write_deprecation actor succ note now s =
     s\<lparr>lk_deprecated_at := (case lk_deprecated_at s of None \<Rightarrow> Some now | t \<Rightarrow> t),
       lk_deprecated_by := (if lk_deprecated_at s = None then Some actor else lk_deprecated_by s),
       lk_successor := succ, lk_note := note\<rparr>"

text \<open>The row, the audit entry and the spotlight of an accepted deprecation.\<close>

definition record_deprecation :: "ident \<Rightarrow> life_skill \<Rightarrow> successor_json option \<Rightarrow> string option \<Rightarrow> life_db \<Rightarrow> life_db" where
  "record_deprecation actor s succ note db =
     (let new = (lk_deprecated_at s = None);
          previous = map_option as_id (successor_row db (lk_successor s));
          sid = map_option as_id succ;
          db1 = set_life (sk_id s) (write_deprecation actor sid note (lf_now db)) db;
          db2 = life_audit actor ''skill.deprecated'' ''skill'' (sk_id s) (Some (sk_namespace s))
            (if new then JNull else JObj [(''successorSkillId'', json_opt previous), (''note'', json_opt (lk_note s))])
            (JObj ([(''successorSkillId'', json_opt sid),
                    (''successorSlug'', json_opt (map_option (\<lambda>x. sj_ns_slug x @ ''/'' @ sj_slug x) succ)),
                    (''note'', json_opt note)] @
                   (if new then [] else [(''previousSuccessorSkillId'', json_opt previous), (''edit'', JBool True)]))) db1
      in if new \<and> lk_featured_at s \<noteq> None
         then unfeature actor s ''deprecated'' (set_life (sk_id s) clear_featured db2) else db2)"

definition set_skill_deprecation ::
  "effective_access \<Rightarrow> ident \<Rightarrow> string \<Rightarrow> string \<Rightarrow> string option \<Rightarrow> js_value \<Rightarrow> life_db \<Rightarrow> deprecation_result \<times> life_db" where
  "set_skill_deprecation a actor ns slug wanted raw_note db =
     (case deprecation_skill a ns slug db of
        None \<Rightarrow> (DeprecationRefused DeprecationNotFound, db)
      | Some s \<Rightarrow>
          if \<not> can_yank_or_archive a (sk_namespace s) then (DeprecationRefused DeprecationForbidden, db)
          else if lk_archived s then (DeprecationRefused DeprecationArchived, db)
          else case normalize_deprecation_note raw_note of
            NoteOk note \<Rightarrow>
              (case resolve_successor a s wanted db of
                 Inl reason \<Rightarrow> (DeprecationRefused (DeprecationSuccessor reason), db)
               | Inr succ \<Rightarrow>
                   let changed = (lk_deprecated_at s = None \<or>
                         map_option as_id (successor_row db (lk_successor s)) \<noteq> map_option as_id succ);
                       db3 = record_deprecation actor s succ note db;
                       db4 = (if changed then notify_deprecated (sk_id s) actor db3 else db3)
                   in (DeprecationSet (case life_by_slugs db4 ns slug of None \<Rightarrow> None | Some s' \<Rightarrow> deprecation_detail_of a db4 s' True)
                         changed, db4))
          | bad \<Rightarrow> (DeprecationRefused (DeprecationNote bad), db))"

definition clear_deprecation :: "life_skill \<Rightarrow> life_skill" where
  "clear_deprecation s = s\<lparr>lk_deprecated_at := None, lk_deprecated_by := None, lk_successor := None, lk_note := None\<rparr>"

datatype clear_result = Cleared bool | ClearRefused deprecation_refusal

definition clear_skill_deprecation ::
  "effective_access \<Rightarrow> ident \<Rightarrow> string \<Rightarrow> string \<Rightarrow> life_db \<Rightarrow> clear_result \<times> life_db" where
  "clear_skill_deprecation a actor ns slug db =
     (case deprecation_skill a ns slug db of
        None \<Rightarrow> (ClearRefused DeprecationNotFound, db)
      | Some s \<Rightarrow>
          if \<not> can_yank_or_archive a (sk_namespace s) then (ClearRefused DeprecationForbidden, db)
          else if lk_deprecated_at s = None then (Cleared False, db)
          else (Cleared True, life_audit actor ''skill.undeprecated'' ''skill'' (sk_id s) (Some (sk_namespace s))
                 (JObj [(''successorSkillId'', json_opt (map_option as_id (successor_row db (lk_successor s)))), (''note'', json_opt (lk_note s))])
                 (JObj [(''deprecated'', JBool False)]) (set_life (sk_id s) clear_deprecation db)))"

end
