(* ===== verification/Collections.thy ===== *)
theory Collections
  imports Lifecycle
begin

text \<open>
  Collections of skills: the limits and the validation of \<open>packages/shared/src/collections.ts\<close>, the reads and
  writes of \<open>packages/web/src/lib/collections.ts\<close>. The search over collections is not modelled. The unique
  index on the owner and the lower-cased name appears as the refusal \<open>NameTaken\<close>.
\<close>

section \<open>Limits and validation\<close>

definition MAX_COLLECTIONS_PER_OWNER :: nat where "MAX_COLLECTIONS_PER_OWNER = 50"
definition MAX_SKILLS_PER_COLLECTION :: nat where "MAX_SKILLS_PER_COLLECTION = 50"
definition COLLECTION_NAME_MIN :: nat where "COLLECTION_NAME_MIN = 1"
definition COLLECTION_NAME_MAX :: nat where "COLLECTION_NAME_MAX = 60"
definition COLLECTION_DESCRIPTION_MAX :: nat where "COLLECTION_DESCRIPTION_MAX = 500"

datatype collection_refusal =
    NameRequired | NameTooLong | DescriptionNotText | DescriptionTooLong | SkillNotEligible
  | CollectionLimit | NameTaken | CollectionNotFound | NotTheOwner | NotOwnerNorAdmin | CollectionFull

definition collection_status :: "collection_refusal \<Rightarrow> int" where
  "collection_status r =
     (case r of CollectionLimit \<Rightarrow> 409 | NameTaken \<Rightarrow> 409 | CollectionFull \<Rightarrow> 409 | CollectionNotFound \<Rightarrow> 404
      | NotTheOwner \<Rightarrow> 403 | NotOwnerNorAdmin \<Rightarrow> 403 | _ \<Rightarrow> 422)"

definition validate_collection_name :: "js_value \<Rightarrow> collection_refusal + string" where
  "validate_collection_name raw =
     (case raw of
        JsText t \<Rightarrow>
          (let name = js_trim t in
           if length name < COLLECTION_NAME_MIN then Inl NameRequired
           else if length name > COLLECTION_NAME_MAX then Inl NameTooLong
           else Inr name)
      | _ \<Rightarrow> Inl NameRequired)"

definition validate_collection_description :: "js_value \<Rightarrow> collection_refusal + string option" where
  "validate_collection_description raw =
     (case raw of
        JsNull \<Rightarrow> Inr None | JsUndefined \<Rightarrow> Inr None
      | JsText t \<Rightarrow>
          (let d = js_trim t in
           if d = [] then Inr None
           else if length d > COLLECTION_DESCRIPTION_MAX then Inl DescriptionTooLong
           else Inr (Some d))
      | _ \<Rightarrow> Inl DescriptionNotText)"

definition same_collection_name :: "string \<Rightarrow> string \<Rightarrow> bool" where
  "same_collection_name x y = (js_lower (js_trim x) = js_lower (js_trim y))"

definition is_collection_id :: "string \<Rightarrow> bool" where
  "is_collection_id v =
     (length v = 36 \<and> list_all (\<lambda>k. if k \<in> {8, 13, 18, 23} then v ! k = CHR ''-'' else is_hex (v ! k)) [0..<length v])"

section \<open>Reads\<close>

definition items_of :: "life_db \<Rightarrow> ident \<Rightarrow> collection_item list" where
  "items_of db c = filter (\<lambda>it. ci_collection it = c) (lf_items db)"

text \<open>The members that count: items joined with an eligible skill.\<close>

definition member_count :: "life_db \<Rightarrow> ident \<Rightarrow> nat" where
  "member_count db c =
     length (filter (\<lambda>it. list_ex (\<lambda>s. sk_id s = ci_skill it \<and> collection_eligible db s) (lf_skills db)) (items_of db c))"

definition is_eligible_skill :: "life_db \<Rightarrow> ident \<Rightarrow> bool" where
  "is_eligible_skill db i = (is_collection_id i \<and> list_ex (\<lambda>s. sk_id s = i \<and> collection_eligible db s) (lf_skills db))"

record collection_summary =
  cm_id :: ident
  cm_name :: string
  cm_description :: "string option"
  cm_count :: nat
  cm_created :: instant
  cm_contains :: "bool option"
  cm_items :: "nat option"

definition summary_of :: "life_db \<Rightarrow> collection_row \<Rightarrow> collection_summary" where
  "summary_of db c = \<lparr>cm_id = co_id c, cm_name = co_name c, cm_description = co_description c, cm_count = member_count db (co_id c),
     cm_created = co_created c, cm_contains = None, cm_items = None\<rparr>"

definition newest_first :: "collection_row list \<Rightarrow> collection_row list" where
  "newest_first cs = sort_key (\<lambda>c. (- co_created c, co_id c)) cs"

definition list_my_collections :: "ident \<Rightarrow> ident option \<Rightarrow> life_db \<Rightarrow> collection_summary list" where
  "list_my_collections owner skill db =
     (let with_skill = (case skill of None \<Rightarrow> None | Some i \<Rightarrow> if i \<noteq> [] \<and> is_collection_id i then Some i else None) in
      map (\<lambda>c. case with_skill of None \<Rightarrow> summary_of db c
             | Some i \<Rightarrow> (summary_of db c)\<lparr>cm_contains := Some (list_ex (\<lambda>it. ci_skill it = i) (items_of db (co_id c))),
                 cm_items := Some (length (items_of db (co_id c)))\<rparr>)
        (newest_first (filter (\<lambda>c. co_owner c = owner) (lf_collections db))))"

definition find_collection :: "life_db \<Rightarrow> ident \<Rightarrow> collection_row option" where
  "find_collection db i = find (\<lambda>c. co_id c = i) (lf_collections db)"

text \<open>The view of one collection with its owner, who must have a row.\<close>

definition get_collection :: "ident \<Rightarrow> life_db \<Rightarrow> (collection_summary \<times> ident) option" where
  "get_collection i db =
     (if \<not> is_collection_id i then None
      else case find_collection db i of
        None \<Rightarrow> None
      | Some c \<Rightarrow> if list_ex (\<lambda>u. ur_id u = co_owner c) (t_users (lf_access db)) then Some (summary_of db c, co_owner c) else None)"

definition list_non_empty_collections :: "ident \<Rightarrow> life_db \<Rightarrow> collection_summary list" where
  "list_non_empty_collections owner db =
     (if \<not> is_collection_id owner then []
      else filter (\<lambda>m. cm_count m > 0)
        (map (summary_of db) (newest_first (filter (\<lambda>c. co_owner c = owner) (lf_collections db)))))"

section \<open>Writes\<close>

definition name_taken :: "life_db \<Rightarrow> ident \<Rightarrow> ident option \<Rightarrow> string \<Rightarrow> bool" where
  "name_taken db owner except name =
     list_ex (\<lambda>c. co_owner c = owner \<and> Some (co_id c) \<noteq> except \<and> js_lower (co_name c) = js_lower name) (lf_collections db)"

definition life_call :: "module_call \<Rightarrow> life_db \<Rightarrow> life_db" where
  "life_call c db = db\<lparr>lf_calls := lf_calls db @ [c]\<rparr>"

definition create_collection ::
  "ident \<Rightarrow> js_value \<Rightarrow> js_value \<Rightarrow> life_db \<Rightarrow> (collection_refusal + collection_summary) \<times> life_db" where
  "create_collection owner raw_name raw_skill db =
     (case validate_collection_name raw_name of
        Inl e \<Rightarrow> (Inl e, db)
      | Inr name \<Rightarrow>
          (case raw_skill of
             JsText i \<Rightarrow>
               if \<not> is_eligible_skill db i then (Inl SkillNotEligible, db)
               else if length (filter (\<lambda>c. co_owner c = owner) (lf_collections db)) \<ge> MAX_COLLECTIONS_PER_OWNER then (Inl CollectionLimit, db)
               else if name_taken db owner None name then (Inl NameTaken, db)
               else
                 let cid = lf_uuid db (lf_used db);
                     row = \<lparr>co_id = cid, co_owner = owner, co_name = name, co_description = None, co_created = lf_now db,
                            co_updated = lf_now db\<rparr>;
                     db1 = db\<lparr>lf_used := Suc (lf_used db), lf_collections := lf_collections db @ [row],
                              lf_items := lf_items db @ [\<lparr>ci_collection = cid, ci_skill = i\<rparr>]\<rparr>;
                     db2 = life_call (FanOut ''follow.collection_created'' owner
                             (JObj [(''collectionId'', JStr cid), (''collectionName'', JStr name)]) None []) db1
                 in (Inr \<lparr>cm_id = cid, cm_name = name, cm_description = None, cm_count = 1, cm_created = lf_now db,
                           cm_contains = None, cm_items = None\<rparr>, life_call (Award owner ''first_collection'' False) db2)
           | _ \<Rightarrow> (Inl SkillNotEligible, db)))"

definition owned_collection :: "ident \<Rightarrow> ident \<Rightarrow> life_db \<Rightarrow> collection_refusal + collection_row" where
  "owned_collection actor i db =
     (if \<not> is_collection_id i then Inl CollectionNotFound
      else case find_collection db i of
        None \<Rightarrow> Inl CollectionNotFound
      | Some c \<Rightarrow> if co_owner c \<noteq> actor then Inl NotTheOwner else Inr c)"

definition set_collection :: "ident \<Rightarrow> (collection_row \<Rightarrow> collection_row) \<Rightarrow> life_db \<Rightarrow> life_db" where
  "set_collection i f db = db\<lparr>lf_collections := map (\<lambda>c. if co_id c = i then f c else c) (lf_collections db)\<rparr>"

text \<open>The patch: a field left out is \<open>JsUndefined\<close>.\<close>

definition patched_name :: "js_value \<Rightarrow> collection_refusal + string option" where
  "patched_name v =
     (if v = JsUndefined then Inr None
      else case validate_collection_name v of Inl e \<Rightarrow> Inl e | Inr n \<Rightarrow> Inr (Some n))"

definition patched_description :: "js_value \<Rightarrow> collection_refusal + string option option" where
  "patched_description v =
     (if v = JsUndefined then Inr None
      else case validate_collection_description v of Inl e \<Rightarrow> Inl e | Inr d \<Rightarrow> Inr (Some d))"

definition update_collection ::
  "ident \<Rightarrow> ident \<Rightarrow> js_value \<Rightarrow> js_value \<Rightarrow> life_db \<Rightarrow> (collection_refusal + string \<times> string option) \<times> life_db" where
  "update_collection actor i raw_name raw_description db =
     (case owned_collection actor i db of
        Inl e \<Rightarrow> (Inl e, db)
      | Inr c \<Rightarrow> (case patched_name raw_name of
          Inl e \<Rightarrow> (Inl e, db)
        | Inr name \<Rightarrow> (case patched_description raw_description of
            Inl e \<Rightarrow> (Inl e, db)
          | Inr description \<Rightarrow>
              let n = (case name of None \<Rightarrow> co_name c | Some n \<Rightarrow> n);
                  d = (case description of None \<Rightarrow> co_description c | Some d \<Rightarrow> d)
              in if name_taken db (co_owner c) (Some i) n then (Inl NameTaken, db)
                 else (Inr (n, d), set_collection i (\<lambda>x. x\<lparr>co_name := n, co_description := d, co_updated := lf_now db\<rparr>) db))))"

definition delete_collection :: "effective_access \<Rightarrow> ident \<Rightarrow> ident \<Rightarrow> life_db \<Rightarrow> collection_refusal option \<times> life_db" where
  "delete_collection a actor i db =
     (case get_collection i db of
        None \<Rightarrow> (Some CollectionNotFound, db)
      | Some (view, owner) \<Rightarrow>
          if owner \<noteq> actor \<and> \<not> is_platform_admin a then (Some NotOwnerNorAdmin, db)
          else
            let db1 = db\<lparr>lf_collections := filter (\<lambda>c. co_id c \<noteq> i) (lf_collections db),
                         lf_items := filter (\<lambda>it. ci_collection it \<noteq> i) (lf_items db)\<rparr>
            in (None, if owner \<noteq> actor
                  then life_audit actor ''collection.deleted'' ''skill_collection'' i None
                    (JObj [(''ownerId'', JStr owner), (''name'', JStr (cm_name view)), (''skillCount'', JInt (int (cm_count view)))]) JNull db1
                  else db1))"

definition touch_collection :: "ident \<Rightarrow> life_db \<Rightarrow> life_db" where
  "touch_collection i db = set_collection i (\<lambda>c. c\<lparr>co_updated := lf_now db\<rparr>) db"

definition add_skill_to_collection :: "ident \<Rightarrow> ident \<Rightarrow> ident \<Rightarrow> life_db \<Rightarrow> collection_refusal option \<times> life_db" where
  "add_skill_to_collection actor i skill db =
     (case owned_collection actor i db of
        Inl e \<Rightarrow> (Some e, db)
      | Inr c \<Rightarrow>
          if \<not> is_eligible_skill db skill then (Some SkillNotEligible, db)
          else if list_ex (\<lambda>it. ci_skill it = skill) (items_of db i) then (None, db)
          else if length (items_of db i) \<ge> MAX_SKILLS_PER_COLLECTION then (Some CollectionFull, db)
          else (None, touch_collection i (db\<lparr>lf_items := lf_items db @ [\<lparr>ci_collection = i, ci_skill = skill\<rparr>]\<rparr>)))"

definition remove_skill_from_collection :: "ident \<Rightarrow> ident \<Rightarrow> ident \<Rightarrow> life_db \<Rightarrow> collection_refusal option \<times> life_db" where
  "remove_skill_from_collection actor i skill db =
     (case owned_collection actor i db of
        Inl e \<Rightarrow> (Some e, db)
      | Inr c \<Rightarrow>
          if \<not> is_collection_id skill then (None, db)
          else
            let gone = (\<lambda>it. ci_collection it = i \<and> ci_skill it = skill);
                db1 = db\<lparr>lf_items := filter (\<lambda>it. \<not> gone it) (lf_items db)\<rparr>
            in (None, if list_ex gone (lf_items db) then touch_collection i db1 else db1))"

end
