(* ===== verification/LifeFacts.thy ===== *)
theory LifeFacts
  imports Deprecation Collections
begin

text \<open>
  What the operations on the life of a skill and on collections keep: a featured skill is active, not
  deprecated and has an active version; the spotlight stays within its cap; every item of a
  collection is an eligible skill; collections stay within their limits and have names of their own.
\<close>

section \<open>The invariant\<close>

definition eligible_ids :: "life_db \<Rightarrow> ident set" where
  "eligible_ids db = {sk_id s | s. s \<in> set (lf_skills db) \<and> collection_eligible db s}"

definition active_ids :: "life_db \<Rightarrow> ident set" where
  "active_ids db = {lv_skill v | v. v \<in> set (lf_versions db) \<and> lv_status v = VersionActive}"

definition featured :: "life_skill \<Rightarrow> bool" where
  "featured s = (lk_featured_at s \<noteq> None)"

definition spotlight_row_ok :: "life_db \<Rightarrow> life_skill \<Rightarrow> bool" where
  "spotlight_row_ok db s =
     (featured s \<longrightarrow> \<not> lk_archived s \<and> lk_deprecated_at s = None \<and> sk_id s \<in> active_ids db)"

definition spotlight_ok :: "nat \<Rightarrow> life_db \<Rightarrow> bool" where
  "spotlight_ok cap db =
     (distinct (map sk_id (lf_skills db)) \<and> (\<forall>s \<in> set (lf_skills db). spotlight_row_ok db s) \<and>
      length (filter featured (lf_skills db)) \<le> cap)"

definition members_ok :: "life_db \<Rightarrow> bool" where
  "members_ok db = (\<forall>it \<in> set (lf_items db). ci_skill it \<in> eligible_ids db)"

definition collection_row_ok :: "collection_row \<Rightarrow> bool" where
  "collection_row_ok c = (js_trim (co_name c) = co_name c \<and> 1 \<le> length (co_name c) \<and> length (co_name c) \<le> 60 \<and>
     (case co_description c of None \<Rightarrow> True | Some d \<Rightarrow> 1 \<le> length d \<and> length d \<le> 500))"

definition drawn_ids :: "life_db \<Rightarrow> ident set" where
  "drawn_ids db = {lf_uuid db k | k. k < lf_used db}"

definition collections_ok :: "life_db \<Rightarrow> bool" where
  "collections_ok db =
     (inj (lf_uuid db) \<and> co_id ` set (lf_collections db) \<subseteq> drawn_ids db \<and>
      distinct (map (\<lambda>c. (co_owner c, js_lower (co_name c))) (lf_collections db)) \<and> distinct (map co_id (lf_collections db)) \<and>
      (\<forall>c \<in> set (lf_collections db). collection_row_ok c) \<and> distinct (lf_items db) \<and>
      (\<forall>o'. length (filter (\<lambda>c. co_owner c = o') (lf_collections db)) \<le> 50) \<and>
      (\<forall>i. length (items_of db i) \<le> 50) \<and> (\<forall>it \<in> set (lf_items db). ci_collection it \<in> co_id ` set (lf_collections db)))"

definition life_ok :: "nat \<Rightarrow> life_db \<Rightarrow> bool" where
  "life_ok cap db = (spotlight_ok cap db \<and> members_ok db \<and> collections_ok db)"

section \<open>Effects that touch none of it\<close>

named_theorems life_simps \<open>what the primitive effects do to each table\<close>

lemma life_effect_simps [life_simps]:
  "lf_skills (life_audit a b c d e f g db) = lf_skills db" "lf_versions (life_audit a b c d e f g db) = lf_versions db"
  "lf_items (life_audit a b c d e f g db) = lf_items db" "lf_collections (life_audit a b c d e f g db) = lf_collections db"
  "lf_uuid (life_audit a b c d e f g db) = lf_uuid db" "lf_used (life_audit a b c d e f g db) = lf_used db"
  "lf_access (life_audit a b c d e f g db) = lf_access db" "lf_notifications (life_audit a b c d e f g db) = lf_notifications db"
  "lf_skills (life_notify ns db) = lf_skills db" "lf_versions (life_notify ns db) = lf_versions db"
  "lf_items (life_notify ns db) = lf_items db" "lf_collections (life_notify ns db) = lf_collections db"
  "lf_uuid (life_notify ns db) = lf_uuid db" "lf_used (life_notify ns db) = lf_used db"
  "lf_access (life_notify ns db) = lf_access db" "lf_notifications (life_notify ns db) = lf_notifications db @ ns"
  "lf_skills (refresh_quality i db) = lf_skills db" "lf_versions (refresh_quality i db) = lf_versions db"
  "lf_items (refresh_quality i db) = lf_items db" "lf_collections (refresh_quality i db) = lf_collections db"
  "lf_uuid (refresh_quality i db) = lf_uuid db" "lf_used (refresh_quality i db) = lf_used db"
  "lf_skills (life_call k db) = lf_skills db" "lf_versions (life_call k db) = lf_versions db"
  "lf_items (life_call k db) = lf_items db" "lf_collections (life_call k db) = lf_collections db"
  "lf_uuid (life_call k db) = lf_uuid db" "lf_used (life_call k db) = lf_used db"
  by (simp_all add: life_audit_def life_notify_def refresh_quality_def life_call_def)

lemma life_update_simps [life_simps]:
  "lf_versions (set_life i f db) = lf_versions db" "lf_items (set_life i f db) = lf_items db"
  "lf_collections (set_life i f db) = lf_collections db" "lf_uuid (set_life i f db) = lf_uuid db" "lf_used (set_life i f db) = lf_used db"
  "lf_access (set_life i f db) = lf_access db" "lf_notifications (set_life i f db) = lf_notifications db"
  "lf_skills (set_versions P st db) = lf_skills db" "lf_items (set_versions P st db) = lf_items db"
  "lf_collections (set_versions P st db) = lf_collections db" "lf_uuid (set_versions P st db) = lf_uuid db"
  "lf_used (set_versions P st db) = lf_used db"
  "lf_skills (evict_from_collections i db) = lf_skills db" "lf_versions (evict_from_collections i db) = lf_versions db"
  "lf_collections (evict_from_collections i db) = lf_collections db" "lf_uuid (evict_from_collections i db) = lf_uuid db"
  "lf_used (evict_from_collections i db) = lf_used db"
  "lf_skills (set_collection i g db) = lf_skills db" "lf_versions (set_collection i g db) = lf_versions db"
  "lf_items (set_collection i g db) = lf_items db" "lf_uuid (set_collection i g db) = lf_uuid db" "lf_used (set_collection i g db) = lf_used db"
  by (simp_all add: set_life_def set_versions_def evict_from_collections_def set_collection_def)

lemma eligible_ids_cong: "lf_skills db' = lf_skills db \<Longrightarrow> lf_versions db' = lf_versions db \<Longrightarrow> eligible_ids db' = eligible_ids db"
  by (simp add: eligible_ids_def collection_eligible_def)

lemma active_ids_cong: "lf_versions db' = lf_versions db \<Longrightarrow> active_ids db' = active_ids db"
  by (simp add: active_ids_def)

lemma spotlight_ok_cong:
  "lf_skills db' = lf_skills db \<Longrightarrow> lf_versions db' = lf_versions db \<Longrightarrow> spotlight_ok cap db' = spotlight_ok cap db"
  using active_ids_cong [of db' db] by (simp add: spotlight_ok_def spotlight_row_ok_def)

lemma members_ok_cong:
  "lf_skills db' = lf_skills db \<Longrightarrow> lf_versions db' = lf_versions db \<Longrightarrow> lf_items db' = lf_items db \<Longrightarrow> members_ok db' = members_ok db"
  using eligible_ids_cong [of db' db] by (simp add: members_ok_def)

lemma collections_ok_cong:
  "lf_items db' = lf_items db \<Longrightarrow> lf_collections db' = lf_collections db \<Longrightarrow> lf_uuid db' = lf_uuid db \<Longrightarrow> lf_used db' = lf_used db \<Longrightarrow>
     collections_ok db' = collections_ok db"
  by (simp add: collections_ok_def items_of_def drawn_ids_def)

lemma life_ok_cong:
  "lf_skills db' = lf_skills db \<Longrightarrow> lf_versions db' = lf_versions db \<Longrightarrow> lf_items db' = lf_items db \<Longrightarrow>
   lf_collections db' = lf_collections db \<Longrightarrow> lf_uuid db' = lf_uuid db \<Longrightarrow> lf_used db' = lf_used db \<Longrightarrow> life_ok cap db' = life_ok cap db"
  using spotlight_ok_cong [of db' db cap] members_ok_cong [of db' db] collections_ok_cong [of db' db] by (simp add: life_ok_def)

lemma life_ok_effects [simp]:
  "life_ok cap (life_audit a b c d e f g db) = life_ok cap db" "life_ok cap (life_notify ns db) = life_ok cap db"
  "life_ok cap (refresh_quality i db) = life_ok cap db" "life_ok cap (life_call k db) = life_ok cap db"
  by (rule life_ok_cong; simp add: life_simps)+

lemma life_ok_unfeature [simp]: "life_ok cap (unfeature actor s reason db) = life_ok cap db"
  by (simp add: unfeature_def)

lemma life_ok_notify_deprecated [simp]: "life_ok cap (notify_deprecated i actor db) = life_ok cap db"
  by (simp add: notify_deprecated_def split: option.split)

section \<open>Eviction\<close>

lemma collections_ok_fewer:
  assumes "collections_ok db" "lf_items db' = filter P (lf_items db)" "lf_collections db' = lf_collections db"
    "lf_uuid db' = lf_uuid db" "lf_used db' = lf_used db"
  shows "collections_ok db'"
proof -
  have "length (items_of db' i) \<le> length (items_of db i)" for i
    using length_filter_le [of P "items_of db i"] by (simp add: items_of_def assms(2) filter_filter conj_commute)
  then have "length (items_of db' i) \<le> 50" for i using assms(1) unfolding collections_ok_def by (meson le_trans)
  then show ?thesis using assms by (auto simp: collections_ok_def drawn_ids_def)
qed

lemma eligible_ids_iff: "i \<in> eligible_ids db \<longleftrightarrow> list_ex (\<lambda>s. sk_id s = i \<and> collection_eligible db s) (lf_skills db)"
  by (auto simp: eligible_ids_def list_ex_iff)

lemma evicted_items:
  "lf_items (evict_from_collections i db) = filter (\<lambda>it. ci_skill it \<noteq> i \<or> i \<in> eligible_ids db) (lf_items db)"
  unfolding evict_from_collections_def eligible_ids_iff by simp

lemma members_ok_evict:
  assumes "\<forall>it \<in> set (lf_items db). ci_skill it \<in> eligible_ids old" "eligible_ids old - {i} \<subseteq> eligible_ids db"
  shows "members_ok (evict_from_collections i db)"
proof -
  have "eligible_ids (evict_from_collections i db) = eligible_ids db" by (rule eligible_ids_cong) (simp_all add: life_simps)
  then show ?thesis using assms unfolding members_ok_def evicted_items by auto
qed

lemma members_ok_more:
  assumes "members_ok db" "lf_items db' = filter P (lf_items db)" "eligible_ids db \<subseteq> eligible_ids db'"
  shows "members_ok db'"
  using assms by (auto simp: members_ok_def)

section \<open>Updates of one skill\<close>

lemma count_updated:
  "(\<And>x. x \<in> set xs \<Longrightarrow> P (g x) \<Longrightarrow> P x) \<Longrightarrow> length (filter P (map g xs)) \<le> length (filter P xs)"
  by (induction xs) (auto simp: le_SucI)

lemma count_one_more:
  "distinct (map k xs) \<Longrightarrow> length (filter P (map (\<lambda>x. if k x = i then g x else x) xs)) \<le> Suc (length (filter P xs))"
proof (induction xs)
  case (Cons x xs)
  show ?case
  proof (cases "k x = i")
    case True
    then have "map (\<lambda>x. if k x = i then g x else x) xs = xs" using Cons.prems True by (intro map_idI) (metis distinct.simps(2) image_eqI list.simps(9) list.set_map)
    then show ?thesis using True by (simp add: le_SucI)
  qed (use Cons in simp)
qed simp

lemma set_life_rows:
  "lf_skills (set_life i f db) = map (\<lambda>s. if sk_id s = i then f s else s) (lf_skills db)"
  by (simp add: set_life_def)

lemma set_life_ids:
  assumes "\<And>s. sk_id (f s) = sk_id s" shows "map sk_id (lf_skills (set_life i f db)) = map sk_id (lf_skills db)"
  using assms by (simp add: set_life_def)

lemma spotlight_change:
  assumes db: "spotlight_ok cap db" and rows: "lf_skills db' = map g (lf_skills db)" and g: "\<And>s. sk_id (g s) = sk_id s"
    and ok: "\<And>s. s \<in> set (lf_skills db) \<Longrightarrow> featured (g s) \<Longrightarrow>
      featured s \<and> (\<not> lk_archived s \<longrightarrow> \<not> lk_archived (g s)) \<and> (lk_deprecated_at s = None \<longrightarrow> lk_deprecated_at (g s) = None) \<and>
      (sk_id s \<in> active_ids db \<longrightarrow> sk_id s \<in> active_ids db')"
  shows "spotlight_ok cap db'"
proof -
  have "spotlight_row_ok db' (g s)" if s: "s \<in> set (lf_skills db)" for s
  proof -
    have "spotlight_row_ok db s" using db s by (simp add: spotlight_ok_def)
    then show ?thesis using ok [OF s] g [of s] unfolding spotlight_row_ok_def by auto
  qed
  then have "\<forall>s \<in> set (lf_skills db'). spotlight_row_ok db' s" unfolding rows set_map by blast
  moreover have "length (filter featured (lf_skills db')) \<le> length (filter featured (lf_skills db))"
    unfolding rows by (rule count_updated) (use ok in blast)
  moreover have "map sk_id (lf_skills db') = map sk_id (lf_skills db)" using g by (simp add: rows)
  then have "distinct (map sk_id (lf_skills db'))" "length (filter featured (lf_skills db)) \<le> cap"
    using db by (simp_all add: spotlight_ok_def)
  ultimately show ?thesis unfolding spotlight_ok_def by (meson le_trans)
qed

lemma spotlight_set_life:
  assumes "spotlight_ok cap db" "\<And>s. sk_id (f s) = sk_id s"
    and ok: "\<And>s. s \<in> set (lf_skills db) \<Longrightarrow> sk_id s = i \<Longrightarrow> featured (f s) \<Longrightarrow>
      featured s \<and> (\<not> lk_archived s \<longrightarrow> \<not> lk_archived (f s)) \<and> (lk_deprecated_at s = None \<longrightarrow> lk_deprecated_at (f s) = None)"
  shows "spotlight_ok cap (set_life i f db)"
proof (rule spotlight_change [OF assms(1) set_life_rows])
  have act: "active_ids (set_life i f db) = active_ids db" by (rule active_ids_cong) (simp add: life_simps)
  fix s
  assume "s \<in> set (lf_skills db)" "featured (if sk_id s = i then f s else s)"
  then show "featured s \<and> (\<not> lk_archived s \<longrightarrow> \<not> lk_archived (if sk_id s = i then f s else s)) \<and>
      (lk_deprecated_at s = None \<longrightarrow> lk_deprecated_at (if sk_id s = i then f s else s) = None) \<and>
      (sk_id s \<in> active_ids db \<longrightarrow> sk_id s \<in> active_ids (set_life i f db))"
    using ok [of s] by (cases "sk_id s = i") (simp_all add: act)
qed (simp add: assms(2))

lemma eligible_set_life:
  assumes f: "\<And>s. sk_id (f s) = sk_id s" "\<And>s. sk_visibility (f s) = sk_visibility s"
    and keep: "\<And>s. s \<in> set (lf_skills db) \<Longrightarrow> sk_id s = i \<Longrightarrow> lk_archived (f s) \<Longrightarrow> lk_archived s"
  shows "eligible_ids db \<subseteq> eligible_ids (set_life i f db)"
proof
  fix j assume "j \<in> eligible_ids db"
  then obtain s where s: "s \<in> set (lf_skills db)" "collection_eligible db s" "j = sk_id s" by (auto simp: eligible_ids_def)
  define s' where "s' = (if sk_id s = i then f s else s)"
  have "s' \<in> set (lf_skills (set_life i f db))" using s(1) by (auto simp: set_life_rows s'_def)
  moreover have "collection_eligible (set_life i f db) s'" "sk_id s' = j"
    using s f keep [OF s(1)] by (auto simp: collection_eligible_def s'_def life_simps)
  ultimately show "j \<in> eligible_ids (set_life i f db)" by (auto simp: eligible_ids_def)
qed

lemma eligible_set_life_other:
  assumes "\<And>s. sk_id (f s) = sk_id s"
  shows "eligible_ids db - {i} \<subseteq> eligible_ids (set_life i f db)"
proof
  fix j assume "j \<in> eligible_ids db - {i}"
  then obtain s where s: "s \<in> set (lf_skills db)" "collection_eligible db s" "j = sk_id s" "sk_id s \<noteq> i" by (auto simp: eligible_ids_def)
  then have "s \<in> set (lf_skills (set_life i f db))" by (auto simp: set_life_rows)
  moreover have "collection_eligible (set_life i f db) s" using s(2) by (simp add: collection_eligible_def life_simps)
  ultimately show "j \<in> eligible_ids (set_life i f db)" using s(3) by (auto simp: eligible_ids_def)
qed

text \<open>An update that neither features, archives nor deprecates.\<close>

lemma life_ok_set_life:
  assumes db: "life_ok cap db" and f: "\<And>s. sk_id (f s) = sk_id s" "\<And>s. sk_visibility (f s) = sk_visibility s"
    and ok: "\<And>s. s \<in> set (lf_skills db) \<Longrightarrow> sk_id s = i \<Longrightarrow> featured (f s) \<Longrightarrow>
      featured s \<and> (\<not> lk_archived s \<longrightarrow> \<not> lk_archived (f s)) \<and> (lk_deprecated_at s = None \<longrightarrow> lk_deprecated_at (f s) = None)"
    and keep: "\<And>s. s \<in> set (lf_skills db) \<Longrightarrow> sk_id s = i \<Longrightarrow> lk_archived (f s) \<Longrightarrow> lk_archived s"
  shows "life_ok cap (set_life i f db)"
proof -
  have "spotlight_ok cap (set_life i f db)" using db by (intro spotlight_set_life f ok) (simp_all add: life_ok_def)
  moreover have "members_ok (set_life i f db)"
    by (rule members_ok_more [where db = db and P = "\<lambda>_. True"])
      (use db eligible_set_life [OF f keep, of db i] in \<open>simp_all add: life_ok_def life_simps\<close>)
  moreover have "collections_ok (set_life i f db)"
    using db collections_ok_cong [of "set_life i f db" db] by (simp add: life_ok_def life_simps)
  ultimately show ?thesis by (simp add: life_ok_def)
qed

section \<open>Versions\<close>

lemma set_versions_rows:
  "lf_versions (set_versions P st db) = map (\<lambda>v. if P v then v\<lparr>lv_status := st\<rparr> else v) (lf_versions db)"
  by (simp add: set_versions_def)

text \<open>How the versions may change under the skills of a set.\<close>

definition versions_keep :: "ident set \<Rightarrow> life_db \<Rightarrow> life_db \<Rightarrow> bool" where
  "versions_keep A db db' =
     ((\<forall>v \<in> set (lf_versions db). lv_skill v \<in> A \<longrightarrow> lv_status v = VersionActive \<longrightarrow>
        (\<exists>v' \<in> set (lf_versions db'). lv_skill v' = lv_skill v \<and> lv_status v' = VersionActive \<and> (lv_git v \<longrightarrow> lv_git v'))))"

lemma versions_keepD:
  assumes "versions_keep A db db'" "v \<in> set (lf_versions db)" "lv_skill v \<in> A" "lv_status v = VersionActive"
  obtains v' where "v' \<in> set (lf_versions db')" "lv_skill v' = lv_skill v" "lv_status v' = VersionActive" "lv_git v \<Longrightarrow> lv_git v'"
  using assms unfolding versions_keep_def by meson

lemma active_versions_keep: "versions_keep A db db' \<Longrightarrow> active_ids db \<inter> A \<subseteq> active_ids db'"
proof
  fix i assume k: "versions_keep A db db'" and "i \<in> active_ids db \<inter> A"
  then obtain v where v: "v \<in> set (lf_versions db)" "lv_status v = VersionActive" "lv_skill v = i" "i \<in> A" by (auto simp: active_ids_def)
  have a: "lv_skill v \<in> A" using v(3,4) by simp
  obtain v' where "v' \<in> set (lf_versions db')" "lv_skill v' = lv_skill v" "lv_status v' = VersionActive"
    using versions_keepD [OF k v(1) a v(2)] by metis
  then show "i \<in> active_ids db'" using v(3) unfolding active_ids_def mem_Collect_eq by metis
qed

lemma eligible_versions_keep:
  assumes k: "versions_keep A db db'" and rows: "lf_skills db' = lf_skills db"
  shows "eligible_ids db \<inter> A \<subseteq> eligible_ids db'"
proof
  fix i assume "i \<in> eligible_ids db \<inter> A"
  then obtain s where s: "s \<in> set (lf_skills db)" "collection_eligible db s" "sk_id s = i" "i \<in> A" by (auto simp: eligible_ids_def)
  then obtain v where v: "v \<in> set (lf_versions db)" "lv_status v = VersionActive" "lv_skill v = i" "lv_git v"
    by (auto simp: collection_eligible_def list_ex_iff installable_version_def)
  have a: "lv_skill v \<in> A" using v(3) s(4) by simp
  obtain v' where "v' \<in> set (lf_versions db')" "lv_skill v' = lv_skill v" "lv_status v' = VersionActive" "lv_git v'"
    using versions_keepD [OF k v(1) a v(2)] v(4) by metis
  then have "collection_eligible db' s" using s(2,3) v(3) by (auto simp: collection_eligible_def list_ex_iff installable_version_def)
  then show "i \<in> eligible_ids db'" using s(1,3) rows by (auto simp: eligible_ids_def)
qed

lemma keep_set_versions:
  assumes P: "\<And>v. P v \<Longrightarrow> lv_skill v = i"
  shows "versions_keep (UNIV - {i}) db (set_versions P st db)"
  unfolding versions_keep_def
proof (intro ballI impI)
  fix v assume v: "v \<in> set (lf_versions db)" "lv_skill v \<in> UNIV - {i}" "lv_status v = VersionActive"
  have n: "\<not> P v" using P [of v] v(2) by blast
  have "v \<in> set (lf_versions (set_versions P st db))" unfolding set_versions_rows set_map
    by (rule image_eqI [where x = v]) (use n v(1) in simp_all)
  then show "\<exists>v' \<in> set (lf_versions (set_versions P st db)).
      lv_skill v' = lv_skill v \<and> lv_status v' = VersionActive \<and> (lv_git v \<longrightarrow> lv_git v')" using v(3) by blast
qed

lemma keep_set_active: "versions_keep UNIV db (set_versions P VersionActive db)"
  unfolding versions_keep_def
proof (intro ballI impI)
  fix v assume v: "v \<in> set (lf_versions db)" "lv_status v = VersionActive"
  define v' where "v' = (if P v then v\<lparr>lv_status := VersionActive\<rparr> else v)"
  have "v' \<in> set (lf_versions (set_versions P VersionActive db))" using v(1) by (simp add: set_versions_rows v'_def)
  moreover have "lv_skill v' = lv_skill v" "lv_status v' = VersionActive" "lv_git v' = lv_git v" using v(2) by (simp_all add: v'_def)
  ultimately show "\<exists>v' \<in> set (lf_versions (set_versions P VersionActive db)).
      lv_skill v' = lv_skill v \<and> lv_status v' = VersionActive \<and> (lv_git v \<longrightarrow> lv_git v')" by blast
qed

text \<open>Versions that become or stay active break nothing.\<close>

lemma life_ok_versions:
  assumes db: "life_ok cap db" and k: "versions_keep UNIV db db'" and rows: "lf_skills db' = lf_skills db"
    and rest: "lf_items db' = lf_items db" "lf_collections db' = lf_collections db" "lf_uuid db' = lf_uuid db" "lf_used db' = lf_used db"
  shows "life_ok cap db'"
proof -
  have "spotlight_ok cap db'"
    by (rule spotlight_change [where db = db and g = "\<lambda>s. s"])
      (use db active_versions_keep [OF k] rows in \<open>auto simp: life_ok_def\<close>)
  moreover have "members_ok db'"
    using db eligible_versions_keep [OF k rows] by (auto simp: life_ok_def members_ok_def rest(1))
  moreover have "collections_ok db'" using db collections_ok_cong [OF rest] by (simp add: life_ok_def)
  ultimately show ?thesis by (simp add: life_ok_def)
qed

end
