(* ===== verification/LifeProps.thy ===== *)
theory LifeProps
  imports LifeFacts
begin

text \<open>Every operation on a skill and on its deprecation keeps the invariant of LifeFacts.\<close>

section \<open>The operations on a skill\<close>

lemma managed_in:
  "managed_skill a ns slug db = Some s \<Longrightarrow> s \<in> set (lf_skills db) \<and> life_visible a db s"
  by (auto simp: managed_skill_def life_by_slugs_def split: option.splits if_splits dest: find_in_set)

lemma same_skill:
  assumes "spotlight_ok cap db" "s \<in> set (lf_skills db)" "x \<in> set (lf_skills db)" "sk_id x = sk_id s"
  shows "x = s"
  using assms by (simp add: spotlight_ok_def distinct_map inj_on_def)

lemma after_yank_ok:
  assumes db: "life_ok cap db" and k: "versions_keep (UNIV - {sk_id s}) db db'" and rows: "lf_skills db' = lf_skills db"
    and rest: "lf_items db' = lf_items db" "lf_collections db' = lf_collections db" "lf_uuid db' = lf_uuid db" "lf_used db' = lf_used db"
  shows "life_ok cap (after_yank actor s db')"
proof -
  define e where "e = evict_from_collections (sk_id s) db'"
  have members: "members_ok e" unfolding e_def
    by (rule members_ok_evict [where old = db])
      (use db eligible_versions_keep [OF k rows] rest in \<open>auto simp: life_ok_def members_ok_def\<close>)
  have colls: "collections_ok e"
    by (rule collections_ok_fewer [where db = db]) (use db rest in \<open>auto simp: life_ok_def e_def life_simps evicted_items\<close>)
  have e: "lf_skills e = lf_skills db" "active_ids e = active_ids db'" using rows by (simp_all add: e_def life_simps active_ids_def)
  have spot: "spotlight_ok cap db" using db by (simp add: life_ok_def)
  consider (left) "sk_id s \<in> active_ids db'"
    | (cleared) "sk_id s \<notin> active_ids db'" "list_ex (\<lambda>x. sk_id x = sk_id s \<and> featured x) (lf_skills e)"
    | (dark) "sk_id s \<notin> active_ids db'" "\<not> list_ex (\<lambda>x. sk_id x = sk_id s \<and> featured x) (lf_skills e)" by blast
  then show ?thesis
  proof cases
    case left
    have "spotlight_ok cap e"
      by (rule spotlight_change [OF spot, where g = "\<lambda>x. x"]) (use left active_versions_keep [OF k] e in auto)
    moreover have "after_yank actor s db' = e"
      using left unfolding after_yank_def Let_def e_def [symmetric] by (auto simp: active_ids_def list_ex_iff e_def life_simps)
    ultimately show ?thesis using members colls by (simp add: life_ok_def)
  next
    case cleared
    have "spotlight_ok cap (set_life (sk_id s) clear_featured e)"
      by (rule spotlight_change [OF spot, where g = "\<lambda>x. if sk_id x = sk_id s then clear_featured x else x"])
        (use active_versions_keep [OF k] e in \<open>auto simp: set_life_rows clear_featured_def featured_def active_ids_def life_simps\<close>)
    moreover have "members_ok (set_life (sk_id s) clear_featured e)"
      by (rule members_ok_more [OF members, where P = "\<lambda>_. True"]) (simp add: life_simps, rule eligible_set_life, auto simp: clear_featured_def)
    moreover have "collections_ok (set_life (sk_id s) clear_featured e)"
      using colls collections_ok_cong [of "set_life (sk_id s) clear_featured e" e] by (simp add: life_simps)
    moreover have "after_yank actor s db' = unfeature actor s ''all-versions-yanked'' (set_life (sk_id s) clear_featured e)"
      using cleared unfolding after_yank_def Let_def e_def [symmetric]
      by (auto simp: active_ids_def list_ex_iff featured_def e_def life_simps)
    moreover have "life_ok cap (set_life (sk_id s) clear_featured e)" if "spotlight_ok cap (set_life (sk_id s) clear_featured e)"
        "members_ok (set_life (sk_id s) clear_featured e)" "collections_ok (set_life (sk_id s) clear_featured e)"
      using that by (simp add: life_ok_def)
    ultimately show ?thesis by simp
  next
    case dark
    have "spotlight_ok cap e"
      by (rule spotlight_change [OF spot, where g = "\<lambda>x. x"])
        (use dark active_versions_keep [OF k] e in \<open>auto simp: list_ex_iff\<close>)
    moreover have "after_yank actor s db' = e"
      using dark unfolding after_yank_def Let_def e_def [symmetric]
      by (auto simp: active_ids_def list_ex_iff featured_def e_def life_simps)
    ultimately show ?thesis using members colls by (simp add: life_ok_def)
  qed
qed

lemma set_version_yanked_ok:
  assumes "life_ok cap db" shows "life_ok cap (snd (set_version_yanked a actor ns slug semver yanked db))"
proof (cases "managed_skill a ns slug db")
  case (Some s)
  define P :: "life_version \<Rightarrow> bool" where "P = (\<lambda>v. lv_skill v = sk_id s \<and> lv_semver v = semver)"
  define d where "d = (\<lambda>st act status. life_audit actor act ''skill_version'' (version_target s semver) (Some (sk_namespace s)) JNull
     (JObj [(''semver'', JStr semver), (''status'', JStr status)]) (refresh_quality (sk_id s) (set_versions P st db)))"
  have vers: "lf_versions (d st act status) = lf_versions (set_versions P st db)" for st act status by (simp add: d_def life_simps)
  have yank: "life_ok cap (after_yank actor s (d VersionYanked act status))" for act status
    by (rule after_yank_ok [OF assms])
      (use keep_set_versions [of P "sk_id s" db VersionYanked] in \<open>auto simp: P_def d_def life_simps versions_keep_def\<close>)
  have restore: "life_ok cap (d VersionActive act status)" for act status
    by (rule life_ok_versions [OF assms])
      (use keep_set_active [of db P] in \<open>auto simp: d_def life_simps versions_keep_def\<close>)
  show ?thesis using Some assms yank restore
    by (simp add: set_version_yanked_def Let_def P_def [symmetric] d_def)
qed (use assms in \<open>simp add: set_version_yanked_def\<close>)

lemma set_skill_archived_ok:
  assumes db: "life_ok cap db" shows "life_ok cap (snd (set_skill_archived a actor ns slug archived db))"
proof (cases "managed_skill a ns slug db")
  case (Some s)
  define f where "f = (\<lambda>x. clear_featured (x\<lparr>lk_archived := True\<rparr>))"
  define d where "d = evict_from_collections (sk_id s) (set_life (sk_id s) f db)"
  have f: "sk_id (f x) = sk_id x" "\<not> featured (f x)" for x by (simp_all add: f_def clear_featured_def featured_def)
  have "spotlight_ok cap (set_life (sk_id s) f db)" using db f by (intro spotlight_set_life) (simp_all add: life_ok_def)
  then have "spotlight_ok cap d" using spotlight_ok_cong [of d "set_life (sk_id s) f db" cap] by (simp add: d_def life_simps)
  moreover have "members_ok d" unfolding d_def
    by (rule members_ok_evict [where old = db])
      (use db eligible_set_life_other [OF f(1), of db "sk_id s"] in \<open>simp_all add: life_ok_def members_ok_def life_simps\<close>)
  moreover have "collections_ok d"
    by (rule collections_ok_fewer [where db = db]) (use db in \<open>auto simp: life_ok_def d_def life_simps evicted_items\<close>)
  ultimately have archive: "life_ok cap d" by (simp add: life_ok_def)
  have restore: "life_ok cap (set_life (sk_id s) (\<lambda>x. x\<lparr>lk_archived := False\<rparr>) db)"
    by (rule life_ok_set_life [OF db]) (simp_all add: featured_def)
  show ?thesis using Some db archive restore
    by (simp add: set_skill_archived_def Let_def d_def f_def)
qed (use db in \<open>simp add: set_skill_archived_def\<close>)

lemma set_skill_official_ok:
  assumes db: "life_ok cap db" shows "life_ok cap (snd (set_skill_official a actor ns slug official db))"
proof (cases "managed_skill a ns slug db")
  case (Some s)
  have mark: "life_ok cap (set_life (sk_id s) (\<lambda>x. x\<lparr>lk_official_at := g x, lk_official_by := w\<rparr>) db)" for g w
    by (rule life_ok_set_life [OF db]) (simp_all add: featured_def)
  show ?thesis using Some db mark by (simp add: set_skill_official_def Let_def)
qed (use db in \<open>simp add: set_skill_official_def\<close>)

lemma featured_eq: "(\<lambda>x. lk_featured_at x \<noteq> None) = featured"
  by (simp add: fun_eq_iff featured_def)

lemma featured_none: "(lk_featured_at s = None) = (\<not> featured s)"
  by (simp add: featured_def)

text \<open>A spotlight lit behind its gates.\<close>

lemma life_ok_featured:
  assumes db: "life_ok cap db" and s: "s \<in> set (lf_skills db)" and gate: "featured_gate cap s db = None"
    and f: "f = (\<lambda>x. x\<lparr>lk_featured_at := (case lk_featured_at x of None \<Rightarrow> Some t | u \<Rightarrow> u), lk_featured_by := Some actor\<rparr>)"
  shows "life_ok cap (set_life (sk_id s) f db)"
proof (cases "featured s")
  case True
  have spot: "spotlight_ok cap db" using db by (simp add: life_ok_def)
  show ?thesis
  proof (rule life_ok_set_life [OF db])
    fix x assume x: "x \<in> set (lf_skills db)" "sk_id x = sk_id s"
    then have "x = s" by (rule same_skill [OF spot s])
    then show "featured x \<and> (\<not> lk_archived x \<longrightarrow> \<not> lk_archived (f x)) \<and> (lk_deprecated_at x = None \<longrightarrow> lk_deprecated_at (f x) = None)"
      using True by (simp add: f)
  qed (simp_all add: f)
next
  case False
  define db' where "db' = set_life (sk_id s) f db"
  have spot: "spotlight_ok cap db" using db by (simp add: life_ok_def)
  have g: "\<not> lk_archived s" "lk_deprecated_at s = None" "list_ex (installable_version (sk_id s)) (lf_versions db)"
    "Suc (length (filter featured (lf_skills db))) \<le> cap"
    using gate False unfolding featured_gate_def featured_eq by (auto simp: featured_none split: if_splits)
  have act: "active_ids db' = active_ids db" by (rule active_ids_cong) (simp add: db'_def life_simps)
  have "sk_id s \<in> active_ids db"
    using g(3) unfolding list_ex_iff installable_version_def active_ids_def mem_Collect_eq by metis
  then have "spotlight_row_ok db' (if sk_id x = sk_id s then f x else x)" if x: "x \<in> set (lf_skills db)" for x
    using same_skill [OF spot s x] g(1,2) spot x by (auto simp: spotlight_ok_def spotlight_row_ok_def act f)
  then have "\<forall>x \<in> set (lf_skills db'). spotlight_row_ok db' x" unfolding db'_def set_life_rows set_map by blast
  moreover have "length (filter featured (lf_skills db')) \<le> cap"
    using count_one_more [of sk_id "lf_skills db" featured "sk_id s" f] g(4) spot by (simp add: db'_def set_life_rows spotlight_ok_def)
  moreover have "map sk_id (lf_skills db') = map sk_id (lf_skills db)" unfolding db'_def by (rule set_life_ids) (simp add: f)
  ultimately have "spotlight_ok cap db'" using spot by (simp add: spotlight_ok_def)
  moreover have "members_ok db'"
    by (rule members_ok_more [where db = db and P = "\<lambda>_. True"])
      (use db eligible_set_life [of f db "sk_id s"] in \<open>simp_all add: life_ok_def db'_def life_simps f\<close>)
  moreover have "collections_ok db'" using db collections_ok_cong [of db' db] by (simp add: life_ok_def db'_def life_simps)
  ultimately show ?thesis by (simp add: life_ok_def db'_def)
qed

lemma set_skill_featured_ok:
  assumes db: "life_ok cap db" shows "life_ok cap (snd (set_skill_featured cap a actor ns slug on db))"
proof (cases "managed_skill a ns slug db")
  case (Some s)
  have "life_ok cap (set_life (sk_id s) clear_featured db)"
    by (rule life_ok_set_life [OF db]) (simp_all add: featured_def clear_featured_def)
  then show ?thesis using Some db life_ok_featured [OF db _ _ refl] managed_in [OF Some]
    by (simp add: set_skill_featured_def Let_def)
qed (use db in \<open>simp add: set_skill_featured_def\<close>)

lemma release_ok:
  assumes db: "life_ok cap db" shows "life_ok cap (snd (release_quarantined_version a actor ns slug semver reason db))"
proof -
  have "life_ok cap (set_versions P VersionActive db)" for P
    by (rule life_ok_versions [OF db keep_set_active]) (simp_all add: life_simps)
  then show ?thesis using db by (simp add: release_quarantined_version_def Let_def split: option.split)
qed

lemma drop_conversations_simps [life_simps]:
  "lf_skills (drop_conversations P types db) = lf_skills db" "lf_versions (drop_conversations P types db) = lf_versions db"
  "lf_items (drop_conversations P types db) = lf_items db" "lf_collections (drop_conversations P types db) = lf_collections db"
  "lf_uuid (drop_conversations P types db) = lf_uuid db" "lf_used (drop_conversations P types db) = lf_used db"
  "lf_proposals (drop_conversations P types db) = lf_proposals db" "lf_access (drop_conversations P types db) = lf_access db"
  by (simp_all add: drop_conversations_def drop_alerts_def)

lemma detach_rows:
  "lf_skills (detach_skill i db) = map (\<lambda>s. s\<lparr>lk_promoted_from := nulled (version_ids db i) (lk_promoted_from s)\<rparr>) (lf_skills db)"
  "lf_versions (detach_skill i db) = lf_versions db" "lf_items (detach_skill i db) = lf_items db"
  "lf_collections (detach_skill i db) = lf_collections db" "lf_uuid (detach_skill i db) = lf_uuid db" "lf_used (detach_skill i db) = lf_used db"
  by (simp_all add: detach_skill_def Let_def life_simps)

lemma deleted_rows:
  "lf_skills (cascade_skill i (detach_skill i db)) =
     map (\<lambda>s. (if lk_successor s = Some i then s\<lparr>lk_successor := None\<rparr> else s)\<lparr>lk_promoted_from := nulled (version_ids db i) (lk_promoted_from s)\<rparr>)
       (filter (\<lambda>s. sk_id s \<noteq> i) (lf_skills db))"
  by (simp add: cascade_skill_def detach_rows filter_map o_def)

lemma delete_ok:
  assumes db: "life_ok cap db" shows "life_ok cap (cascade_skill i (detach_skill i db))" (is "life_ok cap ?d")
proof -
  define g :: "life_skill \<Rightarrow> life_skill" where "g = (\<lambda>s. (if lk_successor s = Some i then s\<lparr>lk_successor := None\<rparr> else s)\<lparr>lk_promoted_from := nulled (version_ids db i) (lk_promoted_from s)\<rparr>)"
  define k where "k = db\<lparr>lf_skills := filter (\<lambda>s. sk_id s \<noteq> i) (lf_skills db)\<rparr>"
  have rows: "lf_skills ?d = map g (lf_skills k)" by (simp add: deleted_rows g_def k_def)
  have g: "sk_id (g s) = sk_id s" "featured (g s) = featured s" "lk_archived (g s) = lk_archived s"
    "lk_deprecated_at (g s) = lk_deprecated_at s" "sk_visibility (g s) = sk_visibility s" for s
    by (simp_all add: g_def featured_def)
  have vers: "lf_versions ?d = filter (\<lambda>v. lv_skill v \<noteq> i) (lf_versions db)" by (simp add: cascade_skill_def detach_rows)
  have items: "lf_items ?d = filter (\<lambda>it. ci_skill it \<noteq> i) (lf_items db)" by (simp add: cascade_skill_def detach_rows)
  have act: "j \<noteq> i \<Longrightarrow> j \<in> active_ids db \<Longrightarrow> j \<in> active_ids ?d" for j by (auto simp: active_ids_def vers)
  have k: "spotlight_ok cap k"
  proof -
    have "length (filter featured (lf_skills k)) \<le> length (filter featured (lf_skills db))"
      by (simp add: k_def filter_filter conj_commute) (metis filter_filter length_filter_le conj_commute)
    moreover have "distinct (map sk_id (lf_skills k))" using db by (simp add: k_def life_ok_def spotlight_ok_def distinct_map_filter)
    moreover have "active_ids k = active_ids db" by (simp add: active_ids_def k_def)
    ultimately show ?thesis using db by (auto simp: life_ok_def spotlight_ok_def spotlight_row_ok_def k_def)
  qed
  have "spotlight_ok cap ?d"
  proof (rule spotlight_change [OF k rows g(1)])
    fix s assume "s \<in> set (lf_skills k)" "featured (g s)"
    moreover have "active_ids k = active_ids db" by (simp add: active_ids_def k_def)
    ultimately show "featured s \<and> (\<not> lk_archived s \<longrightarrow> \<not> lk_archived (g s)) \<and> (lk_deprecated_at s = None \<longrightarrow> lk_deprecated_at (g s) = None) \<and>
        (sk_id s \<in> active_ids k \<longrightarrow> sk_id s \<in> active_ids ?d)"
      using act [of "sk_id s"] by (simp add: g k_def)
  qed
  moreover have "eligible_ids db - {i} \<subseteq> eligible_ids ?d"
  proof
    fix j assume "j \<in> eligible_ids db - {i}"
    then obtain s where s: "s \<in> set (lf_skills db)" "collection_eligible db s" "sk_id s = j" "j \<noteq> i" by (auto simp: eligible_ids_def)
    then have "g s \<in> set (lf_skills ?d)" unfolding rows by (simp add: k_def)
    moreover have "collection_eligible ?d (g s)"
      using s(2-4) by (auto simp: collection_eligible_def g list_ex_iff installable_version_def vers)
    ultimately show "j \<in> eligible_ids ?d" using g(1) [of s] s(3) by (auto simp: eligible_ids_def)
  qed
  then have "members_ok ?d" using db unfolding life_ok_def members_ok_def items by auto
  moreover have "collections_ok ?d"
    by (rule collections_ok_fewer [OF _ items]) (use db in \<open>simp add: life_ok_def\<close>, simp_all add: cascade_skill_def detach_rows)
  ultimately show ?thesis by (simp add: life_ok_def)
qed

lemma delete_skill_ok:
  assumes db: "life_ok cap db" shows "life_ok cap (snd (delete_skill a actor ns slug db))"
  using db delete_ok [OF db] by (simp add: delete_skill_def split: option.split)

section \<open>Deprecation\<close>

lemma set_life_twice:
  assumes "\<And>s. sk_id (g s) = sk_id s"
  shows "set_life i f (set_life i g db) = set_life i (\<lambda>s. f (g s)) db"
  using assms by (simp add: set_life_def o_def if_distrib cong: if_cong)

lemma set_life_audit: "set_life i f (life_audit a b c d e h k db) = life_audit a b c d e h k (set_life i f db)"
  by (simp add: set_life_def life_audit_def)

lemma deprecation_in:
  "deprecation_skill a ns slug db = Some s \<Longrightarrow> s \<in> set (lf_skills db) \<and> (lk_archived s \<or> life_visible a db s)"
  by (auto simp: deprecation_skill_def life_by_slugs_def split: option.splits if_splits dest: find_in_set)

lemma write_deprecation_ok:
  assumes db: "life_ok cap db" and s: "s \<in> set (lf_skills db)"
    and f: "f = (if lk_deprecated_at s = None \<and> lk_featured_at s \<noteq> None
      then (\<lambda>x. clear_featured (write_deprecation actor succ note t x)) else write_deprecation actor succ note t)"
  shows "life_ok cap (set_life (sk_id s) f db)"
proof (rule life_ok_set_life [OF db])
  fix x assume x: "x \<in> set (lf_skills db)" "sk_id x = sk_id s" "featured (f x)"
  have spot: "spotlight_ok cap db" using db by (simp add: life_ok_def)
  have "x = s" by (rule same_skill [OF spot s x(1,2)])
  moreover have "featured s \<Longrightarrow> lk_deprecated_at s = None" using spot s by (auto simp: spotlight_ok_def spotlight_row_ok_def)
  ultimately have False using x(3) by (auto simp: f featured_def clear_featured_def write_deprecation_def split: if_splits)
  then show "featured x \<and> (\<not> lk_archived x \<longrightarrow> \<not> lk_archived (f x)) \<and> (lk_deprecated_at x = None \<longrightarrow> lk_deprecated_at (f x) = None)" ..
qed (auto simp: f clear_featured_def write_deprecation_def split: if_splits)

lemma record_deprecation_ok:
  assumes db: "life_ok cap db" and s: "s \<in> set (lf_skills db)"
  shows "life_ok cap (record_deprecation actor s succ note db)"
proof -
  have twice: "set_life (sk_id s) clear_featured (set_life (sk_id s) (write_deprecation actor u n t) db) =
      set_life (sk_id s) (\<lambda>x. clear_featured (write_deprecation actor u n t x)) db" for u n t
    by (rule set_life_twice) (simp add: write_deprecation_def)
  have "life_ok cap (set_life (sk_id s) (if lk_deprecated_at s = None \<and> lk_featured_at s \<noteq> None
      then (\<lambda>x. clear_featured (write_deprecation actor u n t x)) else write_deprecation actor u n t) db)" for u n t
    by (rule write_deprecation_ok [OF db s refl])
  then show ?thesis by (auto simp: record_deprecation_def Let_def set_life_audit twice split: if_splits)
qed

lemma set_skill_deprecation_ok:
  assumes db: "life_ok cap db" shows "life_ok cap (snd (set_skill_deprecation a actor ns slug wanted note db))"
proof (cases "deprecation_skill a ns slug db")
  case (Some s)
  have "s \<in> set (lf_skills db)" using deprecation_in [OF Some] by simp
  then show ?thesis using Some db record_deprecation_ok [OF db]
    by (auto simp: set_skill_deprecation_def Let_def split: note_result.split sum.split)
qed (use db in \<open>simp add: set_skill_deprecation_def\<close>)

lemma clear_skill_deprecation_ok:
  assumes db: "life_ok cap db" shows "life_ok cap (snd (clear_skill_deprecation a actor ns slug db))"
proof -
  have "life_ok cap (set_life i clear_deprecation db)" for i
    by (rule life_ok_set_life [OF db]) (simp_all add: clear_deprecation_def featured_def)
  then show ?thesis using db by (simp add: clear_skill_deprecation_def split: option.split)
qed

end
