(* ===== verification/LifeCollections.thy ===== *)
theory LifeCollections
  imports LifeProps
begin

text \<open>The operations on collections keep the invariant: limits, names of their own, eligible members.\<close>

section \<open>Validation\<close>

lemma validated_name:
  "validate_collection_name raw = Inr n \<Longrightarrow> js_trim n = n \<and> 1 \<le> length n \<and> length n \<le> 60"
  by (auto simp: validate_collection_name_def COLLECTION_NAME_MIN_def COLLECTION_NAME_MAX_def Let_def Suc_le_eq
      split: js_value.splits if_splits)

lemma validated_description:
  "validate_collection_description raw = Inr d \<Longrightarrow> (case d of None \<Rightarrow> True | Some t \<Rightarrow> 1 \<le> length t \<and> length t \<le> 500)"
  by (auto simp: validate_collection_description_def COLLECTION_DESCRIPTION_MAX_def Let_def Suc_le_eq
      split: js_value.splits if_splits)

section \<open>Rows\<close>

lemma life_ok_collections:
  assumes "life_ok cap db" "lf_skills db' = lf_skills db" "lf_versions db' = lf_versions db" "collections_ok db'"
    "\<And>it. it \<in> set (lf_items db') \<Longrightarrow> it \<in> set (lf_items db) \<or> ci_skill it \<in> eligible_ids db"
  shows "life_ok cap db'"
  using assms spotlight_ok_cong [of db' db cap] eligible_ids_cong [of db' db] by (auto simp: life_ok_def members_ok_def)

lemma owned_collectionD:
  assumes "owned_collection actor i db = Inr c"
  shows "c \<in> set (lf_collections db)" "co_id c = i" "co_owner c = actor"
  using assms by (auto simp: owned_collection_def find_collection_def split: if_splits option.splits dest: find_in_set)

lemma eligible_skillD: "is_eligible_skill db i \<Longrightarrow> i \<in> eligible_ids db"
  by (simp add: is_eligible_skill_def eligible_ids_iff)

lemma fresh_collection_id:
  assumes "collections_ok db" shows "lf_uuid db (lf_used db) \<notin> co_id ` set (lf_collections db)"
proof
  assume "lf_uuid db (lf_used db) \<in> co_id ` set (lf_collections db)"
  then have "lf_uuid db (lf_used db) \<in> drawn_ids db" using assms by (auto simp: collections_ok_def)
  then obtain k where "k < lf_used db" "lf_uuid db (lf_used db) = lf_uuid db k" by (auto simp: drawn_ids_def)
  moreover have "inj (lf_uuid db)" using assms by (simp add: collections_ok_def)
  ultimately show False by (auto dest: injD)
qed

lemma distinct_one_changed:
  assumes "distinct (map k xs)" "distinct (map h xs)" "\<And>x. x \<in> set xs \<Longrightarrow> h x \<noteq> i \<Longrightarrow> k x \<noteq> K"
  shows "distinct (map (\<lambda>x. if h x = i then K else k x) xs)"
  using assms
proof (induction xs)
  case (Cons x xs)
  show ?case
  proof (cases "h x = i")
    case True
    then have same: "map (\<lambda>y. if h y = i then K else k y) xs = map k xs"
      using Cons.prems(2) by (intro map_cong) (auto simp: image_iff)
    have "K \<notin> k ` set xs"
    proof
      assume "K \<in> k ` set xs"
      then obtain y where "y \<in> set xs" "K = k y" by blast
      then show False using Cons.prems(3) [of y] Cons.prems(2) True by (auto simp: image_iff)
    qed
    then have "distinct (K # map k xs)" using Cons.prems(1) by simp
    then show ?thesis by (simp only: list.map True same if_True simp_thms)
  next
    case False
    then show ?thesis using Cons by (auto simp: image_iff)
  qed
qed simp

lemma collections_set_collection:
  assumes db: "collections_ok db" and f: "\<And>c. co_id (f c) = co_id c" "\<And>c. co_owner (f c) = co_owner c"
    and rows: "\<And>c. c \<in> set (lf_collections db) \<Longrightarrow> co_id c = i \<Longrightarrow> collection_row_ok (f c)"
    and names: "distinct (map (\<lambda>c. (co_owner c, js_lower (co_name c))) (lf_collections (set_collection i f db)))"
  shows "collections_ok (set_collection i f db)"
proof -
  define cs where "cs = lf_collections (set_collection i f db)"
  have cs: "cs = map (\<lambda>c. if co_id c = i then f c else c) (lf_collections db)" by (simp add: cs_def set_collection_def)
  have ids: "map co_id cs = map co_id (lf_collections db)" using f(1) by (simp add: cs)
  have owners: "map co_owner cs = map co_owner (lf_collections db)" using f(2) by (simp add: cs)
  have owned: "length (filter (\<lambda>c. co_owner c = w) cs) = length (filter (\<lambda>c. co_owner c = w) (lf_collections db))" for w
    using arg_cong [OF owners, of "\<lambda>os. length (filter (\<lambda>u. u = w) os)"] by (simp add: filter_map o_def)
  have "\<forall>c \<in> set cs. collection_row_ok c" using db rows by (auto simp: cs collections_ok_def)
  moreover have "co_id ` set cs = co_id ` set (lf_collections db)" using ids by (metis set_map)
  ultimately show ?thesis using db names ids owned
    by (simp add: collections_ok_def cs_def [symmetric] items_of_def drawn_ids_def life_simps)
qed

lemma touched_ok:
  assumes "collections_ok db" shows "collections_ok (touch_collection i db)"
  unfolding touch_collection_def
proof (rule collections_set_collection [OF assms])
  have "map (\<lambda>c. (co_owner c, js_lower (co_name c))) (lf_collections (set_collection i (\<lambda>c. c\<lparr>co_updated := lf_now db\<rparr>) db)) =
      map (\<lambda>c. (co_owner c, js_lower (co_name c))) (lf_collections db)" by (simp add: set_collection_def)
  then show "distinct (map (\<lambda>c. (co_owner c, js_lower (co_name c))) (lf_collections (set_collection i (\<lambda>c. c\<lparr>co_updated := lf_now db\<rparr>) db)))"
    using assms by (simp add: collections_ok_def)
qed (use assms in \<open>auto simp: collections_ok_def collection_row_ok_def\<close>)

section \<open>The operations\<close>

lemma create_collection_ok:
  assumes db: "life_ok cap db" shows "life_ok cap (snd (create_collection owner raw_name raw_skill db))"
proof (cases "\<exists>cm. fst (create_collection owner raw_name raw_skill db) = Inr cm")
  case False
  then have "snd (create_collection owner raw_name raw_skill db) = db"
    by (simp add: create_collection_def Let_def split: sum.splits js_value.splits if_splits)
  then show ?thesis using db by simp
next
  case True
  obtain n i where n: "validate_collection_name raw_name = Inr n" and i: "raw_skill = JsText i" "is_eligible_skill db i"
      and few: "length (filter (\<lambda>c. co_owner c = owner) (lf_collections db)) < 50" and free: "\<not> name_taken db owner None n"
    using True by (auto simp: create_collection_def Let_def MAX_COLLECTIONS_PER_OWNER_def split: sum.splits js_value.splits if_splits)
  define cid where "cid = lf_uuid db (lf_used db)"
  define row where "row = \<lparr>co_id = cid, co_owner = owner, co_name = n, co_description = None, co_created = lf_now db, co_updated = lf_now db\<rparr>"
  define db' where "db' = db\<lparr>lf_used := Suc (lf_used db), lf_collections := lf_collections db @ [row],
    lf_items := lf_items db @ [\<lparr>ci_collection = cid, ci_skill = i\<rparr>]\<rparr>"
  have c: "collections_ok db" using db by (simp add: life_ok_def)
  have fresh: "cid \<notin> co_id ` set (lf_collections db)" unfolding cid_def by (rule fresh_collection_id [OF c])
  have items: "ci_collection it \<in> co_id ` set (lf_collections db)" if "it \<in> set (lf_items db)" for it
    using c that by (simp add: collections_ok_def)
  have drawn: "drawn_ids db' = insert cid (drawn_ids db)" by (auto simp: drawn_ids_def db'_def cid_def less_Suc_eq)
  have new: "length (items_of db' cid) \<le> 1"
  proof -
    have "items_of db cid = []" using items fresh by (auto simp: items_of_def filter_empty_conv)
    then show ?thesis by (simp add: items_of_def db'_def)
  qed
  have "length (items_of db' j) \<le> 50" for j
    using c new by (cases "j = cid") (simp_all add: items_of_def db'_def collections_ok_def)
  moreover have "distinct (map (\<lambda>c. (co_owner c, js_lower (co_name c))) (lf_collections db'))"
    using c free by (auto simp: collections_ok_def db'_def row_def name_taken_def list_ex_iff)
  moreover have "distinct (lf_items db')" using c items [of "\<lparr>ci_collection = cid, ci_skill = i\<rparr>"] fresh by (auto simp: collections_ok_def db'_def)
  moreover have "collection_row_ok row" using validated_name [OF n] by (simp add: collection_row_ok_def row_def)
  moreover have "length (filter (\<lambda>c. co_owner c = w) (lf_collections db')) \<le> 50" for w
    using c few by (cases "w = owner") (simp_all add: collections_ok_def db'_def row_def)
  ultimately have "collections_ok db'"
    using c fresh drawn by (auto simp: collections_ok_def db'_def row_def)
  then have "life_ok cap db'"
    by (rule life_ok_collections [OF db, rotated 2]) (use eligible_skillD [OF i(2)] in \<open>auto simp: db'_def\<close>)
  moreover have "life_ok cap (snd (create_collection owner raw_name raw_skill db)) = life_ok cap db'"
    using n i few free by (simp add: create_collection_def Let_def MAX_COLLECTIONS_PER_OWNER_def db'_def row_def cid_def)
  ultimately show ?thesis by simp
qed

lemma update_collection_ok:
  assumes db: "life_ok cap db" shows "life_ok cap (snd (update_collection actor i raw_name raw_description db))"
proof (cases "\<exists>r. fst (update_collection actor i raw_name raw_description db) = Inr r")
  case False
  then have "snd (update_collection actor i raw_name raw_description db) = db"
    by (auto simp: update_collection_def Let_def split: sum.splits if_splits)
  then show ?thesis using db by simp
next
  case True
  then obtain c name desc where c: "owned_collection actor i db = Inr c" and name: "patched_name raw_name = Inr name"
      and desc: "patched_description raw_description = Inr desc"
      and free: "\<not> name_taken db (co_owner c) (Some i) (case name of None \<Rightarrow> co_name c | Some n \<Rightarrow> n)"
    by (auto simp: update_collection_def Let_def split: sum.splits if_splits)
  define n where "n = (case name of None \<Rightarrow> co_name c | Some n \<Rightarrow> n)"
  define d where "d = (case desc of None \<Rightarrow> co_description c | Some d \<Rightarrow> d)"
  define f :: "collection_row \<Rightarrow> collection_row" where "f = (\<lambda>x. x\<lparr>co_name := n, co_description := d, co_updated := lf_now db\<rparr>)"
  note own = owned_collectionD [OF c]
  have ok: "collections_ok db" using db by (simp add: life_ok_def)
  then have row: "collection_row_ok c" "distinct (map co_id (lf_collections db))"
    "distinct (map (\<lambda>c. (co_owner c, js_lower (co_name c))) (lf_collections db))" using own by (simp_all add: collections_ok_def)
  have one: "x = c" if "x \<in> set (lf_collections db)" "co_id x = i" for x
    using row(2) that own by (simp add: distinct_map inj_on_def)
  have "js_trim n = n \<and> 1 \<le> length n \<and> length n \<le> 60"
    using name row(1) validated_name [of raw_name]
    by (auto simp: n_def patched_name_def collection_row_ok_def split: if_splits sum.splits)
  moreover have "case d of None \<Rightarrow> True | Some t \<Rightarrow> 1 \<le> length t \<and> length t \<le> 500"
    using desc row(1) validated_description [of raw_description]
    by (auto simp: d_def patched_description_def collection_row_ok_def split: if_splits sum.splits)
  ultimately have rows: "collection_row_ok (f x)" for x by (simp add: f_def collection_row_ok_def)
  have "distinct (map (\<lambda>x. if co_id x = i then (actor, js_lower n) else (co_owner x, js_lower (co_name x))) (lf_collections db))"
    by (rule distinct_one_changed [OF row(3,2)]) (use free own in \<open>auto simp: name_taken_def list_ex_iff n_def\<close>)
  moreover have "map (\<lambda>x. (co_owner x, js_lower (co_name x))) (lf_collections (set_collection i f db)) =
      map (\<lambda>x. if co_id x = i then (actor, js_lower n) else (co_owner x, js_lower (co_name x))) (lf_collections db)"
  proof -
    have "co_owner x = actor" if "x \<in> set (lf_collections db)" "co_id x = i" for x using one [OF that] own(3) by simp
    then show ?thesis by (simp add: set_collection_def f_def)
  qed
  ultimately have "collections_ok (set_collection i f db)"
    by (intro collections_set_collection [OF ok] rows) (simp_all add: f_def)
  then have "life_ok cap (set_collection i f db)" by (rule life_ok_collections [OF db, rotated 2]) (simp_all add: life_simps)
  then show ?thesis using c name desc free unfolding update_collection_def by (simp add: Let_def n_def d_def f_def)
qed

lemma delete_collection_ok:
  assumes db: "life_ok cap db" shows "life_ok cap (snd (delete_collection a actor i db))"
proof -
  define db' where "db' = db\<lparr>lf_collections := filter (\<lambda>c. co_id c \<noteq> i) (lf_collections db), lf_items := filter (\<lambda>it. ci_collection it \<noteq> i) (lf_items db)\<rparr>"
  have c: "collections_ok db" using db by (simp add: life_ok_def)
  have owned: "length (filter (\<lambda>c. co_owner c = w) (lf_collections db')) \<le> 50" for w
  proof -
    have "filter (\<lambda>c. co_owner c = w) (lf_collections db') = filter (\<lambda>c. co_id c \<noteq> i) (filter (\<lambda>c. co_owner c = w) (lf_collections db))"
      by (simp add: db'_def filter_filter conj_commute)
    then have "length (filter (\<lambda>c. co_owner c = w) (lf_collections db')) \<le> length (filter (\<lambda>c. co_owner c = w) (lf_collections db))"
      by (simp only: length_filter_le)
    then show ?thesis using c by (simp add: collections_ok_def) (meson le_trans)
  qed
  have few: "length (items_of db' j) \<le> 50" for j
    using c by (cases "j = i") (simp_all add: items_of_def db'_def filter_filter collections_ok_def conj_commute cong: conj_cong)
  have "collections_ok db'"
    using c owned few by (auto simp: collections_ok_def db'_def drawn_ids_def distinct_map_filter)
  then have "life_ok cap db'" by (rule life_ok_collections [OF db, rotated 2]) (auto simp: db'_def)
  then show ?thesis using db by (simp add: delete_collection_def Let_def db'_def split: option.split)
qed

lemma add_skill_ok:
  assumes db: "life_ok cap db" shows "life_ok cap (snd (add_skill_to_collection actor i skill db))"
proof (cases "snd (add_skill_to_collection actor i skill db) = db")
  case False
  then obtain c where c: "owned_collection actor i db = Inr c" and e: "is_eligible_skill db skill"
      and new: "\<not> list_ex (\<lambda>it. ci_skill it = skill) (items_of db i)" and few: "length (items_of db i) < 50"
    by (auto simp: add_skill_to_collection_def MAX_SKILLS_PER_COLLECTION_def split: sum.splits if_splits)
  define db' where "db' = db\<lparr>lf_items := lf_items db @ [\<lparr>ci_collection = i, ci_skill = skill\<rparr>]\<rparr>"
  have ok: "collections_ok db" using db by (simp add: life_ok_def)
  have "length (items_of db' j) \<le> 50" for j
    using ok few by (cases "j = i") (simp_all add: items_of_def db'_def collections_ok_def)
  moreover have "\<lparr>ci_collection = i, ci_skill = skill\<rparr> \<notin> set (lf_items db)"
  proof
    assume "\<lparr>ci_collection = i, ci_skill = skill\<rparr> \<in> set (lf_items db)"
    then have "\<lparr>ci_collection = i, ci_skill = skill\<rparr> \<in> set (items_of db i)" by (simp add: items_of_def)
    then show False using new by (fastforce simp: list_ex_iff)
  qed
  moreover have "i \<in> co_id ` set (lf_collections db)" using owned_collectionD [OF c] by auto
  ultimately have "collections_ok db'" using ok by (auto simp: collections_ok_def db'_def drawn_ids_def)
  then have "life_ok cap (touch_collection i db')"
    by (intro life_ok_collections [OF db] touched_ok)
      (use eligible_skillD [OF e] in \<open>auto simp: db'_def touch_collection_def life_simps\<close>)
  then show ?thesis using c e new few
    by (simp add: add_skill_to_collection_def MAX_SKILLS_PER_COLLECTION_def db'_def)
qed (use db in simp)

lemma remove_skill_ok:
  assumes db: "life_ok cap db" shows "life_ok cap (snd (remove_skill_from_collection actor i skill db))"
proof -
  define db' where "db' = db\<lparr>lf_items := filter (\<lambda>it. \<not> (ci_collection it = i \<and> ci_skill it = skill)) (lf_items db)\<rparr>"
  have c: "collections_ok db'" by (rule collections_ok_fewer [where db = db]) (use db in \<open>auto simp: life_ok_def db'_def\<close>)
  have "life_ok cap db'" by (rule life_ok_collections [OF db _ _ c]) (auto simp: db'_def)
  moreover have "life_ok cap (touch_collection i db')"
    by (rule life_ok_collections [OF db _ _ touched_ok [OF c]]) (auto simp: db'_def touch_collection_def life_simps)
  ultimately show ?thesis using db by (simp add: remove_skill_from_collection_def Let_def db'_def split: sum.split)
qed

end
