(* ===== verification/LifeRuns.thy ===== *)
theory LifeRuns
  imports LifeCollections
begin

text \<open>
  The catalog as a step relation: every operation on the life of a skill, its deprecation and the
  collections, and the steps by which the rest of the program changes the same tables. The properties
  hold after any run.
\<close>

section \<open>Steps\<close>

inductive life_step :: "nat \<Rightarrow> life_db \<Rightarrow> life_db \<Rightarrow> bool" for cap where
  Yank: "life_step cap db (snd (set_version_yanked a actor ns slug semver yanked db))"
| Archive: "life_step cap db (snd (set_skill_archived a actor ns slug archived db))"
| Official: "life_step cap db (snd (set_skill_official a actor ns slug official db))"
| Feature: "life_step cap db (snd (set_skill_featured cap a actor ns slug on db))"
| Release: "life_step cap db (snd (release_quarantined_version a actor ns slug semver reason db))"
| Remove: "life_step cap db (snd (delete_skill a actor ns slug db))"
| Deprecate: "life_step cap db (snd (set_skill_deprecation a actor ns slug wanted note db))"
| Undeprecate: "life_step cap db (snd (clear_skill_deprecation a actor ns slug db))"
| CreateCollection: "life_step cap db (snd (create_collection owner name skill db))"
| UpdateCollection: "life_step cap db (snd (update_collection actor i name description db))"
| DeleteCollection: "life_step cap db (snd (delete_collection a actor i db))"
| AddSkill: "life_step cap db (snd (add_skill_to_collection actor i skill db))"
| RemoveSkill: "life_step cap db (snd (remove_skill_from_collection actor i skill db))"
| Registered: "sk_id s \<notin> sk_id ` set (lf_skills db) \<Longrightarrow> lk_featured_at s = None \<Longrightarrow>
    life_step cap db (db\<lparr>lf_skills := lf_skills db @ [s]\<rparr>)"
| Published: "life_step cap db (db\<lparr>lf_versions := lf_versions db @ [v]\<rparr>)"
| Synthesized: "life_step cap db (db\<lparr>lf_versions := map (\<lambda>v. if lv_id v = i then v\<lparr>lv_git := True\<rparr> else v) (lf_versions db)\<rparr>)"
| Elsewhere: "lf_skills db' = lf_skills db \<Longrightarrow> lf_versions db' = lf_versions db \<Longrightarrow> lf_items db' = lf_items db \<Longrightarrow>
    lf_collections db' = lf_collections db \<Longrightarrow> lf_uuid db' = lf_uuid db \<Longrightarrow> lf_used db \<le> lf_used db' \<Longrightarrow> life_step cap db db'"

lemmas operations_ok =
  set_version_yanked_ok set_skill_archived_ok set_skill_official_ok set_skill_featured_ok release_ok delete_skill_ok
  set_skill_deprecation_ok clear_skill_deprecation_ok create_collection_ok update_collection_ok delete_collection_ok
  add_skill_ok remove_skill_ok

lemma registered_ok:
  assumes db: "life_ok cap db" and s: "sk_id s \<notin> sk_id ` set (lf_skills db)" "lk_featured_at s = None"
  shows "life_ok cap (db\<lparr>lf_skills := lf_skills db @ [s]\<rparr>)" (is "life_ok cap ?d")
proof -
  have act: "active_ids ?d = active_ids db" by (rule active_ids_cong) simp
  have "spotlight_ok cap ?d"
    using db s by (auto simp: life_ok_def spotlight_ok_def spotlight_row_ok_def act featured_def)
  moreover have "eligible_ids db \<subseteq> eligible_ids ?d" by (auto simp: eligible_ids_def collection_eligible_def)
  then have "members_ok ?d" using db by (auto simp: life_ok_def members_ok_def)
  moreover have "collections_ok ?d" using db collections_ok_cong [of ?d db] by (simp add: life_ok_def)
  ultimately show ?thesis by (simp add: life_ok_def)
qed

lemma published_ok: "life_ok cap db \<Longrightarrow> life_ok cap (db\<lparr>lf_versions := lf_versions db @ [v]\<rparr>)"
  by (erule life_ok_versions) (auto simp: versions_keep_def)

lemma synthesized_ok:
  assumes "life_ok cap db"
  shows "life_ok cap (db\<lparr>lf_versions := map (\<lambda>v. if lv_id v = i then v\<lparr>lv_git := True\<rparr> else v) (lf_versions db)\<rparr>)"
    (is "life_ok cap ?d")
proof (rule life_ok_versions [OF assms])
  show "versions_keep UNIV db ?d" unfolding versions_keep_def
  proof (intro ballI impI)
    fix v assume v: "v \<in> set (lf_versions db)" "lv_status v = VersionActive"
    define v' where "v' = (if lv_id v = i then v\<lparr>lv_git := True\<rparr> else v)"
    have "v' \<in> set (lf_versions ?d)" using v(1) by (simp add: v'_def)
    moreover have "lv_skill v' = lv_skill v" "lv_status v' = VersionActive" "lv_git v \<Longrightarrow> lv_git v'" using v(2) by (simp_all add: v'_def)
    ultimately show "\<exists>v' \<in> set (lf_versions ?d). lv_skill v' = lv_skill v \<and> lv_status v' = VersionActive \<and> (lv_git v \<longrightarrow> lv_git v')"
      by blast
  qed
qed simp_all

lemma elsewhere_ok:
  assumes db: "life_ok cap db" and same: "lf_skills db' = lf_skills db" "lf_versions db' = lf_versions db" "lf_items db' = lf_items db"
    "lf_collections db' = lf_collections db" "lf_uuid db' = lf_uuid db" "lf_used db \<le> lf_used db'"
  shows "life_ok cap db'"
proof (rule life_ok_collections [OF db same(1,2)])
  have "drawn_ids db \<subseteq> drawn_ids db'" using same(5,6) by (auto simp: drawn_ids_def)
  then show "collections_ok db'" using db same by (auto simp: life_ok_def collections_ok_def items_of_def)
qed (simp add: same)

lemma life_step_ok: "life_step cap db db' \<Longrightarrow> life_ok cap db \<Longrightarrow> life_ok cap db'"
  by (induction rule: life_step.induct)
    (simp_all only: operations_ok registered_ok published_ok synthesized_ok elsewhere_ok simp_thms)

definition fresh_catalog :: "life_db \<Rightarrow> bool" where
  "fresh_catalog db = (lf_skills db = [] \<and> lf_versions db = [] \<and> lf_items db = [] \<and> lf_collections db = [] \<and> inj (lf_uuid db))"

lemma fresh_catalog_ok: "fresh_catalog db \<Longrightarrow> life_ok cap db"
  by (simp add: fresh_catalog_def life_ok_def spotlight_ok_def members_ok_def collections_ok_def items_of_def)

lemma run_ok: "rtranclp (life_step cap) db db' \<Longrightarrow> life_ok cap db \<Longrightarrow> life_ok cap db'"
  by (induction rule: rtranclp_induct) (auto dest: life_step_ok)

section \<open>Properties\<close>




text \<open>
  C29: restoring a version bypasses the release of a quarantine. For a namespace administrator the restore
  operation makes a quarantined version active again, and the audit row it leaves has neither a reason nor the
  findings, while the release operation on the same version without a reason is refused.
\<close>

theorem restore_releases_quarantine:
  assumes "managed_skill a ns slug db = Some s" and "can_yank_or_archive a (sk_namespace s)"
    and "v \<in> set (lf_versions db)" and "lv_skill v = sk_id s" and "lv_status v = VersionQuarantined"
  shows "release_quarantined_version a actor ns slug (lv_semver v) [] db = (Some ReasonRequired, db) \<and>
         (\<exists>db'. set_version_yanked a actor ns slug (lv_semver v) False db = (None, db') \<and>
            v\<lparr>lv_status := VersionActive\<rparr> \<in> set (lf_versions db') \<and>
            (\<exists>e. lf_audit db' = lf_audit db @ [e] \<and> au_action e = ''version.restored'' \<and> au_before e = JNull \<and>
              au_after e = JObj [(''semver'', JStr (lv_semver v)), (''status'', JStr ''active'')]))"
proof -
  define db' where "db' = snd (set_version_yanked a actor ns slug (lv_semver v) False db)"
  have found: "list_ex (\<lambda>x. lv_skill x = sk_id s \<and> lv_semver x = lv_semver v) (lf_versions db)"
    using assms(3,4) by (auto simp: list_ex_iff)
  have ran: "set_version_yanked a actor ns slug (lv_semver v) False db = (None, db')"
    using assms(1,2) found by (simp add: db'_def set_version_yanked_def Let_def)
  have vers: "lf_versions db' = map (\<lambda>x. if lv_skill x = sk_id s \<and> lv_semver x = lv_semver v then x\<lparr>lv_status := VersionActive\<rparr> else x) (lf_versions db)"
    using assms(1,2) found by (simp add: db'_def set_version_yanked_def Let_def life_simps set_versions_rows)
  have "v\<lparr>lv_status := VersionActive\<rparr> \<in> set (lf_versions db')" unfolding vers set_map
    by (rule image_eqI [where x = v]) (use assms(3,4) in simp_all)
  moreover have "js_trim [] = []" by (simp add: js_trim_def trim_with_def)
  ultimately show ?thesis using ran assms(1,2) found
    by (auto simp: set_version_yanked_def release_quarantined_version_def Let_def life_audit_def refresh_quality_def set_versions_def)
qed

text \<open>
  a yank keeps a featured skill in the spotlight as long as one version is active, although featuring asks for
  a version that is active and published to git: after the only such version is yanked while another one waits for
  its publication, the skill is featured and nothing of it can be installed.
\<close>

theorem featured_without_installable:
  assumes "managed_skill a ns slug db = Some s" and "can_yank_or_archive a (sk_namespace s)" and "featured s"
    and "v \<in> set (lf_versions db)" and "lv_skill v = sk_id s" and "w \<in> set (lf_versions db)" and "lv_skill w = sk_id s"
    and "lv_status w = VersionActive" and "lv_semver w \<noteq> lv_semver v"
    and "\<forall>x \<in> set (lf_versions db). installable_version (sk_id s) x \<longrightarrow> lv_semver x = lv_semver v"
  shows "\<exists>db'. set_version_yanked a actor ns slug (lv_semver v) True db = (None, db') \<and> s \<in> set (lf_skills db') \<and> featured s \<and>
           \<not> list_ex (installable_version (sk_id s)) (lf_versions db')"
proof -
  define P :: "life_version \<Rightarrow> bool" where "P = (\<lambda>x. lv_skill x = sk_id s \<and> lv_semver x = lv_semver v)"
  define d where "d = life_audit actor ''version.yanked'' ''skill_version'' (version_target s (lv_semver v)) (Some (sk_namespace s)) JNull
    (JObj [(''semver'', JStr (lv_semver v)), (''status'', JStr ''yanked'')]) (refresh_quality (sk_id s) (set_versions P VersionYanked db))"
  have found: "list_ex P (lf_versions db)" using assms(4,5) by (auto simp: list_ex_iff P_def)
  have vers: "lf_versions d = map (\<lambda>x. if P x then x\<lparr>lv_status := VersionYanked\<rparr> else x) (lf_versions db)"
    by (simp add: d_def life_simps set_versions_rows)
  have "w \<in> set (lf_versions d)" unfolding vers set_map
    by (rule image_eqI [where x = w]) (use assms(6,9) in \<open>simp_all add: P_def\<close>)
  then have "list_ex (\<lambda>x. lv_skill x = sk_id s \<and> lv_status x = VersionActive) (lf_versions d)"
    using assms(7,8) by (auto simp: list_ex_iff)
  then have "after_yank actor s d = evict_from_collections (sk_id s) d"
    by (simp add: after_yank_def life_simps)
  moreover have "set_version_yanked a actor ns slug (lv_semver v) True db = (None, after_yank actor s d)"
    using assms(1,2) found by (simp add: set_version_yanked_def Let_def d_def P_def)
  moreover have "\<not> list_ex (installable_version (sk_id s)) (lf_versions d)"
    using assms(10) by (auto simp: vers list_ex_iff installable_version_def P_def)
  moreover have "s \<in> set (lf_skills d)" using managed_in [OF assms(1)] by (simp add: d_def life_simps)
  ultimately show ?thesis using assms(3) by (simp add: life_simps)
qed

end
