(* ===== verification/LifeEffects.thy ===== *)
theory LifeEffects
  imports LifeRuns
begin

text \<open>What a deprecation promises its audience, whom it tells, and what a permanent deletion leaves behind.\<close>

section \<open>Lookup by key\<close>

lemma find_by_key: "distinct (map k xs) \<Longrightarrow> x \<in> set xs \<Longrightarrow> find (\<lambda>y. k y = k x) xs = Some x"
  by (induction xs) (auto simp: image_iff)

lemma sees_life_iff: "sees_life a db s = life_visible a db s"
proof -
  have "sees_life a db s \<longleftrightarrow> life_base s \<in> set (visible_rows a (lf_access db) [life_base s])"
    by (auto simp: sees_life_def visible_rows_def split: option.split)
  then show ?thesis by (simp add: clause_rule.sees_iff memory_rule.sees_iff life_visible_def)
qed

lemma successor_rowD:
  assumes "distinct (map sk_id (lf_skills db))" "x \<in> set (lf_skills db)" "successor_row db (Some (sk_id x)) = Some r"
  shows "as_id r = sk_id x" "as_visibility r = sk_visibility x" "as_namespace r = sk_namespace x"
    "as_shared r = Some (shared_namespace_ids_sql (lf_access db) (life_base x))"
    "sx_active r = (\<not> lk_archived x)" "sx_deprecated r = lk_deprecated_at x"
  using assms find_by_key [OF assms(1,2)] by (auto simp: successor_row_def split: option.splits)

lemma load_candidateD:
  assumes "load_candidate a ref db = Some r"
  obtains x where "x \<in> set (lf_skills db)" "life_visible a db x" "successor_row db (Some (sk_id x)) = Some r"
  using assms that by (auto simp: load_candidate_def sees_life_iff split: list.splits if_splits option.splits dest: find_in_set)

lemma eligibleD:
  assumes "successor_eligibility (audience_of db s) (Some (candidate_of r)) = None"
  shows "as_id r \<noteq> sk_id s \<and> sx_active r \<and> sx_deprecated r = None \<and>
     (as_visibility r = OrgVisible \<or> sk_visibility s = NamespaceVisible \<and>
        audience (lf_access db) (life_base s) \<subseteq> insert (as_namespace r) (set (shared_or_none (as_shared r))))"
  using assms by (auto simp: successor_eligibility_def audience_of_def candidate_of_def Let_def audience_def life_base_def
      list_all_iff shared_or_none_def split: if_splits)

text \<open>The successor a deprecation was asked for, once it has been accepted.\<close>

lemma resolve_successorD:
  assumes ids: "distinct (map sk_id (lf_skills db))" and "resolve_successor a s (Some w) db = Inr u" "w \<noteq> []"
  obtains x r where "u = Some r" "as_id r = sk_id x" "x \<in> set (lf_skills db)" "life_visible a db x" "sk_id x \<noteq> sk_id s"
    "\<not> lk_archived x" "lk_deprecated_at x = None"
    "sk_visibility x = OrgVisible \<or> sk_visibility s = NamespaceVisible \<and>
       audience (lf_access db) (life_base s) \<subseteq> audience (lf_access db) (life_base x)"
proof -
  obtain r where l: "load_candidate a (js_trim w) db = Some r"
    using assms(2,3) by (cases "load_candidate a (js_trim w) db") (auto simp: resolve_successor_def truthy_def)
  then have r: "u = Some r" "successor_eligibility (audience_of db s) (Some (candidate_of r)) = None"
    using assms(2,3) by (auto simp: resolve_successor_def truthy_def split: option.splits)
  obtain x where x: "x \<in> set (lf_skills db)" "life_visible a db x" "successor_row db (Some (sk_id x)) = Some r"
    using load_candidateD [OF l] by blast
  note row = successor_rowD [OF ids x(1,3)]
  show thesis
    using eligibleD [OF r(2)] by (intro that [OF r(1) row(1) x(1,2)]) (auto simp: row audience_def life_base_def shared_or_none_def)
qed

lemma deprecation_setD:
  assumes "set_skill_deprecation a actor ns slug wanted note db = (DeprecationSet detail changed, db')"
  obtains s n u where "life_by_slugs db ns slug = Some s" "\<not> lk_archived s" "life_visible a db s"
    "resolve_successor a s wanted db = Inr u"
    "changed = (lk_deprecated_at s = None \<or> map_option as_id (successor_row db (lk_successor s)) \<noteq> map_option as_id u)"
    "db' = (if changed then notify_deprecated (sk_id s) actor (record_deprecation actor s u n db) else record_deprecation actor s u n db)"
proof -
  obtain s where s: "deprecation_skill a ns slug db = Some s"
    using assms by (cases "deprecation_skill a ns slug db") (simp_all add: set_skill_deprecation_def)
  obtain n where n: "normalize_deprecation_note note = NoteOk n"
    using assms s by (cases "normalize_deprecation_note note") (auto simp: set_skill_deprecation_def split: if_splits)
  obtain u where u: "resolve_successor a s wanted db = Inr u"
    using assms s n by (cases "resolve_successor a s wanted db") (auto simp: set_skill_deprecation_def split: if_splits)
  have live: "\<not> lk_archived s" using assms s by (auto simp: set_skill_deprecation_def split: if_splits)
  moreover have "life_by_slugs db ns slug = Some s" "life_visible a db s"
    using s live by (auto simp: deprecation_skill_def split: option.splits if_splits)
  ultimately show thesis
    using assms s n u by (intro that [of s u n]) (auto simp: set_skill_deprecation_def Let_def split: if_splits)
qed

text \<open>The rows after an accepted deprecation.\<close>

lemma recorded_simps [life_simps]:
  "lf_access (record_deprecation actor s u n db) = lf_access db" "lf_namespaces (record_deprecation actor s u n db) = lf_namespaces db"
  "lf_notifications (record_deprecation actor s u n db) = lf_notifications db" "lf_watches (record_deprecation actor s u n db) = lf_watches db"
  "lf_maintainers (record_deprecation actor s u n db) = lf_maintainers db" "lf_tokens (record_deprecation actor s u n db) = lf_tokens db"
  "lf_now (record_deprecation actor s u n db) = lf_now db"
  by (simp_all add: record_deprecation_def Let_def unfeature_def life_audit_def set_life_def)

lemma recorded_rows:
  obtains f where "lf_skills (record_deprecation actor s u n db) = map (\<lambda>x. if sk_id x = sk_id s then f x else x) (lf_skills db)"
    "\<And>x. life_base (f x) = life_base x" "\<And>x. lk_successor (f x) = map_option as_id u" "\<And>x. lk_archived (f x) = lk_archived x"
    "\<And>x. sk_id (f x) = sk_id x" "\<And>x. lk_slug (f x) = lk_slug x"
proof -
  let ?w = "write_deprecation actor (map_option as_id u) n (lf_now db)"
  have rows: "lf_skills (record_deprecation actor s u n db) =
      map (\<lambda>x. if sk_id x = sk_id s then (if lk_deprecated_at s = None \<and> lk_featured_at s \<noteq> None then clear_featured (?w x) else ?w x) else x)
        (lf_skills db)"
    by (cases "lk_deprecated_at s"; cases "lk_featured_at s")
      (simp_all add: record_deprecation_def Let_def unfeature_def life_audit_def set_life_def o_def write_deprecation_def)
  show thesis
    by (rule that [OF rows]) (simp_all add: write_deprecation_def clear_featured_def life_base_def)
qed

text \<open>
  C23: the successor of an accepted deprecation is another skill, active and not deprecated, the actor
  can see it, and everyone who sees the deprecated skill sees it: with any resolved access, and by the SQL predicate any stored user.
\<close>

theorem successor_covers_audience:
  assumes "set_skill_deprecation a actor ns slug (Some w) note db = (DeprecationSet detail changed, db')"
    and "w \<noteq> []" and "distinct (map sk_id (lf_skills db))"
  shows "\<exists>s x. life_by_slugs db ns slug = Some s \<and> x \<in> set (lf_skills db) \<and> sk_id x \<noteq> sk_id s \<and>
           \<not> lk_archived x \<and> lk_deprecated_at x = None \<and> life_visible a db x \<and>
           (\<forall>b. life_visible b db s \<longrightarrow> life_visible b db x) \<and>
           (\<forall>u. user_can_see_skill_sql u (lf_access db) (life_base s) \<longrightarrow> user_can_see_skill_sql u (lf_access db) (life_base x)) \<and>
           (\<exists>s' \<in> set (lf_skills db'). sk_id s' = sk_id s \<and> lk_successor s' = Some (sk_id x))"
proof -
  obtain s n u where s: "life_by_slugs db ns slug = Some s" and u: "resolve_successor a s (Some w) db = Inr u"
      and db': "db' = (if changed then notify_deprecated (sk_id s) actor (record_deprecation actor s u n db) else record_deprecation actor s u n db)"
    using deprecation_setD [OF assms(1)] by metis
  obtain x r where x: "u = Some r" "as_id r = sk_id x" "x \<in> set (lf_skills db)" "life_visible a db x" "sk_id x \<noteq> sk_id s"
      "\<not> lk_archived x" "lk_deprecated_at x = None"
      and cover: "sk_visibility x = OrgVisible \<or> sk_visibility s = NamespaceVisible \<and>
        audience (lf_access db) (life_base s) \<subseteq> audience (lf_access db) (life_base x)"
    using resolve_successorD [OF assms(3) u assms(2)] by metis
  have aud: "sk_visibility (life_base x) = OrgVisible \<or> sk_visibility (life_base s) = NamespaceVisible \<and>
      audience (lf_access db) (life_base s) \<subseteq> audience (lf_access db) (life_base x)" using cover by (simp add: life_base_def)
  have "\<forall>b. life_visible b db s \<longrightarrow> life_visible b db x"
    unfolding life_visible_def using memory_rule.covered_audience [OF TrueI _ aud] by blast
  moreover have "\<forall>v. user_can_see_skill_sql v (lf_access db) (life_base s) \<longrightarrow> user_can_see_skill_sql v (lf_access db) (life_base x)"
    using stored_user_rule.covered_audience [OF TrueI _ aud] by blast
  moreover have "\<exists>s' \<in> set (lf_skills db'). sk_id s' = sk_id s \<and> lk_successor s' = Some (sk_id x)"
  proof -
    obtain f where f: "lf_skills (record_deprecation actor s u n db) = map (\<lambda>x. if sk_id x = sk_id s then f x else x) (lf_skills db)"
        and base: "\<And>x. life_base (f x) = life_base x"
        and succ: "\<And>x. lk_successor (f x) = map_option as_id u" and arch: "\<And>x. lk_archived (f x) = lk_archived x"
        and id: "\<And>x. sk_id (f x) = sk_id x" and slug: "\<And>x. lk_slug (f x) = lk_slug x"
      by (rule recorded_rows [of actor s u n db], rule that)
    have "lf_skills db' = lf_skills (record_deprecation actor s u n db)"
      by (simp add: db' notify_deprecated_def life_simps split: option.split)
    moreover have "s \<in> set (lf_skills db)" using s by (auto simp: life_by_slugs_def dest: find_in_set)
    then have "f s \<in> set (map (\<lambda>x. if sk_id x = sk_id s then f x else x) (lf_skills db))"
      unfolding set_map by (intro image_eqI [where x = s]) simp_all
    moreover have "sk_id (f s) = sk_id s \<and> lk_successor (f s) = Some (sk_id x)" by (simp add: succ id x(1,2))
    ultimately show ?thesis unfolding f by metis
  qed
  ultimately show ?thesis using s x by blast
qed

section \<open>Notices\<close>

definition successor_named :: "notification_row \<Rightarrow> bool" where
  "successor_named k = (case nt_payload k of
      JObj fs \<Rightarrow> list_ex (\<lambda>f. fst f \<in> {''successorNamespaceSlug'', ''successorSlug'', ''successorTitle''} \<and> snd f \<noteq> JNull) fs
    | _ \<Rightarrow> False)"

lemma notice_simps [simp]:
  "nt_user (deprecation_notice d s n u) = u" "nt_type (deprecation_notice d s n u) = ''skill.deprecated''"
  by (simp_all add: deprecation_notice_def Let_def)

lemma named_successor:
  assumes "successor_named (deprecation_notice d s n u)"
  shows "\<exists>y \<in> set (lf_skills d). lk_successor s = Some (sk_id y) \<and> \<not> lk_archived y \<and> user_can_see_skill_sql u (lf_access d) (life_base y)"
proof (cases "find (\<lambda>y. Some (sk_id y) = lk_successor s \<and> \<not> lk_archived y) (lf_skills d)")
  case None
  then show ?thesis using assms by (simp add: successor_named_def deprecation_notice_def Let_def)
next
  case (Some y)
  have "user_can_see_skill_sql u (lf_access d) (life_base y)"
    using assms Some by (auto simp: successor_named_def deprecation_notice_def Let_def named_or_null_def split: option.splits if_splits)
  then show ?thesis using find_in_set [OF Some] by (intro bexI [where x = y]) auto
qed

definition notice_due :: "ident \<Rightarrow> life_db \<Rightarrow> life_skill \<Rightarrow> ident \<Rightarrow> bool" where
  "notice_due actor db s u =
     (active_user (lf_access db) u \<and> u \<noteq> actor \<and> notice_candidate db s u \<and> user_can_see_skill_sql u (lf_access db) (life_base s))"

lemma notified_rows:
  assumes "find (\<lambda>x. sk_id x = i) (lf_skills d) = Some s" "find (\<lambda>n. nr_id n = sk_namespace s) (lf_namespaces d) = Some n"
    "distinct (map ur_id (t_users (lf_access d)))"
  obtains us where "lf_notifications (notify_deprecated i actor d) = lf_notifications d @ map (deprecation_notice d s n) us"
    "distinct us" "\<And>u. u \<in> set us \<longleftrightarrow> notice_due actor d s u"
proof
  let ?us = "filter (\<lambda>u. notice_candidate d s u \<and> u \<noteq> actor \<and> user_can_see_skill_sql u (lf_access d) (life_base s))
      (map ur_id (filter ur_active (t_users (lf_access d))))"
  show "lf_notifications (notify_deprecated i actor d) = lf_notifications d @ map (deprecation_notice d s n) ?us"
    using assms(1,2) by (simp add: notify_deprecated_def life_simps)
  show "distinct ?us" using assms(3) by (simp add: distinct_map_filter)
  show "u \<in> set ?us \<longleftrightarrow> notice_due actor d s u" for u by (auto simp: notice_due_def active_user_def list_ex_iff)
qed


section \<open>Deletion\<close>

lemma doomed_cong: "lf_versions d = lf_versions db \<Longrightarrow> doomed_proposal d i p = doomed_proposal db i p"
  by (simp add: doomed_proposal_def version_ids_def split: option.split)

lemma dropped_simps [life_simps]:
  "lf_maintainers (drop_conversations P types db) = lf_maintainers db" "lf_watches (drop_conversations P types db) = lf_watches db"
  "lf_children (drop_conversations P types db) = lf_children db" "lf_access_log (drop_conversations P types db) = lf_access_log db"
  "lf_audit (drop_conversations P types db) = lf_audit db" "lf_tokens (drop_conversations P types db) = lf_tokens db"
  by (simp_all add: drop_conversations_def drop_alerts_def)

lemma deleted_tables:
  fixes i db defines "d \<equiv> cascade_skill i (detach_skill i db)"
  shows "lf_versions d = filter (\<lambda>v. lv_skill v \<noteq> i) (lf_versions db)"
    "lf_items d = filter (\<lambda>it. ci_skill it \<noteq> i) (lf_items db)" "lf_maintainers d = filter (\<lambda>m. mt_skill m \<noteq> i) (lf_maintainers db)"
    "lf_watches d = filter (\<lambda>w. wt_skill w \<noteq> i) (lf_watches db)" "lf_tokens d = filter (\<lambda>t. tr_skill t \<noteq> i) (lf_tokens db)"
    "t_grants (lf_access d) = filter (\<lambda>g. sng_skill g \<noteq> i) (t_grants (lf_access db))"
    "lf_children d = (\<lambda>t. filter (\<lambda>x. x \<noteq> i) (lf_children db t))" "lf_audit d = lf_audit db"
    "lf_proposals d = filter (\<lambda>p. \<not> doomed_proposal db i p) (lf_proposals db)"
    "lf_access_log d = map (nulled (version_ids db i)) (lf_access_log db)"
proof -
  have "doomed_proposal (drop_conversations P t (drop_conversations Q w (db\<lparr>lf_skills := xs, lf_access_log := ys\<rparr>))) i p = doomed_proposal db i p"
    for P t Q w xs ys p by (rule doomed_cong) (simp add: life_simps)
  then show "lf_proposals d = filter (\<lambda>p. \<not> doomed_proposal db i p) (lf_proposals db)"
    unfolding d_def cascade_skill_def detach_skill_def Let_def by (simp add: life_simps)
qed (simp_all add: d_def cascade_skill_def detach_skill_def Let_def life_simps)

lemma nulled_away: "v \<in> set vs \<Longrightarrow> nulled vs w \<noteq> Some v"
  by (auto simp: nulled_def split: option.splits)

lemma deletedD:
  assumes "delete_skill a actor ns slug db = (None, db')" and "life_by_slugs db ns slug = Some s"
  obtains e where "is_platform_admin a" "lk_archived s" "au_action e = ''skill.deleted''" "au_target e = Some (sk_id s)"
    "db' = (cascade_skill (sk_id s) (detach_skill (sk_id s) db))\<lparr>lf_audit := lf_audit db @ [e]\<rparr>"
proof (rule that)
  show "is_platform_admin a" "lk_archived s" using assms by (auto simp: delete_skill_def managed_skill_def split: if_splits)
qed (use assms in \<open>auto simp: delete_skill_def managed_skill_def life_audit_def deleted_tables split: if_splits\<close>)


end
