(* ===== verification/LifeSamples.thy ===== *)
theory LifeSamples
  imports LifeEffects
begin

text \<open>Concrete runs: a skill featured and collected, deprecated for a successor, quarantined, and deleted.\<close>

section \<open>A catalog\<close>

definition life_admin :: effective_access where
  "life_admin = \<lparr>is_platform_admin = True, namespace_roles = (\<lambda>_. None)\<rparr>"

definition life_outsider :: effective_access where
  "life_outsider = \<lparr>is_platform_admin = False, namespace_roles = (\<lambda>_. None)\<rparr>"

definition id_one :: ident where "id_one = ''11111111-1111-1111-1111-111111111111''"
definition id_two :: ident where "id_two = ''22222222-2222-2222-2222-222222222222''"

definition sample_life :: "ident \<Rightarrow> string \<Rightarrow> visibility \<Rightarrow> bool \<Rightarrow> life_skill" where
  "sample_life i slug vis archived = \<lparr>sk_id = i, sk_namespace = ''n'', sk_visibility = vis, lk_slug = slug, lk_title = slug,
     lk_archived = archived, lk_official_at = None, lk_official_by = None, lk_featured_at = None, lk_featured_by = None,
     lk_deprecated_at = None, lk_deprecated_by = None, lk_successor = None, lk_note = None, lk_promoted_from = None\<rparr>"

definition life_sample_version :: "ident \<Rightarrow> version_status \<Rightarrow> life_version" where
  "life_sample_version i st = \<lparr>lv_id = ''v'' @ i, lv_skill = i, lv_semver = ''1.0.0'', lv_prerelease = False, lv_status = st,
     lv_git = False, lv_key = None\<rparr>"

definition life_users :: access_db where
  "life_users = \<lparr>t_users = [\<lparr>ur_id = ''a'', ur_oid = ''oa'', ur_active = True\<rparr>, \<lparr>ur_id = ''w'', ur_oid = ''ow'', ur_active = True\<rparr>],
     t_groups = [], t_memberships = [], t_mappings = [], t_grants = []\<rparr>"

definition life0 :: life_db where
  "life0 = \<lparr>lf_access = life_users, lf_namespaces = [\<lparr>nr_id = ''n'', nr_slug = ''ns'', nr_display = ''NS'', nr_require_review = False\<rparr>], lf_skills = [], lf_versions = [],
     lf_collections = [], lf_items = [], lf_maintainers = [], lf_watches = [\<lparr>wt_user = ''w'', wt_skill = id_one\<rparr>], lf_tokens = [],
     lf_proposals = [], lf_conversations = [], lf_scans = [], lf_access_log = [], lf_children = (\<lambda>_. []),
     lf_notifications = [], lf_audit = [], lf_refreshed = [], lf_calls = [], lf_uuid = (\<lambda>k. replicate k (CHR ''x'')),
     lf_used = 0, lf_now = 5\<rparr>"

definition life1 :: life_db where
  "life1 = life0\<lparr>lf_skills := [sample_life id_one ''one'' OrgVisible False]\<rparr>"

definition life2 :: life_db where
  "life2 = life1\<lparr>lf_versions := [life_sample_version id_one VersionActive]\<rparr>"

definition life3 :: life_db where
  "life3 = life2\<lparr>lf_versions := [(life_sample_version id_one VersionActive)\<lparr>lv_git := True\<rparr>]\<rparr>"

definition life4 :: life_db where
  "life4 = snd (set_skill_featured 1 life_admin ''a'' ''ns'' ''one'' True life3)"

definition life5 :: life_db where
  "life5 = snd (create_collection ''w'' (JsText ''Tools'') (JsText id_one) life4)"

lemma life0_fresh: "fresh_catalog life0"
  by (simp add: fresh_catalog_def life0_def inj_on_def)

lemma life_run: "rtranclp (life_step 1) life0 life5"
proof -
  have "life_step 1 life0 life1"
    using Registered [of "sample_life id_one ''one'' OrgVisible False" life0 1] by (simp add: life1_def life0_def sample_life_def)
  moreover have "life_step 1 life1 life2"
    using Published [of 1 life1 "life_sample_version id_one VersionActive"] by (simp add: life2_def life1_def life0_def)
  moreover have "life_step 1 life2 life3"
    using Synthesized [of 1 life2 "''v'' @ id_one"] by (simp add: life3_def life2_def life_sample_version_def)
  moreover have "life_step 1 life3 life4" unfolding life4_def by (rule Feature)
  moreover have "life_step 1 life4 life5" unfolding life5_def by (rule CreateCollection)
  ultimately show ?thesis by (meson rtranclp.rtrancl_into_rtrancl rtranclp.rtrancl_refl)
qed

lemma life5_rows: "list_ex featured (lf_skills life5) \<and> length (lf_items life5) = 1 \<and> length (lf_collections life5) = 1"
  by code_simp

section \<open>The invariant on that run\<close>



section \<open>A restricted skill and an outsider\<close>

definition life_hidden :: life_db where
  "life_hidden = life0\<lparr>lf_skills := [sample_life id_one ''one'' NamespaceVisible True]\<rparr>"

lemma life_hidden_found: "life_by_slugs life_hidden ''ns'' ''one'' = Some (sample_life id_one ''one'' NamespaceVisible True)"
  by (simp add: life_by_slugs_def life_hidden_def life0_def sample_life_def)

lemma life_hidden_unseen: "\<not> life_visible life_outsider life_hidden (sample_life id_one ''one'' NamespaceVisible True)"
  by code_simp


section \<open>A quarantined version\<close>

definition life_quarantine :: life_db where
  "life_quarantine = life1\<lparr>lf_versions := [life_sample_version id_one VersionQuarantined]\<rparr>"

lemma life_quarantine_managed:
  "managed_skill life_admin ''ns'' ''one'' life_quarantine = Some (sample_life id_one ''one'' OrgVisible False)"
  by (simp add: managed_skill_def life_by_slugs_def life_quarantine_def life1_def life0_def sample_life_def life_visible_def
      subject_visible_iff life_base_def)

theorem restore_releases_quarantine_witness:
  "release_quarantined_version life_admin ''a'' ''ns'' ''one'' ''1.0.0'' [] life_quarantine = (Some ReasonRequired, life_quarantine) \<and>
   (\<exists>db'. set_version_yanked life_admin ''a'' ''ns'' ''one'' ''1.0.0'' False life_quarantine = (None, db') \<and>
      (life_sample_version id_one VersionQuarantined)\<lparr>lv_status := VersionActive\<rparr> \<in> set (lf_versions db'))"
proof -
  have v: "life_sample_version id_one VersionQuarantined \<in> set (lf_versions life_quarantine)" by (simp add: life_quarantine_def)
  have y: "can_yank_or_archive life_admin (sk_namespace (sample_life id_one ''one'' OrgVisible False))"
    by (simp add: can_yank_or_archive_def life_admin_def)
  have f: "lv_skill (life_sample_version id_one VersionQuarantined) = sk_id (sample_life id_one ''one'' OrgVisible False)"
    "lv_status (life_sample_version id_one VersionQuarantined) = VersionQuarantined"
    "lv_semver (life_sample_version id_one VersionQuarantined) = ''1.0.0''"
    by (simp_all add: life_sample_version_def sample_life_def)
  show ?thesis using restore_releases_quarantine [OF life_quarantine_managed y v f(1,2), where actor = "''a''"] unfolding f(3) by blast
qed

text \<open>Featured by its published version, a second version still waits for git.\<close>

definition life_waiting :: life_db where
  "life_waiting = life0\<lparr>lf_skills := [(sample_life id_one ''one'' OrgVisible False)\<lparr>lk_featured_at := Some 1\<rparr>],
     lf_versions := [(life_sample_version id_one VersionActive)\<lparr>lv_git := True\<rparr>,
                     (life_sample_version id_one VersionActive)\<lparr>lv_semver := ''1.1.0''\<rparr>]\<rparr>"

theorem featured_without_installable_witness:
  "\<exists>db'. set_version_yanked life_admin ''a'' ''ns'' ''one'' ''1.0.0'' True life_waiting = (None, db') \<and>
     list_ex featured (lf_skills db') \<and> \<not> list_ex (installable_version id_one) (lf_versions db')"
proof -
  let ?s = "(sample_life id_one ''one'' OrgVisible False)\<lparr>lk_featured_at := Some 1\<rparr>"
  let ?v = "(life_sample_version id_one VersionActive)\<lparr>lv_git := True\<rparr>"
  let ?w = "(life_sample_version id_one VersionActive)\<lparr>lv_semver := ''1.1.0''\<rparr>"
  have m: "managed_skill life_admin ''ns'' ''one'' life_waiting = Some ?s"
    by (simp add: managed_skill_def life_by_slugs_def life_waiting_def life0_def sample_life_def life_visible_def
        subject_visible_iff life_base_def)
  have y: "can_yank_or_archive life_admin (sk_namespace ?s)" by (simp add: can_yank_or_archive_def life_admin_def)
  have f: "featured ?s" by (simp add: featured_def)
  have v: "?v \<in> set (lf_versions life_waiting)" "lv_skill ?v = sk_id ?s" "?w \<in> set (lf_versions life_waiting)" "lv_skill ?w = sk_id ?s"
    "lv_status ?w = VersionActive" "lv_semver ?w \<noteq> lv_semver ?v"
    "\<forall>x \<in> set (lf_versions life_waiting). installable_version (sk_id ?s) x \<longrightarrow> lv_semver x = lv_semver ?v"
    by (simp_all add: life_waiting_def life_sample_version_def sample_life_def installable_version_def)
  have e: "lv_semver ?v = ''1.0.0''" "sk_id ?s = id_one" by (simp_all add: life_sample_version_def sample_life_def)
  show ?thesis using featured_without_installable [OF m y f v, where actor = "''a''"] unfolding e by (auto simp: list_ex_iff)
qed

section \<open>A deprecation\<close>

definition life_pair :: life_db where
  "life_pair = life0\<lparr>lf_skills := [sample_life id_one ''one'' OrgVisible False, sample_life id_two ''two'' OrgVisible False]\<rparr>"

definition life_deprecated :: "deprecation_result \<times> life_db" where
  "life_deprecated = set_skill_deprecation life_admin ''a'' ''ns'' ''one'' (Some ''ns/two'') (JsText ''gone'') life_pair"

definition accepted :: "deprecation_result \<Rightarrow> bool option" where
  "accepted r = (case r of DeprecationSet _ c \<Rightarrow> Some c | DeprecationRefused _ \<Rightarrow> None)"

lemma life_admin_sees: "sees_life life_admin db s" "life_visible life_admin db s"
  by (simp_all add: sees_life_iff life_visible_def subject_visible_iff life_admin_def)

lemma life_pair_found: "life_by_slugs life_pair ''ns'' ''one'' = Some (sample_life id_one ''one'' OrgVisible False)"
  by (simp add: life_by_slugs_def life_pair_def life0_def sample_life_def)

lemma life_pair_candidate:
  "case successor_row life_pair (Some id_two) of None \<Rightarrow> False
   | Some r \<Rightarrow> successor_eligibility (audience_of life_pair (sample_life id_one ''one'' OrgVisible False)) (Some (candidate_of r)) = None"
  by code_simp

lemma life_pair_split: "split_on (CHR 0x2F) (js_trim ''ns/two'') = [''ns'', ''two'']"
  by code_simp

lemma life_pair_note: "normalize_deprecation_note (JsText ''gone'') = NoteOk (Some ''gone'')"
  by code_simp

lemma life_deprecated_accepted: "accepted (fst life_deprecated) = Some True"
proof -
  obtain r where r: "successor_row life_pair (Some id_two) = Some r"
      "successor_eligibility (audience_of life_pair (sample_life id_one ''one'' OrgVisible False)) (Some (candidate_of r)) = None"
    using life_pair_candidate by (auto split: option.splits)
  have "load_candidate life_admin (js_trim ''ns/two'') life_pair = successor_row life_pair (Some id_two)"
    unfolding load_candidate_def life_pair_split
    by (simp add: life_admin_sees) (simp add: life_pair_def life0_def sample_life_def)
  then have "resolve_successor life_admin (sample_life id_one ''one'' OrgVisible False) (Some ''ns/two'') life_pair = Inr (Some r)"
    using r by (simp add: resolve_successor_def truthy_def)
  moreover have "deprecation_skill life_admin ''ns'' ''one'' life_pair = Some (sample_life id_one ''one'' OrgVisible False)"
    by (simp add: deprecation_skill_def life_pair_found life_admin_sees)
  ultimately show ?thesis
    by (simp add: life_deprecated_def set_skill_deprecation_def life_pair_note can_yank_or_archive_def accepted_def Let_def)
      (simp add: life_admin_def sample_life_def)
qed

lemma life_deprecated_set:
  obtains d where "set_skill_deprecation life_admin ''a'' ''ns'' ''one'' (Some ''ns/two'') (JsText ''gone'') life_pair =
    (DeprecationSet d True, snd life_deprecated)"
  using life_deprecated_accepted
  by (cases "fst life_deprecated") (auto simp: accepted_def life_deprecated_def prod_eq_iff)

lemma life_pair_keys: "distinct (map sk_id (lf_skills life_pair))" "distinct (map ur_id (t_users (lf_access life_pair)))"
  by (simp_all add: life_pair_def life0_def life_users_def sample_life_def id_one_def id_two_def)

theorem successor_covers_audience_witness:
  "\<exists>s' \<in> set (lf_skills (snd life_deprecated)). lk_successor s' \<noteq> None"
proof (rule life_deprecated_set)
  fix d assume "set_skill_deprecation life_admin ''a'' ''ns'' ''one'' (Some ''ns/two'') (JsText ''gone'') life_pair =
    (DeprecationSet d True, snd life_deprecated)"
  from successor_covers_audience [OF this _ life_pair_keys(1)] show ?thesis by auto
qed

lemma life_pair_due: "notice_due ''a'' life_pair (sample_life id_one ''one'' OrgVisible False) ''w''"
  by code_simp


section \<open>A deletion\<close>

definition life_archived :: life_db where
  "life_archived = life3\<lparr>lf_skills := [sample_life id_one ''one'' OrgVisible True, (sample_life id_two ''two'' OrgVisible False)\<lparr>lk_successor := Some id_one\<rparr>]\<rparr>"

lemma life_archived_found: "life_by_slugs life_archived ''ns'' ''one'' = Some (sample_life id_one ''one'' OrgVisible True)"
  by (simp add: life_by_slugs_def life_archived_def life3_def life2_def life1_def life0_def sample_life_def)

lemma life_archived_deleted:
  "delete_skill life_admin ''a'' ''ns'' ''one'' life_archived = (None, snd (delete_skill life_admin ''a'' ''ns'' ''one'' life_archived))"
proof -
  have "fst (delete_skill life_admin ''a'' ''ns'' ''one'' life_archived) = None" by code_simp
  then show ?thesis by (simp add: prod_eq_iff)
qed


end
