(* ===== verification/Spec2Isabelle.thy ===== *)
theory Spec2Isabelle
  imports Prelude Rbac Semver Proposal ReviewTarget Policy Scan Category Store Grants Publishing
    ProposalActions ProposalFacts Workflow DirectPublish Reuse Marketplace GitAuth LineDiff OAuthSamples
    ReviewSamples ProvisionSamples MailSamples LifeSamples
begin

text \<open>
  A verification development for skilly, a registry of agent skills: members of namespaces propose
  skills, reviewers accept them, versions are published to git repositories and marketplaces, and agents
  install them over git or through an MCP server.

  The program is a TypeScript monorepo, \<open>packages/shared\<close> (rules both tiers use), \<open>packages/web\<close> (the
  web application; its rules are in \<open>src/lib\<close>) and \<open>packages/worker\<close> (git and MCP servers, SCIM
  endpoints, sweeps), over one PostgreSQL database. The model follows that layout.

  Conventions. A table is a list of rows (a \<open>record\<close>), a database a record of tables, a transaction a
  function from a database to an answer and a database. Text is a list of character codes up to
  255 and compares by code point, where PostgreSQL sorts by its collation. Row ids come from a stream
  \<open>db_uuid\<close> with a position \<open>db_used\<close>, random tokens from another. The clock is a field \<open>db_now\<close> in
  milliseconds. What is not in the repository is a parameter: the policy and scan engines, the hash and
  the challenge function, the URL parser, the time zones, the directory service, the mail transports,
  the AI pre-review. Errors are values of
  sum or option types, one constructor per refusal. Caches, metrics, the hash chain of the audit log,
  advisory locks and the HTTP framing are not modelled.

  Theories, bottom up:

  \<^item> \<open>Prelude\<close>: JavaScript text and number functions, list lemmas, the clock of UTC days.
  \<^item> \<open>Rbac\<close>: \<open>rbac.ts\<close> and \<open>visibility.ts\<close>, the capability checks, the resolution of access from
    groups and role mappings, and the SQL predicates, each proved equivalent to the check it mirrors.
  \<^item> \<open>Semver\<close>: \<open>semver.ts\<close>, \<open>freshness.ts\<close>: the parser, the precedence with doubles as numbers,
    the choice of the latest version and of the predecessor.
  \<^item> \<open>Proposal\<close>: \<open>proposal.ts\<close>, the state machine, as a step relation with its invariants.
  \<^item> \<open>ReviewTarget\<close>: \<open>review-target.ts\<close>, business time and the reviewer pool.
  \<^item> \<open>Policy\<close>, \<open>Scan\<close>, \<open>Category\<close>: \<open>policy.ts\<close>, \<open>scan.ts\<close> and \<open>content-risk-status.ts\<close>,
    \<open>category.ts\<close>: the gates a version passes and the vocabulary of categories.
  \<^item> \<open>Store\<close>: the tables of the web tier and their primitive effects.
  \<^item> \<open>Grants\<close>, \<open>Publishing\<close>, \<open>ProposalActions\<close>, \<open>DirectPublish\<close>, \<open>Reuse\<close>: \<open>grants.ts\<close>,
    \<open>maintainers.ts\<close> and the handlers of \<open>proposals.ts\<close>, branch by branch. \<open>ProposalFacts\<close> has the gates
    an acceptance passes and the effects of every action; \<open>Workflow\<close> the refinement of the state
    machine by the handlers.
  \<^item> \<open>Marketplace\<close>, \<open>GitAuth\<close>: \<open>plugin-marketplace.ts\<close> and \<open>git/authorize.ts\<close>: what a plugin
    repository contains, and who may read a git repository, with the token limiter of \<open>rateLimit.ts\<close>.
  \<^item> \<open>LineDiff\<close>: \<open>linediff.ts\<close>, the longest common subsequence and its hunks.
  \<^item> \<open>OAuthPolicy\<close>, \<open>OAuth\<close>, \<open>OAuthTokens\<close>: \<open>oauth.ts\<close>, \<open>mcpOauth.ts\<close>, \<open>mcp/oauthRouter.ts\<close>,
    \<open>mcp/auth.ts\<close>: the authorization server of the MCP endpoint. \<open>OAuthFacts\<close> interleaves its requests (a
    redemption is two steps) and has the frame every step keeps; \<open>OAuthProps\<close> the properties of its
    runs, \<open>OAuthSamples\<close> a small server they apply to.
  \<^item> \<open>ReviewAssign\<close>, \<open>ReviewReminders\<close>: \<open>reviewAssign.ts\<close>, \<open>reviewReminders.ts\<close> and the triggers of
    migration 0106. \<open>ReminderFacts\<close> has what a sweep settles; \<open>ReviewSamples\<close> its witnesses.
  \<^item> \<open>Directory\<close>, \<open>ScimRouter\<close>, \<open>EraseUser\<close>, \<open>Reconcile\<close>: \<open>scim/store.ts\<close>, \<open>scim/router.ts\<close>,
    \<open>scim/filter.ts\<close>, \<open>eraseUser.ts\<close>, \<open>reconcile.ts\<close>: how people and groups come, change and go.
    \<open>ProvisionFacts\<close> has the well-formedness of a directory and the interface of memberships the
    reconciliation is proved against; \<open>ProvisionProps\<close>, \<open>LeaverProps\<close> and \<open>ErasureProps\<close> the
    properties, \<open>ProvisionSamples\<close> their witnesses.
  \<^item> \<open>DigestClock\<close>, \<open>MailSweeps\<close>: \<open>email-digest.ts\<close> (settings, effective mode, the clock of the send
    slots) and the sweeps of \<open>notify/deliver.ts\<close> and \<open>notify/digest.ts\<close>. \<open>DigestFacts\<close> shows that the slot
    loop ends and what a wall clock time means around a transition, \<open>MailFacts\<close> the invariant of the sweeps,
    \<open>MailProps\<close> the properties of their runs, \<open>MailSamples\<close> the witnesses.
  \<^item> \<open>Lifecycle\<close>, \<open>Deprecation\<close>, \<open>Collections\<close>: \<open>manage.ts\<close>, \<open>deprecation.ts\<close> and \<open>collections.ts\<close> of
    both tiers: yank, archive, the Official and Featured marks, deletion, the successor of a deprecated skill and
    its notices, collections of skills. \<open>LifeFacts\<close> has the invariant of the spotlight and of the
    collections, \<open>LifeProps\<close> and \<open>LifeCollections\<close> show that each operation keeps it, \<open>LifeRuns\<close> interleaves
    the operations with publications, \<open>LifeEffects\<close> has the promises of a deprecation and of a deletion,
    \<open>LifeSamples\<close> the witnesses.

  The parts interact through tables: \<open>Directory\<close> computes the user, group and mapping tables that \<open>Rbac\<close>
  resolves access from, so a statement about a leaver is one about \<open>OAuthTokens\<close> and \<open>Grants\<close> as well; a
  deprecation picks its audience by the visibility rule of \<open>Rbac\<close>; an accepted proposal goes through \<open>Policy\<close>,
  \<open>Scan\<close>, \<open>Category\<close> and \<open>Publishing\<close> in one transaction; the reminders read the proposals that
  \<open>Workflow\<close> moves.

  Bounds. Loops are structural recursions or have a measure, so no fuel is needed. Numbers of
  JavaScript are integers where the code keeps them below \<open>2 ^ 53\<close>, and rounded doubles with an infinity
  in \<open>Semver\<close>, where it does not. The \<open>Uint32Array\<close> of the line diff holds numbers up to 2000.

  Locales. \<open>member_store\<close> of \<open>ProvisionFacts\<close> is the contract of memberships, interpreted on the
  directory; the earlier theories state theirs with the component that provides them.

  Not modelled: the pages and route handlers of the web tier, search and ranking, the AI modules,
  the scanners, the wording of mails, the MCP tools over the modelled operations, git itself, imports of
  repositories, discussions and the engagement features other than collections. They are presentation, calls to programs outside
  the repository, or rules that decide nothing about who may read or publish a skill.
\<close>

end
